(* ===== verification/Prelude.thy ===== *)
theory Prelude
  imports Main "HOL-Library.Char_ord" "HOL-Library.List_Lexorder" "HOL-Library.Product_Lexorder"
begin

text \<open>
  Shared ground of the development: the result type of a contract call, checked 64-bit
  arithmetic, and the ordered key-value store that contract storage is made of.

  A handler of a contract returns \<open>Ok\<close> of a value, fails with an error value (the
  \<open>Err\<close> of a Rust \<open>Result\<close>), or panics. Both failures abort the transaction and roll
  every write back, but they are not the same: \<open>unwrap_or_default\<close> and \<open>map_err\<close> catch
  an error and never a panic. The type below keeps them apart.
\<close>

named_theorems result_simps \<open>equations and inversion rules of the result combinators\<close>
named_theorems store_simps \<open>laws of the ordered store\<close>


section \<open>Definitions\<close>

subsection \<open>Results\<close>

datatype 'e failure = Err 'e | Panic

type_synonym ('e, 'a) result = "'e failure + 'a"

abbreviation Ok :: "'a \<Rightarrow> ('e, 'a) result" where
  "Ok x \<equiv> Inr x"

abbreviation Fail :: "'e \<Rightarrow> ('e, 'a) result" where
  "Fail e \<equiv> Inl (Err e)"

abbreviation Abort :: "('e, 'a) result" where
  "Abort \<equiv> Inl Panic"

text \<open>The question mark operator: run \<open>f\<close> on the value, hand a failure up.\<close>

fun andThen :: "('e, 'a) result \<Rightarrow> ('a \<Rightarrow> ('e, 'b) result) \<Rightarrow> ('e, 'b) result" where
  "andThen (Inl e) f = Inl e"
| "andThen (Inr x) f = f x"

text \<open>A value that may be missing, where the code panics (\<open>or_panic\<close>) or returns an error.\<close>

fun or_panic :: "'a option \<Rightarrow> ('e, 'a) result" where
  "or_panic None = Abort"
| "or_panic (Some x) = Ok x"

fun or_err :: "'e \<Rightarrow> 'a option \<Rightarrow> ('e, 'a) result" where
  "or_err e None = Fail e"
| "or_err e (Some x) = Ok x"

text \<open>The answer of a call that can fail but never panic, such as a query.\<close>

fun from_answer :: "'e + 'a \<Rightarrow> ('e, 'a) result" where
  "from_answer (Inl e) = Fail e"
| "from_answer (Inr x) = Ok x"

fun map_err :: "('e \<Rightarrow> 'd) \<Rightarrow> ('e, 'a) result \<Rightarrow> ('d, 'a) result" where
  "map_err g (Inl (Err e)) = Fail (g e)"
| "map_err g (Inl Panic) = Abort"
| "map_err g (Inr x) = Ok x"

fun unwrap :: "('e, 'a) result \<Rightarrow> ('d, 'a) result" where
  "unwrap (Inl e) = Abort"
| "unwrap (Inr x) = Ok x"

fun unwrap_or :: "'a \<Rightarrow> ('e, 'a) result \<Rightarrow> ('d, 'a) result" where
  "unwrap_or d (Inl (Err e)) = Ok d"
| "unwrap_or d (Inl Panic) = Abort"
| "unwrap_or d (Inr x) = Ok x"

text \<open>A \<open>for\<close> loop whose body may fail, and \<open>map\<close> collected into one result.\<close>

fun foldM :: "('x \<Rightarrow> 'a \<Rightarrow> ('e, 'a) result) \<Rightarrow> 'x list \<Rightarrow> 'a \<Rightarrow> ('e, 'a) result" where
  "foldM f [] a = Ok a"
| "foldM f (x # xs) a = andThen (f x a) (foldM f xs)"

fun mapM :: "('x \<Rightarrow> ('e, 'a) result) \<Rightarrow> 'x list \<Rightarrow> ('e, 'a list) result" where
  "mapM f [] = Ok []"
| "mapM f (x # xs) = andThen (f x) (\<lambda>y. andThen (mapM f xs) (\<lambda>ys. Ok (y # ys)))"

subsection \<open>Rust integers\<close>

text \<open>
  A \<open>u64\<close> or \<open>u128\<close> value is a natural number below its bound. The workspace compiles with
  \<open>overflow-checks = true\<close>, so primitive arithmetic panics where it would wrap.
\<close>

definition U64 :: nat where
  "U64 = 2 ^ 64"

definition U128 :: nat where
  "U128 = 2 ^ 128"

definition u64_add :: "nat \<Rightarrow> nat \<Rightarrow> ('e, nat) result" where
  "u64_add a b = (if a + b < U64 then Ok (a + b) else Abort)"

definition u64_sub :: "nat \<Rightarrow> nat \<Rightarrow> ('e, nat) result" where
  "u64_sub a b = (if b \<le> a then Ok (a - b) else Abort)"

definition u128_add :: "nat \<Rightarrow> nat \<Rightarrow> ('e, nat) result" where
  "u128_add a b = (if a + b < U128 then Ok (a + b) else Abort)"

definition u128_mul :: "nat \<Rightarrow> nat \<Rightarrow> ('e, nat) result" where
  "u128_mul a b = (if a * b < U128 then Ok (a * b) else Abort)"

text \<open>An integer as \<open>format!\<close> prints it.\<close>

fun show_nat :: "nat \<Rightarrow> string" where
  "show_nat n = (if n < 10 then [char_of (48 + n)]
     else show_nat (n div 10) @ [char_of (48 + n mod 10)])"

declare show_nat.simps [simp del]

subsection \<open>The ordered store\<close>

text \<open>
  Contract storage is an ordered key-value store; a \<open>Map\<close> or \<open>Bucket\<close> of the source is a
  region of it under one prefix. It is modelled by the list of its entries in ascending
  key order, which is what \<open>range\<close> iterates over.
\<close>

type_synonym ('k, 'v) store = "('k \<times> 'v) list"

definition get :: "('k, 'v) store \<Rightarrow> 'k \<Rightarrow> 'v option" where
  "get s k = map_of s k"

fun put :: "'k::linorder \<Rightarrow> 'v \<Rightarrow> ('k, 'v) store \<Rightarrow> ('k, 'v) store" where
  "put k v [] = [(k, v)]"
| "put k v (e # s) =
     (if k < fst e then (k, v) # e # s
      else if fst e < k then e # put k v s
      else (k, v) # s)"

definition del :: "'k \<Rightarrow> ('k, 'v) store \<Rightarrow> ('k, 'v) store" where
  "del k s = filter (\<lambda>e. fst e \<noteq> k) s"

definition wf_store :: "('k::linorder, 'v) store \<Rightarrow> bool" where
  "wf_store s \<longleftrightarrow> sorted_wrt (<) (map fst s)"

text \<open>\<open>prefix(a).range(..)\<close>: the entries whose key starts with \<open>a\<close>, without that component.\<close>

definition sub_range :: "'a \<Rightarrow> ('a \<times> 'k, 'v) store \<Rightarrow> ('k, 'v) store" where
  "sub_range a s = map (\<lambda>e. (snd (fst e), snd e)) (filter (\<lambda>e. fst (fst e) = a) s)"

text \<open>\<open>Bound::Exclusive\<close> at the lower end, and an exclusive upper end.\<close>

definition range_from :: "'k::linorder option \<Rightarrow> ('k, 'v) store \<Rightarrow> ('k, 'v) store" where
  "range_from b s = (case b of None \<Rightarrow> s | Some k \<Rightarrow> filter (\<lambda>e. k < fst e) s)"

definition range_below :: "'k::linorder option \<Rightarrow> ('k, 'v) store \<Rightarrow> ('k, 'v) store" where
  "range_below b s = (case b of None \<Rightarrow> s | Some k \<Rightarrow> filter (\<lambda>e. fst e < k) s)"


section \<open>Lemmas on results\<close>

lemma andThen_cong [fundef_cong]:
  assumes "m = m'" and "\<And>x. m' = Inr x \<Longrightarrow> f x = f' x"
  shows "andThen m f = andThen m' f'"
  using assms by (cases m') auto

lemma andThen_Ok_iff [result_simps]:
  "andThen m f = Inr y \<longleftrightarrow> (\<exists>x. m = Inr x \<and> f x = Inr y)"
  by (cases m) auto

lemma andThen_OkE:
  assumes "andThen m f = Inr y"
  obtains x where "m = Inr x" and "f x = Inr y"
  using assms by (auto simp: andThen_Ok_iff)

lemma andThen_Inl_iff:
  "andThen m f = Inl e \<longleftrightarrow> m = Inl e \<or> (\<exists>x. m = Inr x \<and> f x = Inl e)"
  by (cases m) auto

lemma andThen_assoc: "andThen (andThen m f) g = andThen m (\<lambda>x. andThen (f x) g)"
  by (cases m) auto

lemma or_panic_Inl_iff: "or_panic m = Inl e \<longleftrightarrow> e = Panic \<and> m = None"
  by (cases m) auto

lemma or_panic_Ok_iff [result_simps]: "or_panic m = Inr x \<longleftrightarrow> m = Some x"
  by (cases m) auto

lemma or_err_Ok_iff [result_simps]: "or_err e m = Inr x \<longleftrightarrow> m = Some x"
  by (cases m) auto

lemma from_answer_Ok_iff [result_simps]: "from_answer m = Inr x \<longleftrightarrow> m = Inr x"
  by (cases m) auto

lemma map_err_Ok_iff [result_simps]: "map_err g m = Inr x \<longleftrightarrow> m = Inr x"
  by (cases "(g, m)" rule: map_err.cases) auto

lemma unwrap_Ok_iff [result_simps]: "unwrap m = Inr x \<longleftrightarrow> m = Inr x"
  by (cases m) auto

lemma unwrap_or_Ok_iff:
  "unwrap_or d m = Inr x \<longleftrightarrow> m = Inr x \<or> (x = d \<and> (\<exists>e. m = Inl (Err e)))"
  by (cases "(d, m)" rule: unwrap_or.cases) auto

lemma u64_add_Ok_iff [result_simps]: "u64_add a b = Inr c \<longleftrightarrow> c = a + b \<and> a + b < U64"
  by (auto simp: u64_add_def)

lemma u64_sub_Ok_iff [result_simps]: "u64_sub a b = Inr c \<longleftrightarrow> c = a - b \<and> b \<le> a"
  by (auto simp: u64_sub_def)

lemma u128_add_Ok_iff [result_simps]: "u128_add a b = Inr c \<longleftrightarrow> c = a + b \<and> a + b < U128"
  by (auto simp: u128_add_def)

lemma u128_mul_Ok_iff [result_simps]: "u128_mul a b = Inr c \<longleftrightarrow> c = a * b \<and> a * b < U128"
  by (auto simp: u128_mul_def)

lemma foldM_append: "foldM f (xs @ ys) a = andThen (foldM f xs a) (foldM f ys)"
proof (induction xs arbitrary: a)
  case (Cons x xs)
  then have "foldM f (xs @ ys) = (\<lambda>b. andThen (foldM f xs b) (foldM f ys))" by (rule ext)
  then show ?case by (simp add: andThen_assoc)
qed simp

text \<open>A property that the body of a loop keeps holds after the loop.\<close>

lemma foldM_invariant:
  assumes "foldM f xs a = Inr b" and "P a"
    and "\<And>x a a'. x \<in> set xs \<Longrightarrow> P a \<Longrightarrow> f x a = Inr a' \<Longrightarrow> P a'"
  shows "P b"
  using assms
proof (induction xs arbitrary: a)
  case (Cons x xs)
  from Cons.prems(1) obtain a' where a': "f x a = Inr a'" and rest: "foldM f xs a' = Inr b"
    by (auto simp: andThen_Ok_iff)
  show ?case
  proof (rule Cons.IH [OF rest])
    show "P a'" using Cons.prems(2,3) a' by auto
  qed (use Cons.prems(3) in auto)
qed simp

lemma mapM_Ok_iff: "mapM f xs = Inr ys \<longleftrightarrow> list_all2 (\<lambda>x y. f x = Inr y) xs ys"
  by (induction xs arbitrary: ys) (auto simp: andThen_Ok_iff list_all2_Cons1)


lemma mapM_cong [fundef_cong]:
  "xs = ys \<Longrightarrow> (\<And>x. x \<in> set ys \<Longrightarrow> f x = g x) \<Longrightarrow> mapM f xs = mapM g ys"
  by (induction ys arbitrary: xs) auto


section \<open>The store as an interface\<close>

text \<open>
  What the contracts rely on: a read after a write, a read after a removal, and that
  iterating visits exactly the stored entries in ascending key order.
\<close>

locale kv_store =
  fixes lookup :: "'s \<Rightarrow> 'k::linorder \<Rightarrow> 'v option"
    and save :: "'k \<Rightarrow> 'v \<Rightarrow> 's \<Rightarrow> 's"
    and remove :: "'k \<Rightarrow> 's \<Rightarrow> 's"
    and entries :: "'s \<Rightarrow> ('k \<times> 'v) list"
    and invar :: "'s \<Rightarrow> bool"
  assumes lookup_save: "invar s \<Longrightarrow> lookup (save k v s) j = (if j = k then Some v else lookup s j)"
    and lookup_remove: "invar s \<Longrightarrow> lookup (remove k s) j = (if j = k then None else lookup s j)"
    and entries_lookup: "invar s \<Longrightarrow> (k, v) \<in> set (entries s) \<longleftrightarrow> lookup s k = Some v"
    and entries_sorted: "invar s \<Longrightarrow> sorted_wrt (<) (map fst (entries s))"
    and invar_save: "invar s \<Longrightarrow> invar (save k v s)"
    and invar_remove: "invar s \<Longrightarrow> invar (remove k s)"
begin

lemma distinct_keys: "invar s \<Longrightarrow> distinct (map fst (entries s))"
  using entries_sorted [of s] by (simp add: strict_sorted_iff)

lemma distinct_entries: "invar s \<Longrightarrow> distinct (entries s)"
  using distinct_keys [of s] by (simp add: distinct_map)

lemma finite_dom: "invar s \<Longrightarrow> finite (dom (lookup s))"
proof -
  assume s: "invar s"
  have "dom (lookup s) \<subseteq> fst ` set (entries s)"
  proof
    fix k assume "k \<in> dom (lookup s)"
    then obtain v where "lookup s k = Some v" by auto
    then have "(k, v) \<in> set (entries s)" by (simp add: entries_lookup [OF s])
    then show "k \<in> fst ` set (entries s)" by force
  qed
  then show ?thesis by (rule finite_subset) simp
qed

text \<open>A sum over the entries, by key: each stored key contributes its value once.\<close>

lemma sum_entries:
  fixes f :: "'k \<Rightarrow> 'v \<Rightarrow> nat"
  assumes s: "invar s"
  shows "(\<Sum>(k, v)\<leftarrow>entries s. f k v) =
    (\<Sum>k\<in>dom (lookup s). f k (the (lookup s k)))"
proof -
  have dist: "distinct (entries s)" by (rule distinct_entries [OF s])
  have keys: "fst ` set (entries s) = dom (lookup s)"
    using entries_lookup [OF s] by force
  have "inj_on fst (set (entries s))"
    using distinct_keys [OF s] by (simp add: distinct_map)
  then have "(\<Sum>k\<in>fst ` set (entries s). f k (the (lookup s k))) =
      (\<Sum>e\<in>set (entries s). f (fst e) (the (lookup s (fst e))))"
    by (simp add: sum.reindex)
  also have "\<dots> = (\<Sum>e\<in>set (entries s). case e of (k, v) \<Rightarrow> f k v)"
    by (rule sum.cong) (auto simp: entries_lookup [OF s])
  finally show ?thesis
    by (simp add: sum_list_distinct_conv_sum_set [OF dist] keys)
qed

lemma sum_dom_split:
  fixes f :: "'k \<Rightarrow> 'v \<Rightarrow> nat"
  assumes s: "invar s"
  shows "(\<Sum>k\<in>dom (lookup s). f k (the (lookup s k))) =
    (case lookup s j of None \<Rightarrow> 0 | Some v \<Rightarrow> f j v)
      + (\<Sum>k\<in>dom (lookup s) - {j}. f k (the (lookup s k)))"
proof (cases "lookup s j")
  case None
  then have "dom (lookup s) - {j} = dom (lookup s)" by auto
  then show ?thesis using None by simp
next
  case (Some v)
  then have "j \<in> dom (lookup s)" by auto
  then show ?thesis
    using sum.remove [OF finite_dom [OF s], of j "\<lambda>k. f k (the (lookup s k))"] Some by simp
qed

text \<open>Writing a key moves the sum by the difference of the new and the old contribution.\<close>

lemma sum_save:
  fixes f :: "'k \<Rightarrow> 'v \<Rightarrow> nat"
  assumes s: "invar s"
  shows "(\<Sum>(k, v)\<leftarrow>entries (save j w s). f k v)
      + (case lookup s j of None \<Rightarrow> 0 | Some v \<Rightarrow> f j v)
    = (\<Sum>(k, v)\<leftarrow>entries s. f k v) + f j w"
proof -
  let ?D = "dom (lookup s)"
  have D': "dom (lookup (save j w s)) = insert j ?D" by (auto simp: lookup_save [OF s])
  have "(\<Sum>k\<in>?D - {j}. f k (the (lookup (save j w s) k))) =
      (\<Sum>k\<in>?D - {j}. f k (the (lookup s k)))"
    by (rule sum.cong) (auto simp: lookup_save [OF s])
  then have "(\<Sum>k\<in>insert j ?D. f k (the (lookup (save j w s) k))) =
      f j w + (\<Sum>k\<in>?D - {j}. f k (the (lookup s k)))"
    by (simp add: sum.insert_remove [OF finite_dom [OF s]] lookup_save [OF s])
  then show ?thesis
    by (simp add: sum_entries [OF s] sum_entries [OF invar_save [OF s]] D' sum_dom_split [OF s, of f j])
qed

lemma sum_remove:
  fixes f :: "'k \<Rightarrow> 'v \<Rightarrow> nat"
  assumes s: "invar s"
  shows "(\<Sum>(k, v)\<leftarrow>entries (remove j s). f k v)
      + (case lookup s j of None \<Rightarrow> 0 | Some v \<Rightarrow> f j v)
    = (\<Sum>(k, v)\<leftarrow>entries s. f k v)"
proof -
  let ?D = "dom (lookup s)"
  have D': "dom (lookup (remove j s)) = ?D - {j}"
    by (auto simp: lookup_remove [OF s] split: if_splits)
  have "(\<Sum>k\<in>?D - {j}. f k (the (lookup (remove j s) k))) =
      (\<Sum>k\<in>?D - {j}. f k (the (lookup s k)))"
    by (rule sum.cong) (auto simp: lookup_remove [OF s])
  then show ?thesis
    by (simp add: sum_entries [OF s] sum_entries [OF invar_remove [OF s]] D' sum_dom_split [OF s, of f j])
qed

text \<open>One entry never exceeds the sum.\<close>

lemma entry_le_sum:
  fixes f :: "'k \<Rightarrow> 'v \<Rightarrow> nat"
  assumes s: "invar s" and "lookup s j = Some v"
  shows "f j v \<le> (\<Sum>(k, v)\<leftarrow>entries s. f k v)"
  using sum_remove [OF s, of f j] assms(2) by simp

end

text \<open>The list of entries satisfies the interface.\<close>

lemma set_put_keys: "fst ` set (put k v s) = insert k (fst ` set s)"
  by (induction k v s rule: put.induct) auto

lemma wf_put [store_simps]: "wf_store s \<Longrightarrow> wf_store (put k v s)"
proof (induction s)
  case (Cons e s)
  then have tail: "wf_store (put k v s)" and heads: "\<forall>x\<in>fst ` set s. fst e < x"
    by (auto simp: wf_store_def)
  have "\<forall>x\<in>fst ` set (put k v s). fst e < k \<longrightarrow> fst e < x"
    using heads by (simp add: set_put_keys)
  then show ?case using Cons.prems tail heads
    by (auto simp: wf_store_def dest: order.strict_trans)
qed (simp add: wf_store_def)

lemma wf_del [store_simps]: "wf_store s \<Longrightarrow> wf_store (del k s)"
  unfolding wf_store_def del_def
  by (induction s) auto

lemma wf_Nil [simp]: "wf_store []"
  by (simp add: wf_store_def)

lemma get_Nil [simp]: "get [] k = None"
  by (simp add: get_def)

lemma get_put [store_simps]:
  "wf_store s \<Longrightarrow> get (put k v s) j = (if j = k then Some v else get s j)"
proof (induction s)
  case (Cons e s)
  then have "wf_store s" by (simp add: wf_store_def)
  moreover have "k = fst e" if "\<not> k < fst e" "\<not> fst e < k"
    using that by simp
  ultimately show ?case using Cons.IH by (cases e) (auto simp: get_def)
qed (simp add: get_def)

lemma get_del [store_simps]: "get (del k s) j = (if j = k then None else get s j)"
  unfolding get_def del_def by (induction s) auto

lemma entries_get: "wf_store s \<Longrightarrow> (k, v) \<in> set s \<longleftrightarrow> get s k = Some v"
  by (simp add: wf_store_def get_def strict_sorted_iff)

interpretation st: kv_store get put del "\<lambda>s. s" wf_store
proof unfold_locales
  fix s :: "('k::linorder, 'v) store" and k j :: 'k and v :: 'v
  show "wf_store s \<Longrightarrow> get (put k v s) j = (if j = k then Some v else get s j)"
    by (rule get_put)
  show "wf_store s \<Longrightarrow> get (del k s) j = (if j = k then None else get s j)"
    by (rule get_del)
  show "wf_store s \<Longrightarrow> ((k, v) \<in> set s) = (get s k = Some v)"
    by (rule entries_get)
  show "wf_store s \<Longrightarrow> sorted_wrt (<) (map fst s)"
    by (simp add: wf_store_def)
  show "wf_store s \<Longrightarrow> wf_store (put k v s)"
    by (rule wf_put)
  show "wf_store s \<Longrightarrow> wf_store (del k s)"
    by (rule wf_del)
qed

text \<open>Iterating under a prefix visits the entries of that prefix, in order.\<close>

lemma set_take_sorted:
  "sorted_wrt (<) (xs :: 'a::linorder list) \<Longrightarrow>
    x \<in> set (take n xs) \<longleftrightarrow> x \<in> set xs \<and> card {y \<in> set xs. y < x} < n"
proof (induction xs arbitrary: n)
  case (Cons a xs)
  show ?case
  proof (cases n)
    case (Suc m)
    show ?thesis
    proof (cases "x \<in> set xs")
      case True
      with Cons.prems have "a < x" by simp
      then have "{y \<in> set (a # xs). y < x} = insert a {y \<in> set xs. y < x}" by auto
      moreover have "a \<notin> {y \<in> set xs. y < x}" using Cons.prems by auto
      ultimately have "card {y \<in> set (a # xs). y < x} = Suc (card {y \<in> set xs. y < x})" by simp
      with Cons True Suc \<open>a < x\<close> show ?thesis by auto
    next
      case False
      then have out: "x \<notin> set (take m xs)" by (auto dest: in_set_takeD)
      have "{y \<in> set (a # xs). y < a} = {}" using Cons.prems by auto
      then have none: "card {y \<in> set (a # xs). y < a} < n" by (simp only: card.empty Suc)
      show ?thesis
      proof (cases "x = a")
        case True
        with none Suc show ?thesis by simp
      next
        case False
        with out \<open>x \<notin> set xs\<close> Suc show ?thesis by simp
      qed
    qed
  qed simp
qed simp

lemma diff_mult_div: "0 < (c :: nat) \<Longrightarrow> (a - b * c) div c = a div c - b"
proof (cases "b * c \<le> a")
  case True
  then obtain d where "a = b * c + d" using nat_le_iff_add by blast
  moreover assume "0 < c"
  ultimately show ?thesis by simp
next
  case False
  then have "a div c < b" by (simp add: less_mult_imp_div_less)
  with False show ?thesis by simp
qed

lemma wf_sub_range: "wf_store s \<Longrightarrow> wf_store (sub_range a s)"
proof (induction s)
  case (Cons e s)
  have tail: "wf_store (sub_range a s)" using Cons by (simp add: wf_store_def)
  have "snd (fst e) < fst f" if "fst (fst e) = a" "f \<in> set (sub_range a s)" for f
  proof -
    from that(2) obtain g where g: "g \<in> set s" "fst (fst g) = a" "fst f = snd (fst g)"
      by (auto simp: sub_range_def)
    have "fst e < fst g" using Cons.prems g(1) by (auto simp: wf_store_def)
    then show ?thesis using that(1) g by (auto simp: less_prod_def)
  qed
  moreover have "sub_range a (e # s) = (if fst (fst e) = a then (snd (fst e), snd e) # sub_range a s
      else sub_range a s)" by (simp add: sub_range_def)
  ultimately show ?case using tail by (auto simp: wf_store_def)
qed (simp add: sub_range_def)

lemma set_sub_range:
  assumes "wf_store s"
  shows "(k, x) \<in> set (sub_range a s) \<longleftrightarrow> get s (a, k) = Some x"
proof -
  have "(k, x) \<in> set (sub_range a s) \<longleftrightarrow> ((a, k), x) \<in> set s"
    unfolding sub_range_def by force
  then show ?thesis by (simp add: entries_get [OF assms])
qed

text \<open>Rounding down loses less than one unit.\<close>

lemma floor_div_bounds:
  fixes d n :: nat
  assumes "d \<noteq> 0"
  shows "d * (n div d) \<le> n" and "n < d * (n div d + 1)"
proof -
  have "n = d * (n div d) + n mod d" by simp
  moreover have "n mod d < d" using assms by simp
  ultimately show "d * (n div d) \<le> n" and "n < d * (n div d + 1)" unfolding distrib_left mult_1_right by linarith+
qed

text \<open>Removing a list of keys.\<close>

lemma get_dels [store_simps]: "get (fold del ks s) j = (if j \<in> set ks then None else get s j)"
  by (induction ks arbitrary: s) (auto simp: get_del)

lemma wf_dels [store_simps]: "wf_store s \<Longrightarrow> wf_store (fold del ks s)"
  by (induction ks arbitrary: s) (auto simp: wf_del)

lemma sum_dels:
  fixes f :: "'k::linorder \<Rightarrow> 'v \<Rightarrow> nat"
  assumes "wf_store s" and "distinct ks" and "\<forall>k\<in>set ks. get s k = Some (v k)"
  shows "(\<Sum>(k, x)\<leftarrow>fold del ks s. f k x) + (\<Sum>k\<leftarrow>ks. f k (v k)) = (\<Sum>(k, x)\<leftarrow>s. f k x)"
  using assms
proof (induction ks arbitrary: s)
  case (Cons k ks)
  have "\<forall>j\<in>set ks. get (del k s) j = Some (v j)" using Cons.prems by (auto simp: get_del)
  then have "(\<Sum>(k, x)\<leftarrow>fold del ks (del k s). f k x) + (\<Sum>k\<leftarrow>ks. f k (v k)) = (\<Sum>(k, x)\<leftarrow>del k s. f k x)"
    using Cons.prems by (intro Cons.IH) (auto simp: wf_del)
  moreover have "(\<Sum>(k, x)\<leftarrow>del k s. f k x) + f k (v k) = (\<Sum>(k, x)\<leftarrow>s. f k x)"
    using st.sum_remove [OF Cons.prems(1), of f k] Cons.prems(3) by simp
  ultimately show ?case by simp
qed simp

end
