(* ===== verification/Cosmwasm.thy ===== *)
theory Cosmwasm
  imports Prelude
begin

text \<open>
  The chain as the contracts see it: addresses, coins, the messages a handler returns, the
  environment of a call, and the third-party crates the contracts are written on.

  The crates (\<open>cosmwasm-std\<close>, \<open>cw0\<close>, \<open>cw-asset\<close>, \<open>rand\<close>, \<open>integer-sqrt\<close>) and the chain's query and address services are
  not part of the repository. They are parameters of every definition that uses them: the
  record \<open>cosmwasm\<close> holds the arithmetic of \<open>Uint128\<close>, \<open>Decimal\<close> and \<open>Timestamp\<close>, the
  payment check and the random range, and the record \<open>deps\<close> holds the address api and the
  querier. What the contracts rely on is the locale \<open>cosmwasm_std\<close>, whose laws are the
  documented behaviour of the crates; the interpretation at the end shows that they can hold.

  A \<open>Uint128\<close> is its integer value. A \<open>Decimal\<close> is its number of atomics: a fixed-point
  value with 18 fractional digits, so that \<open>Decimal::one()\<close> is \<open>10 ^ 18\<close>.
\<close>

named_theorems cw_laws \<open>the laws of the arithmetic crates, lifted to results\<close>


section \<open>Definitions\<close>

subsection \<open>Data\<close>

type_synonym addr = string
type_synonym binary = string
type_synonym decimal = nat

record coin =
  denom :: string
  coin_amount :: nat

datatype std_error = GenericErr string | NotFound | OverflowErr | OtherErr string

text \<open>\<open>cw_asset::AssetInfo\<close> and \<open>cw_asset::Asset\<close>.\<close>

datatype asset_info = Cw20 addr | Native string

record asset =
  asset_of :: asset_info
  asset_amount :: nat

text \<open>\<open>prismswap::asset::PairInfo\<close>, what a factory answers about a pair.\<close>

record pair_info =
  asset_infos :: "asset_info \<times> asset_info"
  pair_contract_addr :: addr
  liquidity_token :: addr

text \<open>\<open>prismswap::router::SwapOperation\<close>: what is offered and what is asked for.\<close>

datatype swap_operation =
    NativeSwap string string
  | PrismSwap asset_info asset_info

text \<open>
  Payloads of the execute messages that the modelled contracts send. A payload is kept as
  the value that the source hands to \<open>to_binary\<close>.
\<close>

datatype exec_msg =
    Cw20Mint addr nat
  | Cw20Burn nat
  | Cw20BurnFrom addr nat
  | Cw20Transfer addr nat
  | Cw20TransferFrom addr addr nat
  | Cw20IncreaseAllowance addr nat
  | VaultRegisterValidator string
  | VaultUpdateGlobalIndex
  | VaultDepositAirdropReward string
  | StakingProcessDelegatorRewards
  | StakingDepositRewards "asset list"
  | Cw20Send addr nat exec_msg
  | GovMintXprism "string option"
  | VaultBondSplit "string option"
  | StakingLunaToPylunaHook
  | StakingDepositMintedPylunaHook nat nat
  | StakingMintXprismClaimHook addr nat
  | CollectorConvertAndSend "asset list" "string option" asset_info
  | StakingBond
  | StakingUnbond "nat option"
  | StakingClaimRewards
  | LaunchPoolAdminSendWithdrawnRewards "asset list"
  | LaunchPoolBondWithBoostContractHook addr nat
  | BoostBond "string option"
  | PairSwap asset "decimal option" "decimal option" "string option"
  | PairSwapHook "decimal option" "decimal option" "string option"
  | AstroPairSwap asset "decimal option" "decimal option" "string option"
  | AstroPairSwapHook "decimal option" "decimal option" "string option"
  | RouterExecuteSwapOperations "swap_operation list" "nat option" "addr option"
  | CollectorBaseSwapHook addr nat asset_info
  | VaultClaimAirdrop string string binary
  | LaunchPoolPrivilegedRefreshBoost addr
  | RawMsg binary

text \<open>\<open>cw20::MinterResponse\<close>, and \<open>prismswap::token::InstantiateMsg\<close>.\<close>

record minter_response =
  minter :: addr
  minter_cap :: "nat option"

record token_instantiate_msg =
  token_name :: string
  token_symbol :: string
  token_decimals :: nat
  initial_balances :: "(addr \<times> nat) list"
  token_mint :: "minter_response option"

text \<open>A \<open>WasmMsg::Execute\<close> without funds, and one with.\<close>

datatype cosmos_msg =
    WasmExecute addr exec_msg
  | WasmExecuteFunds addr exec_msg "coin list"
  | TerraSwap coin string
  | WasmInstantiate nat token_instantiate_msg "addr option"
  | StakingDelegate string coin
  | StakingUndelegate string coin
  | StakingRedelegate string string coin
  | WithdrawDelegatorReward string
  | SetWithdrawAddress addr
  | BankSend addr "coin list"

datatype reply_on = ReplyAlways | ReplyOnError | ReplyOnSuccess | ReplyNever

record sub_msg =
  sub_id :: nat
  sub_body :: cosmos_msg
  gas_limit :: "nat option"
  reply_mode :: reply_on

definition new_sub_msg :: "cosmos_msg \<Rightarrow> sub_msg" where
  "new_sub_msg m = \<lparr>sub_id = 0, sub_body = m, gas_limit = None, reply_mode = ReplyNever\<rparr>"

text \<open>
  A response is the list of sub-messages in the order they are dispatched. Attributes are
  event logs that no contract reads and are left out; an attribute whose computation can
  fail is computed all the same.
\<close>

type_synonym response = "sub_msg list"

definition add_messages :: "cosmos_msg list \<Rightarrow> response" where
  "add_messages ms = map new_sub_msg ms"

record env =
  block_time :: nat \<comment> \<open>nanoseconds\<close>
  block_height :: nat
  contract_address :: addr

record message_info =
  sender :: addr
  funds :: "coin list"

record delegation =
  del_validator :: string
  del_amount :: coin

record full_delegation =
  fd_amount :: coin
  can_redelegate :: coin

record cw20_receive_msg =
  cw20_sender :: string
  cw20_amount :: nat
  cw20_msg :: binary

subsection \<open>The crates and the services as parameters\<close>

record cosmwasm =
  uint128_add :: "nat \<Rightarrow> nat \<Rightarrow> nat option" \<comment> \<open>\<open>None\<close>: panics\<close>
  uint128_sub :: "nat \<Rightarrow> nat \<Rightarrow> nat option"
  uint128_checked_sub :: "nat \<Rightarrow> nat \<Rightarrow> nat option" \<comment> \<open>\<open>None\<close>: OverflowError\<close>
  uint128_mul :: "nat \<Rightarrow> nat \<Rightarrow> nat option"
  uint128_mul_decimal :: "nat \<Rightarrow> decimal \<Rightarrow> nat option"
  uint128_multiply_ratio :: "nat \<Rightarrow> nat \<Rightarrow> nat \<Rightarrow> nat option"
  decimal_from_ratio :: "nat \<Rightarrow> nat \<Rightarrow> decimal option"
  decimal_add :: "decimal \<Rightarrow> decimal \<Rightarrow> decimal option"
  decimal_display :: "decimal \<Rightarrow> string"
  timestamp_seconds :: "nat \<Rightarrow> nat"
  timestamp_minus_seconds :: "nat \<Rightarrow> nat \<Rightarrow> nat option"
  timestamp_plus_seconds :: "nat \<Rightarrow> nat \<Rightarrow> nat option"
  cw0_must_pay :: "coin list \<Rightarrow> string \<Rightarrow> string + nat"
  rng_gen_range :: "nat \<Rightarrow> nat \<Rightarrow> nat \<Rightarrow> nat option" \<comment> \<open>seed, low, high\<close>
  asset_info_display :: "asset_info \<Rightarrow> string"
  asset_transfer_msg :: "asset \<Rightarrow> addr \<Rightarrow> std_error + cosmos_msg"
  decimal_sub :: "decimal \<Rightarrow> decimal \<Rightarrow> decimal option"
  u128_integer_sqrt :: "nat \<Rightarrow> nat"
  asset_send_msg :: "asset \<Rightarrow> addr \<Rightarrow> exec_msg \<Rightarrow> std_error + cosmos_msg"
  asset_transfer_from_msg :: "asset \<Rightarrow> addr \<Rightarrow> addr \<Rightarrow> std_error + cosmos_msg"
  astroport_max_slippage :: "std_error + decimal" \<comment> \<open>\<open>Decimal::from_str\<close> of astroport's constant\<close>

record deps =
  api_addr_validate :: "string \<Rightarrow> std_error + addr"
  api_addr_canonicalize :: "string \<Rightarrow> std_error + addr"
  api_addr_humanize :: "addr \<Rightarrow> std_error + addr"
  q_all_delegations :: "addr \<Rightarrow> std_error + delegation list"
  q_delegation :: "addr \<Rightarrow> string \<Rightarrow> std_error + full_delegation option"
  q_validator :: "string \<Rightarrow> std_error + string option"
  q_all_validators :: "std_error + string list"
  q_bank_balance :: "addr \<Rightarrow> string \<Rightarrow> std_error + nat"
  q_cw20_total_supply :: "addr \<Rightarrow> std_error + nat"
  q_cw20_balance :: "addr \<Rightarrow> addr \<Rightarrow> std_error + nat"
  q_all_balances :: "addr \<Rightarrow> std_error + coin list"
  q_exchange_rates :: "string \<Rightarrow> string list \<Rightarrow> std_error + (string \<times> decimal) list" \<comment> \<open>quote denom, rate\<close>
  q_asset_balance :: "asset_info \<Rightarrow> addr \<Rightarrow> std_error + nat"
  q_reward_whitelist :: "addr \<Rightarrow> std_error + asset_info list" \<comment> \<open>of the yLUNA staking contract\<close>
  q_boost_amount :: "addr \<Rightarrow> addr \<Rightarrow> std_error + nat" \<comment> \<open>\<open>total_boost\<close> of the boost contract's \<open>UserInfo\<close>\<close>
  q_vault_total_bond :: "addr \<Rightarrow> std_error + nat" \<comment> \<open>of the vault's \<open>StateResponse\<close>\<close>
  q_pair_info :: "addr \<Rightarrow> asset_info \<times> asset_info \<Rightarrow> std_error + pair_info" \<comment> \<open>of a factory\<close>
  q_astroport_pair :: "addr \<Rightarrow> asset_info \<times> asset_info \<Rightarrow> std_error + addr" \<comment> \<open>\<open>contract_addr\<close> of the answer\<close>

subsection \<open>Operations on results\<close>

definition DEC_ONE :: decimal where
  "DEC_ONE = 10 ^ 18"

definition uadd :: "cosmwasm \<Rightarrow> nat \<Rightarrow> nat \<Rightarrow> ('e, nat) result" where
  "uadd S a b = or_panic (uint128_add S a b)"

definition usub :: "cosmwasm \<Rightarrow> nat \<Rightarrow> nat \<Rightarrow> ('e, nat) result" where
  "usub S a b = or_panic (uint128_sub S a b)"

definition uchecked_sub :: "cosmwasm \<Rightarrow> 'e \<Rightarrow> nat \<Rightarrow> nat \<Rightarrow> ('e, nat) result" where
  "uchecked_sub S e a b = or_err e (uint128_checked_sub S a b)"

definition umul :: "cosmwasm \<Rightarrow> nat \<Rightarrow> nat \<Rightarrow> ('e, nat) result" where
  "umul S a b = or_panic (uint128_mul S a b)"

definition umul_dec :: "cosmwasm \<Rightarrow> nat \<Rightarrow> decimal \<Rightarrow> ('e, nat) result" where
  "umul_dec S a d = or_panic (uint128_mul_decimal S a d)"

definition umul_ratio :: "cosmwasm \<Rightarrow> nat \<Rightarrow> nat \<Rightarrow> nat \<Rightarrow> ('e, nat) result" where
  "umul_ratio S a n d = or_panic (uint128_multiply_ratio S a n d)"

definition from_ratio :: "cosmwasm \<Rightarrow> nat \<Rightarrow> nat \<Rightarrow> ('e, decimal) result" where
  "from_ratio S n d = or_panic (decimal_from_ratio S n d)"

definition dec_add :: "cosmwasm \<Rightarrow> decimal \<Rightarrow> decimal \<Rightarrow> ('e, decimal) result" where
  "dec_add S a b = or_panic (decimal_add S a b)"

definition dec_sub :: "cosmwasm \<Rightarrow> decimal \<Rightarrow> decimal \<Rightarrow> ('e, decimal) result" where
  "dec_sub S a b = or_panic (decimal_sub S a b)"

definition now_seconds :: "cosmwasm \<Rightarrow> env \<Rightarrow> nat" where
  "now_seconds S env = timestamp_seconds S (block_time env)"

definition minus_seconds :: "cosmwasm \<Rightarrow> nat \<Rightarrow> nat \<Rightarrow> ('e, nat) result" where
  "minus_seconds S t s = or_panic (timestamp_minus_seconds S t s)"

definition plus_seconds :: "cosmwasm \<Rightarrow> nat \<Rightarrow> nat \<Rightarrow> ('e, nat) result" where
  "plus_seconds S t s = or_panic (timestamp_plus_seconds S t s)"

definition gen_range :: "cosmwasm \<Rightarrow> nat \<Rightarrow> nat \<Rightarrow> nat \<Rightarrow> ('e, nat) result" where
  "gen_range S seed lo hi = or_panic (rng_gen_range S seed lo hi)"

definition addr_validate :: "deps \<Rightarrow> string \<Rightarrow> (std_error, addr) result" where
  "addr_validate D a = from_answer (api_addr_validate D a)"

definition addr_canonicalize :: "deps \<Rightarrow> string \<Rightarrow> (std_error, addr) result" where
  "addr_canonicalize D a = from_answer (api_addr_canonicalize D a)"

definition addr_humanize :: "deps \<Rightarrow> addr \<Rightarrow> (std_error, addr) result" where
  "addr_humanize D a = from_answer (api_addr_humanize D a)"

text \<open>\<open>packages/prismswap/src/querier.rs\<close>: balance and supply of a cw20 token.\<close>

definition query_token_balance :: "deps \<Rightarrow> addr \<Rightarrow> addr \<Rightarrow> (std_error, nat) result" where
  "query_token_balance D contract_addr account_addr =
     Ok (case q_cw20_balance D contract_addr account_addr of Inl e \<Rightarrow> 0 | Inr b \<Rightarrow> b)"

definition query_supply :: "deps \<Rightarrow> addr \<Rightarrow> (std_error, nat) result" where
  "query_supply D contract_addr = from_answer (q_cw20_total_supply D contract_addr)"

subsection \<open>Token flow\<close>

text \<open>
  What the messages of a response take of a token from the contract: transfers, sends and burns,
  whoever the recipient is. Mints, also to the contract itself, transfers from others and raw
  payloads count as nothing, so a ledger built on it has at most the real balance as long as no
  raw payload spends the token.
\<close>

fun token_out :: "addr \<Rightarrow> cosmos_msg \<Rightarrow> nat" where
  "token_out token (WasmExecute a (Cw20Transfer to n)) = (if a = token then n else 0)"
| "token_out token (WasmExecute a (Cw20Burn n)) = (if a = token then n else 0)"
| "token_out token (WasmExecute a (Cw20Send to n hook)) = (if a = token then n else 0)"
| "token_out token _ = 0"

definition outflow :: "addr \<Rightarrow> response \<Rightarrow> nat" where
  "outflow token r = (\<Sum>m\<leftarrow>r. token_out token (sub_body m))"

text \<open>An integer square root, digit by digit in base four.\<close>

fun int_sqrt :: "nat \<Rightarrow> nat" where
  "int_sqrt n = (if n = 0 then 0
     else let r = 2 * int_sqrt (n div 4) in if (r + 1) * (r + 1) \<le> n then r + 1 else r)"

declare int_sqrt.simps [simp del]

text \<open>A concrete reading of the crates, and a chain that knows no delegation and no token.\<close>

definition cosmwasm_0_16 :: cosmwasm where
  "cosmwasm_0_16 = \<lparr>
     uint128_add = (\<lambda>a b. if a + b < U128 then Some (a + b) else None),
     uint128_sub = (\<lambda>a b. if b \<le> a then Some (a - b) else None),
     uint128_checked_sub = (\<lambda>a b. if b \<le> a then Some (a - b) else None),
     uint128_mul = (\<lambda>a b. if a * b < U128 then Some (a * b) else None),
     uint128_mul_decimal =
       (\<lambda>a d. if a * d div DEC_ONE < U128 then Some (a * d div DEC_ONE) else None),
     uint128_multiply_ratio =
       (\<lambda>a n d. if d = 0 \<or> U128 \<le> a * n div d then None else Some (a * n div d)),
     decimal_from_ratio =
       (\<lambda>n d. if d = 0 \<or> U128 \<le> n * DEC_ONE div d then None else Some (n * DEC_ONE div d)),
     decimal_add = (\<lambda>a b. if a + b < U128 then Some (a + b) else None),
     decimal_display = (\<lambda>d. show_nat (d div DEC_ONE) @
       (if d mod DEC_ONE = 0 then []
        else ''.'' @ rev (dropWhile (\<lambda>c. c = CHR ''0'') (rev (tl (show_nat (DEC_ONE + d mod DEC_ONE))))))),
     timestamp_seconds = (\<lambda>t. t div 10 ^ 9),
     timestamp_minus_seconds =
       (\<lambda>t s. if s * 10 ^ 9 \<le> t then Some (t - s * 10 ^ 9) else None),
     timestamp_plus_seconds =
       (\<lambda>t s. if t + s * 10 ^ 9 < U64 then Some (t + s * 10 ^ 9) else None),
     cw0_must_pay =
       (\<lambda>cs d. case cs of
          [c] \<Rightarrow> if denom c = d \<and> coin_amount c \<noteq> 0 then Inr (coin_amount c)
                 else Inl ''Must send reserve token''
        | _ \<Rightarrow> Inl ''Sent more than one denomination''),
     rng_gen_range =
       (\<lambda>seed lo hi. if lo < hi then Some (lo + seed mod (hi - lo)) else None),
     asset_info_display = (\<lambda>a. case a of Cw20 c \<Rightarrow> ''cw20:'' @ c | Native d \<Rightarrow> ''native:'' @ d),
     asset_transfer_msg = (\<lambda>a to. Inr (case asset_of a of
        Cw20 c \<Rightarrow> WasmExecute c (Cw20Transfer to (asset_amount a))
      | Native d \<Rightarrow> BankSend to [\<lparr>denom = d, coin_amount = asset_amount a\<rparr>])),
     decimal_sub = (\<lambda>a b. if b \<le> a then Some (a - b) else None),
     u128_integer_sqrt = int_sqrt,
     asset_send_msg = (\<lambda>a to m. case asset_of a of
        Cw20 c \<Rightarrow> Inr (WasmExecute c (Cw20Send to (asset_amount a) m))
      | Native d \<Rightarrow> Inl (GenericErr ''native coins do not have `send` method'')),
     asset_transfer_from_msg = (\<lambda>a owner to. case asset_of a of
        Cw20 c \<Rightarrow> Inr (WasmExecute c (Cw20TransferFrom owner to (asset_amount a)))
      | Native d \<Rightarrow> Inl (GenericErr ''native coins do not have `transfer_from` method'')),
     astroport_max_slippage = Inr (5 * 10 ^ 17)\<rparr>"

definition empty_deps :: deps where
  "empty_deps = \<lparr>
     api_addr_validate = Inr,
     api_addr_canonicalize = Inr,
     api_addr_humanize = Inr,
     q_all_delegations = (\<lambda>_. Inr []),
     q_delegation = (\<lambda>_ _. Inr None),
     q_validator = (\<lambda>v. Inr (Some v)),
     q_all_validators = Inr [],
     q_bank_balance = (\<lambda>_ _. Inr 0),
     q_cw20_total_supply = (\<lambda>_. Inr 0),
     q_cw20_balance = (\<lambda>_ _. Inr 0),
     q_all_balances = (\<lambda>_. Inr []),
     q_exchange_rates = (\<lambda>_ _. Inr []),
     q_asset_balance = (\<lambda>_ _. Inr 0),
     q_reward_whitelist = (\<lambda>_. Inr []),
     q_boost_amount = (\<lambda>_ _. Inr 0),
     q_vault_total_bond = (\<lambda>_. Inr 0),
     q_pair_info = (\<lambda>_ _. Inl NotFound),
     q_astroport_pair = (\<lambda>_ _. Inl NotFound)\<rparr>"

text \<open>A block at a given second, and a caller without funds, for evaluating examples.\<close>

definition env_at :: "nat \<Rightarrow> env" where
  "env_at t = \<lparr>block_time = t * 10 ^ 9, block_height = 1, contract_address = ''self''\<rparr>"

definition from_user :: "addr \<Rightarrow> message_info" where
  "from_user a = \<lparr>sender = a, funds = []\<rparr>"


section \<open>What the contracts rely on\<close>

locale cosmwasm_std =
  fixes S :: cosmwasm
  assumes add_law: "uint128_add S a b = (if a + b < U128 then Some (a + b) else None)"
    and sub_law: "uint128_sub S a b = (if b \<le> a then Some (a - b) else None)"
    and checked_sub_law: "uint128_checked_sub S a b = (if b \<le> a then Some (a - b) else None)"
    and mul_law: "uint128_mul S a b = (if a * b < U128 then Some (a * b) else None)"
    and mul_decimal_law: "uint128_mul_decimal S a d =
      (if a * d div DEC_ONE < U128 then Some (a * d div DEC_ONE) else None)"
    and multiply_ratio_law: "uint128_multiply_ratio S a n d' =
      (if d' = 0 \<or> U128 \<le> a * n div d' then None else Some (a * n div d'))"
    and from_ratio_law: "decimal_from_ratio S n d' =
      (if d' = 0 \<or> U128 \<le> n * DEC_ONE div d' then None else Some (n * DEC_ONE div d'))"
    and decimal_add_law: "decimal_add S d1 d2 = (if d1 + d2 < U128 then Some (d1 + d2) else None)"
    and decimal_sub_law: "decimal_sub S d1 d2 = (if d2 \<le> d1 then Some (d1 - d2) else None)"
    and integer_sqrt_law: "u128_integer_sqrt S n * u128_integer_sqrt S n \<le> n
      \<and> n < (u128_integer_sqrt S n + 1) * (u128_integer_sqrt S n + 1)"
    and asset_transfer_law: "asset_transfer_msg S \<lparr>asset_of = Cw20 t', asset_amount = n\<rparr> to =
      Inr (WasmExecute t' (Cw20Transfer to n))"
    and native_transfer_law: "asset_transfer_msg S \<lparr>asset_of = Native nd, asset_amount = n\<rparr> to =
      Inr (BankSend to [\<lparr>denom = nd, coin_amount = n\<rparr>])"
    and asset_send_law: "asset_send_msg S \<lparr>asset_of = Cw20 t', asset_amount = n\<rparr> to hook =
      Inr (WasmExecute t' (Cw20Send to n hook))"
    and asset_transfer_from_law: "asset_transfer_from_msg S \<lparr>asset_of = Cw20 t', asset_amount = n\<rparr> fr to =
      Inr (WasmExecute t' (Cw20TransferFrom fr to n))"
    and asset_display_inj: "asset_info_display S i = asset_info_display S j \<longleftrightarrow> i = j"
    and seconds_law: "timestamp_seconds S t = t div 10 ^ 9"
    and minus_seconds_law: "timestamp_minus_seconds S t s =
      (if s * 10 ^ 9 \<le> t then Some (t - s * 10 ^ 9) else None)"
    and plus_seconds_law: "timestamp_plus_seconds S t s =
      (if t + s * 10 ^ 9 < U64 then Some (t + s * 10 ^ 9) else None)"
    and must_pay_law: "cw0_must_pay S cs d'' = Inr p \<Longrightarrow>
      p \<noteq> 0 \<and> cs = [\<lparr>denom = d'', coin_amount = p\<rparr>]"
    and gen_range_empty: "hi \<le> lo \<Longrightarrow> rng_gen_range S seed lo hi = None"
    and gen_range_bounds: "lo < hi \<Longrightarrow> \<exists>r. rng_gen_range S seed lo hi = Some r \<and> lo \<le> r \<and> r < hi"
begin

lemma uadd_Ok_iff [cw_laws]: "uadd S a b = Inr c \<longleftrightarrow> c = a + b \<and> a + b < U128"
  by (auto simp: uadd_def add_law)

lemma usub_Ok_iff [cw_laws]: "usub S a b = Inr c \<longleftrightarrow> c = a - b \<and> b \<le> a"
  by (auto simp: usub_def sub_law)

lemma uchecked_sub_Ok_iff [cw_laws]: "uchecked_sub S e a b = Inr c \<longleftrightarrow> c = a - b \<and> b \<le> a"
  by (auto simp: uchecked_sub_def checked_sub_law)

lemma umul_Ok_iff [cw_laws]: "umul S a b = Inr c \<longleftrightarrow> c = a * b \<and> a * b < U128"
  by (auto simp: umul_def mul_law)

lemma umul_dec_Ok_iff [cw_laws]:
  "umul_dec S a d = Inr c \<longleftrightarrow> c = a * d div DEC_ONE \<and> a * d div DEC_ONE < U128"
  by (auto simp: umul_dec_def mul_decimal_law)

lemma umul_ratio_Ok_iff [cw_laws]:
  "umul_ratio S a n d = Inr c \<longleftrightarrow> c = a * n div d \<and> d \<noteq> 0 \<and> a * n div d < U128"
  by (auto simp: umul_ratio_def multiply_ratio_law)

lemma from_ratio_Ok_iff [cw_laws]:
  "from_ratio S n d = Inr c \<longleftrightarrow> c = n * DEC_ONE div d \<and> d \<noteq> 0 \<and> n * DEC_ONE div d < U128"
  by (auto simp: from_ratio_def from_ratio_law)

lemma dec_add_Ok_iff [cw_laws]: "dec_add S a b = Inr c \<longleftrightarrow> c = a + b \<and> a + b < U128"
  by (auto simp: dec_add_def decimal_add_law)

lemma dec_sub_Ok_iff [cw_laws]: "dec_sub S a b = Inr c \<longleftrightarrow> c = a - b \<and> b \<le> a"
  by (auto simp: dec_sub_def decimal_sub_law)

lemma integer_sqrt_0 [simp]: "u128_integer_sqrt S 0 = 0"
  using integer_sqrt_law [of 0] by simp

lemma minus_seconds_Ok_iff [cw_laws]:
  "minus_seconds S t s = Inr c \<longleftrightarrow> c = t - s * 10 ^ 9 \<and> s * 10 ^ 9 \<le> t"
  by (auto simp: minus_seconds_def minus_seconds_law)

lemma plus_seconds_Ok_iff [cw_laws]:
  "plus_seconds S t s = Inr c \<longleftrightarrow> c = t + s * 10 ^ 9 \<and> t + s * 10 ^ 9 < U64"
  by (auto simp: plus_seconds_def plus_seconds_law)

lemma gen_range_Ok: "gen_range S seed 0 n = Inr r \<Longrightarrow> r < n"
  using gen_range_bounds [of 0 n seed] gen_range_empty [of n 0 seed]
  by (cases "0 < n") (auto simp: gen_range_def)

lemma gen_range_total: "0 < n \<Longrightarrow> \<exists>r. gen_range S seed 0 n = Inr r"
  using gen_range_bounds [of 0 n seed] by (auto simp: gen_range_def)

text \<open>\<open>Uint128 * Decimal\<close> by a rate of at most one never grows the amount.\<close>

lemma umul_dec_le:
  assumes "umul_dec S a d = Inr c" and "d \<le> DEC_ONE"
  shows "c \<le> a"
proof -
  have "a * d div DEC_ONE \<le> a * DEC_ONE div DEC_ONE"
    using assms(2) by (intro div_le_mono mult_le_mono2)
  also have "\<dots> = a" by (simp add: DEC_ONE_def)
  finally show ?thesis using assms(1) by (simp add: umul_dec_Ok_iff)
qed

end

lemma int_sqrt_law: "int_sqrt n * int_sqrt n \<le> n \<and> n < (int_sqrt n + 1) * (int_sqrt n + 1)"
proof (induction n rule: int_sqrt.induct)
  case (1 n)
  show ?case
  proof (cases "n = 0")
    case False
    define r where "r = int_sqrt (n div 4)"
    have r: "r * r \<le> n div 4" "n div 4 < (r + 1) * (r + 1)" using 1 False by (simp_all add: r_def)
    have d: "n div 4 * 4 \<le> n" "n < (n div 4 + 1) * 4" by simp_all
    have lo: "(2 * r) * (2 * r) \<le> n" using r(1) d(1) by simp
    have "n div 4 + 1 \<le> (r + 1) * (r + 1)" using r(2) by simp
    then have "(n div 4 + 1) * 4 \<le> (r + 1) * (r + 1) * 4" by (rule mult_le_mono1)
    then have hi: "n < (2 * r + 2) * (2 * r + 2)" using d(2) by simp
    have eq: "int_sqrt n = (if (2 * r + 1) * (2 * r + 1) \<le> n then 2 * r + 1 else 2 * r)"
      by (subst int_sqrt.simps) (simp add: False r_def Let_def)
    show ?thesis
    proof (cases "(2 * r + 1) * (2 * r + 1) \<le> n")
      case True
      then have "int_sqrt n = 2 * r + 1" by (simp add: eq)
      then show ?thesis using True hi by simp
    next
      case False
      then have "int_sqrt n = 2 * r" by (simp add: eq)
      then show ?thesis using False lo by simp
    qed
  qed (simp add: int_sqrt.simps)
qed

interpretation cw: cosmwasm_std cosmwasm_0_16
proof unfold_locales
  fix cs d p
  show "cw0_must_pay cosmwasm_0_16 cs d = Inr p \<Longrightarrow>
      p \<noteq> 0 \<and> cs = [\<lparr>denom = d, coin_amount = p\<rparr>]"
    by (auto simp: cosmwasm_0_16_def split: list.splits if_splits)
next
  fix lo hi seed :: nat
  show "lo < hi \<Longrightarrow> \<exists>r. rng_gen_range cosmwasm_0_16 seed lo hi = Some r \<and> lo \<le> r \<and> r < hi"
    by (simp add: cosmwasm_0_16_def) (metis less_diff_conv add.commute mod_less_divisor zero_less_diff)
next
  fix n
  show "u128_integer_sqrt cosmwasm_0_16 n * u128_integer_sqrt cosmwasm_0_16 n \<le> n
      \<and> n < (u128_integer_sqrt cosmwasm_0_16 n + 1) * (u128_integer_sqrt cosmwasm_0_16 n + 1)"
    using int_sqrt_law [of n] by (simp add: cosmwasm_0_16_def)
next
  fix i j
  show "asset_info_display cosmwasm_0_16 i = asset_info_display cosmwasm_0_16 j \<longleftrightarrow> i = j"
    by (cases i; cases j) (simp_all add: cosmwasm_0_16_def)
qed (simp_all add: cosmwasm_0_16_def)

lemmas cosmwasm_0_16 = cw.cosmwasm_std_axioms

lemma outflow_simps [simp]:
  "outflow token [] = 0" "outflow token (m # r) = token_out token (sub_body m) + outflow token r"
  "outflow token (add_messages ms) = (\<Sum>m\<leftarrow>ms. token_out token m)"
  by (simp_all add: outflow_def add_messages_def new_sub_msg_def o_def)

text \<open>What evaluates a call on the concrete crates.\<close>

lemmas cw_eval =
  uadd_def usub_def uchecked_sub_def umul_def umul_dec_def umul_ratio_def from_ratio_def
  dec_add_def dec_sub_def now_seconds_def minus_seconds_def plus_seconds_def gen_range_def
  cosmwasm_0_16_def DEC_ONE_def U128_def U64_def
  addr_validate_def addr_canonicalize_def addr_humanize_def empty_deps_def
  query_token_balance_def query_supply_def u64_add_def u64_sub_def u128_add_def u128_mul_def
  new_sub_msg_def add_messages_def env_at_def from_user_def

end
