(* ===== verification/Custody.thy ===== *)
theory Custody
  imports Cosmwasm
begin

text \<open>
  Contracts that hold a token for others. A transaction is a call together with the transfers that it orders: when the
  call fails, or the balance of the contract does not cover its transfers, the chain undoes all of it. The locale
  \<open>custodian\<close> is the contract between a ledger and the chain: a call never lets the books exceed the balance.
  Along any sequence of transactions such a contract stays solvent and no transaction is ever undone for lack of tokens. In an
  \<open>exact_custodian\<close> the books move exactly with the tokens that the ledger counts, so that what the ledger has beyond
  the books never changes. The ledger counts what a call brings and what its messages take away; tokens that reach
  the contract in another way only add to its real balance. The locales are interpreted for the boost contract, the governance contract and the staking of liquidity
  tokens in \<open>Solvency\<close>.
\<close>


section \<open>Definitions\<close>

definition transact ::
  "('c \<Rightarrow> 's \<Rightarrow> ('e, 's \<times> response) result) \<Rightarrow> ('c \<Rightarrow> 's \<Rightarrow> nat) \<Rightarrow> addr \<Rightarrow> 'c \<Rightarrow> 's \<times> nat \<Rightarrow> 's \<times> nat" where
  "transact call brings token c sb =
     (case sb of (s, bal) \<Rightarrow>
     (case call c s of
       Inl _ \<Rightarrow> (s, bal)
     | Inr (s', r) \<Rightarrow>
         if outflow token r \<le> bal + brings c s then (s', bal + brings c s - outflow token r) else (s, bal)))"

definition transact_all ::
  "('c \<Rightarrow> 's \<Rightarrow> ('e, 's \<times> response) result) \<Rightarrow> ('c \<Rightarrow> 's \<Rightarrow> nat) \<Rightarrow> addr \<Rightarrow> 'c list \<Rightarrow> 's \<times> nat \<Rightarrow> 's \<times> nat" where
  "transact_all call brings token cs sb = fold (transact call brings token) cs sb"

text \<open>The transfers of a call are covered by what the contract has when they are executed.\<close>

definition covered ::
  "('c \<Rightarrow> 's \<Rightarrow> ('e, 's \<times> response) result) \<Rightarrow> ('c \<Rightarrow> 's \<Rightarrow> nat) \<Rightarrow> addr \<Rightarrow> 'c \<Rightarrow> 's \<times> nat \<Rightarrow> bool" where
  "covered call brings token c sb =
     (case sb of (s, bal) \<Rightarrow> (case call c s of Inl _ \<Rightarrow> True | Inr (s', r) \<Rightarrow> outflow token r \<le> bal + brings c s))"

fun never_short ::
  "('c \<Rightarrow> 's \<Rightarrow> ('e, 's \<times> response) result) \<Rightarrow> ('c \<Rightarrow> 's \<Rightarrow> nat) \<Rightarrow> addr \<Rightarrow> 'c list \<Rightarrow> 's \<times> nat \<Rightarrow> bool" where
  "never_short call brings token [] sb = True"
| "never_short call brings token (c # cs) sb =
     (covered call brings token c sb \<and> never_short call brings token cs (transact call brings token c sb))"

text \<open>A condition on the calls of a sequence, each in the state in which it is made.\<close>

fun admissible ::
  "('c \<Rightarrow> 's \<Rightarrow> ('e, 's \<times> response) result) \<Rightarrow> ('c \<Rightarrow> 's \<Rightarrow> nat) \<Rightarrow> addr \<Rightarrow> ('c \<Rightarrow> 's \<times> nat \<Rightarrow> bool)
    \<Rightarrow> 'c list \<Rightarrow> 's \<times> nat \<Rightarrow> bool" where
  "admissible call brings token ok [] sb = True"
| "admissible call brings token ok (c # cs) sb =
     (ok c sb \<and> admissible call brings token ok cs (transact call brings token c sb))"


section \<open>The contract of a custodian\<close>

lemma transact_all_simps [simp]:
  "transact_all call brings token [] sb = sb"
  "transact_all call brings token (c # cs) sb = transact_all call brings token cs (transact call brings token c sb)"
  by (simp_all add: transact_all_def)

lemma admissible_all: "(\<And>c sb. c \<in> set cs \<Longrightarrow> ok c sb) \<Longrightarrow> admissible call brings token ok cs sb"
  by (induction cs arbitrary: sb) simp_all

locale custodian =
  fixes call :: "'c \<Rightarrow> 's \<Rightarrow> ('e, 's \<times> response) result" and brings :: "'c \<Rightarrow> 's \<Rightarrow> nat" and token :: addr
    and ok :: "'c \<Rightarrow> 's \<times> nat \<Rightarrow> bool" and inv :: "'s \<Rightarrow> bool" and owed :: "'s \<Rightarrow> nat"
  assumes keeps: "inv s \<Longrightarrow> ok c (s, bal) \<Longrightarrow> owed s \<le> bal \<Longrightarrow> call c s = Inr (s', r)
    \<Longrightarrow> inv s' \<and> owed s' + outflow token r \<le> bal + brings c s"
begin

lemma transact_keeps:
  assumes "inv s" and "ok c (s, bal)" and "owed s \<le> bal" and "transact call brings token c (s, bal) = (s', bal')"
  shows "inv s' \<and> owed s' \<le> bal' \<and> covered call brings token c (s, bal)"
proof (cases "call c s")
  case (Inr p)
  obtain t r where p: "p = (t, r)" by (cases p)
  show ?thesis using keeps [OF assms(1-3) Inr [unfolded p]] assms(4) by (auto simp: transact_def covered_def Inr p)
qed (use assms in \<open>auto simp: transact_def covered_def\<close>)

lemma solvent:
  assumes "inv s" and "owed s \<le> bal" and "admissible call brings token ok cs (s, bal)"
    and "transact_all call brings token cs (s, bal) = (s', bal')"
  shows "inv s' \<and> owed s' \<le> bal' \<and> never_short call brings token cs (s, bal)"
  using assms
proof (induction cs arbitrary: s bal)
  case (Cons c cs)
  obtain t b where t: "transact call brings token c (s, bal) = (t, b)" by (cases "transact call brings token c (s, bal)")
  show ?case using transact_keeps [OF Cons.prems(1) _ Cons.prems(2) t] Cons.IH [of t b] Cons.prems(3,4) by (simp add: t)
qed simp

end

locale exact_custodian =
  fixes call :: "'c \<Rightarrow> 's \<Rightarrow> ('e, 's \<times> response) result" and brings :: "'c \<Rightarrow> 's \<Rightarrow> nat" and token :: addr
    and ok :: "'c \<Rightarrow> 's \<times> nat \<Rightarrow> bool" and inv :: "'s \<Rightarrow> bool" and owed :: "'s \<Rightarrow> nat"
  assumes moves: "inv s \<Longrightarrow> ok c (s, bal) \<Longrightarrow> call c s = Inr (s', r)
    \<Longrightarrow> inv s' \<and> owed s' + outflow token r = owed s + brings c s"

sublocale exact_custodian \<subseteq> custodian call brings token ok inv owed
proof
  fix s c bal s' r
  assume "inv s" and "ok c (s, bal)" and "owed s \<le> bal" and "call c s = Inr (s', r)"
  then show "inv s' \<and> owed s' + outflow token r \<le> bal + brings c s" using moves [of s c bal s' r] by simp
qed

context exact_custodian
begin

lemma exact:
  assumes "inv s" and "owed s \<le> bal" and "admissible call brings token ok cs (s, bal)"
    and "transact_all call brings token cs (s, bal) = (s', bal')"
  shows "bal' + owed s = bal + owed s'"
  using assms
proof (induction cs arbitrary: s bal)
  case (Cons c cs)
  obtain t b where t: "transact call brings token c (s, bal) = (t, b)" by (cases "transact call brings token c (s, bal)")
  have step: "inv t \<and> owed t \<le> b" using transact_keeps [OF Cons.prems(1) _ Cons.prems(2) t] Cons.prems(3) by simp
  have "b + owed s = bal + owed t"
  proof (cases "call c s")
    case (Inr p)
    obtain u r where p: "p = (u, r)" by (cases p)
    have "owed u + outflow token r = owed s + brings c s"
      using moves [OF Cons.prems(1) _ Inr [unfolded p], of bal] Cons.prems(3) by simp
    then show ?thesis using t Cons.prems(2) by (auto simp: transact_def Inr p split: if_splits)
  qed (use t in \<open>auto simp: transact_def\<close>)
  then show ?case using step Cons.IH [of t b] Cons.prems(3,4) by (simp add: t)
qed simp

end

end
