(* ===== verification/Xprism_Boost.thy ===== *)
theory Xprism_Boost
  imports Cosmwasm
begin

text \<open>
  \<open>contracts/prism-xprism-boost\<close>: users lock xPRISM and accrue boost (AMPS) with time, up to
  a cap per locked token; unlocking any amount resets the boost. The state is the
  configuration and one \<open>UserInfo\<close> per user. The library below carries the cap invariant and
  the custody of the locked tokens.
\<close>


section \<open>Definitions\<close>

subsection \<open>State\<close>

record config =
  owner :: addr
  xprism_token :: addr
  boost_per_hour :: decimal
  max_boost_per_xprism :: nat
  launch_pool_contract :: "addr option"

record user_info =
  amt_bonded :: nat
  total_boost :: nat
  last_updated :: nat
  boost_accrual_start_time :: nat

record boost_state =
  CONFIG :: config
  USER_INFO :: "(addr, user_info) store"

datatype contract_error =
    Std std_error
  | OverflowError
  | Unauthorized
  | InvalidBond
  | InvalidUnbond
  | InvalidBoostInterval
  | InvalidMaxBoost

record instantiate_msg =
  im_owner :: string
  im_xprism_token :: string
  im_boost_per_hour :: decimal
  im_max_boost_per_xprism :: nat
  im_launch_pool_contract :: "string option"

datatype execute_msg =
    Receive cw20_receive_msg
  | UpdateConfig "string option" "decimal option" "nat option" "string option"
  | Unbond "nat option"

datatype cw20_hook_msg = Bond "string option"

definition MAX_BOOST_PER_HOUR :: decimal where
  "MAX_BOOST_PER_HOUR = DEC_ONE"

definition default_user_info :: user_info where
  "default_user_info =
     \<lparr>amt_bonded = 0, total_boost = 0, last_updated = 0, boost_accrual_start_time = 0\<rparr>"

abbreviation validate :: "deps \<Rightarrow> string \<Rightarrow> (contract_error, addr) result" where
  "validate D a \<equiv> map_err Std (addr_validate D a)"

subsection \<open>Operations\<close>

definition instantiate_boost ::
  "deps \<Rightarrow> instantiate_msg \<Rightarrow> (contract_error, boost_state \<times> response) result" where
  "instantiate_boost D msg =
     (if im_boost_per_hour msg > MAX_BOOST_PER_HOUR then Fail InvalidBoostInterval
      else andThen
        (case im_launch_pool_contract msg of
           None \<Rightarrow> Ok None
         | Some a \<Rightarrow> andThen (validate D a) (\<lambda>v. Ok (Some v)))
        (\<lambda>lp. andThen (validate D (im_owner msg))
        (\<lambda>ow. andThen (validate D (im_xprism_token msg))
        (\<lambda>tok. Ok
          (\<lparr>CONFIG = \<lparr>owner = ow, xprism_token = tok, boost_per_hour = im_boost_per_hour msg,
              max_boost_per_xprism = im_max_boost_per_xprism msg, launch_pool_contract = lp\<rparr>,
            USER_INFO = []\<rparr>, [])))))"

definition accumulate_boost ::
  "cosmwasm \<Rightarrow> boost_state \<Rightarrow> env \<Rightarrow> user_info \<Rightarrow> (std_error, user_info) result" where
  "accumulate_boost S st env info =
     (if amt_bonded info \<noteq> 0 \<and> now_seconds S env > last_updated info then
        andThen (umul_dec S (amt_bonded info) (boost_per_hour (CONFIG st)))
          (\<lambda>per_hour. andThen (from_ratio S (now_seconds S env - last_updated info) 3600)
          (\<lambda>hours. andThen (umul_dec S per_hour hours)
          (\<lambda>new_boost. andThen (umul S (amt_bonded info) (max_boost_per_xprism (CONFIG st)))
          (\<lambda>max_boost. andThen (uadd S (total_boost info) new_boost)
          (\<lambda>raised. Ok (info\<lparr>total_boost := min raised max_boost,
              last_updated := now_seconds S env\<rparr>))))))
      else Ok info)"

definition bond ::
  "cosmwasm \<Rightarrow> deps \<Rightarrow> boost_state \<Rightarrow> env \<Rightarrow> string \<Rightarrow> nat
    \<Rightarrow> (contract_error, boost_state \<times> response) result" where
  "bond S D st env snd_addr amount =
     (if amount = 0 then Fail InvalidBond
      else andThen (validate D snd_addr) (\<lambda>addr.
        let info = (case get (USER_INFO st) addr of
              Some i \<Rightarrow> i
            | None \<Rightarrow> \<lparr>amt_bonded = 0, total_boost = 0, last_updated = now_seconds S env,
                boost_accrual_start_time = now_seconds S env\<rparr>)
        in andThen (map_err Std (accumulate_boost S st env info)) (\<lambda>user.
           andThen (uadd S (amt_bonded user) amount) (\<lambda>bonded.
           Ok (st\<lparr>USER_INFO := put addr (user\<lparr>amt_bonded := bonded\<rparr>) (USER_INFO st)\<rparr>, [])))))"

definition unbond ::
  "cosmwasm \<Rightarrow> boost_state \<Rightarrow> env \<Rightarrow> message_info \<Rightarrow> nat option
    \<Rightarrow> (contract_error, boost_state \<times> response) result" where
  "unbond S st env info amount =
     andThen (or_err (Std NotFound) (get (USER_INFO st) (sender info))) (\<lambda>user.
       let amt = (case amount of Some a \<Rightarrow> a | None \<Rightarrow> amt_bonded user)
       in if amt > amt_bonded user then Fail InvalidUnbond
       else andThen (uchecked_sub S OverflowError (amt_bonded user) amt) (\<lambda>left.
         let user' = user\<lparr>amt_bonded := left, total_boost := 0\<rparr>;
             users = (if left = 0 then del (sender info) (USER_INFO st)
               else put (sender info)
                 (user'\<lparr>last_updated := now_seconds S env,
                    boost_accrual_start_time := now_seconds S env\<rparr>) (USER_INFO st));
             cfg = CONFIG st;
             pay = [WasmExecute (xprism_token cfg) (Cw20Transfer (sender info) amt)];
             refresh = (case launch_pool_contract cfg of
                 Some a \<Rightarrow> [WasmExecute a (LaunchPoolPrivilegedRefreshBoost (sender info))]
               | None \<Rightarrow> [])
         in Ok (st\<lparr>USER_INFO := users\<rparr>, add_messages (pay @ refresh))))"

definition receive_cw20 ::
  "cosmwasm \<Rightarrow> deps \<Rightarrow> (binary \<Rightarrow> std_error + cw20_hook_msg) \<Rightarrow> boost_state \<Rightarrow> env
    \<Rightarrow> cw20_receive_msg \<Rightarrow> (contract_error, boost_state \<times> response) result" where
  "receive_cw20 S D from_binary st env m =
     andThen (map_err Std (from_answer (from_binary (cw20_msg m)))) (\<lambda>hook.
       case hook of Bond user \<Rightarrow>
         bond S D st env (case user of Some u \<Rightarrow> u | None \<Rightarrow> cw20_sender m) (cw20_amount m))"

definition update_config ::
  "deps \<Rightarrow> boost_state \<Rightarrow> string option \<Rightarrow> decimal option \<Rightarrow> nat option \<Rightarrow> string option
    \<Rightarrow> (contract_error, boost_state \<times> response) result" where
  "update_config D st new_owner new_boost new_max new_launch_pool =
     andThen (case new_owner of
         None \<Rightarrow> Ok (CONFIG st)
       | Some a \<Rightarrow> andThen (validate D a) (\<lambda>v. Ok ((CONFIG st)\<lparr>owner := v\<rparr>)))
     (\<lambda>cfg. andThen (case new_boost of
         None \<Rightarrow> Ok cfg
       | Some b \<Rightarrow> if b > MAX_BOOST_PER_HOUR then Fail InvalidBoostInterval
                  else Ok (cfg\<lparr>boost_per_hour := b\<rparr>))
     (\<lambda>cfg. andThen (case new_max of
         None \<Rightarrow> Ok cfg
       | Some m \<Rightarrow> if m \<le> max_boost_per_xprism cfg then Fail InvalidMaxBoost
                  else Ok (cfg\<lparr>max_boost_per_xprism := m\<rparr>))
     (\<lambda>cfg. andThen (case new_launch_pool of
         None \<Rightarrow> Ok cfg
       | Some a \<Rightarrow> if a = [] then Ok (cfg\<lparr>launch_pool_contract := None\<rparr>)
                  else andThen (validate D a) (\<lambda>v. Ok (cfg\<lparr>launch_pool_contract := Some v\<rparr>)))
     (\<lambda>cfg. Ok (st\<lparr>CONFIG := cfg\<rparr>, [])))))"

fun execute ::
  "cosmwasm \<Rightarrow> deps \<Rightarrow> (binary \<Rightarrow> std_error + cw20_hook_msg) \<Rightarrow> boost_state \<Rightarrow> env
    \<Rightarrow> message_info \<Rightarrow> execute_msg \<Rightarrow> (contract_error, boost_state \<times> response) result" where
  "execute S D from_binary st env info (Unbond amount) = unbond S st env info amount"
| "execute S D from_binary st env info (Receive m) =
     (if xprism_token (CONFIG st) \<noteq> sender info then Fail Unauthorized
      else receive_cw20 S D from_binary st env m)"
| "execute S D from_binary st env info (UpdateConfig ow b m lp) =
     (if owner (CONFIG st) \<noteq> sender info then Fail Unauthorized
      else update_config D st ow b m lp)"

definition query_get_boost ::
  "cosmwasm \<Rightarrow> boost_state \<Rightarrow> env \<Rightarrow> addr \<Rightarrow> (std_error, user_info) result" where
  "query_get_boost S st env user =
     accumulate_boost S st env
       (case get (USER_INFO st) user of Some i \<Rightarrow> i | None \<Rightarrow> default_user_info)"

subsection \<open>What the contract keeps true\<close>

text \<open>
  A stored user has tokens locked, a boost below the cap for them, and an accrual that
  started before the last update.
\<close>

definition user_ok :: "nat \<Rightarrow> user_info \<Rightarrow> bool" where
  "user_ok cap u \<longleftrightarrow> 0 < amt_bonded u \<and> total_boost u \<le> amt_bonded u * cap
     \<and> boost_accrual_start_time u \<le> last_updated u"

definition boost_inv :: "boost_state \<Rightarrow> bool" where
  "boost_inv st \<longleftrightarrow> wf_store (USER_INFO st) \<and> boost_per_hour (CONFIG st) \<le> MAX_BOOST_PER_HOUR
     \<and> (\<forall>(a, u) \<in> set (USER_INFO st). user_ok (max_boost_per_xprism (CONFIG st)) u)"

text \<open>The xPRISM the contract owes: the sum of all locked amounts.\<close>

definition total_locked :: "boost_state \<Rightarrow> nat" where
  "total_locked st = (\<Sum>(a, u)\<leftarrow>USER_INFO st. amt_bonded u)"

text \<open>
  Every stored number fits the type that the source declares for it: \<open>Uint128\<close> and \<open>Decimal\<close> in 128 bits, times in 64. The
  numbers that a message and a block carry are decoded into these types, which is the condition on the calls.
\<close>

definition user_typed :: "user_info \<Rightarrow> bool" where
  "user_typed u \<longleftrightarrow> amt_bonded u < U128 \<and> total_boost u < U128 \<and> last_updated u < U64 \<and> boost_accrual_start_time u < U64"

definition boost_typed :: "boost_state \<Rightarrow> bool" where
  "boost_typed st \<longleftrightarrow> boost_per_hour (CONFIG st) < U128 \<and> max_boost_per_xprism (CONFIG st) < U128
     \<and> (\<forall>(a, u) \<in> set (USER_INFO st). user_typed u)"

fun msg_typed :: "execute_msg \<Rightarrow> bool" where
  "msg_typed (UpdateConfig ow b m lp) = (case m of None \<Rightarrow> True | Some m \<Rightarrow> m < U128)"
| "msg_typed (Receive c) = (cw20_amount c < U128)"
| "msg_typed (Unbond amount) = (case amount of None \<Rightarrow> True | Some a \<Rightarrow> a < U128)"

inductive boost_reach :: "cosmwasm \<Rightarrow> boost_state \<Rightarrow> bool" for S where
  instantiated: "instantiate_boost D msg = Ok (st, r) \<Longrightarrow> im_max_boost_per_xprism msg < U128 \<Longrightarrow> boost_reach S st"
| executed: "boost_reach S st \<Longrightarrow> execute S D fb st env info m = Ok (st', r) \<Longrightarrow> block_time env < U64 \<Longrightarrow> msg_typed m
    \<Longrightarrow> boost_reach S st'"


section \<open>Lemmas\<close>

lemma boost_invD:
  "boost_inv st \<Longrightarrow> get (USER_INFO st) a = Some u \<Longrightarrow> user_ok (max_boost_per_xprism (CONFIG st)) u"
  by (auto simp: boost_inv_def entries_get [symmetric])

lemma boost_inv_put:
  assumes "boost_inv st" and "user_ok (max_boost_per_xprism (CONFIG st)) u"
  shows "boost_inv (st\<lparr>USER_INFO := put a u (USER_INFO st)\<rparr>)"
  using assms by (auto simp: boost_inv_def entries_get store_simps split: if_splits)

lemma boost_inv_del: "boost_inv st \<Longrightarrow> boost_inv (st\<lparr>USER_INFO := del a (USER_INFO st)\<rparr>)"
  using wf_del [of "USER_INFO st" a] by (auto simp: boost_inv_def del_def)

lemma boost_typed_put:
  assumes "boost_typed st" and "wf_store (USER_INFO st)" and "user_typed u"
  shows "boost_typed (st\<lparr>USER_INFO := put a u (USER_INFO st)\<rparr>)"
  using assms by (auto simp: boost_typed_def entries_get store_simps split: if_splits)

lemma boost_typed_del: "boost_typed st \<Longrightarrow> boost_typed (st\<lparr>USER_INFO := del a (USER_INFO st)\<rparr>)"
  by (auto simp: boost_typed_def del_def)

lemma total_locked_put:
  assumes "boost_inv st"
  shows "total_locked (st\<lparr>USER_INFO := put a u (USER_INFO st)\<rparr>)
      + (case get (USER_INFO st) a of None \<Rightarrow> 0 | Some v \<Rightarrow> amt_bonded v)
    = total_locked st + amt_bonded u"
  using st.sum_save [of "USER_INFO st" "\<lambda>_. amt_bonded" a u] assms
  by (simp add: total_locked_def boost_inv_def)

lemma total_locked_del:
  assumes "boost_inv st"
  shows "total_locked (st\<lparr>USER_INFO := del a (USER_INFO st)\<rparr>)
      + (case get (USER_INFO st) a of None \<Rightarrow> 0 | Some v \<Rightarrow> amt_bonded v)
    = total_locked st"
  using st.sum_remove [of "USER_INFO st" "\<lambda>_. amt_bonded" a] assms
  by (simp add: total_locked_def boost_inv_def)

lemma locked_le_total:
  assumes "boost_inv st" and "get (USER_INFO st) a = Some u"
  shows "amt_bonded u \<le> total_locked st"
  using st.entry_le_sum [of "USER_INFO st" a u "\<lambda>_. amt_bonded"] assms
  by (simp add: total_locked_def boost_inv_def)

text \<open>A successful hook is a bond for the named user or, without one, for the token's sender.\<close>

lemma receive_cw20_OkE:
  assumes "receive_cw20 S D from_binary st env m = Inr (st', r)"
  obtains who where "bond S D st env who (cw20_amount m) = Inr (st', r)"
proof -
  from assms obtain hook where
    "(case hook of Bond user \<Rightarrow>
       bond S D st env (case user of Some u \<Rightarrow> u | None \<Rightarrow> cw20_sender m) (cw20_amount m))
     = Inr (st', r)"
    unfolding receive_cw20_def by (rule andThen_OkE)
  with that show thesis by (cases hook) auto
qed

context cosmwasm_std
begin

text \<open>Accumulating changes the boost and the time stamp only.\<close>

lemma accumulate_frame:
  assumes "accumulate_boost S st env info = Inr info'"
  shows "amt_bonded info' = amt_bonded info"
    and "boost_accrual_start_time info' = boost_accrual_start_time info"
    and "last_updated info \<le> last_updated info'"
  using assms by (auto simp: accumulate_boost_def result_simps split: if_splits)

lemma accumulate_cap:
  assumes "accumulate_boost S st env info = Inr info'"
    and "total_boost info \<le> amt_bonded info * max_boost_per_xprism (CONFIG st)"
  shows "total_boost info \<le> total_boost info'"
    and "total_boost info' \<le> amt_bonded info * max_boost_per_xprism (CONFIG st)"
  using assms by (auto simp: accumulate_boost_def result_simps cw_laws split: if_splits)

text \<open>The boost gained is the floored rate times the floored hours, cut at the cap.\<close>

lemma accumulate_value:
  assumes "accumulate_boost S st env info = Inr info'"
    and "amt_bonded info \<noteq> 0" and "last_updated info < now_seconds S env"
  shows "last_updated info' = now_seconds S env \<and> total_boost info' =
      min (total_boost info
            + amt_bonded info * boost_per_hour (CONFIG st) div DEC_ONE
              * ((now_seconds S env - last_updated info) * DEC_ONE div 3600) div DEC_ONE)
        (amt_bonded info * max_boost_per_xprism (CONFIG st))"
  using assms by (auto simp: accumulate_boost_def result_simps cw_laws)

text \<open>A second accumulation in the same block adds nothing.\<close>

lemma accumulate_idem:
  assumes "accumulate_boost S st env info = Inr info'"
  shows "accumulate_boost S st env info' = Inr info'"
proof (cases "amt_bonded info \<noteq> 0 \<and> now_seconds S env > last_updated info")
  case True
  then have "last_updated info' = now_seconds S env" using accumulate_value [OF assms] by simp
  then show ?thesis by (simp add: accumulate_boost_def)
next
  case False
  then have "info' = info" using assms by (auto simp: accumulate_boost_def)
  then show ?thesis using assms by simp
qed

text \<open>What a successful bond does.\<close>

lemma bond_OkE:
  assumes "bond S D st env who amount = Inr (st', r)"
  obtains a u u' where "amount \<noteq> 0" and "api_addr_validate D who = Inr a" and "r = []"
    and "u = (case get (USER_INFO st) a of Some i \<Rightarrow> i
           | None \<Rightarrow> \<lparr>amt_bonded = 0, total_boost = 0, last_updated = now_seconds S env,
               boost_accrual_start_time = now_seconds S env\<rparr>)"
    and "accumulate_boost S st env u = Inr u'"
    and "st' = st\<lparr>USER_INFO := put a (u'\<lparr>amt_bonded := amt_bonded u' + amount\<rparr>) (USER_INFO st)\<rparr>"
    and "amt_bonded u' + amount < U128"
  using assms
  by (auto simp: bond_def result_simps cw_laws addr_validate_def Let_def split: if_splits)

lemma bond_inv:
  assumes "bond S D st env who amount = Inr (st', r)" and inv: "boost_inv st"
  shows "boost_inv st'"
  using assms(1)
proof (rule bond_OkE)
  fix a u u'
  let ?cap = "max_boost_per_xprism (CONFIG st)"
  assume amount: "amount \<noteq> 0"
    and u: "u = (case get (USER_INFO st) a of Some i \<Rightarrow> i
           | None \<Rightarrow> \<lparr>amt_bonded = 0, total_boost = 0, last_updated = now_seconds S env,
               boost_accrual_start_time = now_seconds S env\<rparr>)"
    and acc: "accumulate_boost S st env u = Inr u'"
    and st': "st' = st\<lparr>USER_INFO := put a (u'\<lparr>amt_bonded := amt_bonded u' + amount\<rparr>) (USER_INFO st)\<rparr>"
  have "total_boost u \<le> amt_bonded u * ?cap" and "boost_accrual_start_time u \<le> last_updated u"
    using boost_invD [OF inv] by (auto simp: u user_ok_def split: option.splits)
  with accumulate_frame [OF acc] accumulate_cap [OF acc] amount
  have "user_ok ?cap (u'\<lparr>amt_bonded := amt_bonded u' + amount\<rparr>)"
    by (auto simp: user_ok_def add_mult_distrib)
  with inv show ?thesis by (simp add: st' boost_inv_put)
qed

lemma bond_locked:
  assumes "bond S D st env who amount = Inr (st', r)" and inv: "boost_inv st"
  shows "total_locked st' = total_locked st + amount"
  using assms(1)
proof (rule bond_OkE)
  fix a u u'
  assume u: "u = (case get (USER_INFO st) a of Some i \<Rightarrow> i
           | None \<Rightarrow> \<lparr>amt_bonded = 0, total_boost = 0, last_updated = now_seconds S env,
               boost_accrual_start_time = now_seconds S env\<rparr>)"
    and acc: "accumulate_boost S st env u = Inr u'"
    and st': "st' = st\<lparr>USER_INFO := put a (u'\<lparr>amt_bonded := amt_bonded u' + amount\<rparr>) (USER_INFO st)\<rparr>"
  show ?thesis
    using total_locked_put [OF inv, of a "u'\<lparr>amt_bonded := amt_bonded u' + amount\<rparr>"]
      accumulate_frame(1) [OF acc]
    by (auto simp: st' u split: option.splits)
qed

text \<open>What a successful unbond does.\<close>

lemma unbond_OkE:
  assumes "unbond S st env info amount = Inr (st', r)"
  obtains u amt where "get (USER_INFO st) (sender info) = Some u"
    and "amt = (case amount of Some a \<Rightarrow> a | None \<Rightarrow> amt_bonded u)" and "amt \<le> amt_bonded u"
    and "st' = st\<lparr>USER_INFO := (if amt_bonded u \<le> amt then del (sender info) (USER_INFO st)
          else put (sender info)
            (u\<lparr>amt_bonded := amt_bonded u - amt, total_boost := 0, last_updated := now_seconds S env,
               boost_accrual_start_time := now_seconds S env\<rparr>) (USER_INFO st))\<rparr>"
    and "r = add_messages (WasmExecute (xprism_token (CONFIG st)) (Cw20Transfer (sender info) amt)
        # (case launch_pool_contract (CONFIG st) of
             Some a \<Rightarrow> [WasmExecute a (LaunchPoolPrivilegedRefreshBoost (sender info))]
           | None \<Rightarrow> []))"
  using assms
  by (auto simp: unbond_def result_simps cw_laws Let_def split: if_splits)

lemma unbond_inv:
  assumes "unbond S st env info amount = Inr (st', r)" and "boost_inv st"
  shows "boost_inv st'"
  using assms(1)
  by (rule unbond_OkE) (use assms(2) in \<open>auto simp: boost_inv_del boost_inv_put user_ok_def\<close>)

lemma unbond_query_zero:
  assumes "unbond S st env info amount = Inr (st', r)" and wf: "wf_store (USER_INFO st)"
  shows "\<exists>u. query_get_boost S st' env (sender info) = Inr u \<and> total_boost u = 0"
  using assms(1)
  by (rule unbond_OkE)
    (auto simp: query_get_boost_def accumulate_boost_def get_put [OF wf] get_del default_user_info_def)

lemma unbond_locked:
  assumes "unbond S st env info amount = Inr (st', r)" and inv: "boost_inv st"
  shows "\<exists>amt. total_locked st' + amt = total_locked st
    \<and> hd r = new_sub_msg (WasmExecute (xprism_token (CONFIG st)) (Cw20Transfer (sender info) amt))"
  using assms(1)
proof (rule unbond_OkE)
  fix u amt
  assume u: "get (USER_INFO st) (sender info) = Some u" and le: "amt \<le> amt_bonded u"
    and st': "st' = st\<lparr>USER_INFO := (if amt_bonded u \<le> amt then del (sender info) (USER_INFO st)
          else put (sender info)
            (u\<lparr>amt_bonded := amt_bonded u - amt, total_boost := 0, last_updated := now_seconds S env,
               boost_accrual_start_time := now_seconds S env\<rparr>) (USER_INFO st))\<rparr>"
    and r: "r = add_messages (WasmExecute (xprism_token (CONFIG st)) (Cw20Transfer (sender info) amt)
        # (case launch_pool_contract (CONFIG st) of
             Some a \<Rightarrow> [WasmExecute a (LaunchPoolPrivilegedRefreshBoost (sender info))]
           | None \<Rightarrow> []))"
  have "total_locked st' + amt = total_locked st"
    using total_locked_del [OF inv, of "sender info"]
      total_locked_put [OF inv, of "sender info" "u\<lparr>amt_bonded := amt_bonded u - amt, total_boost := 0,
        last_updated := now_seconds S env, boost_accrual_start_time := now_seconds S env\<rparr>"] u le
    by (auto simp: st')
  then show ?thesis by (auto simp: r add_messages_def)
qed

lemma accumulate_typed:
  assumes "accumulate_boost S st env info = Inr info'" and "user_typed info" and "block_time env < U64"
  shows "user_typed info'"
proof -
  have "now_seconds S env < U64"
    using assms(3) div_le_dividend [of "block_time env" "10 ^ 9"] by (simp add: now_seconds_def seconds_law)
  then show ?thesis using assms(1,2)
    by (auto simp: accumulate_boost_def user_typed_def result_simps cw_laws min_less_iff_disj split: if_splits)
qed

lemma bond_typed:
  assumes "bond S D st env who amount = Inr (st', r)" and typed: "boost_typed st" and wf: "wf_store (USER_INFO st)"
    and t: "block_time env < U64"
  shows "boost_typed st'"
  using assms(1)
proof (rule bond_OkE)
  fix a u u'
  assume u: "u = (case get (USER_INFO st) a of Some i \<Rightarrow> i
           | None \<Rightarrow> \<lparr>amt_bonded = 0, total_boost = 0, last_updated = now_seconds S env,
               boost_accrual_start_time = now_seconds S env\<rparr>)"
    and acc: "accumulate_boost S st env u = Inr u'"
    and st': "st' = st\<lparr>USER_INFO := put a (u'\<lparr>amt_bonded := amt_bonded u' + amount\<rparr>) (USER_INFO st)\<rparr>"
    and fits: "amt_bonded u' + amount < U128"
  have now: "now_seconds S env < U64"
    using t div_le_dividend [of "block_time env" "10 ^ 9"] by (simp add: now_seconds_def seconds_law)
  have "user_typed u" using typed now wf
    by (auto simp: u boost_typed_def user_typed_def U128_def entries_get split: option.splits)
  from accumulate_typed [OF acc this t] fits
  have "user_typed (u'\<lparr>amt_bonded := amt_bonded u' + amount\<rparr>)" by (simp add: user_typed_def)
  then show ?thesis by (simp add: st' boost_typed_put [OF typed wf])
qed

lemma unbond_typed:
  assumes "unbond S st env info amount = Inr (st', r)" and typed: "boost_typed st" and wf: "wf_store (USER_INFO st)"
    and t: "block_time env < U64"
  shows "boost_typed st'"
  using assms(1)
proof (rule unbond_OkE)
  fix u amt
  assume u: "get (USER_INFO st) (sender info) = Some u"
    and st': "st' = st\<lparr>USER_INFO := (if amt_bonded u \<le> amt then del (sender info) (USER_INFO st)
          else put (sender info)
            (u\<lparr>amt_bonded := amt_bonded u - amt, total_boost := 0, last_updated := now_seconds S env,
               boost_accrual_start_time := now_seconds S env\<rparr>) (USER_INFO st))\<rparr>"
  have now: "now_seconds S env < U64"
    using t div_le_dividend [of "block_time env" "10 ^ 9"] by (simp add: now_seconds_def seconds_law)
  have "user_typed u" using typed u wf by (auto simp: boost_typed_def entries_get)
  then have "user_typed (u\<lparr>amt_bonded := amt_bonded u - amt, total_boost := 0, last_updated := now_seconds S env,
      boost_accrual_start_time := now_seconds S env\<rparr>)" using now by (auto simp: user_typed_def U128_def)
  then show ?thesis by (simp add: st' boost_typed_put [OF typed wf] boost_typed_del [OF typed])
qed

end

text \<open>The four optional changes of \<open>update_config\<close>, one after the other.\<close>

lemma update_config_OkE:
  assumes "update_config D st ow b m lp = Inr (st', r)"
  obtains c1 c2 c3 c4 where "r = []" and "st' = st\<lparr>CONFIG := c4\<rparr>"
    and "c1 = CONFIG st \<or> (\<exists>v. c1 = (CONFIG st)\<lparr>owner := v\<rparr>)"
    and "c2 = c1 \<or> (\<exists>b. b \<le> MAX_BOOST_PER_HOUR \<and> c2 = c1\<lparr>boost_per_hour := b\<rparr>)"
    and "c3 = c2 \<or> (\<exists>m. max_boost_per_xprism c2 < m \<and> c3 = c2\<lparr>max_boost_per_xprism := m\<rparr>)"
    and "c4 = c3 \<or> (\<exists>v. c4 = c3\<lparr>launch_pool_contract := v\<rparr>)"
proof -
  from assms obtain c1 c2 c3 c4 where
    st': "st' = st\<lparr>CONFIG := c4\<rparr>" "r = []"
    and c1: "(case ow of None \<Rightarrow> Ok (CONFIG st)
         | Some a \<Rightarrow> andThen (validate D a) (\<lambda>v. Ok ((CONFIG st)\<lparr>owner := v\<rparr>))) = Ok c1"
    and c2: "(case b of None \<Rightarrow> Ok c1
         | Some b \<Rightarrow> if b > MAX_BOOST_PER_HOUR then Fail InvalidBoostInterval
                    else Ok (c1\<lparr>boost_per_hour := b\<rparr>)) = Ok c2"
    and c3: "(case m of None \<Rightarrow> Ok c2
         | Some m \<Rightarrow> if m \<le> max_boost_per_xprism c2 then Fail InvalidMaxBoost
                    else Ok (c2\<lparr>max_boost_per_xprism := m\<rparr>)) = Ok c3"
    and c4: "(case lp of None \<Rightarrow> Ok c3
         | Some a \<Rightarrow> if a = [] then Ok (c3\<lparr>launch_pool_contract := None\<rparr>)
             else andThen (validate D a) (\<lambda>v. Ok (c3\<lparr>launch_pool_contract := Some v\<rparr>))) = Ok c4"
    unfolding update_config_def by (elim andThen_OkE) auto
  have "c1 = CONFIG st \<or> (\<exists>v. c1 = (CONFIG st)\<lparr>owner := v\<rparr>)"
    using c1 by (auto simp: result_simps split: option.splits)
  moreover have "c2 = c1 \<or> (\<exists>b. b \<le> MAX_BOOST_PER_HOUR \<and> c2 = c1\<lparr>boost_per_hour := b\<rparr>)"
    using c2 by (auto simp: not_less split: option.splits if_splits)
  moreover have "c3 = c2 \<or> (\<exists>m. max_boost_per_xprism c2 < m \<and> c3 = c2\<lparr>max_boost_per_xprism := m\<rparr>)"
    using c3 by (auto simp: not_le split: option.splits if_splits)
  moreover have "c4 = c3 \<or> (\<exists>v. c4 = c3\<lparr>launch_pool_contract := v\<rparr>)"
    using c4 by (auto simp: result_simps split: option.splits if_splits)
  ultimately show thesis using st' that by blast
qed

lemma update_config_max:
  assumes "update_config D st ow b m lp = Inr (st', r)"
  shows "max_boost_per_xprism (CONFIG st') = (case m of None \<Rightarrow> max_boost_per_xprism (CONFIG st) | Some k \<Rightarrow> k)"
  using assms unfolding update_config_def
  by (elim andThen_OkE) (auto simp: result_simps split: option.splits if_splits)

lemma update_config_frame:
  assumes "update_config D st ow b m lp = Inr (st', r)"
  shows "USER_INFO st' = USER_INFO st" and "r = []"
    and "max_boost_per_xprism (CONFIG st) \<le> max_boost_per_xprism (CONFIG st')"
    and "boost_per_hour (CONFIG st) \<le> MAX_BOOST_PER_HOUR \<Longrightarrow>
      boost_per_hour (CONFIG st') \<le> MAX_BOOST_PER_HOUR"
    and "xprism_token (CONFIG st') = xprism_token (CONFIG st)"
  using assms by (rule update_config_OkE; force)+

lemma update_config_inv:
  assumes "update_config D st ow b m lp = Inr (st', r)" and "boost_inv st"
  shows "boost_inv st'"
proof -
  have "user_ok (max_boost_per_xprism (CONFIG st')) u"
    if "user_ok (max_boost_per_xprism (CONFIG st)) u" for u
    using that update_config_frame(3) [OF assms(1)]
    by (auto simp: user_ok_def intro: order_trans mult_le_mono2)
  then show ?thesis using assms(2) update_config_frame [OF assms(1)]
    by (auto simp: boost_inv_def)
qed


section \<open>Properties\<close>

definition boost_example :: boost_state where
  "boost_example = \<lparr>CONFIG = \<lparr>owner = ''owner'', xprism_token = ''xprism'',
      boost_per_hour = 5 * 10 ^ 17, max_boost_per_xprism = 100, launch_pool_contract = Some ''pool''\<rparr>,
    USER_INFO = [(''alice'', \<lparr>amt_bonded = 1000, total_boost = 20, last_updated = 100,
      boost_accrual_start_time = 100\<rparr>)]\<rparr>"

lemmas boost_eval = unbond_def bond_def receive_cw20_def accumulate_boost_def update_config_def
  boost_example_def get_def del_def Let_def cw_eval

lemma boost_example_inv: "boost_inv boost_example"
  by (simp add: boost_inv_def boost_example_def user_ok_def wf_store_def MAX_BOOST_PER_HOUR_def
      DEC_ONE_def)

text \<open>
  Whatever message a caller executes on the boost contract, a successful call keeps the
  invariant: every stored user has tokens locked and a total boost of at most the locked
  amount times the maximum per token, and the hourly rate stays at most one.
\<close>

lemma boost_execute_inv:
  assumes "cosmwasm_std S" and "boost_inv st"
    and "execute S D from_binary st env info msg = Ok (st', r)"
  shows "boost_inv st'"
proof (cases msg)
  case (Receive m)
  then show ?thesis
    using assms(3) cosmwasm_std.bond_inv [OF assms(1) _ assms(2)]
    by (auto elim: receive_cw20_OkE split: if_splits)
next
  case (UpdateConfig ow b m lp)
  then show ?thesis
    using assms(3) update_config_inv [OF _ assms(2)] by (auto split: if_splits)
next
  case (Unbond amount)
  then show ?thesis
    using assms(3) cosmwasm_std.unbond_inv [OF assms(1) _ assms(2)] by auto
qed

lemma boost_execute_inv_witness:
  "\<exists>st' r. execute cosmwasm_0_16 empty_deps (\<lambda>_. Inr (Bond None)) boost_example (env_at 7300)
      (from_user ''xprism'') (Receive \<lparr>cw20_sender = ''alice'', cw20_amount = 40, cw20_msg = []\<rparr>)
    = Ok (st', r) \<and> boost_inv st' \<and> USER_INFO st' =
      [(''alice'', \<lparr>amt_bonded = 1040, total_boost = 1020, last_updated = 7300,
         boost_accrual_start_time = 100\<rparr>)]"
proof -
  let ?call = "execute cosmwasm_0_16 empty_deps (\<lambda>_. Inr (Bond None)) boost_example (env_at 7300)
      (from_user ''xprism'') (Receive \<lparr>cw20_sender = ''alice'', cw20_amount = 40, cw20_msg = []\<rparr>)"
  let ?st = "boost_example\<lparr>USER_INFO := [(''alice'', \<lparr>amt_bonded = 1040, total_boost = 1020,
      last_updated = 7300, boost_accrual_start_time = 100\<rparr>)]\<rparr>"
  have run: "?call = Ok (?st, [])" by (simp add: boost_eval)
  from boost_execute_inv [OF cosmwasm_0_16 boost_example_inv run] run
  show ?thesis by auto
qed

text \<open>
  The boost contract pays out exactly what it releases. A bond raises the sum of locked
  amounts by the tokens received, a configuration change leaves it alone, and an unbond
  lowers it by the very amount that its first message transfers to the caller.
\<close>

lemma boost_custody:
  assumes "cosmwasm_std S" and "boost_inv st"
    and "execute S D from_binary st env info msg = Ok (st', r)"
  shows "case msg of
      Receive m \<Rightarrow> total_locked st' = total_locked st + cw20_amount m \<and> r = []
    | UpdateConfig ow b m lp \<Rightarrow> total_locked st' = total_locked st \<and> r = []
    | Unbond amount \<Rightarrow> \<exists>amt. total_locked st' + amt = total_locked st
        \<and> hd r = new_sub_msg (WasmExecute (xprism_token (CONFIG st)) (Cw20Transfer (sender info) amt))
        \<and> (\<forall>a. amount = Some a \<longrightarrow> amt = a)"
proof (cases msg)
  case (Receive m)
  then obtain who where "bond S D st env who (cw20_amount m) = Ok (st', r)"
    using assms(3) by (auto elim: receive_cw20_OkE split: if_splits)
  then show ?thesis
    using cosmwasm_std.bond_locked [OF assms(1) _ assms(2)]
    by (auto simp: Receive elim: cosmwasm_std.bond_OkE [OF assms(1)])
next
  case (UpdateConfig ow b m lp)
  then have "update_config D st ow b m lp = Ok (st', r)"
    using assms(3) by (auto split: if_splits)
  from update_config_frame [OF this] show ?thesis
    by (simp add: UpdateConfig total_locked_def)
next
  case (Unbond amount)
  then have run: "unbond S st env info amount = Ok (st', r)" using assms(3) by simp
  show ?thesis
    using cosmwasm_std.unbond_locked [OF assms(1) run assms(2)] run
    by (auto simp: Unbond add_messages_def new_sub_msg_def elim!: cosmwasm_std.unbond_OkE [OF assms(1)])
qed

lemma boost_custody_witness:
  "\<exists>st' r. execute cosmwasm_0_16 empty_deps (\<lambda>_. Inr (Bond None)) boost_example (env_at 7300)
      (from_user ''alice'') (Unbond (Some 400)) = Ok (st', r)
    \<and> total_locked st' + 400 = total_locked boost_example
    \<and> hd r = new_sub_msg (WasmExecute ''xprism'' (Cw20Transfer ''alice'' 400))"
proof -
  obtain st' r where run: "execute cosmwasm_0_16 empty_deps (\<lambda>_. Inr (Bond None)) boost_example
      (env_at 7300) (from_user ''alice'') (Unbond (Some 400)) = Ok (st', r)"
    by (simp add: boost_eval)
  from boost_custody [OF cosmwasm_0_16 boost_example_inv run] run
  show ?thesis by (auto simp: boost_example_def from_user_def)
qed

text \<open>
  Unbonding any part of the stake forfeits the whole boost: right after a successful
  unbond, the boost the contract reports for the caller in the same block is zero, however
  much had been accrued.
\<close>

lemma boost_unbond_resets:
  assumes "cosmwasm_std S" and "boost_inv st"
    and "execute S D from_binary st env info (Unbond amount) = Ok (st', r)"
  shows "\<exists>u. query_get_boost S st' env (sender info) = Ok u \<and> total_boost u = 0"
  using assms cosmwasm_std.unbond_query_zero by (simp add: boost_inv_def)

lemma boost_unbond_resets_witness:
  "\<exists>st' r. execute cosmwasm_0_16 empty_deps (\<lambda>_. Inr (Bond None)) boost_example (env_at 7300)
      (from_user ''alice'') (Unbond (Some 1)) = Ok (st', r)
    \<and> (\<exists>u. query_get_boost cosmwasm_0_16 st' (env_at 7300) ''alice'' = Ok u \<and> total_boost u = 0)
    \<and> (\<exists>u. query_get_boost cosmwasm_0_16 boost_example (env_at 7300) ''alice'' = Ok u \<and> total_boost u = 1020)"
proof -
  obtain st' r where run: "execute cosmwasm_0_16 empty_deps (\<lambda>_. Inr (Bond None)) boost_example
      (env_at 7300) (from_user ''alice'') (Unbond (Some 1)) = Ok (st', r)"
    by (simp add: boost_eval)
  have before: "\<exists>u. query_get_boost cosmwasm_0_16 boost_example (env_at 7300) ''alice'' = Ok u
      \<and> total_boost u = 1020"
    by (simp add: query_get_boost_def boost_eval)
  from boost_unbond_resets [OF cosmwasm_0_16 boost_example_inv run]
  show ?thesis using run before by (auto simp: from_user_def)
qed

text \<open>
  C24: the boost contract is well typed. In every state it can reach through calls whose numbers fit their declared types,
  every number it stores fits its declared type too: the bonded amounts, the boosts and the two rates in 128 bits, the times
  in 64. The invariant on the boosts holds there as well.
\<close>

theorem boost_reachable_typed:
  assumes std: "cosmwasm_std S" and reach: "boost_reach S st"
  shows "boost_typed st \<and> boost_inv st"
  using reach
proof induction
  case (instantiated D msg st r)
  then have "boost_per_hour (CONFIG st) \<le> MAX_BOOST_PER_HOUR" "max_boost_per_xprism (CONFIG st) < U128" "USER_INFO st = []"
    by (auto simp: instantiate_boost_def result_simps split: if_splits)
  then show ?case by (simp add: boost_typed_def boost_inv_def wf_store_def MAX_BOOST_PER_HOUR_def DEC_ONE_def U128_def)
next
  case (executed st D fb env info m st' r)
  then have inv: "boost_inv st" "boost_typed st" "wf_store (USER_INFO st)" by (simp_all add: boost_inv_def)
  note inv' = boost_execute_inv [OF std inv(1) executed.hyps(2)]
  have "boost_typed st'"
  proof (cases m)
    case (Receive c)
    then show ?thesis using executed.hyps cosmwasm_std.bond_typed [OF std _ inv(2,3)]
      by (auto elim: receive_cw20_OkE split: if_splits)
  next
    case (Unbond amount)
    then show ?thesis using executed.hyps cosmwasm_std.unbond_typed [OF std _ inv(2,3)] by simp
  next
    case (UpdateConfig ow b mx lp)
    with executed.hyps have u: "update_config D st ow b mx lp = Inr (st', r)" by (simp split: if_splits)
    have "max_boost_per_xprism (CONFIG st') < U128"
      using update_config_max [OF u] inv(2) executed.hyps(4) UpdateConfig by (simp add: boost_typed_def split: option.splits)
    moreover have "boost_per_hour (CONFIG st') < U128"
      using inv' by (simp add: boost_inv_def MAX_BOOST_PER_HOUR_def DEC_ONE_def U128_def)
    ultimately show ?thesis using inv(2) update_config_frame(1) [OF u] by (simp add: boost_typed_def)
  qed
  with inv' show ?case by blast
qed

definition boost_instantiate_example :: instantiate_msg where
  "boost_instantiate_example = \<lparr>im_owner = ''owner'', im_xprism_token = ''xprism'', im_boost_per_hour = 5 * 10 ^ 17,
     im_max_boost_per_xprism = 100, im_launch_pool_contract = None\<rparr>"

theorem boost_reachable_typed_witness:
  "\<exists>st0 r0 st1 r1. instantiate_boost empty_deps boost_instantiate_example = Ok (st0, r0)
    \<and> execute cosmwasm_0_16 empty_deps (\<lambda>_. Inr (Bond None)) st0 (env_at 100) (from_user ''xprism'')
        (Receive \<lparr>cw20_sender = ''alice'', cw20_amount = 40, cw20_msg = []\<rparr>) = Ok (st1, r1)
    \<and> boost_typed st1 \<and> total_locked st1 = 40"
proof -
  let ?m = "Receive \<lparr>cw20_sender = ''alice'', cw20_amount = 40, cw20_msg = []\<rparr>"
  obtain st0 r0 st1 r1 where run0: "instantiate_boost empty_deps boost_instantiate_example = Ok (st0, r0)"
    and run1: "execute cosmwasm_0_16 empty_deps (\<lambda>_. Inr (Bond None)) st0 (env_at 100) (from_user ''xprism'') ?m = Ok (st1, r1)"
    and locked: "total_locked st1 = 40"
    by (simp add: instantiate_boost_def boost_instantiate_example_def MAX_BOOST_PER_HOUR_def total_locked_def boost_eval)
  have "im_max_boost_per_xprism boost_instantiate_example < U128" "block_time (env_at 100) < U64" "msg_typed ?m"
    by (simp_all add: boost_instantiate_example_def cw_eval)
  then have "boost_reach cosmwasm_0_16 st1"
    by (intro boost_reach.executed [OF boost_reach.instantiated [OF run0] run1]) simp_all
  from boost_reachable_typed [OF cosmwasm_0_16 this] run0 run1 locked show ?thesis by blast
qed

end
