(* ===== verification/Parse_Reply.thy ===== *)
theory Parse_Reply
  imports Cosmwasm "HOL-Library.Word"
begin

text \<open>
  \<open>packages/prism_protocol/src/internal/parse_reply.rs\<close>: the decoder of the protobuf data that a
  reply to an instantiate or execute sub-message carries. The vault finds the address of a token
  it has just instantiated with it. A byte is an \<open>8 word\<close>; a \<open>String\<close> is the list of its
  UTF-8 bytes. Against it stands the encoder that the protobuf format prescribes, and the round
  trip between them.
\<close>

unbundle bit_operations_syntax


section \<open>Definitions\<close>

type_synonym byte = "8 word"

datatype parse_reply_error = SubMsgFailure string | ParseFailure string | BrokenUtf8

record msg_instantiate_contract_response =
  instantiated_address :: string
  instantiate_data :: "byte list option"

record msg_execute_contract_response =
  execute_data :: "byte list option"

text \<open>A reply: the id of the sub-message, and its error or the data it returned.\<close>

record reply =
  reply_id :: nat
  reply_result :: "string + byte list option"

definition WIRE_TYPE_LENGTH_DELIMITED :: byte where
  "WIRE_TYPE_LENGTH_DELIMITED = 2"

definition VARINT_MAX_BYTES :: nat where
  "VARINT_MAX_BYTES = 9"

definition decode_failure :: "byte \<Rightarrow> string \<Rightarrow> parse_reply_error" where
  "decode_failure field_number what = ParseFailure
     (''failed to decode Protobuf message: field #'' @ show_nat (unat field_number) @ '': '' @ what)"

subsection \<open>Varints\<close>

text \<open>
  The loop over the bytes of a varint. The shift works on \<open>u64\<close>; the addition panics on overflow.
  The result is the index of the last byte, or the limit, and the value.
\<close>

function varint_loop :: "byte \<Rightarrow> byte list \<Rightarrow> nat \<Rightarrow> nat \<Rightarrow> (parse_reply_error, nat \<times> nat) result" where
  "varint_loop field_number data i len =
     (if i < VARINT_MAX_BYTES then
        if length data = i then Fail (decode_failure field_number ''varint data too short'')
        else if length data < i then Abort
        else andThen (u64_add len (unat (push_bit (i * 7) (ucast (data ! i AND 0x7f) :: 64 word)))) (\<lambda>len.
          if data ! i AND 0x80 = 0 then Ok (i, len)
          else varint_loop field_number data (i + 1) len)
      else Ok (i, len))"
  by pat_completeness auto
termination by (relation "measure (\<lambda>(f, data, i, len). VARINT_MAX_BYTES - i)") auto

declare varint_loop.simps [simp del]

text \<open>
  The value and the bytes after the varint. \<open>len as usize\<close> keeps the lower 32 bits: a contract
  runs on \<open>wasm32\<close>.
\<close>

definition USIZE :: nat where
  "USIZE = 2 ^ 32"

definition parse_protobuf_varint ::
  "byte list \<Rightarrow> byte \<Rightarrow> (parse_reply_error, nat \<times> byte list) result" where
  "parse_protobuf_varint data field_number =
     andThen (varint_loop field_number data 0 0) (\<lambda>(i, len).
       if i = VARINT_MAX_BYTES then Fail (decode_failure field_number ''varint data too long'')
       else Ok (len mod USIZE, drop (i + 1) data))"

subsection \<open>Fields\<close>

text \<open>A length-prefixed field and the bytes after it.\<close>

definition parse_protobuf_length_prefixed ::
  "byte list \<Rightarrow> byte \<Rightarrow> (parse_reply_error, byte list \<times> byte list) result" where
  "parse_protobuf_length_prefixed data field_number =
     (case data of
        [] \<Rightarrow> Ok ([], [])
      | tag # rest \<Rightarrow>
          let wire_type = tag AND 0b11; field = drop_bit 3 tag in
          if field \<noteq> field_number then
            Fail (ParseFailure (''failed to decode Protobuf message: invalid field #''
              @ show_nat (unat field) @ '' for field #'' @ show_nat (unat field_number)))
          else if wire_type \<noteq> WIRE_TYPE_LENGTH_DELIMITED then
            Fail (decode_failure field_number (''invalid wire type '' @ show_nat (unat wire_type)))
          else andThen (parse_protobuf_varint rest field_number) (\<lambda>(len, rest).
            if length rest < len then Fail (decode_failure field_number ''message too short'')
            else Ok (take len rest, drop len rest)))"

text \<open>\<open>String::from_utf8\<close>: the well-formed byte sequences of UTF-8.\<close>

definition is_cont :: "nat \<Rightarrow> bool" where
  "is_cont b \<longleftrightarrow> 0x80 \<le> b \<and> b \<le> 0xBF"

fun utf8_valid :: "nat list \<Rightarrow> bool" where
  "utf8_valid [] = True"
| "utf8_valid (a # bs) =
     (if a < 0x80 then utf8_valid bs
      else if 0xC2 \<le> a \<and> a \<le> 0xDF then
        (case bs of b # cs \<Rightarrow> is_cont b \<and> utf8_valid cs | _ \<Rightarrow> False)
      else if 0xE0 \<le> a \<and> a \<le> 0xEF then
        (case bs of
           b # c # ds \<Rightarrow> is_cont b \<and> (a = 0xE0 \<longrightarrow> 0xA0 \<le> b) \<and> (a = 0xED \<longrightarrow> b \<le> 0x9F)
             \<and> is_cont c \<and> utf8_valid ds
         | _ \<Rightarrow> False)
      else if 0xF0 \<le> a \<and> a \<le> 0xF4 then
        (case bs of
           b # c # d # es \<Rightarrow> is_cont b \<and> (a = 0xF0 \<longrightarrow> 0x90 \<le> b) \<and> (a = 0xF4 \<longrightarrow> b \<le> 0x8F)
             \<and> is_cont c \<and> is_cont d \<and> utf8_valid es
         | _ \<Rightarrow> False)
      else False)"

definition from_utf8 :: "byte list \<Rightarrow> (parse_reply_error, string) result" where
  "from_utf8 bytes =
     (if utf8_valid (map unat bytes) then Ok (map (\<lambda>b. char_of (unat b)) bytes) else Fail BrokenUtf8)"

definition parse_protobuf_string ::
  "byte list \<Rightarrow> byte \<Rightarrow> (parse_reply_error, string \<times> byte list) result" where
  "parse_protobuf_string data field_number =
     andThen (parse_protobuf_length_prefixed data field_number) (\<lambda>(str_field, data).
     andThen (from_utf8 str_field) (\<lambda>s. Ok (s, data)))"

definition parse_protobuf_bytes ::
  "byte list \<Rightarrow> byte \<Rightarrow> (parse_reply_error, byte list option \<times> byte list) result" where
  "parse_protobuf_bytes data field_number =
     andThen (parse_protobuf_length_prefixed data field_number) (\<lambda>(bytes_field, data).
     if bytes_field = [] then Ok (None, data) else Ok (Some bytes_field, data))"

subsection \<open>Replies\<close>

definition parse_instantiate_response_data ::
  "byte list \<Rightarrow> (parse_reply_error, msg_instantiate_contract_response) result" where
  "parse_instantiate_response_data data =
     andThen (parse_protobuf_string data 1) (\<lambda>(contract_addr, data).
     andThen (parse_protobuf_bytes data 2) (\<lambda>(data, _).
     Ok \<lparr>instantiated_address = contract_addr, instantiate_data = data\<rparr>))"

definition parse_execute_response_data ::
  "byte list \<Rightarrow> (parse_reply_error, msg_execute_contract_response) result" where
  "parse_execute_response_data data =
     andThen (parse_protobuf_bytes data 1) (\<lambda>(inner_data, _). Ok \<lparr>execute_data = inner_data\<rparr>)"

definition reply_data :: "reply \<Rightarrow> (parse_reply_error, byte list) result" where
  "reply_data msg =
     (case reply_result msg of
        Inl e \<Rightarrow> Fail (SubMsgFailure e)
      | Inr None \<Rightarrow> Fail (ParseFailure ''Missing reply data'')
      | Inr (Some data) \<Rightarrow> Ok data)"

definition parse_reply_instantiate_data ::
  "reply \<Rightarrow> (parse_reply_error, msg_instantiate_contract_response) result" where
  "parse_reply_instantiate_data msg = andThen (reply_data msg) parse_instantiate_response_data"

definition parse_reply_execute_data ::
  "reply \<Rightarrow> (parse_reply_error, msg_execute_contract_response) result" where
  "parse_reply_execute_data msg = andThen (reply_data msg) parse_execute_response_data"

subsection \<open>The encoding\<close>

text \<open>Protobuf: base-128 groups with the continuation bit, and a tag and a length per field.\<close>

fun encode_varint :: "nat \<Rightarrow> byte list" where
  "encode_varint n = (if n < 128 then [of_nat n] else of_nat (n mod 128 + 128) # encode_varint (n div 128))"

declare encode_varint.simps [simp del]

definition encode_field :: "nat \<Rightarrow> byte list \<Rightarrow> byte list" where
  "encode_field n bytes = of_nat (8 * n + 2) # encode_varint (length bytes) @ bytes"

definition encode_instantiate_response :: "byte list \<Rightarrow> byte list option \<Rightarrow> byte list" where
  "encode_instantiate_response address payload =
     encode_field 1 address @ (case payload of None \<Rightarrow> [] | Some d \<Rightarrow> encode_field 2 d)"


section \<open>Lemmas\<close>

text \<open>The payload and the continuation bit of a byte.\<close>

lemma byte_payload: "unat ((of_nat n :: byte) AND 0x7f) = n mod 128"
proof -
  have "(of_nat n :: byte) AND 0x7f = take_bit 7 (of_nat n)"
    by (simp add: take_bit_eq_mask mask_eq_exp_minus_1 del: take_bit_of_nat)
  then have "unat ((of_nat n :: byte) AND 0x7f) = take_bit 7 (unat (of_nat n :: byte))"
    by (simp only: unsigned_take_bit_eq)
  also have "\<dots> = n mod 2 ^ 8 mod 2 ^ 7"
    by (simp add: unat_of_nat take_bit_eq_mod)
  also have "\<dots> = n mod 2 ^ 7" by (rule mod_mod_cancel) (simp add: le_imp_power_dvd)
  finally show ?thesis by simp
qed

lemma byte_continues: "(of_nat n :: byte) AND 0x80 = 0 \<longleftrightarrow> even (n div 128)"
proof -
  have "(0x80 :: byte) = 2 ^ 7" by simp
  then have "(of_nat n :: byte) AND 0x80 = 0 \<longleftrightarrow> \<not> bit (of_nat n :: byte) 7"
    by (simp only: and_exp_eq_0_iff_not_bit)
  also have "bit (of_nat n :: byte) 7 \<longleftrightarrow> bit n 7"
    by (simp only: bit_of_nat_iff) simp
  finally show ?thesis by (simp add: bit_iff_odd)
qed

text \<open>What a payload of seven bits adds at position \<open>i\<close>.\<close>

lemma shifted_payload:
  assumes "i < 9" and "unat w < 128"
  shows "unat (push_bit (i * 7) (ucast (w :: byte) :: 64 word)) = unat w * 2 ^ (i * 7)"
proof -
  have "i \<le> 8" using assms(1) by simp
  then have pow: "(2 :: nat) ^ (i * 7) \<le> 2 ^ 56" by (intro power_increasing) simp_all
  have "unat w * 2 ^ (i * 7) < 128 * 2 ^ 56"
    using assms(2) pow by (intro mult_less_le_imp_less) simp_all
  then have small: "unat w * 2 ^ (i * 7) < 2 ^ 64" by simp
  have "unat (ucast w :: 64 word) = unat w"
    using assms(2) by (simp add: unsigned_ucast_eq take_bit_eq_mod)
  moreover have "unat (push_bit (i * 7) x) = unat x * 2 ^ (i * 7) mod 2 ^ 64" for x :: "64 word"
    by (simp only: unsigned_push_bit_eq) (simp add: take_bit_eq_mod push_bit_eq_mult)
  ultimately show ?thesis using small by simp
qed

lemma encode_varint_length:
  assumes "n < 128 ^ k" and "0 < k"
  shows "length (encode_varint n) \<le> k"
  using assms
proof (induction k arbitrary: n)
  case (Suc k)
  show ?case
  proof (cases "n < 128")
    case True
    then show ?thesis by (simp add: encode_varint.simps)
  next
    case False
    then have "0 < k" using Suc.prems(1) by (cases k) auto
    moreover have "n div 128 < 128 ^ k" using Suc.prems(1) by (simp add: div_less_iff_less_mult mult.commute)
    ultimately have "length (encode_varint (n div 128)) \<le> k" by (rule Suc.IH [rotated])
    then show ?thesis using False by (subst encode_varint.simps) simp
  qed
qed simp

lemma encode_varint_nonempty: "encode_varint n \<noteq> []"
  by (subst encode_varint.simps) simp

text \<open>The loop reads back an encoded number, whatever follows it.\<close>

lemma varint_loop_encoded:
  assumes "length pre + length (encode_varint n) \<le> VARINT_MAX_BYTES"
    and "acc + n * 128 ^ length pre < U64"
  shows "varint_loop f (pre @ encode_varint n @ rest) (length pre) acc
    = Ok (length pre + length (encode_varint n) - 1, acc + n * 128 ^ length pre)"
  using assms
proof (induction n arbitrary: pre acc rule: encode_varint.induct)
  case (1 n)
  have nine: "length pre < VARINT_MAX_BYTES"
    using 1(2) encode_varint_nonempty [of n] by (cases "encode_varint n") auto
  have pow: "(2 :: nat) ^ (length pre * 7) = 128 ^ length pre"
    by (subst mult.commute) (simp add: power_mult)
  show ?case
  proof (cases "n < 128")
    case True
    then have "unat (push_bit (length pre * 7) (ucast ((of_nat n :: byte) AND 0x7f) :: 64 word)) = n * 128 ^ length pre"
      using nine shifted_payload [of "length pre" "(of_nat n :: byte) AND 0x7f"]
      by (simp add: byte_payload VARINT_MAX_BYTES_def pow)
    then show ?thesis
      using True nine 1(3) byte_continues [of n]
      by (subst varint_loop.simps) (simp add: encode_varint.simps u64_add_def)
  next
    case False
    let ?b = "of_nat (n mod 128 + 128) :: byte"
    let ?acc = "acc + n mod 128 * 128 ^ length pre"
    have enc: "encode_varint n = ?b # encode_varint (n div 128)"
      using False by (simp add: encode_varint.simps)
    have split: "n * 128 ^ length pre = n mod 128 * 128 ^ length pre + n div 128 * 128 ^ length (pre @ [?b])"
    proof -
      have "n * 128 ^ length pre = (n mod 128 + n div 128 * 128) * 128 ^ length pre" by simp
      also have "\<dots> = n mod 128 * 128 ^ length pre + n div 128 * (128 * 128 ^ length pre)"
        by (simp only: add_mult_distrib mult.assoc)
      finally show ?thesis by simp
    qed
    have payload: "unat (?b AND 0x7f) = n mod 128" by (simp only: byte_payload) simp
    have shifted: "unat (push_bit (length pre * 7) (ucast (?b AND 0x7f) :: 64 word)) = n mod 128 * 128 ^ length pre"
      using nine shifted_payload [of "length pre" "?b AND 0x7f"]
      by (simp only: payload VARINT_MAX_BYTES_def pow)
    have more: "?b AND 0x80 \<noteq> 0" by (simp only: byte_continues) (simp add: div_add1_eq)
    have "varint_loop f ((pre @ [?b]) @ encode_varint (n div 128) @ rest) (length (pre @ [?b])) ?acc
      = Ok (length (pre @ [?b]) + length (encode_varint (n div 128)) - 1,
            ?acc + n div 128 * 128 ^ length (pre @ [?b]))"
      using 1(2,3) False by (intro 1(1)) (simp_all add: enc split)
    then have rec: "varint_loop f (pre @ encode_varint n @ rest) (length pre + 1) ?acc
      = Ok (length pre + length (encode_varint n) - 1, acc + n * 128 ^ length pre)"
      by (simp add: enc split)
    have "?acc < U64" using 1(3) split by simp
    then show ?thesis
      using nine rec shifted more
      by (subst varint_loop.simps) (simp add: enc u64_add_def nth_append)
  qed
qed

lemma parse_varint_encoded:
  assumes "n < USIZE"
  shows "parse_protobuf_varint (encode_varint n @ rest) f = Ok (n, rest)"
proof -
  have "length (encode_varint n) \<le> 5" using assms by (intro encode_varint_length) (simp_all add: USIZE_def)
  moreover have "varint_loop f ([] @ encode_varint n @ rest) (length ([] :: byte list)) 0
    = Ok (length ([] :: byte list) + length (encode_varint n) - 1, 0 + n * 128 ^ length ([] :: byte list))"
    using calculation assms by (intro varint_loop_encoded) (simp_all add: VARINT_MAX_BYTES_def U64_def USIZE_def)
  ultimately show ?thesis
    using assms encode_varint_nonempty [of n]
    by (simp add: parse_protobuf_varint_def VARINT_MAX_BYTES_def)
qed

lemma parse_field_encoded:
  assumes "length bytes < USIZE" and "n < 32"
  shows "parse_protobuf_length_prefixed (encode_field n bytes @ rest) (of_nat n) = Ok (bytes, rest)"
proof -
  have tag: "unat (of_nat (8 * n + 2) :: byte) = 8 * n + 2"
    using assms(2) by (simp only: unat_of_nat) simp
  have "drop_bit 3 (of_nat (8 * n + 2) :: byte) = of_nat n"
    by (simp only: word_unat_eq_iff unsigned_drop_bit_eq tag)
      (use assms(2) in \<open>simp add: drop_bit_eq_div take_bit_eq_mod unat_of_nat\<close>)
  moreover have "(of_nat (8 * n + 2) :: byte) AND 0b11 = 2"
  proof -
    have "(of_nat (8 * n + 2) :: byte) AND 0b11 = take_bit 2 (of_nat (8 * n + 2))"
      by (simp add: take_bit_eq_mask mask_eq_exp_minus_1 del: take_bit_of_nat)
    also have "\<dots> = 2"
      by (simp only: word_unat_eq_iff unsigned_take_bit_eq tag) (simp add: take_bit_eq_mod, presburger)
    finally show ?thesis .
  qed
  ultimately show ?thesis
    using parse_varint_encoded [OF assms(1)]
    by (simp add: parse_protobuf_length_prefixed_def encode_field_def WIRE_TYPE_LENGTH_DELIMITED_def)
qed

text \<open>The loop stays within its input and within 63 bits, so it never panics.\<close>

lemma varint_loop_no_panic:
  assumes "i \<le> length data" and "len < 2 ^ (i * 7)"
  shows "varint_loop f data i len \<noteq> Abort"
  using assms
proof (induction "VARINT_MAX_BYTES - i" arbitrary: i len)
  case 0
  then show ?case by (subst varint_loop.simps) simp
next
  case (Suc n)
  show ?case
  proof (cases "length data = i")
    case True
    with Suc.hyps(2) show ?thesis by (subst varint_loop.simps) simp
  next
    case False
    let ?x = "unat (push_bit (i * 7) (ucast (data ! i AND 0x7f) :: 64 word))"
    have nine: "i < 9" using Suc.hyps(2) by (simp add: VARINT_MAX_BYTES_def)
    have payload: "unat (data ! i AND 0x7f) < 128"
      using byte_payload [of "unat (data ! i)"] by simp
    have x: "?x = unat (data ! i AND 0x7f) * 2 ^ (i * 7)" by (rule shifted_payload [OF nine payload])
    have "len + ?x < 2 ^ (i * 7) + unat (data ! i AND 0x7f) * 2 ^ (i * 7)"
      unfolding x using Suc.prems(2) by simp
    also have "\<dots> = (unat (data ! i AND 0x7f) + 1) * 2 ^ (i * 7)" by simp
    also have "\<dots> \<le> 128 * 2 ^ (i * 7)" using payload by (intro mult_le_mono1) simp
    also have "\<dots> = 2 ^ ((i + 1) * 7)" by (simp add: power_add)
    finally have bound: "len + ?x < 2 ^ ((i + 1) * 7)" .
    have "(2 :: nat) ^ ((i + 1) * 7) \<le> 2 ^ 63" using nine by (intro power_increasing) simp_all
    then have ok: "len + ?x < U64" using bound by (simp add: U64_def)
    have "varint_loop f data (i + 1) (len + ?x) \<noteq> Abort"
      using Suc.hyps(2) Suc.prems(1) False bound by (intro Suc.hyps(1)) simp_all
    then show ?thesis
      using ok False Suc.prems(1) by (subst varint_loop.simps) (simp add: u64_add_def)
  qed
qed

lemma parse_field_no_panic: "parse_protobuf_length_prefixed data f \<noteq> Abort"
proof -
  have "parse_protobuf_varint rest f \<noteq> Abort" for rest
    using varint_loop_no_panic [of 0 rest 0 f]
    by (auto simp: parse_protobuf_varint_def andThen_Inl_iff split: if_splits)
  then show ?thesis
    by (auto simp: parse_protobuf_length_prefixed_def andThen_Inl_iff Let_def split: list.splits if_splits)
qed


text \<open>The whole response.\<close>

lemma parse_response_encoded:
  assumes "utf8_valid (map unat address)" and "length address < USIZE"
    and "case payload of None \<Rightarrow> True | Some d \<Rightarrow> d \<noteq> [] \<and> length d < USIZE"
  shows "parse_reply_instantiate_data
      \<lparr>reply_id = n, reply_result = Inr (Some (encode_instantiate_response address payload))\<rparr>
    = Ok \<lparr>instantiated_address = map (\<lambda>b. char_of (unat b)) address, instantiate_data = payload\<rparr>"
proof -
  have first: "parse_protobuf_length_prefixed (encode_field 1 address @ rest) 1 = Ok (address, rest)" for rest
    using parse_field_encoded [OF assms(2), of 1] by simp
  have second: "parse_protobuf_length_prefixed (encode_field 2 d) 2 = Ok (d, [])" if "length d < USIZE" for d
    using parse_field_encoded [OF that, of 2 "[]"] by simp
  show ?thesis
  proof (cases payload)
    case None
    then show ?thesis using assms(1) first [of "[]"]
      by (simp add: parse_reply_instantiate_data_def reply_data_def parse_instantiate_response_data_def
          parse_protobuf_string_def parse_protobuf_bytes_def from_utf8_def encode_instantiate_response_def)
        (simp add: parse_protobuf_length_prefixed_def)
  next
    case (Some d)
    then show ?thesis using assms first second
      by (simp add: parse_reply_instantiate_data_def reply_data_def parse_instantiate_response_data_def
          parse_protobuf_string_def parse_protobuf_bytes_def from_utf8_def encode_instantiate_response_def)
  qed
qed


section \<open>Properties\<close>

text \<open>
  C39: the decoder reads back what the protobuf format encodes: for a token address that is valid
  UTF-8 and an optional non-empty payload, each shorter than the 32-bit address space, decoding the
  encoded reply gives exactly that address and that payload.
\<close>

theorem parse_reply_roundtrip:
  assumes "utf8_valid (map unat address)" and "length address < USIZE"
    and "case payload of None \<Rightarrow> True | Some d \<Rightarrow> d \<noteq> [] \<and> length d < USIZE"
  shows "parse_reply_instantiate_data
      \<lparr>reply_id = n, reply_result = Inr (Some (encode_instantiate_response address payload))\<rparr>
    = Ok \<lparr>instantiated_address = map (\<lambda>b. char_of (unat b)) address, instantiate_data = payload\<rparr>"
  using assms by (rule parse_response_encoded)

theorem parse_reply_roundtrip_witness:
  "parse_reply_instantiate_data
      \<lparr>reply_id = 0, reply_result = Inr (Some (encode_instantiate_response [0x61, 0x62] (Some [0xff])))\<rparr>
    = Ok \<lparr>instantiated_address = ''ab'', instantiate_data = Some [0xff]\<rparr>
    \<and> encode_instantiate_response [0x61, 0x62] (Some [0xff]) = [0x0a, 2, 0x61, 0x62, 0x12, 1, 0xff]"
proof -
  have "encode_instantiate_response [0x61, 0x62] (Some [0xff]) = [0x0a, 2, 0x61, 0x62, 0x12, 1, 0xff]"
    by (simp add: encode_instantiate_response_def encode_field_def encode_varint.simps)
  then show ?thesis
    using parse_reply_roundtrip [of "[0x61, 0x62]" "Some [0xff]" 0] by (simp add: USIZE_def char_of_def bit_0)
qed

text \<open>
  C40: decoding a reply never panics, whatever bytes it carries, for instantiations and for executions: a failed
  sub-message gives the error with its text, a reply without data the error that says so, and any bytes give either a
  response or an error value, since the accumulator of the varint never overflows and no index is out of range.
\<close>

theorem parse_reply_no_panic:
  "case reply_result msg of
     Inl e \<Rightarrow> parse_reply_instantiate_data msg = Fail (SubMsgFailure e) \<and> parse_reply_execute_data msg = Fail (SubMsgFailure e)
   | Inr None \<Rightarrow> parse_reply_instantiate_data msg = Fail (ParseFailure ''Missing reply data'')
       \<and> parse_reply_execute_data msg = Fail (ParseFailure ''Missing reply data'')
   | Inr (Some data) \<Rightarrow> parse_reply_instantiate_data msg \<noteq> Abort \<and> parse_reply_execute_data msg \<noteq> Abort"
proof -
  have "parse_protobuf_string data f \<noteq> Abort" "parse_protobuf_bytes data f \<noteq> Abort" for data f
    using parse_field_no_panic [of data f]
    by (auto simp: parse_protobuf_string_def parse_protobuf_bytes_def from_utf8_def andThen_Inl_iff
        split: if_splits)
  then show ?thesis
    by (auto simp: parse_reply_instantiate_data_def parse_reply_execute_data_def reply_data_def
        parse_instantiate_response_data_def parse_execute_response_data_def andThen_Inl_iff split: sum.splits option.splits)
qed

end
