(* ===== verification/Gov_State.thy ===== *)
theory Gov_State
  imports Cosmwasm
begin

text \<open>
  \<open>contracts/prism-gov\<close>, data and storage (\<open>state.rs\<close>, \<open>packages/prism_protocol/src/gov.rs\<close>). The
  governance contract issues xPRISM for PRISM, takes staked xPRISM as voting power and runs polls
  that execute a message when they pass. Numeric keys are stored big-endian, so their byte order is
  the order of the numbers; a canonical address is the list of its bytes.
\<close>


section \<open>Definitions\<close>

subsection \<open>Data\<close>

datatype poll_status = InProgress | Passed | Rejected | Executed | Failed

fun status_to_string :: "poll_status \<Rightarrow> string" where
  "status_to_string InProgress = ''InProgress''"
| "status_to_string Passed = ''Passed''"
| "status_to_string Rejected = ''Rejected''"
| "status_to_string Executed = ''Executed''"
| "status_to_string Failed = ''Failed''"

datatype vote_option = Yes | No | Abstain

record voter_info =
  vote :: vote_option
  balance :: nat

record poll_execute_data =
  exec_contract :: addr
  exec_body :: binary

record config =
  owner :: addr
  prism_token :: addr
  xprism_token :: "addr option"
  quorum :: decimal
  threshold :: decimal
  voting_period :: nat
  effective_delay :: nat
  proposal_deposit :: nat
  snapshot_period :: nat
  redemption_time :: nat
  poll_gas_limit :: nat

record voting_token_manager =
  deposit :: nat
  locked_balance :: "(nat \<times> voter_info) list"

record poll =
  poll_id :: nat
  creator :: addr
  status :: poll_status
  yes_votes :: nat
  no_votes :: nat
  abstain_votes :: nat
  end_time :: nat
  title :: string
  description :: string
  link :: "string option"
  execute_data :: "poll_execute_data option"
  deposit_amount :: nat
  supply_snapshot :: "nat option"
  required_quorum :: decimal
  required_threshold :: decimal

record gov =
  CONFIG :: config
  TMP_POLL_ID :: "nat option"
  LAST_POLL_ID :: nat
  POLL_INDEXER :: "(string \<times> nat, bool) store"
  POLL_VOTER :: "(nat \<times> addr, voter_info) store"
  POLL :: "(nat, poll) store"
  BANK :: "(addr, voting_token_manager) store"
  WITHDRAW_ORDERS :: "(addr \<times> nat, nat \<times> nat) store"
  TOTAL_PENDING_WITHDRAW :: "nat \<times> nat"

type_synonym gov_result = "(std_error, gov \<times> response) result"

datatype order_by = Asc | Desc

definition default_manager :: voting_token_manager where
  "default_manager = \<lparr>deposit = 0, locked_balance = []\<rparr>"

definition MAX_LIMIT :: nat where
  "MAX_LIMIT = 30"

definition DEFAULT_LIMIT :: nat where
  "DEFAULT_LIMIT = 10"

definition page_limit :: "nat option \<Rightarrow> nat" where
  "page_limit limit = min (case limit of Some l \<Rightarrow> l | None \<Rightarrow> DEFAULT_LIMIT) MAX_LIMIT"

subsection \<open>Storage\<close>

definition read_tmp_poll_id :: "gov \<Rightarrow> (std_error, nat) result" where
  "read_tmp_poll_id g = or_err NotFound (TMP_POLL_ID g)"

definition pop_last_poll_id :: "gov \<Rightarrow> (std_error, gov \<times> nat) result" where
  "pop_last_poll_id g =
     andThen (u64_add (LAST_POLL_ID g) 1) (\<lambda>n. Ok (g\<lparr>LAST_POLL_ID := n\<rparr>, LAST_POLL_ID g))"

definition load_poll :: "gov \<Rightarrow> nat \<Rightarrow> (std_error, poll) result" where
  "load_poll g pid = or_err NotFound (get (POLL g) pid)"

definition save_poll :: "nat \<Rightarrow> poll \<Rightarrow> gov \<Rightarrow> gov" where
  "save_poll pid p g = g\<lparr>POLL := put pid p (POLL g)\<rparr>"

definition save_index :: "poll_status \<Rightarrow> nat \<Rightarrow> gov \<Rightarrow> gov" where
  "save_index s pid g = g\<lparr>POLL_INDEXER := put (status_to_string s, pid) True (POLL_INDEXER g)\<rparr>"

definition remove_index :: "poll_status \<Rightarrow> nat \<Rightarrow> gov \<Rightarrow> gov" where
  "remove_index s pid g = g\<lparr>POLL_INDEXER := del (status_to_string s, pid) (POLL_INDEXER g)\<rparr>"

text \<open>A page of a bucket: ascending after a key, or descending below it (the default).\<close>

definition page :: "'k::linorder option \<Rightarrow> nat option \<Rightarrow> order_by option \<Rightarrow> ('k, 'v) store \<Rightarrow> ('k \<times> 'v) list" where
  "page start_after limit order s =
     take (page_limit limit)
       (case order of Some Asc \<Rightarrow> range_from start_after s | _ \<Rightarrow> rev (range_below start_after s))"

text \<open>
  The start of an ascending page of voters is the address with a byte \<open>1\<close> appended, included.
\<close>

definition calc_range_start_addr :: "addr option \<Rightarrow> addr option" where
  "calc_range_start_addr start_after = map_option (\<lambda>a. a @ [char_of (1 :: nat)]) start_after"

definition calc_range_end_addr :: "addr option \<Rightarrow> addr option" where
  "calc_range_end_addr start_after = map_option (\<lambda>a. a) start_after"

definition read_poll_voters ::
  "gov \<Rightarrow> nat \<Rightarrow> addr option \<Rightarrow> nat option \<Rightarrow> order_by option \<Rightarrow> (addr \<times> voter_info) list" where
  "read_poll_voters g pid start_after limit order =
     take (page_limit limit)
       (case order of
          Some Asc \<Rightarrow> (case calc_range_start_addr start_after of None \<Rightarrow> sub_range pid (POLL_VOTER g)
            | Some start \<Rightarrow> filter (\<lambda>e. start \<le> fst e) (sub_range pid (POLL_VOTER g)))
        | _ \<Rightarrow> rev (range_below (calc_range_end_addr start_after) (sub_range pid (POLL_VOTER g))))"

definition read_polls ::
  "gov \<Rightarrow> poll_status option \<Rightarrow> nat option \<Rightarrow> nat option \<Rightarrow> order_by option \<Rightarrow> (std_error, poll list) result" where
  "read_polls g filt start_after limit order =
     (case filt of
        Some s \<Rightarrow> mapM (\<lambda>(k, _). load_poll g k)
          (page start_after limit order (sub_range (status_to_string s) (POLL_INDEXER g)))
      | None \<Rightarrow> Ok (map snd (page start_after limit order (POLL g))))"

subsection \<open>What the storage adds up to\<close>

text \<open>The votes of one kind cast on a poll.\<close>

definition cast_votes :: "gov \<Rightarrow> nat \<Rightarrow> vote_option \<Rightarrow> nat" where
  "cast_votes g pid o1 =
     (\<Sum>((k, a), i)\<leftarrow>POLL_VOTER g. if k = pid \<and> vote i = o1 then balance i else 0)"

definition tally :: "poll \<Rightarrow> vote_option \<Rightarrow> nat" where
  "tally p o1 = (case o1 of Yes \<Rightarrow> yes_votes p | No \<Rightarrow> no_votes p | Abstain \<Rightarrow> abstain_votes p)"

definition total_deposits :: "gov \<Rightarrow> nat" where
  "total_deposits g = (\<Sum>(a, m)\<leftarrow>BANK g. deposit m)"

definition poll_deposits :: "gov \<Rightarrow> nat" where
  "poll_deposits g = (\<Sum>(k, p)\<leftarrow>POLL g. if status p = InProgress then deposit_amount p else 0)"

definition pending_orders :: "gov \<Rightarrow> nat \<times> nat" where
  "pending_orders g = (\<Sum>(k, x, p)\<leftarrow>WITHDRAW_ORDERS g. x, \<Sum>(k, x, p)\<leftarrow>WITHDRAW_ORDERS g. p)"

text \<open>The xPRISM the contract has to hold: stakes, deposits of open polls, queued redemptions.\<close>

definition xprism_owed :: "gov \<Rightarrow> nat" where
  "xprism_owed g = total_deposits g + poll_deposits g + fst (TOTAL_PENDING_WITHDRAW g)"


section \<open>Lemmas\<close>

lemma status_to_string_inj [simp]: "status_to_string s = status_to_string t \<longleftrightarrow> s = t"
  by (cases s; cases t) simp_all

lemma load_poll_Ok_iff [result_simps]: "load_poll g pid = Inr p \<longleftrightarrow> get (POLL g) pid = Some p"
  by (simp add: load_poll_def or_err_Ok_iff)

lemma pop_last_poll_id_Ok [result_simps]:
  "pop_last_poll_id g = Inr (g', n) \<longleftrightarrow>
     n = LAST_POLL_ID g \<and> g' = g\<lparr>LAST_POLL_ID := n + 1\<rparr> \<and> n + 1 < U64"
  by (auto simp: pop_last_poll_id_def result_simps)

lemma cast_votes_put:
  assumes "wf_store (POLL_VOTER g)" and "get (POLL_VOTER g) (k, a) = None"
  shows "cast_votes (g\<lparr>POLL_VOTER := put (k, a) i (POLL_VOTER g)\<rparr>) pid o1 =
    cast_votes g pid o1 + (if k = pid \<and> vote i = o1 then balance i else 0)"
  using st.sum_save [OF assms(1), of "\<lambda>(k, a) i. if k = pid \<and> vote i = o1 then balance i else 0" "(k, a)" i]
    assms(2)
  by (simp add: cast_votes_def case_prod_unfold)

lemma cast_votes_del_other:
  assumes "wf_store (POLL_VOTER g)" and "k \<noteq> pid"
  shows "cast_votes (g\<lparr>POLL_VOTER := del (k, a) (POLL_VOTER g)\<rparr>) pid o1 = cast_votes g pid o1"
  using st.sum_remove [OF assms(1), of "\<lambda>(k, a) i. if k = pid \<and> vote i = o1 then balance i else 0" "(k, a)"]
    assms(2)
  by (auto simp: cast_votes_def case_prod_unfold split: option.splits)

lemma total_deposits_put:
  assumes "wf_store (BANK g)"
  shows "total_deposits (g\<lparr>BANK := put a m (BANK g)\<rparr>)
      + (case get (BANK g) a of None \<Rightarrow> 0 | Some m \<Rightarrow> deposit m)
    = total_deposits g + deposit m"
  using st.sum_save [OF assms, of "\<lambda>a m. deposit m" a m]
  by (simp add: total_deposits_def)

lemma poll_deposits_put:
  assumes "wf_store (POLL g)"
  shows "poll_deposits (save_poll pid p g)
      + (case get (POLL g) pid of None \<Rightarrow> 0 | Some q \<Rightarrow> if status q = InProgress then deposit_amount q else 0)
    = poll_deposits g + (if status p = InProgress then deposit_amount p else 0)"
  using st.sum_save [OF assms, of "\<lambda>k p. if status p = InProgress then deposit_amount p else 0" pid p]
  by (simp add: poll_deposits_def save_poll_def)

end
