(* ===== verification/Gov_Xprism.thy ===== *)
theory Gov_Xprism
  imports Gov_State
begin

text \<open>
  xPRISM (\<open>xprism.rs\<close>): minting xPRISM for PRISM at the current ratio, queueing a redemption for the
  redemption time, and claiming matured redemptions.
\<close>


section \<open>Definitions\<close>

definition MAX_ORDER_WITHDRAW_PER_TX :: nat where
  "MAX_ORDER_WITHDRAW_PER_TX = 50"

text \<open>The human addresses of PRISM and xPRISM; the latter panics before it is set.\<close>

definition token_addrs :: "deps \<Rightarrow> gov \<Rightarrow> (std_error, addr \<times> addr) result" where
  "token_addrs D g =
     andThen (addr_humanize D (prism_token (CONFIG g))) (\<lambda>prism.
     andThen (or_panic (xprism_token (CONFIG g))) (\<lambda>x.
     andThen (addr_humanize D x) (\<lambda>xprism. Ok (prism, xprism))))"

definition mint_xprism :: "cosmwasm \<Rightarrow> deps \<Rightarrow> env \<Rightarrow> gov \<Rightarrow> string \<Rightarrow> nat \<Rightarrow> gov_result" where
  "mint_xprism S D env g receiver amount =
     andThen (token_addrs D g) (\<lambda>(prism, xprism).
     let (pending_xprism, pending_prism) = TOTAL_PENDING_WITHDRAW g in
     andThen (query_token_balance D prism (contract_address env)) (\<lambda>bal.
     andThen (usub S bal amount) (\<lambda>bal.
     andThen (usub S bal pending_prism) (\<lambda>prism_amt.
     andThen (query_supply D xprism) (\<lambda>supply.
     andThen (usub S supply pending_xprism) (\<lambda>xprism_amt.
     andThen (if prism_amt = 0 then Ok amount else umul_ratio S amount xprism_amt prism_amt) (\<lambda>xprism_to_mint.
     Ok (g, add_messages [WasmExecute xprism (Cw20Mint receiver xprism_to_mint)]))))))))"

definition redeem_xprism :: "cosmwasm \<Rightarrow> deps \<Rightarrow> env \<Rightarrow> gov \<Rightarrow> string \<Rightarrow> nat \<Rightarrow> gov_result" where
  "redeem_xprism S D env g who amount =
     andThen (token_addrs D g) (\<lambda>(prism, xprism).
     let (pending_xprism, pending_prism) = TOTAL_PENDING_WITHDRAW g in
     andThen (query_token_balance D prism (contract_address env)) (\<lambda>bal.
     andThen (usub S bal pending_prism) (\<lambda>prism_amt.
     andThen (query_supply D xprism) (\<lambda>supply.
     andThen (usub S supply pending_xprism) (\<lambda>xprism_amt.
     andThen (umul_ratio S amount prism_amt xprism_amt) (\<lambda>prism_to_return.
     andThen (plus_seconds S (block_time env) (redemption_time (CONFIG g))) (\<lambda>t.
     let order_end = timestamp_seconds S t in
     if get (WITHDRAW_ORDERS g) (who, order_end) \<noteq> None
     then Fail (GenericErr ''can only execute one redeem_xprism operation per block'')
     else
       andThen (uadd S pending_xprism amount) (\<lambda>px.
       andThen (uadd S pending_prism prism_to_return) (\<lambda>pp.
       Ok (g\<lparr>WITHDRAW_ORDERS := put (who, order_end) (amount, prism_to_return) (WITHDRAW_ORDERS g),
           TOTAL_PENDING_WITHDRAW := (px, pp)\<rparr>, []))))))))))"

text \<open>The matured orders, oldest first: the loop of \<open>compute_withdrawable\<close> stops at the first open one.\<close>

definition matured_orders :: "gov \<Rightarrow> nat \<Rightarrow> addr \<Rightarrow> (nat \<times> nat \<times> nat) list" where
  "matured_orders g current_time address =
     takeWhile (\<lambda>(t, _). \<not> current_time < t)
       (take MAX_ORDER_WITHDRAW_PER_TX (sub_range address (WITHDRAW_ORDERS g)))"

definition compute_withdrawable ::
  "cosmwasm \<Rightarrow> gov \<Rightarrow> nat \<Rightarrow> addr \<Rightarrow> (std_error, gov \<times> nat \<times> nat) result" where
  "compute_withdrawable S g current_time address =
     (let orders = matured_orders g current_time address in
     andThen (foldM (\<lambda>(t, x, p) (wx, wp).
         andThen (uadd S wx x) (\<lambda>wx. andThen (uadd S wp p) (\<lambda>wp. Ok (wx, wp)))) orders (0, 0))
       (\<lambda>(w_xprism, w_prism).
     let g = g\<lparr>WITHDRAW_ORDERS :=
           fold (\<lambda>t. del (address, t)) (map fst orders) (WITHDRAW_ORDERS g)\<rparr> in
     andThen (uchecked_sub S OverflowErr (fst (TOTAL_PENDING_WITHDRAW g)) w_xprism) (\<lambda>xprism.
     andThen (uchecked_sub S OverflowErr (snd (TOTAL_PENDING_WITHDRAW g)) w_prism) (\<lambda>prism.
     Ok (g\<lparr>TOTAL_PENDING_WITHDRAW := (xprism, prism)\<rparr>, w_xprism, w_prism)))))"

definition claim_redeemed_prism :: "cosmwasm \<Rightarrow> deps \<Rightarrow> env \<Rightarrow> gov \<Rightarrow> message_info \<Rightarrow> gov_result" where
  "claim_redeemed_prism S D env g info =
     andThen (token_addrs D g) (\<lambda>(prism, xprism).
     andThen (compute_withdrawable S g (now_seconds S env) (sender info)) (\<lambda>(g, w_xprism, w_prism).
     if w_prism = 0 \<and> w_xprism = 0 then Fail (GenericErr ''nothing to claim'')
     else Ok (g, add_messages
       [WasmExecute xprism (Cw20Burn w_xprism),
        WasmExecute prism (Cw20Transfer (sender info) w_prism)])))"

definition query_prism_withdraw_orders ::
  "cosmwasm \<Rightarrow> deps \<Rightarrow> env \<Rightarrow> gov \<Rightarrow> string \<Rightarrow> nat option \<Rightarrow> nat option \<Rightarrow> order_by option
    \<Rightarrow> (std_error, nat \<times> (nat \<times> nat) list) result" where
  "query_prism_withdraw_orders S D env g address start_after limit order =
     andThen (addr_validate D address) (\<lambda>a.
     let es = take (page_limit limit)
           (case order of
              Some Desc \<Rightarrow> rev (range_below start_after (sub_range a (WITHDRAW_ORDERS g)))
            | _ \<Rightarrow> range_from start_after (sub_range a (WITHDRAW_ORDERS g)))
     in andThen (foldM (\<lambda>(t, x, p) claimable.
          if now_seconds S env \<ge> t then uadd S claimable p else Ok claimable) es 0) (\<lambda>claimable_amount.
     Ok (claimable_amount, map (\<lambda>(t, x, p). (t, p)) es)))"

record xprism_state_response =
  xs_exchange_rate :: decimal
  effective_xprism_supply :: nat
  effective_underlying_prism :: nat
  total_pending_withdraw_xprism :: nat
  total_pending_withdraw_prism :: nat

definition query_xprism_state ::
  "cosmwasm \<Rightarrow> deps \<Rightarrow> env \<Rightarrow> gov \<Rightarrow> (std_error, xprism_state_response) result" where
  "query_xprism_state S D env g =
     andThen (token_addrs D g) (\<lambda>(prism, xprism).
     let (pending_xprism, pending_prism) = TOTAL_PENDING_WITHDRAW g in
     andThen (query_token_balance D prism (contract_address env)) (\<lambda>bal.
     andThen (usub S bal pending_prism) (\<lambda>prism_amt.
     andThen (query_supply D xprism) (\<lambda>supply.
     andThen (usub S supply pending_xprism) (\<lambda>xprism_amt.
     andThen (from_ratio S prism_amt xprism_amt) (\<lambda>rate.
     Ok \<lparr>xs_exchange_rate = rate, effective_xprism_supply = xprism_amt,
       effective_underlying_prism = prism_amt, total_pending_withdraw_xprism = pending_xprism,
       total_pending_withdraw_prism = pending_prism\<rparr>))))))"


section \<open>Lemmas\<close>

text \<open>The books of the redemption queue.\<close>

definition orders_inv :: "gov \<Rightarrow> bool" where
  "orders_inv g \<longleftrightarrow> wf_store (WITHDRAW_ORDERS g) \<and> TOTAL_PENDING_WITHDRAW g = pending_orders g"

definition order_xprism :: "(addr \<times> nat, nat \<times> nat) store \<Rightarrow> nat" where
  "order_xprism s = (\<Sum>(k, x, p)\<leftarrow>s. x)"

definition order_prism :: "(addr \<times> nat, nat \<times> nat) store \<Rightarrow> nat" where
  "order_prism s = (\<Sum>(k, x, p)\<leftarrow>s. p)"

lemma pending_orders_eq: "pending_orders g = (order_xprism (WITHDRAW_ORDERS g), order_prism (WITHDRAW_ORDERS g))"
  by (simp add: pending_orders_def order_xprism_def order_prism_def)

lemma order_sums_put:
  assumes "wf_store s" and "get s k = None"
  shows "order_xprism (put k (x, p) s) = order_xprism s + x"
    and "order_prism (put k (x, p) s) = order_prism s + p"
  using st.sum_save [OF assms(1), of "\<lambda>k v. fst v" k "(x, p)"]
    st.sum_save [OF assms(1), of "\<lambda>k v. snd v" k "(x, p)"] assms(2)
  by (simp_all add: order_xprism_def order_prism_def case_prod_unfold)

lemma order_sums_del:
  assumes "wf_store s" and "get s k = Some (x, p)"
  shows "order_xprism (del k s) + x = order_xprism s"
    and "order_prism (del k s) + p = order_prism s"
  using st.sum_remove [OF assms(1), of "\<lambda>k v. fst v" k]
    st.sum_remove [OF assms(1), of "\<lambda>k v. snd v" k] assms(2)
  by (simp_all add: order_xprism_def order_prism_def case_prod_unfold)

text \<open>Deleting listed orders of one address takes their amounts out of the sums.\<close>

lemma order_sums_fold_del:
  assumes "wf_store s" and "distinct (map fst es)"
    and "\<forall>(t, x, p)\<in>set es. get s (a, t) = Some (x, p)"
  shows "order_xprism (fold (\<lambda>t. del (a, t)) (map fst es) s) + (\<Sum>(t, x, p)\<leftarrow>es. x) = order_xprism s"
    and "order_prism (fold (\<lambda>t. del (a, t)) (map fst es) s) + (\<Sum>(t, x, p)\<leftarrow>es. p) = order_prism s"
    and "wf_store (fold (\<lambda>t. del (a, t)) (map fst es) s)"
proof -
  have "order_xprism (fold (\<lambda>t. del (a, t)) (map fst es) s) + (\<Sum>(t, x, p)\<leftarrow>es. x) = order_xprism s
    \<and> order_prism (fold (\<lambda>t. del (a, t)) (map fst es) s) + (\<Sum>(t, x, p)\<leftarrow>es. p) = order_prism s
    \<and> wf_store (fold (\<lambda>t. del (a, t)) (map fst es) s)"
    using assms
  proof (induction es arbitrary: s)
    case (Cons e es)
    obtain t x p where e: "e = (t, x, p)" by (cases e)
    have here: "get s (a, t) = Some (x, p)" using Cons.prems(3) by (simp add: e)
    have rest: "\<forall>(t', y, q)\<in>set es. get (del (a, t) s) (a, t') = Some (y, q)"
      using Cons.prems(2,3) by (force simp: e get_del)
    have "order_xprism (fold (\<lambda>t. del (a, t)) (map fst es) (del (a, t) s)) + (\<Sum>(t, x, p)\<leftarrow>es. x)
        = order_xprism (del (a, t) s)
      \<and> order_prism (fold (\<lambda>t. del (a, t)) (map fst es) (del (a, t) s)) + (\<Sum>(t, x, p)\<leftarrow>es. p)
        = order_prism (del (a, t) s)
      \<and> wf_store (fold (\<lambda>t. del (a, t)) (map fst es) (del (a, t) s))"
      by (rule Cons.IH [OF wf_del [OF Cons.prems(1)] _ rest]) (use Cons.prems(2) in simp)
    then show ?case using order_sums_del [OF Cons.prems(1) here] by (simp add: e)
  qed simp
  then show "order_xprism (fold (\<lambda>t. del (a, t)) (map fst es) s) + (\<Sum>(t, x, p)\<leftarrow>es. x) = order_xprism s"
    "order_prism (fold (\<lambda>t. del (a, t)) (map fst es) s) + (\<Sum>(t, x, p)\<leftarrow>es. p) = order_prism s"
    "wf_store (fold (\<lambda>t. del (a, t)) (map fst es) s)" by blast+
qed

text \<open>The matured orders are orders of the address, each once, and all are due.\<close>

lemma matured_orders_sound:
  assumes "wf_store (WITHDRAW_ORDERS g)"
  shows "distinct (map fst (matured_orders g now a))"
    and "\<forall>(t, x, p)\<in>set (matured_orders g now a). get (WITHDRAW_ORDERS g) (a, t) = Some (x, p) \<and> t \<le> now"
proof -
  let ?s = "sub_range a (WITHDRAW_ORDERS g)"
  have "distinct (map fst ?s)" by (rule st.distinct_keys [OF wf_sub_range [OF assms]])
  then have "distinct (map fst (take n ?s))" for n by (simp add: take_map [symmetric] distinct_take)
  moreover have "distinct (map fst (takeWhile P xs))" if "distinct (map fst xs)"
    for P and xs :: "(nat \<times> nat \<times> nat) list"
    using that by (subst takeWhile_eq_take) (simp add: take_map [symmetric] distinct_take)
  ultimately show "distinct (map fst (matured_orders g now a))"
    unfolding matured_orders_def by blast
  show "\<forall>(t, x, p)\<in>set (matured_orders g now a). get (WITHDRAW_ORDERS g) (a, t) = Some (x, p) \<and> t \<le> now"
    unfolding matured_orders_def
    by (auto dest!: set_takeWhileD in_set_takeD simp: set_sub_range [OF assms])
qed

context cosmwasm_std
begin

lemma sum_orders_fold:
  assumes "foldM (\<lambda>(t, x, p) (wx, wp).
         andThen (uadd S wx x) (\<lambda>wx. andThen (uadd S wp p) (\<lambda>wp. Ok (wx, wp)))) es acc
      = (Inr w :: (std_error, nat \<times> nat) result)"
  shows "w = (fst acc + (\<Sum>(t, x, p)\<leftarrow>es. x), snd acc + (\<Sum>(t, x, p)\<leftarrow>es. p))"
  using assms
  by (induction es arbitrary: acc) (fastforce simp: result_simps uadd_Ok_iff)+

lemma compute_withdrawable_Ok:
  assumes "compute_withdrawable S g now a = Inr (g', wx, wp)" and inv: "orders_inv g"
  shows "wx = (\<Sum>(t, x, p)\<leftarrow>matured_orders g now a. x)" and "wp = (\<Sum>(t, x, p)\<leftarrow>matured_orders g now a. p)"
    and "g' = g\<lparr>WITHDRAW_ORDERS := WITHDRAW_ORDERS g', TOTAL_PENDING_WITHDRAW := TOTAL_PENDING_WITHDRAW g'\<rparr>"
    and "orders_inv g'"
    and "fst (TOTAL_PENDING_WITHDRAW g') + wx = fst (TOTAL_PENDING_WITHDRAW g)"
    and "snd (TOTAL_PENDING_WITHDRAW g') + wp = snd (TOTAL_PENDING_WITHDRAW g)"
proof -
  let ?es = "matured_orders g now a"
  let ?s = "fold (\<lambda>t. del (a, t)) (map fst ?es) (WITHDRAW_ORDERS g)"
  have wf: "wf_store (WITHDRAW_ORDERS g)" using inv by (simp add: orders_inv_def)
  from assms(1) have w: "(wx, wp) = (\<Sum>(t, x, p)\<leftarrow>?es. x, \<Sum>(t, x, p)\<leftarrow>?es. p)"
    and g': "g' = g\<lparr>WITHDRAW_ORDERS := ?s, TOTAL_PENDING_WITHDRAW :=
        (fst (TOTAL_PENDING_WITHDRAW g) - wx, snd (TOTAL_PENDING_WITHDRAW g) - wp)\<rparr>"
    and le: "wx \<le> fst (TOTAL_PENDING_WITHDRAW g)" "wp \<le> snd (TOTAL_PENDING_WITHDRAW g)"
    by (auto simp: compute_withdrawable_def Let_def result_simps cw_laws dest!: sum_orders_fold)
  show "wx = (\<Sum>(t, x, p)\<leftarrow>?es. x)" "wp = (\<Sum>(t, x, p)\<leftarrow>?es. p)" using w by simp_all
  show "g' = g\<lparr>WITHDRAW_ORDERS := WITHDRAW_ORDERS g', TOTAL_PENDING_WITHDRAW := TOTAL_PENDING_WITHDRAW g'\<rparr>"
    by (simp add: g')
  show "fst (TOTAL_PENDING_WITHDRAW g') + wx = fst (TOTAL_PENDING_WITHDRAW g)"
    "snd (TOTAL_PENDING_WITHDRAW g') + wp = snd (TOTAL_PENDING_WITHDRAW g)" using le by (simp_all add: g')
  have sound: "\<forall>(t, x, p)\<in>set ?es. get (WITHDRAW_ORDERS g) (a, t) = Some (x, p)"
    using matured_orders_sound(2) [OF wf] by fastforce
  note sums = order_sums_fold_del [OF wf matured_orders_sound(1) [OF wf] sound]
  show "orders_inv g'"
    using inv sums w by (auto simp: g' orders_inv_def pending_orders_eq)
qed

text \<open>The ratio used by a mint and by a redemption.\<close>

lemma mint_xprism_Ok:
  assumes "mint_xprism S D env g receiver amount = Inr (g', r)"
  obtains prism xprism bal supp minted where "token_addrs D g = Inr (prism, xprism)"
    and "query_token_balance D prism (contract_address env) = Inr bal"
    and "query_supply D xprism = Inr supp"
    and "amount + snd (TOTAL_PENDING_WITHDRAW g) \<le> bal" and "fst (TOTAL_PENDING_WITHDRAW g) \<le> supp"
    and "bal - amount - snd (TOTAL_PENDING_WITHDRAW g) = 0 \<Longrightarrow> minted = amount"
    and "bal - amount - snd (TOTAL_PENDING_WITHDRAW g) \<noteq> 0 \<Longrightarrow> minted =
        amount * (supp - fst (TOTAL_PENDING_WITHDRAW g)) div (bal - amount - snd (TOTAL_PENDING_WITHDRAW g))"
    and "g' = g" and "r = add_messages [WasmExecute xprism (Cw20Mint receiver minted)]"
proof -
  obtain px pp where p: "TOTAL_PENDING_WITHDRAW g = (px, pp)" by (cases "TOTAL_PENDING_WITHDRAW g")
  from assms obtain prism xprism bal supp minted where
    facts: "token_addrs D g = Inr (prism, xprism)"
    "query_token_balance D prism (contract_address env) = Inr bal" "query_supply D xprism = Inr supp"
    "amount \<le> bal" "pp \<le> bal - amount" "px \<le> supp"
    "(if bal - amount - pp = 0 then Ok amount
      else umul_ratio S amount (supp - px) (bal - amount - pp)) = (Ok minted :: (std_error, nat) result)"
    "g' = g" "r = add_messages [WasmExecute xprism (Cw20Mint receiver minted)]"
    unfolding mint_xprism_def p Let_def prod.case
    apply (elim andThen_OkE)
    apply (clarsimp simp: usub_Ok_iff simp del: diff_diff_left diff_is_0_eq elim!: andThen_OkE)
    done
  show thesis
    by (rule that [of prism xprism bal supp minted])
      (use facts in \<open>auto simp: p umul_ratio_Ok_iff split: if_splits\<close>)
qed

lemma redeem_xprism_Ok:
  assumes "redeem_xprism S D env g who amount = Inr (g', r)"
  obtains prism xprism bal supp ret t where "token_addrs D g = Inr (prism, xprism)"
    and "query_token_balance D prism (contract_address env) = Inr bal"
    and "query_supply D xprism = Inr supp"
    and "snd (TOTAL_PENDING_WITHDRAW g) \<le> bal" and "fst (TOTAL_PENDING_WITHDRAW g) < supp"
    and "ret = amount * (bal - snd (TOTAL_PENDING_WITHDRAW g)) div (supp - fst (TOTAL_PENDING_WITHDRAW g))"
    and "get (WITHDRAW_ORDERS g) (who, t) = None"
    and "t = timestamp_seconds S (block_time env + redemption_time (CONFIG g) * 10 ^ 9)"
    and "g' = g\<lparr>WITHDRAW_ORDERS := put (who, t) (amount, ret) (WITHDRAW_ORDERS g),
        TOTAL_PENDING_WITHDRAW := (fst (TOTAL_PENDING_WITHDRAW g) + amount, snd (TOTAL_PENDING_WITHDRAW g) + ret)\<rparr>"
    and "r = []"
proof -
  obtain px pp where p: "TOTAL_PENDING_WITHDRAW g = (px, pp)" by (cases "TOTAL_PENDING_WITHDRAW g")
  from assms obtain prism xprism bal supp ret where
    facts: "token_addrs D g = Inr (prism, xprism)"
    "query_token_balance D prism (contract_address env) = Inr bal" "query_supply D xprism = Inr supp"
    "pp \<le> bal" "px \<le> supp" "supp - px \<noteq> 0" "ret = amount * (bal - pp) div (supp - px)"
    "get (WITHDRAW_ORDERS g) (who, timestamp_seconds S (block_time env + redemption_time (CONFIG g) * 10 ^ 9)) = None"
    "g' = g\<lparr>WITHDRAW_ORDERS := put (who, timestamp_seconds S (block_time env + redemption_time (CONFIG g) * 10 ^ 9))
          (amount, ret) (WITHDRAW_ORDERS g), TOTAL_PENDING_WITHDRAW := (px + amount, pp + ret)\<rparr>" "r = []"
    unfolding redeem_xprism_def p Let_def prod.case
    apply (elim andThen_OkE)
    apply (clarsimp simp: usub_Ok_iff umul_ratio_Ok_iff plus_seconds_Ok_iff simp del: not_None_eq
        elim!: andThen_OkE)
    apply (simp split: if_split_asm del: not_None_eq)
    apply (elim andThen_OkE)
    apply (rule that)
    apply (assumption | rule refl | clarsimp simp: uadd_Ok_iff)+
    done
  show thesis
    by (rule that [of prism xprism bal supp ret]) (use facts in \<open>simp_all add: p\<close>)
qed

lemma redeem_xprism_inv:
  assumes "redeem_xprism S D env g who amount = Inr (g', r)" and inv: "orders_inv g"
  shows "orders_inv g'"
proof (rule redeem_xprism_Ok [OF assms(1)])
  fix ret t
  assume fresh: "get (WITHDRAW_ORDERS g) (who, t) = None"
    and g': "g' = g\<lparr>WITHDRAW_ORDERS := put (who, t) (amount, ret) (WITHDRAW_ORDERS g),
        TOTAL_PENDING_WITHDRAW := (fst (TOTAL_PENDING_WITHDRAW g) + amount, snd (TOTAL_PENDING_WITHDRAW g) + ret)\<rparr>"
  have wf: "wf_store (WITHDRAW_ORDERS g)" using inv by (simp add: orders_inv_def)
  show ?thesis
    using inv order_sums_put [OF wf fresh] by (simp add: g' orders_inv_def pending_orders_eq wf_put [OF wf])
qed

end

end
