(* ===== verification/Gov_Polls.thy ===== *)
theory Gov_Polls
  imports Gov_Xprism
begin

text \<open>
  Voting power (\<open>voting.rs\<close>) and polls (\<open>polls.rs\<close>): staking xPRISM, casting votes with it, the life
  of a poll from its creation over the count to the execution of its message, and withdrawing the
  stake that no open poll holds. A poll's status moves along a small state machine, stated below
  as a step relation.
\<close>


section \<open>Definitions\<close>

subsection \<open>Voting power\<close>

definition stake_voting_tokens :: "cosmwasm \<Rightarrow> deps \<Rightarrow> gov \<Rightarrow> string \<Rightarrow> nat \<Rightarrow> gov_result" where
  "stake_voting_tokens S D g who amount =
     (if amount = 0 then Fail (GenericErr ''Insufficient funds sent'')
      else andThen (addr_canonicalize D who) (\<lambda>key.
        let token_manager = (case get (BANK g) key of Some m \<Rightarrow> m | None \<Rightarrow> default_manager) in
        andThen (uadd S (deposit token_manager) amount) (\<lambda>d.
        Ok (g\<lparr>BANK := put key (token_manager\<lparr>deposit := d\<rparr>) (BANK g)\<rparr>, []))))"

text \<open>
  The largest amount locked in an open poll. The votes on polls that are over are dropped from the
  voter store and from the list; a poll that cannot be loaded panics.
\<close>

definition compute_locked_balance ::
  "gov \<Rightarrow> voting_token_manager \<Rightarrow> addr \<Rightarrow> (std_error, gov \<times> voting_token_manager \<times> nat) result" where
  "compute_locked_balance g token_manager voter =
     andThen (mapM (\<lambda>(pid, i). andThen (or_panic (get (POLL g) pid)) (\<lambda>p. Ok (pid, i, status p)))
       (locked_balance token_manager)) (\<lambda>entries.
     let lock_entries_to_remove = map fst (filter (\<lambda>(pid, i, s). s \<noteq> InProgress) entries);
         max_locked = fold max (map (\<lambda>(pid, i, s). balance i) (filter (\<lambda>(pid, i, s). s = InProgress) entries)) 0
     in Ok (g\<lparr>POLL_VOTER := fold (\<lambda>pid. del (pid, voter)) lock_entries_to_remove (POLL_VOTER g)\<rparr>,
        token_manager\<lparr>locked_balance :=
          filter (\<lambda>(pid, i). pid \<notin> set lock_entries_to_remove) (locked_balance token_manager)\<rparr>,
        max_locked))"

definition send_tokens :: "deps \<Rightarrow> addr \<Rightarrow> addr \<Rightarrow> nat \<Rightarrow> (std_error, response) result" where
  "send_tokens D asset_token recipient amount =
     andThen (addr_humanize D asset_token) (\<lambda>contract_human.
     andThen (addr_humanize D recipient) (\<lambda>recipient_human.
     Ok (add_messages [WasmExecute contract_human (Cw20Transfer recipient_human amount)])))"

definition withdraw_voting_tokens ::
  "cosmwasm \<Rightarrow> deps \<Rightarrow> gov \<Rightarrow> message_info \<Rightarrow> nat option \<Rightarrow> gov_result" where
  "withdraw_voting_tokens S D g info amount =
     andThen (addr_canonicalize D (sender info)) (\<lambda>key.
     andThen (or_err (GenericErr ''no voting information found for this address'') (get (BANK g) key))
       (\<lambda>token_manager.
     andThen (compute_locked_balance g token_manager key) (\<lambda>(g, token_manager, user_locked_balance).
     andThen (uchecked_sub S OverflowErr (deposit token_manager) user_locked_balance) (\<lambda>withdrawable_balance.
     let withdraw_amount = (case amount of Some a \<Rightarrow> a | None \<Rightarrow> withdrawable_balance) in
     if withdraw_amount > withdrawable_balance
     then Fail (GenericErr ''User is trying to withdraw too many tokens'')
     else andThen (uchecked_sub S OverflowErr (deposit token_manager) withdraw_amount) (\<lambda>d.
       let g = g\<lparr>BANK := put key (token_manager\<lparr>deposit := d\<rparr>) (BANK g)\<rparr> in
       andThen (or_panic (xprism_token (CONFIG g))) (\<lambda>x.
       andThen (send_tokens D x key withdraw_amount) (\<lambda>r. Ok (g, r))))))))"

definition query_voting_tokens ::
  "deps \<Rightarrow> gov \<Rightarrow> string \<Rightarrow> (std_error, voting_token_manager) result" where
  "query_voting_tokens D g address =
     andThen (unwrap (addr_canonicalize D address)) (\<lambda>key.
     andThen (or_err (GenericErr ''no voting information found for this address'') (get (BANK g) key))
       (\<lambda>token_manager.
     andThen (mapM (\<lambda>(pid, i). andThen (or_panic (get (POLL g) pid)) (\<lambda>p. Ok (pid, i, status p)))
       (locked_balance token_manager)) (\<lambda>entries.
     Ok (token_manager\<lparr>locked_balance :=
       map (\<lambda>(pid, i, s). (pid, i)) (filter (\<lambda>(pid, i, s). s = InProgress) entries)\<rparr>))))"

subsection \<open>Creating a poll\<close>

definition MIN_TITLE_LENGTH :: nat where "MIN_TITLE_LENGTH = 4"
definition MAX_TITLE_LENGTH :: nat where "MAX_TITLE_LENGTH = 64"
definition MIN_DESC_LENGTH :: nat where "MIN_DESC_LENGTH = 4"
definition MAX_DESC_LENGTH :: nat where "MAX_DESC_LENGTH = 256"
definition MIN_LINK_LENGTH :: nat where "MIN_LINK_LENGTH = 12"
definition MAX_LINK_LENGTH :: nat where "MAX_LINK_LENGTH = 128"
definition MAX_POLL_VOTES_PER_USER :: nat where "MAX_POLL_VOTES_PER_USER = 20"

definition POLL_EXECUTE_REPLY_ID :: nat where "POLL_EXECUTE_REPLY_ID = 1"
definition INSTANTIATE_REPLY_ID :: nat where "INSTANTIATE_REPLY_ID = 2"

definition validate_title :: "string \<Rightarrow> (std_error, unit) result" where
  "validate_title t =
     (if length t < MIN_TITLE_LENGTH then Fail (GenericErr ''Title too short'')
      else if length t > MAX_TITLE_LENGTH then Fail (GenericErr ''Title too long'')
      else Ok ())"

definition validate_description :: "string \<Rightarrow> (std_error, unit) result" where
  "validate_description t =
     (if length t < MIN_DESC_LENGTH then Fail (GenericErr ''Description too short'')
      else if length t > MAX_DESC_LENGTH then Fail (GenericErr ''Description too long'')
      else Ok ())"

definition validate_link :: "string option \<Rightarrow> (std_error, unit) result" where
  "validate_link l =
     (case l of
        None \<Rightarrow> Ok ()
      | Some t \<Rightarrow>
          if length t < MIN_LINK_LENGTH then Fail (GenericErr ''Link too short'')
          else if length t > MAX_LINK_LENGTH then Fail (GenericErr ''Link too long'')
          else Ok ())"

record poll_execute_msg =
  pem_contract :: string
  pem_msg :: binary

definition create_poll ::
  "cosmwasm \<Rightarrow> deps \<Rightarrow> env \<Rightarrow> gov \<Rightarrow> string \<Rightarrow> nat \<Rightarrow> string \<Rightarrow> string \<Rightarrow> string option
    \<Rightarrow> poll_execute_msg option \<Rightarrow> gov_result" where
  "create_poll S D env g proposer amount ti desc li exec =
     andThen (validate_title ti) (\<lambda>_.
     andThen (validate_description desc) (\<lambda>_.
     andThen (validate_link li) (\<lambda>_.
     let config = CONFIG g in
     if amount < proposal_deposit config
     then Fail (GenericErr (''Must deposit more than '' @ show_nat (proposal_deposit config) @ '' token''))
     else
       andThen (case exec of
           None \<Rightarrow> Ok None
         | Some m \<Rightarrow> andThen (addr_canonicalize D (pem_contract m)) (\<lambda>c.
             Ok (Some \<lparr>exec_contract = c, exec_body = pem_msg m\<rparr>))) (\<lambda>poll_execute_data.
       andThen (addr_canonicalize D proposer) (\<lambda>sender_address_raw.
       andThen (pop_last_poll_id g) (\<lambda>(g, pid).
       andThen (u64_add (now_seconds S env) (voting_period config)) (\<lambda>end_t.
       let new_poll = \<lparr>poll_id = pid, creator = sender_address_raw, status = InProgress,
             yes_votes = 0, no_votes = 0, abstain_votes = 0, end_time = end_t, title = ti,
             description = desc, link = li, execute_data = poll_execute_data, deposit_amount = amount,
             supply_snapshot = None, required_quorum = quorum config,
             required_threshold = threshold config\<rparr>
       in andThen (addr_humanize D sender_address_raw) (\<lambda>_.
       Ok (save_index InProgress pid (save_poll pid new_poll g), [])))))))))"

subsection \<open>Ending and executing a poll\<close>

text \<open>The count: the new status, and the message that burns or refunds the deposit.\<close>

definition count_poll ::
  "cosmwasm \<Rightarrow> deps \<Rightarrow> addr \<Rightarrow> poll \<Rightarrow> nat \<Rightarrow> nat
    \<Rightarrow> (std_error, poll_status \<times> cosmos_msg list) result" where
  "count_poll S D xprism_addr a_poll tallied_weight total_supply =
     andThen (if total_supply = 0 then Ok 0 else from_ratio S tallied_weight total_supply) (\<lambda>reached.
     if tallied_weight = 0 \<or> reached < required_quorum a_poll then
       Ok (Rejected, if deposit_amount a_poll \<noteq> 0
         then [WasmExecute xprism_addr (Cw20Burn (deposit_amount a_poll))] else [])
     else
       andThen (if yes_votes a_poll = 0 then Ok False
           else andThen (u128_add (yes_votes a_poll) (no_votes a_poll)) (\<lambda>yes_no.
             andThen (from_ratio S (yes_votes a_poll) yes_no) (\<lambda>r. Ok (r > required_threshold a_poll))))
         (\<lambda>passed.
       andThen (if deposit_amount a_poll \<noteq> 0
           then andThen (addr_humanize D (creator a_poll)) (\<lambda>c.
             Ok [WasmExecute xprism_addr (Cw20Transfer c (deposit_amount a_poll))])
           else Ok []) (\<lambda>messages.
       Ok (if passed then Passed else Rejected, messages))))"

definition end_poll :: "cosmwasm \<Rightarrow> deps \<Rightarrow> env \<Rightarrow> gov \<Rightarrow> nat \<Rightarrow> gov_result" where
  "end_poll S D env g pid =
     andThen (load_poll g pid) (\<lambda>a_poll.
     andThen (or_panic (xprism_token (CONFIG g))) (\<lambda>x.
     andThen (addr_humanize D x) (\<lambda>xprism_addr.
     if status a_poll \<noteq> InProgress then Fail (GenericErr ''Poll is not in progress'')
     else if end_time a_poll > now_seconds S env
     then Fail (GenericErr ''Voting period has not expired'')
     else
       andThen (u128_add (yes_votes a_poll) (no_votes a_poll)) (\<lambda>yes_no.
       andThen (u128_add yes_no (abstain_votes a_poll)) (\<lambda>tallied_weight.
       andThen (case supply_snapshot a_poll of
           Some v \<Rightarrow> Ok v | None \<Rightarrow> query_supply D xprism_addr) (\<lambda>total_supply.
       let a_poll = a_poll\<lparr>supply_snapshot := Some total_supply\<rparr> in
       andThen (count_poll S D xprism_addr a_poll tallied_weight total_supply) (\<lambda>(poll_status, messages).
       Ok (save_poll pid (a_poll\<lparr>status := poll_status\<rparr>)
            (save_index poll_status (poll_id a_poll) (remove_index InProgress (poll_id a_poll) g)),
         add_messages messages))))))))"

definition execute_poll :: "cosmwasm \<Rightarrow> deps \<Rightarrow> env \<Rightarrow> gov \<Rightarrow> nat \<Rightarrow> gov_result" where
  "execute_poll S D env g pid =
     andThen (load_poll g pid) (\<lambda>a_poll.
     if status a_poll \<noteq> Passed then Fail (GenericErr ''Poll is not in passed status'')
     else andThen (u64_add (end_time a_poll) (effective_delay (CONFIG g))) (\<lambda>effective.
     if effective > now_seconds S env then Fail (GenericErr ''Effective delay has not expired'')
     else
       let g = save_poll pid (a_poll\<lparr>status := Executed\<rparr>)
             (save_index Executed pid (remove_index Passed pid g))
       in case execute_data a_poll of
            None \<Rightarrow> Fail (GenericErr ''The poll does not have execute_data'')
          | Some d \<Rightarrow> andThen (addr_humanize D (exec_contract d)) (\<lambda>c.
              Ok (g\<lparr>TMP_POLL_ID := Some (poll_id a_poll)\<rparr>,
                [\<lparr>sub_id = POLL_EXECUTE_REPLY_ID, sub_body = WasmExecute c (RawMsg (exec_body d)),
                  gas_limit = Some (poll_gas_limit (CONFIG g)), reply_mode = ReplyOnError\<rparr>]))))"

definition failed_poll :: "gov \<Rightarrow> nat \<Rightarrow> gov_result" where
  "failed_poll g pid =
     andThen (load_poll g pid) (\<lambda>a_poll.
     Ok (save_poll pid (a_poll\<lparr>status := Failed\<rparr>)
          (save_index Failed pid (remove_index Executed pid g)), []))"

subsection \<open>Voting\<close>

definition add_vote :: "cosmwasm \<Rightarrow> poll \<Rightarrow> vote_option \<Rightarrow> nat \<Rightarrow> (std_error, poll) result" where
  "add_vote S p o1 amount =
     (case o1 of
        Yes \<Rightarrow> andThen (uadd S (yes_votes p) amount) (\<lambda>n. Ok (p\<lparr>yes_votes := n\<rparr>))
      | No \<Rightarrow> andThen (uadd S (no_votes p) amount) (\<lambda>n. Ok (p\<lparr>no_votes := n\<rparr>))
      | Abstain \<Rightarrow> andThen (uadd S (abstain_votes p) amount) (\<lambda>n. Ok (p\<lparr>abstain_votes := n\<rparr>)))"

text \<open>The supply of xPRISM as the quorum counts it.\<close>

definition snapshot_supply :: "deps \<Rightarrow> gov \<Rightarrow> (std_error, nat) result" where
  "snapshot_supply D g =
     andThen (or_panic (xprism_token (CONFIG g))) (\<lambda>x.
     andThen (addr_humanize D x) (query_supply D))"

definition cast_vote ::
  "cosmwasm \<Rightarrow> deps \<Rightarrow> env \<Rightarrow> gov \<Rightarrow> message_info \<Rightarrow> nat \<Rightarrow> vote_option \<Rightarrow> nat \<Rightarrow> gov_result" where
  "cast_vote S D env g info pid o1 amount =
     andThen (addr_canonicalize D (sender info)) (\<lambda>key.
     andThen (map_err (\<lambda>_. GenericErr ''Poll does not exist'') (load_poll g pid)) (\<lambda>a_poll.
     if status a_poll \<noteq> InProgress \<or> now_seconds S env > end_time a_poll
     then Fail (GenericErr ''Poll is not in progress'')
     else if get (POLL_VOTER g) (pid, key) \<noteq> None
     then Fail (GenericErr ''User has already voted.'')
     else
       let token_manager = (case get (BANK g) key of Some m \<Rightarrow> m | None \<Rightarrow> default_manager) in
       if deposit token_manager < amount
       then Fail (GenericErr ''User does not have enough staked tokens.'')
       else if length (locked_balance token_manager) \<ge> MAX_POLL_VOTES_PER_USER
       then Fail (GenericErr (''Can not vote on more than '' @ show_nat MAX_POLL_VOTES_PER_USER
         @ '' at the same time. Voting rewards of finished polls should be claimed.''))
       else andThen (add_vote S a_poll o1 amount) (\<lambda>a_poll.
         let vote_info = \<lparr>vote = o1, balance = amount\<rparr>;
             g = g\<lparr>BANK := put key (token_manager\<lparr>locked_balance :=
                   locked_balance token_manager @ [(pid, vote_info)]\<rparr>) (BANK g),
                   POLL_VOTER := put (pid, key) vote_info (POLL_VOTER g)\<rparr>
         in andThen (u64_sub (end_time a_poll) (now_seconds S env)) (\<lambda>time_to_end.
         andThen (if time_to_end < snapshot_period (CONFIG g) \<and> supply_snapshot a_poll = None
             then andThen (snapshot_supply D g) (\<lambda>s. Ok (a_poll\<lparr>supply_snapshot := Some s\<rparr>))
             else Ok a_poll) (\<lambda>a_poll.
         Ok (save_poll pid a_poll g, []))))))"

definition snapshot_poll :: "cosmwasm \<Rightarrow> deps \<Rightarrow> env \<Rightarrow> gov \<Rightarrow> nat \<Rightarrow> gov_result" where
  "snapshot_poll S D env g pid =
     andThen (load_poll g pid) (\<lambda>a_poll.
     if status a_poll \<noteq> InProgress then Fail (GenericErr ''Poll is not in progress'')
     else andThen (u64_sub (end_time a_poll) (now_seconds S env)) (\<lambda>time_to_end.
     if time_to_end > snapshot_period (CONFIG g)
     then Fail (GenericErr ''Cannot snapshot at this height'')
     else if supply_snapshot a_poll \<noteq> None
     then Fail (GenericErr ''Snapshot has already occurred'')
     else andThen (snapshot_supply D g) (\<lambda>s.
       Ok (save_poll pid (a_poll\<lparr>supply_snapshot := Some s\<rparr>) g, []))))"

subsection \<open>The life of a poll\<close>

inductive poll_step :: "poll_status \<Rightarrow> poll_status \<Rightarrow> bool" where
  pass: "poll_step InProgress Passed"
| reject: "poll_step InProgress Rejected"
| execute: "poll_step Passed Executed"
| fail: "poll_step Executed Failed"

inductive_simps poll_step_iff: "poll_step s t"
inductive_cases poll_step_from_InProgress: "poll_step InProgress t"

text \<open>Storage that differs from \<open>g\<close> only in what the polls and votes keep.\<close>


section \<open>The books\<close>

text \<open>
  Polls are numbered from one on; each is in the index of its own status and in no other, and the
  poll whose execution may still fail has been executed.
\<close>

definition poll_inv :: "gov \<Rightarrow> bool" where
  "poll_inv g \<longleftrightarrow> wf_store (POLL g) \<and> wf_store (POLL_INDEXER g) \<and> 0 < LAST_POLL_ID g
     \<and> (\<forall>k. get (POLL g) k \<noteq> None \<longleftrightarrow> 0 < k \<and> k < LAST_POLL_ID g)
     \<and> (\<forall>k p. get (POLL g) k = Some p \<longrightarrow> poll_id p = k)
     \<and> (\<forall>s k. get (POLL_INDEXER g) (status_to_string s, k) \<noteq> None \<longleftrightarrow>
          (\<exists>p. get (POLL g) k = Some p \<and> status p = s))
     \<and> (\<forall>k. TMP_POLL_ID g = Some k \<longrightarrow> (\<exists>p. get (POLL g) k = Some p \<and> status p \<in> {Executed, Failed}))"

text \<open>
  Votes: a user's list of locked balances names each poll once, at most twenty of them, and agrees
  with the voter store; the stake covers the vote on every open poll.
\<close>

definition manager_ok :: "gov \<Rightarrow> addr \<Rightarrow> voting_token_manager \<Rightarrow> bool" where
  "manager_ok g a m \<longleftrightarrow> distinct (map fst (locked_balance m))
     \<and> length (locked_balance m) \<le> MAX_POLL_VOTES_PER_USER
     \<and> (\<forall>k i. (k, i) \<in> set (locked_balance m) \<longrightarrow> get (POLL_VOTER g) (k, a) = Some i
          \<and> (\<exists>p. get (POLL g) k = Some p \<and> (status p = InProgress \<longrightarrow> balance i \<le> deposit m)))"

definition vote_inv :: "gov \<Rightarrow> bool" where
  "vote_inv g \<longleftrightarrow> wf_store (POLL_VOTER g) \<and> wf_store (BANK g)
     \<and> (\<forall>a m. get (BANK g) a = Some m \<longrightarrow> manager_ok g a m)
     \<and> (\<forall>k a i. get (POLL_VOTER g) (k, a) = Some i \<longrightarrow>
          (\<exists>m. get (BANK g) a = Some m \<and> (k, i) \<in> set (locked_balance m)))
     \<and> (\<forall>k p o1. get (POLL g) k = Some p \<longrightarrow> status p = InProgress \<longrightarrow> tally p o1 = cast_votes g k o1)"

definition gov_inv :: "gov \<Rightarrow> bool" where
  "gov_inv g \<longleftrightarrow> poll_inv g \<and> vote_inv g \<and> orders_inv g"


section \<open>Lemmas\<close>

lemma gov_inv_stores:
  assumes "gov_inv g"
  shows "wf_store (POLL g)" and "wf_store (POLL_INDEXER g)" and "wf_store (POLL_VOTER g)"
    and "wf_store (BANK g)" and "wf_store (WITHDRAW_ORDERS g)"
  using assms by (simp_all add: gov_inv_def poll_inv_def vote_inv_def orders_inv_def)

lemma poll_inv_poll:
  assumes "poll_inv g" and "get (POLL g) k = Some p"
  shows "poll_id p = k" and "0 < k" and "k < LAST_POLL_ID g"
  using assms unfolding poll_inv_def by blast+

lemma poll_inv_index:
  assumes "poll_inv g"
  shows "get (POLL_INDEXER g) (status_to_string s, k) \<noteq> None \<longleftrightarrow>
    (\<exists>p. get (POLL g) k = Some p \<and> status p = s)"
  using assms unfolding poll_inv_def by blast

lemma vote_inv_manager:
  assumes "vote_inv g" and "get (BANK g) a = Some m"
  shows "manager_ok g a m"
  using assms by (simp add: vote_inv_def)

lemma vote_inv_voter:
  assumes "vote_inv g" and "get (POLL_VOTER g) (k, a) = Some i"
  obtains m p where "get (BANK g) a = Some m" and "(k, i) \<in> set (locked_balance m)"
    and "get (POLL g) k = Some p"
proof -
  from assms obtain m where m: "get (BANK g) a = Some m" "(k, i) \<in> set (locked_balance m)"
    unfolding vote_inv_def by blast
  from vote_inv_manager [OF assms(1) m(1)] m(2) obtain p where "get (POLL g) k = Some p"
    unfolding manager_ok_def by blast
  with m that show thesis by blast
qed

text \<open>Nobody has voted on a poll that does not exist yet.\<close>

lemma cast_votes_none:
  assumes "vote_inv g" and "get (POLL g) k = None"
  shows "cast_votes g k o1 = 0"
proof -
  have wf: "wf_store (POLL_VOTER g)" using assms(1) by (simp add: vote_inv_def)
  have "(case e of ((j, a), i) \<Rightarrow> if j = k \<and> vote i = o1 then balance i else 0) = 0"
    if e: "e \<in> set (POLL_VOTER g)" for e
  proof -
    obtain j a i where eq: "e = ((j, a), i)" by (metis prod.exhaust)
    have "get (POLL_VOTER g) (j, a) = Some i" using e wf by (simp add: eq entries_get)
    then have "j \<noteq> k" using assms by (auto elim!: vote_inv_voter)
    then show ?thesis by (simp add: eq)
  qed
  then have "map (\<lambda>((j, a), i). if j = k \<and> vote i = o1 then balance i else 0) (POLL_VOTER g)
      = map (\<lambda>_. 0) (POLL_VOTER g)" by (intro map_cong) auto
  then show ?thesis by (simp add: cast_votes_def)
qed

text \<open>Moving an existing poll to another status, with its entry in the index.\<close>

lemma poll_inv_status:
  assumes inv: "poll_inv g" and p: "get (POLL g) k = Some p"
    and p': "poll_id p' = k" and r: "r = status p \<or> status p' = status p" "r \<noteq> status p'"
    and tmp: "TMP_POLL_ID g = Some k \<longrightarrow> status p' \<in> {Executed, Failed}"
    and g': "g' = save_poll k p' (save_index (status p') k (remove_index r k g))"
  shows "poll_inv g'"
proof -
  have wf: "wf_store (POLL g)" "wf_store (POLL_INDEXER g)" using inv by (simp_all add: poll_inv_def)
  have poll: "get (POLL g') j = (if j = k then Some p' else get (POLL g) j)" for j
    by (simp add: g' save_poll_def save_index_def remove_index_def get_put [OF wf(1)])
  have index: "get (POLL_INDEXER g') (status_to_string s, j) =
      (if s = status p' \<and> j = k then Some True
       else if s = r \<and> j = k then None else get (POLL_INDEXER g) (status_to_string s, j))" for s j
    by (simp add: g' save_poll_def save_index_def remove_index_def get_put [OF wf_del [OF wf(2)]] get_del)
  have eq: "LAST_POLL_ID g' = LAST_POLL_ID g" "TMP_POLL_ID g' = TMP_POLL_ID g"
    by (simp_all add: g' save_poll_def save_index_def remove_index_def)
  have wf': "wf_store (POLL g')" "wf_store (POLL_INDEXER g')"
    by (simp_all add: g' save_poll_def save_index_def remove_index_def wf_put wf_del wf)
  have "get (POLL_INDEXER g') (status_to_string s, j) \<noteq> None \<longleftrightarrow>
      (\<exists>q. get (POLL g') j = Some q \<and> status q = s)" for s j
  proof (cases "j = k")
    case True
    then show ?thesis using poll_inv_index [OF inv, of s k] p r
      by (cases "s = status p'"; cases "s = r") (auto simp: index poll)
  next
    case False
    then show ?thesis using poll_inv_index [OF inv, of s j] by (simp add: index poll)
  qed
  moreover have "get (POLL g') j \<noteq> None \<longleftrightarrow> 0 < j \<and> j < LAST_POLL_ID g'" for j
    using inv p by (auto simp: poll_inv_def poll eq)
  moreover have "poll_id q = j" if "get (POLL g') j = Some q" for j q
    using that p' poll_inv_poll(1) [OF inv, of j q] by (auto simp: poll split: if_splits)
  moreover have "\<exists>q. get (POLL g') j = Some q \<and> status q \<in> {Executed, Failed}" if "TMP_POLL_ID g' = Some j" for j
    using that tmp inv by (auto simp: poll eq poll_inv_def)
  ultimately show ?thesis using inv wf' by (simp add: poll_inv_def eq)
qed

text \<open>What the votes see of a poll: its tallies and whether it is open.\<close>

lemma vote_inv_save_poll:
  assumes inv: "vote_inv g" and wf: "wf_store (POLL g)" and p: "get (POLL g) k = Some p"
    and p': "\<And>o1. tally p' o1 = tally p o1" "status p' = InProgress \<Longrightarrow> status p = InProgress"
    and g': "POLL g' = put k p' (POLL g)" "POLL_VOTER g' = POLL_VOTER g" "BANK g' = BANK g"
  shows "vote_inv g'"
proof -
  have poll: "get (POLL g') j = (if j = k then Some p' else get (POLL g) j)" for j
    by (simp add: g' get_put [OF wf])
  have cast: "cast_votes g' = cast_votes g" by (simp add: cast_votes_def g' fun_eq_iff)
  have "\<exists>q. get (POLL g') j = Some q \<and> (status q = InProgress \<longrightarrow> P)"
    if "\<exists>q. get (POLL g) j = Some q \<and> (status q = InProgress \<longrightarrow> P)" for j P
    using that p p'(2) by (auto simp: poll)
  then have "manager_ok g' a m" if "manager_ok g a m" for a m
    using that unfolding manager_ok_def g'(2) by blast
  moreover have "tally q o1 = cast_votes g j o1" if "get (POLL g') j = Some q" "status q = InProgress" for j q o1
    using that inv p p' by (auto simp: vote_inv_def poll split: if_splits)
  ultimately show ?thesis
    using inv unfolding vote_inv_def g'(2,3) cast by blast
qed

subsection \<open>Stakes\<close>

lemma manager_ok_bank [simp]: "manager_ok (g\<lparr>BANK := b\<rparr>) = manager_ok g"
  by (simp add: manager_ok_def fun_eq_iff)

lemma cast_votes_bank [simp]: "cast_votes (g\<lparr>BANK := b\<rparr>) = cast_votes g"
  by (simp add: cast_votes_def fun_eq_iff)

definition manager_of :: "gov \<Rightarrow> addr \<Rightarrow> voting_token_manager" where
  "manager_of g a = (case get (BANK g) a of Some m \<Rightarrow> m | None \<Rightarrow> default_manager)"

lemma manager_of_ok:
  assumes "vote_inv g"
  shows "manager_ok g a (manager_of g a)"
  using vote_inv_manager [OF assms, of a]
  by (auto simp: manager_of_def manager_ok_def default_manager_def split: option.splits)

lemma vote_inv_bank:
  assumes inv: "vote_inv g" and same: "locked_balance m = locked_balance (manager_of g a)"
    and ok: "manager_ok g a m"
  shows "vote_inv (g\<lparr>BANK := put a m (BANK g)\<rparr>)"
proof -
  have wf: "wf_store (BANK g)" using inv by (simp add: vote_inv_def)
  have "\<exists>m'. get (put a m (BANK g)) b = Some m' \<and> (k, i) \<in> set (locked_balance m')"
    if v: "get (POLL_VOTER g) (k, b) = Some i" for k b i
  proof -
    obtain m' where "get (BANK g) b = Some m'" "(k, i) \<in> set (locked_balance m')"
      using vote_inv_voter [OF inv v] by blast
    then show ?thesis using same by (cases "b = a") (auto simp: get_put [OF wf] manager_of_def)
  qed
  moreover have "manager_ok g b m'" if "get (put a m (BANK g)) b = Some m'" for b m'
    using that ok vote_inv_manager [OF inv, of b m'] by (auto simp: get_put [OF wf] split: if_splits)
  ultimately show ?thesis
    using inv by (simp add: vote_inv_def wf_put [OF wf])
qed

text \<open>Parts of the storage that the other parts of the invariant do not read.\<close>

lemma poll_inv_cong:
  assumes "poll_inv g" "POLL g' = POLL g" "POLL_INDEXER g' = POLL_INDEXER g"
    "LAST_POLL_ID g' = LAST_POLL_ID g" "TMP_POLL_ID g' = TMP_POLL_ID g"
  shows "poll_inv g'"
  using assms by (simp add: poll_inv_def)

lemma vote_inv_cong:
  assumes "vote_inv g" "POLL g' = POLL g" "POLL_VOTER g' = POLL_VOTER g" "BANK g' = BANK g"
  shows "vote_inv g'"
proof -
  have "manager_ok g' = manager_ok g" "cast_votes g' = cast_votes g"
    using assms by (simp_all add: manager_ok_def cast_votes_def fun_eq_iff)
  then show ?thesis using assms by (simp add: vote_inv_def)
qed

lemma orders_inv_cong:
  assumes "orders_inv g" "WITHDRAW_ORDERS g' = WITHDRAW_ORDERS g"
    "TOTAL_PENDING_WITHDRAW g' = TOTAL_PENDING_WITHDRAW g"
  shows "orders_inv g'"
  using assms by (simp add: orders_inv_def pending_orders_eq)

lemma gov_inv_bank:
  assumes "gov_inv g" and "locked_balance m = locked_balance (manager_of g a)" and "manager_ok g a m"
  shows "gov_inv (g\<lparr>BANK := put a m (BANK g)\<rparr>)"
  using assms vote_inv_bank [of g m a]
    poll_inv_cong [of g "g\<lparr>BANK := put a m (BANK g)\<rparr>"] orders_inv_cong [of g "g\<lparr>BANK := put a m (BANK g)\<rparr>"]
  by (simp add: gov_inv_def)

context cosmwasm_std
begin

lemma stake_voting_tokens_Ok:
  assumes "stake_voting_tokens S D g who amount = Inr (g', r)"
  obtains key where "addr_canonicalize D who = Inr key" and "r = []" and "amount \<noteq> 0"
    and "g' = g\<lparr>BANK := put key ((manager_of g key)\<lparr>deposit := deposit (manager_of g key) + amount\<rparr>) (BANK g)\<rparr>"
  using assms
  by (auto simp: stake_voting_tokens_def Let_def result_simps cw_laws manager_of_def split: if_splits)

lemma stake_voting_tokens_inv:
  assumes "stake_voting_tokens S D g who amount = Inr (g', r)" and inv: "gov_inv g"
  shows "gov_inv g'" and "xprism_owed g' = xprism_owed g + amount"
proof (atomize (full), rule stake_voting_tokens_Ok [OF assms(1)])
  fix key
  let ?m = "(manager_of g key)\<lparr>deposit := deposit (manager_of g key) + amount\<rparr>"
  assume g': "g' = g\<lparr>BANK := put key ?m (BANK g)\<rparr>"
  have "manager_ok g key (manager_of g key)" using inv by (simp add: gov_inv_def manager_of_ok)
  then have "manager_ok g key ?m" by (fastforce simp: manager_ok_def)
  then have "gov_inv g'" using inv by (simp add: g' gov_inv_bank)
  moreover have "xprism_owed g' = xprism_owed g + amount"
    using total_deposits_put [OF gov_inv_stores(4) [OF inv], of key ?m]
    by (auto simp: g' xprism_owed_def poll_deposits_def manager_of_def default_manager_def split: option.splits)
  ultimately show "gov_inv g' \<and> xprism_owed g' = xprism_owed g + amount" by simp
qed

end

text \<open>The part of \<open>withdraw_voting_tokens\<close> that drops the votes on polls that are over.\<close>

definition open_poll :: "gov \<Rightarrow> nat \<Rightarrow> bool" where
  "open_poll g k \<longleftrightarrow> (\<exists>p. get (POLL g) k = Some p \<and> status p = InProgress)"

lemma mapM_map: "(\<And>x. x \<in> set xs \<Longrightarrow> f x = Inr (h x)) \<Longrightarrow> mapM f xs = Inr (map h xs)"
  by (induction xs) auto

lemma fold_max_base: "(b :: nat) \<le> fold max xs b"
proof (induction xs arbitrary: b)
  case (Cons y ys)
  have "b \<le> max y b" by simp
  also have "\<dots> \<le> fold max ys (max y b)" by (rule Cons.IH)
  finally show ?case by simp
qed simp

lemma fold_max_ge: "x \<in> set xs \<Longrightarrow> x \<le> fold max xs (b :: nat)"
proof (induction xs arbitrary: b)
  case (Cons y ys)
  show ?case
  proof (cases "x = y")
    case True
    then have "x \<le> max y b" by simp
    also have "\<dots> \<le> fold max ys (max y b)" by (rule fold_max_base)
    finally show ?thesis by simp
  qed (use Cons in simp)
qed simp

lemma get_fold_del_voter:
  "get (fold (\<lambda>k. del (k, a)) ks s) (j, b) = (if b = a \<and> j \<in> set ks then None else get s (j, b))"
  by (induction ks arbitrary: s) (auto simp: get_del)

lemma wf_fold_del_voter: "wf_store s \<Longrightarrow> wf_store (fold (\<lambda>k. del (k, a)) ks s)"
  by (induction ks arbitrary: s) (auto simp: wf_del)

lemma cast_votes_fold_del:
  assumes "wf_store (POLL_VOTER g)" and "pid \<notin> set ks"
  shows "cast_votes (g\<lparr>POLL_VOTER := fold (\<lambda>k. del (k, a)) ks (POLL_VOTER g)\<rparr>) pid o1 = cast_votes g pid o1"
  using assms
proof (induction ks arbitrary: g)
  case (Cons k ks)
  then show ?case
    using Cons.IH [of "g\<lparr>POLL_VOTER := del (k, a) (POLL_VOTER g)\<rparr>"]
      cast_votes_del_other [of g k pid a o1] by (simp add: wf_del)
qed simp

lemma compute_locked_balance_eq:
  assumes "manager_ok g a m"
  shows "compute_locked_balance g m a = Ok
    (g\<lparr>POLL_VOTER := fold (\<lambda>k. del (k, a)) (map fst (filter (\<lambda>(k, i). \<not> open_poll g k) (locked_balance m))) (POLL_VOTER g)\<rparr>,
     m\<lparr>locked_balance := filter (\<lambda>(k, i). open_poll g k) (locked_balance m)\<rparr>,
     fold max (map (\<lambda>(k, i). balance i) (filter (\<lambda>(k, i). open_poll g k) (locked_balance m))) 0)"
proof -
  let ?h = "\<lambda>(k, i). (k, i, status (the (get (POLL g) k)))"
  have ex: "get (POLL g) k \<noteq> None" if "(k, i) \<in> set (locked_balance m)" for k i
    using that assms unfolding manager_ok_def by blast
  have entries: "mapM (\<lambda>(pid, i). andThen (or_panic (get (POLL g) pid)) (\<lambda>p. Ok (pid, i, status p)))
      (locked_balance m) = (Inr (map ?h (locked_balance m)) :: (std_error, _) result)"
    using ex by (intro mapM_map) fastforce
  have cond: "(status (the (get (POLL g) k)) = InProgress) = open_poll g k" if "(k, i) \<in> set (locked_balance m)" for k i
    using ex [OF that] by (auto simp: open_poll_def)
  have opened: "filter (\<lambda>x. case ?h x of (pid, i, s) \<Rightarrow> s = InProgress) (locked_balance m)
      = filter (\<lambda>(k, i). open_poll g k) (locked_balance m)"
    by (rule filter_cong) (auto simp: cond)
  have closed: "filter (\<lambda>x. case ?h x of (pid, i, s) \<Rightarrow> s \<noteq> InProgress) (locked_balance m)
      = filter (\<lambda>(k, i). \<not> open_poll g k) (locked_balance m)"
    by (rule filter_cong) (auto simp: cond)
  have kept: "filter (\<lambda>(k, i). k \<notin> fst ` {x \<in> set (locked_balance m). case x of (k, i) \<Rightarrow> \<not> open_poll g k})
      (locked_balance m) = filter (\<lambda>(k, i). open_poll g k) (locked_balance m)"
    by (rule filter_cong) force+
  show ?thesis
    unfolding compute_locked_balance_def entries andThen.simps Let_def filter_map o_def opened closed
    by (simp add: o_def case_prod_unfold kept [unfolded case_prod_unfold])
qed

context cosmwasm_std
begin

lemma withdraw_voting_tokens_Ok:
  assumes "withdraw_voting_tokens S D g info amount = Inr (g', r)" and inv: "vote_inv g"
  obtains key m w x h to where "addr_canonicalize D (sender info) = Inr key" and "get (BANK g) key = Some m"
    and "\<And>k i. (k, i) \<in> set (locked_balance m) \<Longrightarrow> open_poll g k \<Longrightarrow> w + balance i \<le> deposit m"
    and "w \<le> deposit m" and "\<And>b. amount = Some b \<Longrightarrow> w = b"
    and "g' = g\<lparr>POLL_VOTER := fold (\<lambda>k. del (k, key))
          (map fst (filter (\<lambda>(k, i). \<not> open_poll g k) (locked_balance m))) (POLL_VOTER g),
        BANK := put key (m\<lparr>locked_balance := filter (\<lambda>(k, i). open_poll g k) (locked_balance m),
          deposit := deposit m - w\<rparr>) (BANK g)\<rparr>"
    and "xprism_token (CONFIG g) = Some x" and "addr_humanize D x = Inr h" and "addr_humanize D key = Inr to"
    and "r = add_messages [WasmExecute h (Cw20Transfer to w)]"
    and "amount = None \<Longrightarrow> deposit m - w =
        Max (insert 0 ((\<lambda>(k, i). balance i) ` set (filter (\<lambda>(k, i). open_poll g k) (locked_balance m))))"
proof -
  from assms(1) obtain key m where key: "addr_canonicalize D (sender info) = Inr key"
    and m: "get (BANK g) key = Some m"
    by (auto simp: withdraw_voting_tokens_def result_simps)
  let ?open = "filter (\<lambda>(k, i). open_poll g k) (locked_balance m)"
  let ?max = "fold max (map (\<lambda>(k, i). balance i) ?open) 0"
  have max: "balance i \<le> ?max" if "(k, i) \<in> set (locked_balance m)" "open_poll g k" for k i
    using that by (intro fold_max_ge) force
  note locked = compute_locked_balance_eq [OF vote_inv_manager [OF inv m]]
  from assms(1) obtain w x h to where w: "w = (case amount of Some a \<Rightarrow> a | None \<Rightarrow> deposit m - ?max)"
    and le: "?max \<le> deposit m" "w \<le> deposit m - ?max"
    and g': "g' = g\<lparr>POLL_VOTER := fold (\<lambda>k. del (k, key))
          (map fst (filter (\<lambda>(k, i). \<not> open_poll g k) (locked_balance m))) (POLL_VOTER g),
        BANK := put key (m\<lparr>locked_balance := ?open, deposit := deposit m - w\<rparr>) (BANK g)\<rparr>"
    and x: "xprism_token (CONFIG g) = Some x" "addr_humanize D x = Inr h" "addr_humanize D key = Inr to"
    and r: "r = add_messages [WasmExecute h (Cw20Transfer to w)]"
    unfolding withdraw_voting_tokens_def key m locked Let_def
    by (auto simp: locked key m result_simps uchecked_sub_Ok_iff send_tokens_def split: if_splits)
  show thesis
  proof (rule that [OF key m _ _ _ g' x r])
    show "w + balance i \<le> deposit m" if "(k, i) \<in> set (locked_balance m)" "open_poll g k" for k i
      using max [OF that] le by linarith
    show "w \<le> deposit m" using le by linarith
    show "w = b" if "amount = Some b" for b using w that by simp
    show "deposit m - w = Max (insert 0 ((\<lambda>(k, i). balance i) ` set ?open))" if "amount = None"
    proof -
      have "deposit m - w = ?max" using w le that by simp
      also have "\<dots> = Max (set (0 # map (\<lambda>(k, i). balance i) ?open))" by (rule Max.set_eq_fold [symmetric])
      finally show ?thesis by (simp only: list.set set_map)
    qed
  qed
qed

lemma withdraw_voting_tokens_inv:
  assumes "withdraw_voting_tokens S D g info amount = Inr (g', r)" and inv: "gov_inv g"
  shows "gov_inv g'"
proof -
  have vinv: "vote_inv g" using inv by (simp add: gov_inv_def)
  note wf = gov_inv_stores [OF inv]
  show ?thesis
  proof (rule withdraw_voting_tokens_Ok [OF assms(1) vinv])
    fix key w and m :: voting_token_manager
    let ?gone = "map fst (filter (\<lambda>(k, i). \<not> open_poll g k) (locked_balance m))"
    let ?m = "m\<lparr>locked_balance := filter (\<lambda>(k, i). open_poll g k) (locked_balance m), deposit := deposit m - w\<rparr>"
    assume m: "get (BANK g) key = Some m"
      and cover: "\<And>k i. (k, i) \<in> set (locked_balance m) \<Longrightarrow> open_poll g k \<Longrightarrow> w + balance i \<le> deposit m"
      and g': "g' = g\<lparr>POLL_VOTER := fold (\<lambda>k. del (k, key)) ?gone (POLL_VOTER g), BANK := put key ?m (BANK g)\<rparr>"
    have ok: "manager_ok g key m" by (rule vote_inv_manager [OF vinv m])
    have bank: "get (BANK g') a = (if a = key then Some ?m else get (BANK g) a)" for a
      by (simp add: g' get_put [OF wf(4)])
    have gone: "k \<in> set ?gone \<longleftrightarrow> \<not> open_poll g k \<and> k \<in> fst ` set (locked_balance m)" for k by force
    have voter: "get (POLL_VOTER g') (k, a) = (if a = key \<and> k \<in> set ?gone then None else get (POLL_VOTER g) (k, a))" for k a
      by (simp add: g' get_fold_del_voter del: set_map)
    have poll: "POLL g' = POLL g" by (simp add: g')
    have "manager_ok g' a m'" if "get (BANK g') a = Some m'" for a m'
    proof (cases "a = key")
      case True
      with that have m': "m' = ?m" by (simp add: bank)
      have dist: "distinct (map fst (filter P (locked_balance m)))" for P
        using ok by (simp add: manager_ok_def distinct_map_filter)
      have "get (POLL_VOTER g') (k, a) = Some i \<and> (\<exists>p. get (POLL g') k = Some p
          \<and> (status p = InProgress \<longrightarrow> balance i \<le> deposit m'))"
        if "(k, i) \<in> set (locked_balance m')" for k i
      proof -
        from that have k: "(k, i) \<in> set (locked_balance m)" "open_poll g k" by (auto simp: m')
        with ok have "get (POLL_VOTER g) (k, key) = Some i" unfolding manager_ok_def by blast
        then show ?thesis using k cover [OF k] by (auto simp: voter gone poll True m' open_poll_def)
      qed
      moreover have "length (locked_balance m') \<le> MAX_POLL_VOTES_PER_USER"
        using ok by (auto simp: m' manager_ok_def intro: order_trans [OF length_filter_le])
      ultimately show ?thesis using dist unfolding manager_ok_def by (simp add: m')
    next
      case False
      with that have "get (BANK g) a = Some m'" by (simp add: bank)
      from vote_inv_manager [OF vinv this] show ?thesis
        using False unfolding manager_ok_def by (simp add: voter poll)
    qed
    moreover have "\<exists>m'. get (BANK g') a = Some m' \<and> (k, i) \<in> set (locked_balance m')"
      if v: "get (POLL_VOTER g') (k, a) = Some i" for k a i
    proof -
      from v have old: "get (POLL_VOTER g) (k, a) = Some i" and kept: "\<not> (a = key \<and> k \<in> set ?gone)"
        by (simp_all add: voter del: set_map split: if_splits)
      from vote_inv_voter [OF vinv old] obtain m' where "get (BANK g) a = Some m'" "(k, i) \<in> set (locked_balance m')"
        by blast
      then show ?thesis using kept m by (cases "a = key") (force simp: bank gone)+
    qed
    moreover have "tally p o1 = cast_votes g' k o1" if p: "get (POLL g') k = Some p" "status p = InProgress" for k p o1
    proof -
      have "k \<notin> set ?gone" using p by (auto simp: open_poll_def poll)
      then have "cast_votes g' k o1 = cast_votes g k o1"
        using cast_votes_fold_del [OF wf(3)] by (simp add: g' del: set_map)
      then show ?thesis using p vinv by (simp add: vote_inv_def poll)
    qed
    ultimately have "vote_inv g'"
      using wf by (simp add: vote_inv_def g' wf_put wf_fold_del_voter)
    then show ?thesis
      using inv poll_inv_cong [of g g'] orders_inv_cong [of g g'] by (simp add: gov_inv_def g')
  qed
qed

end

subsection \<open>Polls\<close>

lemma poll_inv_create:
  assumes inv: "poll_inv g" and p: "poll_id p = LAST_POLL_ID g" "status p = InProgress"
    and g': "g' = save_index InProgress (LAST_POLL_ID g) (save_poll (LAST_POLL_ID g) p
      (g\<lparr>LAST_POLL_ID := LAST_POLL_ID g + 1\<rparr>))"
  shows "poll_inv g'"
proof -
  let ?n = "LAST_POLL_ID g"
  have wf: "wf_store (POLL g)" "wf_store (POLL_INDEXER g)" "0 < ?n" using inv by (simp_all add: poll_inv_def)
  have fresh: "get (POLL g) ?n = None" using inv unfolding poll_inv_def by (metis less_irrefl)
  have poll: "get (POLL g') j = (if j = ?n then Some p else get (POLL g) j)" for j
    by (simp add: g' save_poll_def save_index_def get_put [OF wf(1)])
  have index: "get (POLL_INDEXER g') (status_to_string s, j) =
      (if s = InProgress \<and> j = ?n then Some True else get (POLL_INDEXER g) (status_to_string s, j))" for s j
    using status_to_string_inj [of s InProgress]
    by (simp add: g' save_poll_def save_index_def get_put [OF wf(2)] del: status_to_string_inj status_to_string.simps)
  have eq: "LAST_POLL_ID g' = ?n + 1" "TMP_POLL_ID g' = TMP_POLL_ID g"
    "wf_store (POLL g')" "wf_store (POLL_INDEXER g')"
    by (simp_all add: g' save_poll_def save_index_def wf_put wf)
  have "get (POLL_INDEXER g') (status_to_string s, j) \<noteq> None \<longleftrightarrow>
      (\<exists>q. get (POLL g') j = Some q \<and> status q = s)" for s j
    using poll_inv_index [OF inv, of s j] fresh p(2) by (cases "j = ?n") (auto simp: index poll)
  moreover have "get (POLL g') j \<noteq> None \<longleftrightarrow> 0 < j \<and> j < ?n + 1" for j
    using inv wf(3) by (auto simp: poll_inv_def poll less_Suc_eq)
  moreover have "poll_id q = j" if "get (POLL g') j = Some q" for j q
    using that p(1) poll_inv_poll(1) [OF inv, of j q] by (auto simp: poll split: if_splits)
  moreover have "\<exists>q. get (POLL g') j = Some q \<and> status q \<in> {Executed, Failed}" if "TMP_POLL_ID g = Some j" for j
    using that inv fresh by (auto simp: poll poll_inv_def)
  ultimately show ?thesis by (simp add: poll_inv_def eq)
qed

lemma vote_inv_create:
  assumes inv: "vote_inv g" and wf: "wf_store (POLL g)" and fresh: "get (POLL g) n = None"
    and p: "\<And>o1. tally p o1 = 0"
    and g': "POLL g' = put n p (POLL g)" "POLL_VOTER g' = POLL_VOTER g" "BANK g' = BANK g"
  shows "vote_inv g'"
proof -
  have poll: "get (POLL g') j = (if j = n then Some p else get (POLL g) j)" for j
    by (simp add: g' get_put [OF wf])
  have cast: "cast_votes g' = cast_votes g" by (simp add: cast_votes_def g' fun_eq_iff)
  have "manager_ok g' a m" if "manager_ok g a m" for a m
    using that fresh unfolding manager_ok_def g'(2) poll by (metis option.distinct(1))
  moreover have "tally q o1 = cast_votes g j o1" if "get (POLL g') j = Some q" "status q = InProgress" for j q o1
    using that inv p cast_votes_none [OF inv fresh] by (auto simp: vote_inv_def poll split: if_splits)
  ultimately show ?thesis
    using inv unfolding vote_inv_def g'(2,3) cast by blast
qed

text \<open>A vote on an open poll by a user who has not voted on it.\<close>

lemma vote_inv_cast:
  assumes inv: "vote_inv g" and wfp: "wf_store (POLL g)" and p: "get (POLL g) k = Some p"
    and new: "get (POLL_VOTER g) (k, a) = None" and m: "m = manager_of g a"
    and enough: "balance i \<le> deposit m" and room: "length (locked_balance m) < MAX_POLL_VOTES_PER_USER"
    and p': "\<And>o1. tally p' o1 = tally p o1 + (if o1 = vote i then balance i else 0)" "status p' = status p"
    and g': "POLL g' = put k p' (POLL g)" "POLL_VOTER g' = put (k, a) i (POLL_VOTER g)"
      "BANK g' = put a (m\<lparr>locked_balance := locked_balance m @ [(k, i)]\<rparr>) (BANK g)"
  shows "vote_inv g'"
proof -
  let ?m = "m\<lparr>locked_balance := locked_balance m @ [(k, i)]\<rparr>"
  have wf: "wf_store (POLL_VOTER g)" "wf_store (BANK g)" using inv by (simp_all add: vote_inv_def)
  have poll: "get (POLL g') j = (if j = k then Some p' else get (POLL g) j)" for j
    by (simp add: g' get_put [OF wfp])
  have voter: "get (POLL_VOTER g') (j, b) = (if j = k \<and> b = a then Some i else get (POLL_VOTER g) (j, b))" for j b
    by (simp add: g' get_put [OF wf(1)])
  have bank: "get (BANK g') b = (if b = a then Some ?m else get (BANK g) b)" for b
    by (simp add: g' get_put [OF wf(2)])
  have cast: "cast_votes g' j o1 = cast_votes g j o1 + (if k = j \<and> vote i = o1 then balance i else 0)" for j o1
    using cast_votes_put [OF wf(1) new, of i j o1] by (simp add: cast_votes_def g')
  have okm: "manager_ok g a m" unfolding m by (rule manager_of_ok [OF inv])
  have fresh: "k \<notin> fst ` set (locked_balance m)"
    using okm new unfolding manager_ok_def by force
  have keep: "\<exists>q. get (POLL g') j = Some q \<and> (status q = InProgress \<longrightarrow> P)"
    if "\<exists>q. get (POLL g) j = Some q \<and> (status q = InProgress \<longrightarrow> P)" for j P
    using that p p'(2) by (auto simp: poll)
  have "manager_ok g' a ?m"
    unfolding manager_ok_def
  proof (intro conjI allI impI)
    fix j x assume "(j, x) \<in> set (locked_balance ?m)"
    then consider "(j, x) = (k, i)" | "(j, x) \<in> set (locked_balance m)" "j \<noteq> k"
      using fresh by force
    then show "get (POLL_VOTER g') (j, a) = Some x"
      "\<exists>q. get (POLL g') j = Some q \<and> (status q = InProgress \<longrightarrow> balance x \<le> deposit ?m)"
    proof (atomize (full), cases)
      case 1
      then show "get (POLL_VOTER g') (j, a) = Some x
        \<and> (\<exists>q. get (POLL g') j = Some q \<and> (status q = InProgress \<longrightarrow> balance x \<le> deposit ?m))"
        using enough by (simp add: voter poll)
    next
      case 2
      then show "get (POLL_VOTER g') (j, a) = Some x
        \<and> (\<exists>q. get (POLL g') j = Some q \<and> (status q = InProgress \<longrightarrow> balance x \<le> deposit ?m))"
        using okm keep unfolding manager_ok_def by (simp add: voter)
    qed
  qed (use okm fresh room in \<open>simp_all add: manager_ok_def\<close>)
  moreover have "manager_ok g' b n" if "get (BANK g) b = Some n" "b \<noteq> a" for b n
    using vote_inv_manager [OF inv that(1)] that(2) keep unfolding manager_ok_def by (simp add: voter)
  ultimately have managers: "manager_ok g' b n" if "get (BANK g') b = Some n" for b n
    using that by (auto simp: bank split: if_splits)
  have voters: "\<exists>n. get (BANK g') b = Some n \<and> (j, x) \<in> set (locked_balance n)"
    if v: "get (POLL_VOTER g') (j, b) = Some x" for j b x
  proof (cases "j = k \<and> b = a")
    case True
    with v show ?thesis by (simp add: voter bank)
  next
    case False
    with v have "get (POLL_VOTER g) (j, b) = Some x" by (auto simp: voter)
    from vote_inv_voter [OF inv this] obtain n where "get (BANK g) b = Some n" "(j, x) \<in> set (locked_balance n)"
      by blast
    then show ?thesis using m by (cases "b = a") (auto simp: bank manager_of_def)
  qed
  have "tally q o1 = cast_votes g' j o1" if q: "get (POLL g') j = Some q" "status q = InProgress" for j q o1
    using q inv p p' by (auto simp: vote_inv_def poll cast split: if_splits)
  with managers voters show ?thesis
    by (simp add: vote_inv_def g' wf_put wf)
qed

subsection \<open>Operations on polls\<close>

context cosmwasm_std
begin

lemma create_poll_Ok:
  assumes "create_poll S D env g who amount ti desc li exec = Inr (g', r)"
  obtains p where "poll_id p = LAST_POLL_ID g" and "status p = InProgress" and "\<And>o1. tally p o1 = 0"
    and "deposit_amount p = amount" and "end_time p = now_seconds S env + voting_period (CONFIG g)"
    and "required_quorum p = quorum (CONFIG g)" and "required_threshold p = threshold (CONFIG g)"
    and "proposal_deposit (CONFIG g) \<le> amount" and "supply_snapshot p = None"
    and "g' = save_index InProgress (LAST_POLL_ID g) (save_poll (LAST_POLL_ID g) p
      (g\<lparr>LAST_POLL_ID := LAST_POLL_ID g + 1\<rparr>))" and "r = []"
proof -
  from assms obtain x xa where
    g': "g' = save_index InProgress (LAST_POLL_ID g) (save_poll (LAST_POLL_ID g)
      \<lparr>poll_id = LAST_POLL_ID g, creator = xa, status = InProgress, yes_votes = 0, no_votes = 0,
       abstain_votes = 0, end_time = now_seconds S env + voting_period (CONFIG g), title = ti,
       description = desc, link = li, execute_data = x, deposit_amount = amount, supply_snapshot = None,
       required_quorum = quorum (CONFIG g), required_threshold = threshold (CONFIG g)\<rparr>
      (g\<lparr>LAST_POLL_ID := LAST_POLL_ID g + 1\<rparr>))"
    and r: "r = []" "proposal_deposit (CONFIG g) \<le> amount"
    unfolding create_poll_def Let_def
    apply (elim andThen_OkE)
    apply (simp split: if_split_asm)
    apply (elim andThen_OkE)
    apply (clarsimp simp: pop_last_poll_id_Ok u64_add_Ok_iff not_less elim!: andThen_OkE)
    done
  show thesis by (rule that [OF _ _ _ _ _ _ _ r(2) _ g' r(1)]) (simp_all add: tally_def split: vote_option.splits)
qed

lemma create_poll_inv:
  assumes "create_poll S D env g who amount ti desc li exec = Inr (g', r)" and inv: "gov_inv g"
  shows "gov_inv g'" and "xprism_owed g' = xprism_owed g + amount"
proof (atomize (full), rule create_poll_Ok [OF assms(1)])
  fix p :: poll
  let ?n = "LAST_POLL_ID g"
  assume p: "poll_id p = ?n" "status p = InProgress" "\<And>o1. tally p o1 = 0" "deposit_amount p = amount"
    and g': "g' = save_index InProgress ?n (save_poll ?n p (g\<lparr>LAST_POLL_ID := ?n + 1\<rparr>))"
  note wf = gov_inv_stores [OF inv]
  have pinv: "poll_inv g" using inv by (simp add: gov_inv_def)
  have fresh: "get (POLL g) ?n = None"
    using poll_inv_poll(3) [OF pinv, of ?n] by (cases "get (POLL g) ?n") auto
  have "poll_inv g'" by (rule poll_inv_create [OF pinv p(1,2) g'])
  moreover have "vote_inv g'"
  proof (rule vote_inv_create [OF _ wf(1) fresh])
    show "vote_inv g" using inv by (simp add: gov_inv_def)
    show "tally p o1 = 0" for o1 by (rule p(3))
  qed (simp_all add: g' save_index_def save_poll_def)
  moreover have "orders_inv g'"
    using inv orders_inv_cong [of g g'] by (simp add: gov_inv_def g' save_index_def save_poll_def)
  moreover have "xprism_owed g' = xprism_owed g + amount"
    using poll_deposits_put [OF wf(1), of ?n p] fresh p(2,4)
    by (simp add: xprism_owed_def g' save_index_def save_poll_def total_deposits_def poll_deposits_def)
  ultimately show "gov_inv g' \<and> xprism_owed g' = xprism_owed g + amount" by (simp add: gov_inv_def)
qed

text \<open>The count decides by quorum first, then by threshold, and returns or burns the deposit.\<close>

lemma count_poll_Ok:
  assumes "count_poll S D h p w supp = Inr (s, msgs)"
  shows "s = Passed \<or> s = Rejected"
    and "msgs = (if deposit_amount p = 0 then [] else
      [if w = 0 \<or> (if supp = 0 then 0 else w * DEC_ONE div supp) < required_quorum p
       then WasmExecute h (Cw20Burn (deposit_amount p))
       else WasmExecute h (Cw20Transfer (the (case addr_humanize D (creator p) of Inl e \<Rightarrow> None | Inr c \<Rightarrow> Some c))
         (deposit_amount p))])"
    and "s = Passed \<longleftrightarrow> w \<noteq> 0 \<and> required_quorum p \<le> (if supp = 0 then 0 else w * DEC_ONE div supp)
      \<and> yes_votes p \<noteq> 0 \<and> required_threshold p < yes_votes p * DEC_ONE div (yes_votes p + no_votes p)"
  using assms
  by (auto simp: count_poll_def result_simps cw_laws not_less split: if_splits)

lemma count_poll_deposit:
  assumes "count_poll S D h p w supp = Inr (s, msgs)"
  shows "deposit_amount p \<noteq> 0 \<longrightarrow>
    (if w \<noteq> 0 \<and> required_quorum p \<le> (if supp = 0 then 0 else w * DEC_ONE div supp)
     then \<exists>c. addr_humanize D (creator p) = Ok c
       \<and> add_messages msgs = [new_sub_msg (WasmExecute h (Cw20Transfer c (deposit_amount p)))]
     else add_messages msgs = [new_sub_msg (WasmExecute h (Cw20Burn (deposit_amount p)))])"
  using assms
  by (auto simp: count_poll_def add_messages_def result_simps cw_laws split: if_splits)

lemma count_poll_no_deposit:
  assumes "count_poll S D h p w supp = Inr (s, msgs)" and "deposit_amount p = 0"
  shows "msgs = []"
  using assms by (auto simp: count_poll_def result_simps split: if_splits)

lemma end_poll_Ok:
  assumes "end_poll S D env g pid = Inr (g', r)" and inv: "gov_inv g"
  obtains p x h supp s msgs where "get (POLL g) pid = Some p" and "status p = InProgress"
    and "end_time p \<le> now_seconds S env" and "xprism_token (CONFIG g) = Some x" and "addr_humanize D x = Inr h"
    and "case supply_snapshot p of Some n \<Rightarrow> supp = n | None \<Rightarrow> query_supply D h = Inr supp"
    and "count_poll S D h (p\<lparr>supply_snapshot := Some supp\<rparr>) (yes_votes p + no_votes p + abstain_votes p) supp
        = Inr (s, msgs)"
    and "g' = save_poll pid (p\<lparr>supply_snapshot := Some supp, status := s\<rparr>)
        (save_index s pid (remove_index InProgress pid g))"
    and "r = add_messages msgs"
proof -
  from assms(1) obtain p x h where p: "get (POLL g) pid = Some p" and x: "xprism_token (CONFIG g) = Some x"
    and h: "addr_humanize D x = Inr h"
    and st: "status p = InProgress" "end_time p \<le> now_seconds S env"
    by (auto simp: end_poll_def result_simps not_less split: if_splits)
  have pid: "poll_id p = pid" using inv by (intro poll_inv_poll(1) [OF _ p]) (simp add: gov_inv_def)
  from assms(1) obtain supp s msgs where
    supp: "(case supply_snapshot p of Some v \<Rightarrow> Ok v | None \<Rightarrow> query_supply D h) = Inr supp"
    and rest: "count_poll S D h (p\<lparr>supply_snapshot := Some supp\<rparr>) (yes_votes p + no_votes p + abstain_votes p) supp
        = Inr (s, msgs)"
      "g' = save_poll pid (p\<lparr>supply_snapshot := Some supp, status := s\<rparr>)
        (save_index s pid (remove_index InProgress pid g))"
      "r = add_messages msgs"
    unfolding end_poll_def Let_def
    by (auto simp: load_poll_Ok_iff p x h st(1) leD [OF st(2)] pid result_simps elim!: andThen_OkE)
  from supp have "case supply_snapshot p of Some n \<Rightarrow> supp = n | None \<Rightarrow> query_supply D h = Inr supp"
    by (auto split: option.splits)
  from that [OF p st x h this rest] show thesis .
qed

lemma end_poll_inv:
  assumes "end_poll S D env g pid = Inr (g', r)" and inv: "gov_inv g"
  shows "gov_inv g'"
proof (rule end_poll_Ok [OF assms])
  fix p h supp s msgs
  assume p: "get (POLL g) pid = Some p" "status p = InProgress"
    and c: "count_poll S D h (p\<lparr>supply_snapshot := Some supp\<rparr>) (yes_votes p + no_votes p + abstain_votes p) supp
        = Inr (s, msgs)"
    and g': "g' = save_poll pid (p\<lparr>supply_snapshot := Some supp, status := s\<rparr>)
        (save_index s pid (remove_index InProgress pid g))"
  let ?p = "p\<lparr>supply_snapshot := Some supp, status := s\<rparr>"
  note wf = gov_inv_stores [OF inv]
  have pinv: "poll_inv g" and vinv: "vote_inv g" using inv by (simp_all add: gov_inv_def)
  have tmp: "TMP_POLL_ID g \<noteq> Some pid" using pinv p unfolding poll_inv_def by force
  have "poll_inv g'"
    using poll_inv_poll(1) [OF pinv p(1)] p(2) tmp count_poll_Ok(1) [OF c]
    by (intro poll_inv_status [OF pinv p(1), of ?p InProgress]) (auto simp: g')
  moreover have "vote_inv g'"
    using p(2) by (intro vote_inv_save_poll [OF vinv wf(1) p(1), of ?p])
      (simp_all add: g' save_poll_def save_index_def remove_index_def tally_def split: vote_option.splits)
  moreover have "orders_inv g'"
    using inv orders_inv_cong [of g g'] by (simp add: gov_inv_def g' save_index_def save_poll_def remove_index_def)
  ultimately show ?thesis by (simp add: gov_inv_def)
qed

lemma execute_poll_Ok:
  assumes "execute_poll S D env g pid = Inr (g', r)"
  obtains p d c where "get (POLL g) pid = Some p" and "status p = Passed"
    and "end_time p + effective_delay (CONFIG g) \<le> now_seconds S env"
    and "execute_data p = Some d" and "addr_humanize D (exec_contract d) = Inr c"
    and "g' = (save_poll pid (p\<lparr>status := Executed\<rparr>) (save_index Executed pid (remove_index Passed pid g)))
        \<lparr>TMP_POLL_ID := Some (poll_id p)\<rparr>"
    and "r = [\<lparr>sub_id = POLL_EXECUTE_REPLY_ID, sub_body = WasmExecute c (RawMsg (exec_body d)),
        gas_limit = Some (poll_gas_limit (CONFIG g)), reply_mode = ReplyOnError\<rparr>]"
proof -
  from assms obtain p where p: "get (POLL g) pid = Some p" "status p = Passed"
    "end_time p + effective_delay (CONFIG g) \<le> now_seconds S env"
    by (auto simp: execute_poll_def result_simps not_less split: if_splits)
  from assms p obtain d where d: "execute_data p = Some d"
    by (cases "execute_data p") (auto simp: execute_poll_def Let_def result_simps split: if_splits)
  from assms p d that show thesis
    by (auto simp: execute_poll_def Let_def result_simps save_poll_def save_index_def remove_index_def
        split: if_splits)
qed

lemma execute_poll_inv:
  assumes "execute_poll S D env g pid = Inr (g', r)" and inv: "gov_inv g"
  shows "gov_inv g'"
proof (rule execute_poll_Ok [OF assms(1)])
  fix p :: poll
  let ?p = "p\<lparr>status := Executed\<rparr>"
  let ?g = "save_poll pid ?p (save_index Executed pid (remove_index Passed pid g))"
  assume p: "get (POLL g) pid = Some p" "status p = Passed" and g': "g' = ?g\<lparr>TMP_POLL_ID := Some (poll_id p)\<rparr>"
  note wf = gov_inv_stores [OF inv]
  have pinv: "poll_inv g" and vinv: "vote_inv g" using inv by (simp_all add: gov_inv_def)
  have id: "poll_id p = pid" by (rule poll_inv_poll(1) [OF pinv p(1)])
  have "poll_inv ?g" using id p(2) by (intro poll_inv_status [OF pinv p(1), of ?p Passed]) auto
  moreover have "get (POLL ?g) pid = Some ?p"
    by (simp add: save_poll_def save_index_def remove_index_def get_put [OF wf(1)])
  ultimately have "poll_inv g'" by (auto simp: poll_inv_def g' id)
  moreover have "vote_inv g'"
    using p(2) by (intro vote_inv_save_poll [OF vinv wf(1) p(1), of ?p])
      (simp_all add: g' save_poll_def save_index_def remove_index_def tally_def split: vote_option.splits)
  moreover have "orders_inv g'"
    using inv orders_inv_cong [of g g'] by (simp add: gov_inv_def g' save_index_def save_poll_def remove_index_def)
  ultimately show ?thesis by (simp add: gov_inv_def)
qed

end

lemma failed_poll_inv:
  assumes "failed_poll g pid = Inr (g', r)" and inv: "gov_inv g" and tmp: "TMP_POLL_ID g = Some pid"
  shows "gov_inv g'"
proof -
  from assms(1) obtain p where p: "get (POLL g) pid = Some p"
    and g': "g' = save_poll pid (p\<lparr>status := Failed\<rparr>) (save_index Failed pid (remove_index Executed pid g))"
    by (auto simp: failed_poll_def result_simps)
  note wf = gov_inv_stores [OF inv]
  have pinv: "poll_inv g" and vinv: "vote_inv g" using inv by (simp_all add: gov_inv_def)
  have st: "status p \<in> {Executed, Failed}" using pinv tmp p unfolding poll_inv_def by force
  have "poll_inv g'"
    using poll_inv_poll(1) [OF pinv p] st
    by (intro poll_inv_status [OF pinv p, of "p\<lparr>status := Failed\<rparr>" Executed]) (auto simp: g')
  moreover have "vote_inv g'"
    by (intro vote_inv_save_poll [OF vinv wf(1) p, of "p\<lparr>status := Failed\<rparr>"])
      (simp_all add: g' save_poll_def save_index_def remove_index_def tally_def split: vote_option.splits)
  moreover have "orders_inv g'"
    using inv orders_inv_cong [of g g'] by (simp add: gov_inv_def g' save_index_def save_poll_def remove_index_def)
  ultimately show ?thesis by (simp add: gov_inv_def)
qed

end
