(* ===== verification/Gov_Custody.thy ===== *)
theory Gov_Custody
  imports Gov_Polls
begin

text \<open>
  The remaining operations on polls (casting a vote, taking the supply snapshot) keep the books of
  the governance contract, and what every operation does to the xPRISM the contract owes: stakes,
  deposits of open polls and queued redemptions.
\<close>


section \<open>Voting keeps the books\<close>

lemma poll_inv_save_poll:
  assumes inv: "poll_inv g" and p: "get (POLL g) k = Some p" and p': "poll_id p' = k" "status p' = status p"
    and g': "POLL g' = put k p' (POLL g)" "POLL_INDEXER g' = POLL_INDEXER g" "LAST_POLL_ID g' = LAST_POLL_ID g"
      "TMP_POLL_ID g' = TMP_POLL_ID g"
  shows "poll_inv g'"
proof -
  have wf: "wf_store (POLL g)" using inv by (simp add: poll_inv_def)
  have poll: "get (POLL g') j = (if j = k then Some p' else get (POLL g) j)" for j
    by (simp add: g' get_put [OF wf])
  have same: "(\<exists>q. get (POLL g') j = Some q \<and> P (status q)) \<longleftrightarrow> (\<exists>q. get (POLL g) j = Some q \<and> P (status q))" for j P
    using p p'(2) by (auto simp: poll)
  have "get (POLL g') j \<noteq> None \<longleftrightarrow> 0 < j \<and> j < LAST_POLL_ID g'" for j
    using inv p by (auto simp: poll_inv_def poll g'(3))
  moreover have "poll_id q = j" if "get (POLL g') j = Some q" for j q
    using that p' poll_inv_poll(1) [OF inv, of j q] by (auto simp: poll split: if_splits)
  moreover have "get (POLL_INDEXER g') (status_to_string s, j) \<noteq> None \<longleftrightarrow>
      (\<exists>q. get (POLL g') j = Some q \<and> status q = s)" for s j
    unfolding same [of j "\<lambda>t. t = s"] g'(2) by (rule poll_inv_index [OF inv])
  moreover have "\<exists>q. get (POLL g') j = Some q \<and> status q \<in> {Executed, Failed}" if "TMP_POLL_ID g' = Some j" for j
    unfolding same [of j "\<lambda>t. t \<in> {Executed, Failed}"] using that inv by (simp add: poll_inv_def g'(4))
  moreover have "wf_store (POLL g')" "wf_store (POLL_INDEXER g')" "0 < LAST_POLL_ID g'"
    using inv by (simp_all add: poll_inv_def g' wf_put)
  ultimately show ?thesis by (simp add: poll_inv_def)
qed

context cosmwasm_std
begin

lemma add_vote_Ok:
  assumes "add_vote S p o1 amount = Inr p'"
  shows "tally p' o2 = tally p o2 + (if o2 = o1 then amount else 0)"
    and "status p' = status p" and "poll_id p' = poll_id p" and "end_time p' = end_time p"
    and "deposit_amount p' = deposit_amount p" and "supply_snapshot p' = supply_snapshot p"
    and "execute_data p' = execute_data p" and "creator p' = creator p"
    and "required_quorum p' = required_quorum p" and "required_threshold p' = required_threshold p"
  using assms
  by (auto simp: add_vote_def result_simps uadd_Ok_iff tally_def split: vote_option.splits)

lemma cast_vote_Ok:
  assumes "cast_vote S D env g info pid o1 amount = Inr (g', r)"
  obtains key p q snap where "addr_canonicalize D (sender info) = Inr key" and "get (POLL g) pid = Some p"
    and "status p = InProgress" and "now_seconds S env \<le> end_time p"
    and "get (POLL_VOTER g) (pid, key) = None" and "amount \<le> deposit (manager_of g key)"
    and "length (locked_balance (manager_of g key)) < MAX_POLL_VOTES_PER_USER"
    and "add_vote S p o1 amount = Inr q" and "supply_snapshot p \<noteq> None \<Longrightarrow> snap = supply_snapshot p"
    and "g' = g\<lparr>BANK := put key ((manager_of g key)\<lparr>locked_balance :=
            locked_balance (manager_of g key) @ [(pid, \<lparr>vote = o1, balance = amount\<rparr>)]\<rparr>) (BANK g),
          POLL_VOTER := put (pid, key) \<lparr>vote = o1, balance = amount\<rparr> (POLL_VOTER g),
          POLL := put pid (q\<lparr>supply_snapshot := snap\<rparr>) (POLL g)\<rparr>"
    and "r = []"
proof -
  from assms obtain key p where key: "addr_canonicalize D (sender info) = Inr key"
    and p: "get (POLL g) pid = Some p" and st: "status p = InProgress" "\<not> end_time p < now_seconds S env"
    by (auto simp: cast_vote_def result_simps split: if_splits)
  let ?m = "manager_of g key"
  let ?i = "\<lparr>vote = o1, balance = amount\<rparr>"
  let ?g = "g\<lparr>BANK := put key (?m\<lparr>locked_balance := locked_balance ?m @ [(pid, ?i)]\<rparr>) (BANK g),
      POLL_VOTER := put (pid, key) ?i (POLL_VOTER g)\<rparr>"
  have load: "map_err (\<lambda>_. GenericErr ''Poll does not exist'') (load_poll g pid) = Inr p"
    using p by (simp add: load_poll_def)
  note run = assms [unfolded cast_vote_def key load andThen.simps manager_of_def [symmetric] Let_def]
  from run st have new: "get (POLL_VOTER g) (pid, key) = None"
    and enough: "\<not> deposit ?m < amount" and room: "\<not> MAX_POLL_VOTES_PER_USER \<le> length (locked_balance ?m)"
    by (auto split: if_splits)
  with run st obtain q q' where q: "add_vote S p o1 amount = Inr q"
    and q': "(if end_time q - now_seconds S env < snapshot_period (CONFIG g) \<and> supply_snapshot q = None
        then andThen (snapshot_supply D ?g) (\<lambda>s. Ok (q\<lparr>supply_snapshot := Some s\<rparr>)) else Ok q)
        = (Inr q' :: (std_error, poll) result)"
    and res: "g' = save_poll pid q' ?g" "r = []"
    by (auto simp: u64_sub_Ok_iff elim!: andThen_OkE)
  from q' have snap: "q' = q\<lparr>supply_snapshot := supply_snapshot q'\<rparr>"
    "supply_snapshot q \<noteq> None \<longrightarrow> supply_snapshot q' = supply_snapshot q"
    by (auto simp: result_simps split: if_splits)
  show thesis
  proof (rule that [OF key p st(1) _ new _ _ q, where snap = "supply_snapshot q'"])
    show "g' = ?g\<lparr>POLL := put pid (q\<lparr>supply_snapshot := supply_snapshot q'\<rparr>) (POLL g)\<rparr>"
      unfolding snap(1) [symmetric] by (simp add: res save_poll_def)
  qed (use st(2) enough room res snap(2) add_vote_Ok(6) [OF q] in simp_all)
qed

lemma cast_vote_inv:
  assumes "cast_vote S D env g info pid o1 amount = Inr (g', r)" and inv: "gov_inv g"
  shows "gov_inv g'" and "xprism_owed g' = xprism_owed g"
proof (atomize (full), rule cast_vote_Ok [OF assms(1)])
  fix key snap and p q :: poll
  let ?m = "manager_of g key"
  let ?i = "\<lparr>vote = o1, balance = amount\<rparr>"
  let ?n = "?m\<lparr>locked_balance := locked_balance ?m @ [(pid, ?i)]\<rparr>"
  let ?q = "q\<lparr>supply_snapshot := snap\<rparr>"
  assume p: "get (POLL g) pid = Some p" "status p = InProgress"
    and vote: "get (POLL_VOTER g) (pid, key) = None" "amount \<le> deposit ?m"
      "length (locked_balance ?m) < MAX_POLL_VOTES_PER_USER"
    and q: "add_vote S p o1 amount = Inr q"
    and g': "g' = g\<lparr>BANK := put key ?n (BANK g), POLL_VOTER := put (pid, key) ?i (POLL_VOTER g),
      POLL := put pid ?q (POLL g)\<rparr>"
  note wf = gov_inv_stores [OF inv] and q = add_vote_Ok [OF q]
  have pinv: "poll_inv g" and vinv: "vote_inv g" using inv by (simp_all add: gov_inv_def)
  have "poll_inv g'"
    using poll_inv_poll(1) [OF pinv p(1)] p(2) q(2,3)
    by (intro poll_inv_save_poll [OF pinv p(1), of ?q]) (simp_all add: g')
  moreover have "vote_inv g'"
  proof (rule vote_inv_cast [OF vinv wf(1) p(1) vote(1) refl, of ?i])
    show "tally ?q o2 = tally p o2 + (if o2 = vote ?i then balance ?i else 0)" for o2
      using q(1) [of o2] by (simp add: tally_def split: vote_option.splits)
  qed (use vote q(2) in \<open>simp_all add: g'\<close>)
  moreover have "orders_inv g'"
    using inv orders_inv_cong [of g g'] by (simp add: gov_inv_def g')
  moreover have "xprism_owed g' = xprism_owed g"
    using total_deposits_put [OF wf(4), of key ?n] poll_deposits_put [OF wf(1), of pid ?q] p q(2,5)
    by (auto simp: xprism_owed_def g' total_deposits_def poll_deposits_def save_poll_def manager_of_def
        default_manager_def split: option.splits)
  ultimately show "gov_inv g' \<and> xprism_owed g' = xprism_owed g" by (simp add: gov_inv_def)
qed

lemma snapshot_poll_Ok:
  assumes "snapshot_poll S D env g pid = Inr (g', r)"
  obtains p s where "get (POLL g) pid = Some p" and "status p = InProgress" and "supply_snapshot p = None"
    and "now_seconds S env \<le> end_time p" and "end_time p \<le> now_seconds S env + snapshot_period (CONFIG g)"
    and "snapshot_supply D g = Inr s" and "g' = save_poll pid (p\<lparr>supply_snapshot := Some s\<rparr>) g" and "r = []"
proof -
  from assms obtain p where p: "get (POLL g) pid = Some p" "status p = InProgress"
    by (auto simp: snapshot_poll_def result_simps split: if_splits)
  with assms that show thesis
    by (auto simp: snapshot_poll_def result_simps not_less split: if_splits)
qed

lemma snapshot_poll_inv:
  assumes "snapshot_poll S D env g pid = Inr (g', r)" and inv: "gov_inv g"
  shows "gov_inv g'" and "xprism_owed g' = xprism_owed g"
proof (atomize (full), rule snapshot_poll_Ok [OF assms(1)])
  fix s and p :: poll
  let ?q = "p\<lparr>supply_snapshot := Some s\<rparr>"
  assume p: "get (POLL g) pid = Some p" "status p = InProgress" and g': "g' = save_poll pid ?q g"
  note wf = gov_inv_stores [OF inv]
  have pinv: "poll_inv g" and vinv: "vote_inv g" using inv by (simp_all add: gov_inv_def)
  have "poll_inv g'"
    using poll_inv_poll(1) [OF pinv p(1)]
    by (intro poll_inv_save_poll [OF pinv p(1), of ?q]) (simp_all add: g' save_poll_def)
  moreover have "vote_inv g'"
    by (rule vote_inv_save_poll [OF vinv wf(1) p(1), of ?q])
      (simp_all add: g' save_poll_def tally_def p split: vote_option.splits)
  moreover have "orders_inv g'"
    using inv orders_inv_cong [of g g'] by (simp add: gov_inv_def g' save_poll_def)
  moreover have "xprism_owed g' = xprism_owed g"
    using poll_deposits_put [OF wf(1), of pid ?q] p by (simp add: xprism_owed_def g' total_deposits_def save_poll_def)
  ultimately show "gov_inv g' \<and> xprism_owed g' = xprism_owed g" by (simp add: gov_inv_def)
qed

end


section \<open>The xPRISM the contract owes\<close>

text \<open>A poll that stays closed, or stays open with its deposit, leaves the sum of the deposits alone.\<close>

lemma owed_save_poll:
  assumes "wf_store (POLL g)" and "get (POLL g) k = Some p" and "POLL g' = put k p' (POLL g)"
    and "BANK g' = BANK g" and "TOTAL_PENDING_WITHDRAW g' = TOTAL_PENDING_WITHDRAW g"
  shows "xprism_owed g' + (if status p = InProgress then deposit_amount p else 0)
    = xprism_owed g + (if status p' = InProgress then deposit_amount p' else 0)"
  using poll_deposits_put [OF assms(1), of k p'] assms(2-)
  by (simp add: xprism_owed_def total_deposits_def poll_deposits_def save_poll_def)

context cosmwasm_std
begin

lemma withdraw_voting_tokens_owed:
  assumes "withdraw_voting_tokens S D g info amount = Inr (g', r)" and inv: "gov_inv g"
  obtains x h to w where "xprism_token (CONFIG g) = Some x" and "addr_humanize D x = Inr h"
    and "r = add_messages [WasmExecute h (Cw20Transfer to w)]" and "xprism_owed g' + w = xprism_owed g"
proof -
  have vinv: "vote_inv g" using inv by (simp add: gov_inv_def)
  show thesis
  proof (rule withdraw_voting_tokens_Ok [OF assms(1) vinv])
    fix key x h to w and m :: voting_token_manager
    let ?m = "m\<lparr>locked_balance := filter (\<lambda>(k, i). open_poll g k) (locked_balance m), deposit := deposit m - w\<rparr>"
    assume m: "get (BANK g) key = Some m" "w \<le> deposit m"
      and g': "g' = g\<lparr>POLL_VOTER := fold (\<lambda>k. del (k, key))
          (map fst (filter (\<lambda>(k, i). \<not> open_poll g k) (locked_balance m))) (POLL_VOTER g),
        BANK := put key ?m (BANK g)\<rparr>"
      and x: "xprism_token (CONFIG g) = Some x" "addr_humanize D x = Inr h"
      and r: "r = add_messages [WasmExecute h (Cw20Transfer to w)]"
    have "xprism_owed g' + w = xprism_owed g"
      using total_deposits_put [OF gov_inv_stores(4) [OF inv], of key ?m] m
      by (simp add: g' xprism_owed_def total_deposits_def poll_deposits_def)
    from that [OF x r this] show thesis .
  qed
qed

lemma end_poll_owed:
  assumes "end_poll S D env g pid = Inr (g', r)" and inv: "gov_inv g"
  obtains p where "get (POLL g) pid = Some p" and "xprism_owed g' + deposit_amount p = xprism_owed g"
proof (rule end_poll_Ok [OF assms])
  fix h supp s msgs and p :: poll
  assume p: "get (POLL g) pid = Some p" "status p = InProgress"
    and c: "count_poll S D h (p\<lparr>supply_snapshot := Some supp\<rparr>) (yes_votes p + no_votes p + abstain_votes p) supp
        = Inr (s, msgs)"
    and g': "g' = save_poll pid (p\<lparr>supply_snapshot := Some supp, status := s\<rparr>)
        (save_index s pid (remove_index InProgress pid g))"
  have "xprism_owed g' + deposit_amount p = xprism_owed g"
    using owed_save_poll [OF gov_inv_stores(1) [OF inv] p(1), of g' "p\<lparr>supply_snapshot := Some supp, status := s\<rparr>"]
      p(2) count_poll_Ok(1) [OF c] by (auto simp: g' save_poll_def save_index_def remove_index_def)
  from that [OF p(1) this] show thesis .
qed

lemma execute_poll_owed:
  assumes "execute_poll S D env g pid = Inr (g', r)" and inv: "gov_inv g"
  shows "xprism_owed g' = xprism_owed g"
proof (rule execute_poll_Ok [OF assms(1)])
  fix p :: poll
  assume p: "get (POLL g) pid = Some p" "status p = Passed"
    and g': "g' = (save_poll pid (p\<lparr>status := Executed\<rparr>) (save_index Executed pid (remove_index Passed pid g)))
        \<lparr>TMP_POLL_ID := Some (poll_id p)\<rparr>"
  show ?thesis
    using owed_save_poll [OF gov_inv_stores(1) [OF inv] p(1), of g' "p\<lparr>status := Executed\<rparr>"] p(2)
    by (simp add: g' save_poll_def save_index_def remove_index_def)
qed

text \<open>Redemptions: a queued order is owed until it is claimed.\<close>

lemma redeem_xprism_gov_inv:
  assumes "redeem_xprism S D env g who amount = Inr (g', r)" and inv: "gov_inv g"
  shows "gov_inv g'" and "xprism_owed g' = xprism_owed g + amount" and "r = []"
proof -
  have o: "orders_inv g'" by (rule redeem_xprism_inv [OF assms(1)]) (use inv in \<open>simp add: gov_inv_def\<close>)
  have "(poll_inv g' \<and> vote_inv g') \<and> xprism_owed g' = xprism_owed g + amount \<and> r = []"
  proof (rule redeem_xprism_Ok [OF assms(1)])
    fix ret t
    assume g': "g' = g\<lparr>WITHDRAW_ORDERS := put (who, t) (amount, ret) (WITHDRAW_ORDERS g),
        TOTAL_PENDING_WITHDRAW := (fst (TOTAL_PENDING_WITHDRAW g) + amount, snd (TOTAL_PENDING_WITHDRAW g) + ret)\<rparr>"
      and "r = []"
    then show ?thesis
      using inv poll_inv_cong [of g g'] vote_inv_cong [of g g']
      by (simp add: gov_inv_def xprism_owed_def total_deposits_def poll_deposits_def)
  qed
  then show "gov_inv g'" "xprism_owed g' = xprism_owed g + amount" "r = []" using o by (simp_all add: gov_inv_def)
qed

lemma claim_redeemed_prism_Ok:
  assumes "claim_redeemed_prism S D env g info = Inr (g', r)" and inv: "gov_inv g"
  obtains prism xprism wx wp where "token_addrs D g = Inr (prism, xprism)"
    and "wx = (\<Sum>(t, x, p)\<leftarrow>matured_orders g (now_seconds S env) (sender info). x)"
    and "wp = (\<Sum>(t, x, p)\<leftarrow>matured_orders g (now_seconds S env) (sender info). p)"
    and "wx \<noteq> 0 \<or> wp \<noteq> 0"
    and "r = add_messages [WasmExecute xprism (Cw20Burn wx), WasmExecute prism (Cw20Transfer (sender info) wp)]"
    and "compute_withdrawable S g (now_seconds S env) (sender info) = Inr (g', wx, wp)"
    and "gov_inv g'" and "xprism_owed g' + wx = xprism_owed g"
    and "snd (TOTAL_PENDING_WITHDRAW g') + wp = snd (TOTAL_PENDING_WITHDRAW g)"
proof -
  from assms(1) obtain prism xprism wx wp where t: "token_addrs D g = Inr (prism, xprism)"
    and c: "compute_withdrawable S g (now_seconds S env) (sender info) = Inr (g', wx, wp)"
    and nz: "wx \<noteq> 0 \<or> wp \<noteq> 0"
    and r: "r = add_messages [WasmExecute xprism (Cw20Burn wx), WasmExecute prism (Cw20Transfer (sender info) wp)]"
    by (auto simp: claim_redeemed_prism_def result_simps split: if_splits)
  have oinv: "orders_inv g" using inv by (simp add: gov_inv_def)
  note w = compute_withdrawable_Ok [OF c oinv]
  have same: "POLL g' = POLL g" "POLL_INDEXER g' = POLL_INDEXER g" "LAST_POLL_ID g' = LAST_POLL_ID g"
    "TMP_POLL_ID g' = TMP_POLL_ID g" "POLL_VOTER g' = POLL_VOTER g" "BANK g' = BANK g"
    by (subst w(3), simp)+
  have "gov_inv g'"
    using inv w(4) poll_inv_cong [of g g'] vote_inv_cong [of g g'] same by (simp add: gov_inv_def)
  moreover have "xprism_owed g' + wx = xprism_owed g"
    using w(5) same by (simp add: xprism_owed_def total_deposits_def poll_deposits_def)
  ultimately show thesis by (rule that [OF t w(1,2) nz r c _ _ w(6)])
qed

end

lemma failed_poll_owed:
  assumes "failed_poll g pid = Inr (g', r)" and inv: "gov_inv g" and tmp: "TMP_POLL_ID g = Some pid"
  shows "xprism_owed g' = xprism_owed g"
proof -
  from assms(1) obtain p where p: "get (POLL g) pid = Some p"
    and g': "g' = save_poll pid (p\<lparr>status := Failed\<rparr>) (save_index Failed pid (remove_index Executed pid g))"
    by (auto simp: failed_poll_def result_simps)
  have "status p \<noteq> InProgress" using inv tmp p unfolding gov_inv_def poll_inv_def by force
  then show ?thesis
    using owed_save_poll [OF gov_inv_stores(1) [OF inv] p, of g' "p\<lparr>status := Failed\<rparr>"]
    by (simp add: g' save_poll_def save_index_def remove_index_def)
qed

end
