(* ===== verification/Gov_Contract.thy ===== *)
theory Gov_Contract
  imports Parse_Reply Gov_Custody
begin

text \<open>
  The entry points of the governance contract (\<open>contract.rs\<close>): instantiation, which asks the chain
  to create the xPRISM token, the execute and reply handlers, the configuration and the queries;
  then the states the contract can reach and the properties of the contract as a whole.
\<close>


section \<open>Definitions\<close>

subsection \<open>Messages\<close>

record instantiate_msg =
  im_prism_token :: string
  im_quorum :: decimal
  im_threshold :: decimal
  im_voting_period :: nat
  im_effective_delay :: nat
  im_proposal_deposit :: nat
  im_snapshot_period :: nat
  im_redemption_time :: nat
  im_poll_gas_limit :: nat
  im_token_code_id :: nat

datatype execute_msg =
    Receive cw20_receive_msg
  | is_UpdateConfig: UpdateConfig "string option" "decimal option" "decimal option" "nat option" "nat option"
      "nat option" "nat option" "nat option" "nat option"
  | CastVote nat vote_option nat
  | WithdrawVotingTokens "nat option"
  | EndPoll nat
  | ExecutePoll nat
  | SnapshotPoll nat
  | ClaimRedeemedXprism

datatype cw20_hook_msg =
    StakeVotingTokens
  | CreatePoll string string "string option" "poll_execute_msg option"
  | MintXprism "string option"
  | RedeemXprism

subsection \<open>Configuration\<close>

definition MIN_POLL_GAS_LIMIT :: nat where
  "MIN_POLL_GAS_LIMIT = 1000000"

definition validate_quorum :: "decimal \<Rightarrow> (std_error, unit) result" where
  "validate_quorum q = (if q > DEC_ONE then Fail (GenericErr ''quorum must be 0 to 1'') else Ok ())"

definition validate_threshold :: "decimal \<Rightarrow> (std_error, unit) result" where
  "validate_threshold t = (if t > DEC_ONE then Fail (GenericErr ''threshold must be 0 to 1'') else Ok ())"

definition validate_poll_gas_limit :: "nat \<Rightarrow> (std_error, unit) result" where
  "validate_poll_gas_limit l =
     (if l < MIN_POLL_GAS_LIMIT
      then Fail (GenericErr (''gas limit can not be smaller than '' @ show_nat MIN_POLL_GAS_LIMIT))
      else Ok ())"

definition instantiate_gov ::
  "deps \<Rightarrow> env \<Rightarrow> message_info \<Rightarrow> instantiate_msg \<Rightarrow> gov_result" where
  "instantiate_gov D env info msg =
     andThen (validate_quorum (im_quorum msg)) (\<lambda>_.
     andThen (validate_threshold (im_threshold msg)) (\<lambda>_.
     andThen (validate_poll_gas_limit (im_poll_gas_limit msg)) (\<lambda>_.
     andThen (addr_canonicalize D (im_prism_token msg)) (\<lambda>prism.
     andThen (addr_canonicalize D (sender info)) (\<lambda>ow.
     Ok (\<lparr>CONFIG = \<lparr>owner = ow, prism_token = prism, xprism_token = None, quorum = im_quorum msg,
            threshold = im_threshold msg, voting_period = im_voting_period msg,
            effective_delay = im_effective_delay msg, proposal_deposit = im_proposal_deposit msg,
            snapshot_period = im_snapshot_period msg, redemption_time = im_redemption_time msg,
            poll_gas_limit = im_poll_gas_limit msg\<rparr>,
          TMP_POLL_ID = None, LAST_POLL_ID = 1, POLL_INDEXER = [], POLL_VOTER = [], POLL = [], BANK = [],
          WITHDRAW_ORDERS = [], TOTAL_PENDING_WITHDRAW = (0, 0)\<rparr>,
       [\<lparr>sub_id = INSTANTIATE_REPLY_ID,
         sub_body = WasmInstantiate (im_token_code_id msg)
           \<lparr>token_name = ''Prism Governance Token'', token_symbol = ''xPRISM'', token_decimals = 6,
            initial_balances = [], token_mint = Some \<lparr>minter = contract_address env, minter_cap = None\<rparr>\<rparr> None,
         gas_limit = None, reply_mode = ReplyOnSuccess\<rparr>]))))))"

definition set_field :: "('a \<Rightarrow> config \<Rightarrow> config) \<Rightarrow> 'a option \<Rightarrow> config \<Rightarrow> config" where
  "set_field f x c = (case x of None \<Rightarrow> c | Some v \<Rightarrow> f v c)"

definition update_config ::
  "deps \<Rightarrow> gov \<Rightarrow> message_info \<Rightarrow> string option \<Rightarrow> decimal option \<Rightarrow> decimal option \<Rightarrow> nat option
    \<Rightarrow> nat option \<Rightarrow> nat option \<Rightarrow> nat option \<Rightarrow> nat option \<Rightarrow> nat option \<Rightarrow> gov_result" where
  "update_config D g info ow quo thr vp ed pd sp rt gl =
     (let config = CONFIG g in
     andThen (addr_canonicalize D (sender info)) (\<lambda>sender_raw.
     if owner config \<noteq> sender_raw then Fail (GenericErr ''unauthorized'')
     else
     andThen (case ow of None \<Rightarrow> Ok config
         | Some a \<Rightarrow> andThen (addr_canonicalize D a) (\<lambda>a. Ok (config\<lparr>owner := a\<rparr>))) (\<lambda>config.
     andThen (case quo of None \<Rightarrow> Ok config
         | Some q \<Rightarrow> andThen (validate_quorum q) (\<lambda>_. Ok (config\<lparr>quorum := q\<rparr>))) (\<lambda>config.
     andThen (case thr of None \<Rightarrow> Ok config
         | Some t \<Rightarrow> andThen (validate_threshold t) (\<lambda>_. Ok (config\<lparr>threshold := t\<rparr>))) (\<lambda>config.
     let config = set_field (\<lambda>x c. c\<lparr>voting_period := x\<rparr>) vp config;
         config = set_field (\<lambda>x c. c\<lparr>effective_delay := x\<rparr>) ed config;
         config = set_field (\<lambda>x c. c\<lparr>proposal_deposit := x\<rparr>) pd config;
         config = set_field (\<lambda>x c. c\<lparr>snapshot_period := x\<rparr>) sp config;
         config = set_field (\<lambda>x c. c\<lparr>redemption_time := x\<rparr>) rt config
     in andThen (case gl of None \<Rightarrow> Ok config
         | Some l \<Rightarrow> andThen (validate_poll_gas_limit l) (\<lambda>_. Ok (config\<lparr>poll_gas_limit := l\<rparr>))) (\<lambda>config.
     Ok (g\<lparr>CONFIG := config\<rparr>, [])))))))"

subsection \<open>Entry points\<close>

text \<open>
  A transfer of tokens to the contract. The hook is decoded by a parameter; a message that does not
  decode, or that the token is not the one for, is an error. Before xPRISM exists the handler panics.
\<close>

definition receive_cw20 ::
  "cosmwasm \<Rightarrow> deps \<Rightarrow> (binary \<Rightarrow> std_error + cw20_hook_msg) \<Rightarrow> env \<Rightarrow> gov \<Rightarrow> message_info
    \<Rightarrow> cw20_receive_msg \<Rightarrow> gov_result" where
  "receive_cw20 S D from_binary env g info m =
     (let config = CONFIG g in
     andThen (addr_canonicalize D (sender info)) (\<lambda>sender_raw.
     andThen (or_panic (xprism_token config)) (\<lambda>xprism.
     if xprism = sender_raw then
       (case from_binary (cw20_msg m) of
          Inr StakeVotingTokens \<Rightarrow> stake_voting_tokens S D g (cw20_sender m) (cw20_amount m)
        | Inr (CreatePoll ti desc li exec) \<Rightarrow>
            create_poll S D env g (cw20_sender m) (cw20_amount m) ti desc li exec
        | Inr RedeemXprism \<Rightarrow> redeem_xprism S D env g (cw20_sender m) (cw20_amount m)
        | _ \<Rightarrow> Fail (GenericErr ''invalid cw20 hook message''))
     else if prism_token config = sender_raw then
       (case from_binary (cw20_msg m) of
          Inr (MintXprism receiver) \<Rightarrow>
            let receiver = (case receiver of Some a \<Rightarrow> a | None \<Rightarrow> cw20_sender m) in
            andThen (addr_validate D receiver) (\<lambda>_. mint_xprism S D env g receiver (cw20_amount m))
        | _ \<Rightarrow> Fail (GenericErr ''invalid cw20 hook message''))
     else Fail (GenericErr ''unauthorized''))))"

fun execute ::
  "cosmwasm \<Rightarrow> deps \<Rightarrow> (binary \<Rightarrow> std_error + cw20_hook_msg) \<Rightarrow> env \<Rightarrow> gov \<Rightarrow> message_info
    \<Rightarrow> execute_msg \<Rightarrow> gov_result" where
  "execute S D fb env g info (Receive m) = receive_cw20 S D fb env g info m"
| "execute S D fb env g info (UpdateConfig ow quo thr vp ed pd sp rt gl) =
     update_config D g info ow quo thr vp ed pd sp rt gl"
| "execute S D fb env g info (WithdrawVotingTokens amount) = withdraw_voting_tokens S D g info amount"
| "execute S D fb env g info (CastVote pid o1 amount) = cast_vote S D env g info pid o1 amount"
| "execute S D fb env g info (EndPoll pid) = end_poll S D env g pid"
| "execute S D fb env g info (ExecutePoll pid) = execute_poll S D env g pid"
| "execute S D fb env g info (SnapshotPoll pid) = snapshot_poll S D env g pid"
| "execute S D fb env g info ClaimRedeemedXprism = claim_redeemed_prism S D env g info"

definition set_xprism_token :: "deps \<Rightarrow> gov \<Rightarrow> reply \<Rightarrow> gov_result" where
  "set_xprism_token D g msg =
     (let config = CONFIG g in
     if xprism_token config \<noteq> None then Fail (GenericErr ''xprism token was already set'')
     else
       andThen (map_err (\<lambda>_. GenericErr ''error parsing xprism instantiation reply'')
         (parse_reply_instantiate_data msg)) (\<lambda>res.
       andThen (addr_validate D (instantiated_address res)) (\<lambda>xprism_token_addr.
       andThen (addr_canonicalize D xprism_token_addr) (\<lambda>x.
       Ok (g\<lparr>CONFIG := config\<lparr>xprism_token := Some x\<rparr>\<rparr>, [])))))"

definition reply_gov :: "deps \<Rightarrow> gov \<Rightarrow> reply \<Rightarrow> gov_result" where
  "reply_gov D g msg =
     (if reply_id msg = POLL_EXECUTE_REPLY_ID
      then andThen (read_tmp_poll_id g) (\<lambda>pid. failed_poll g pid)
      else if reply_id msg = INSTANTIATE_REPLY_ID then set_xprism_token D g msg
      else Fail (GenericErr ''reply id is invalid''))"

subsection \<open>Queries\<close>

datatype query_msg =
    QueryConfig
  | QueryVotingTokens string
  | QueryPoll nat
  | QueryPolls "poll_status option" "nat option" "nat option" "order_by option"
  | QueryVoter nat string
  | QueryVoters nat "string option" "nat option" "order_by option"
  | QueryPrismWithdrawOrders string "nat option" "nat option" "order_by option"
  | QueryXprismState

text \<open>A poll and the configuration are answered with human addresses, otherwise as they are stored.\<close>

record poll_response =
  pr_poll :: poll
  pr_creator :: string
  pr_execute_data :: "poll_execute_msg option"

record config_response =
  cr_config :: config
  cr_owner :: string
  cr_prism_token :: string
  cr_xprism_token :: string

record voters_response_item =
  vr_voter :: string
  vr_vote :: vote_option
  vr_balance :: nat

datatype query_response =
    ConfigResponse config_response
  | VotingTokensResponse voting_token_manager
  | PollResponse poll_response
  | PollsResponse "poll_response list"
  | VoterResponse voters_response_item
  | VotersResponse "voters_response_item list"
  | PrismWithdrawOrdersResponse nat "(nat \<times> nat) list"
  | XprismStateResponse xprism_state_response

definition query_config :: "deps \<Rightarrow> gov \<Rightarrow> (std_error, config_response) result" where
  "query_config D g =
     (let config = CONFIG g in
     andThen (addr_humanize D (owner config)) (\<lambda>ow.
     andThen (addr_humanize D (prism_token config)) (\<lambda>prism.
     andThen (or_panic (xprism_token config)) (\<lambda>x.
     andThen (addr_humanize D x) (\<lambda>xprism.
     Ok \<lparr>cr_config = config, cr_owner = ow, cr_prism_token = prism, cr_xprism_token = xprism\<rparr>)))))"

definition poll_as_res :: "deps \<Rightarrow> poll \<Rightarrow> (std_error, poll_response) result" where
  "poll_as_res D p =
     andThen (unwrap (addr_humanize D (creator p))) (\<lambda>c.
     andThen (case Gov_State.execute_data p of
         None \<Rightarrow> Ok None
       | Some d \<Rightarrow> andThen (addr_humanize D (exec_contract d)) (\<lambda>h.
           Ok (Some \<lparr>pem_contract = h, pem_msg = exec_body d\<rparr>))) (\<lambda>d.
     Ok \<lparr>pr_poll = p, pr_creator = c, pr_execute_data = d\<rparr>))"

definition query_poll :: "deps \<Rightarrow> gov \<Rightarrow> nat \<Rightarrow> (std_error, poll_response) result" where
  "query_poll D g pid =
     (case get (POLL g) pid of
        None \<Rightarrow> Fail (GenericErr ''Poll does not exist'')
      | Some p \<Rightarrow> poll_as_res D p)"

definition query_polls ::
  "deps \<Rightarrow> gov \<Rightarrow> poll_status option \<Rightarrow> nat option \<Rightarrow> nat option \<Rightarrow> order_by option
    \<Rightarrow> (std_error, poll_response list) result" where
  "query_polls D g filt start_after limit order =
     andThen (read_polls g filt start_after limit order) (mapM (poll_as_res D))"

definition query_voter :: "deps \<Rightarrow> gov \<Rightarrow> nat \<Rightarrow> string \<Rightarrow> (std_error, voters_response_item) result" where
  "query_voter D g pid address =
     andThen (addr_canonicalize D address) (\<lambda>key.
     andThen (or_err NotFound (get (POLL_VOTER g) (pid, key))) (\<lambda>voter.
     Ok \<lparr>vr_voter = address, vr_vote = vote voter, vr_balance = balance voter\<rparr>))"

definition query_voters ::
  "deps \<Rightarrow> gov \<Rightarrow> nat \<Rightarrow> string option \<Rightarrow> nat option \<Rightarrow> order_by option
    \<Rightarrow> (std_error, voters_response_item list) result" where
  "query_voters D g pid start_after limit order =
     andThen (case start_after of
         None \<Rightarrow> Ok (read_poll_voters g pid None limit order)
       | Some a \<Rightarrow> andThen (addr_canonicalize D a) (\<lambda>key. Ok (read_poll_voters g pid (Some key) limit order)))
       (mapM (\<lambda>(a, i). andThen (addr_humanize D a) (\<lambda>h.
         Ok \<lparr>vr_voter = h, vr_vote = vote i, vr_balance = balance i\<rparr>)))"

fun query :: "cosmwasm \<Rightarrow> deps \<Rightarrow> env \<Rightarrow> gov \<Rightarrow> query_msg \<Rightarrow> (std_error, query_response) result" where
  "query S D env g QueryConfig = andThen (query_config D g) (\<lambda>x. Ok (ConfigResponse x))"
| "query S D env g (QueryVotingTokens address) =
     andThen (query_voting_tokens D g address) (\<lambda>x. Ok (VotingTokensResponse x))"
| "query S D env g (QueryPoll pid) = andThen (query_poll D g pid) (\<lambda>x. Ok (PollResponse x))"
| "query S D env g (QueryPolls filt start_after limit order) =
     andThen (query_polls D g filt start_after limit order) (\<lambda>x. Ok (PollsResponse x))"
| "query S D env g (QueryVoter pid address) =
     andThen (query_voter D g pid address) (\<lambda>x. Ok (VoterResponse x))"
| "query S D env g (QueryVoters pid start_after limit order) =
     andThen (query_voters D g pid start_after limit order) (\<lambda>x. Ok (VotersResponse x))"
| "query S D env g (QueryPrismWithdrawOrders address start_after limit order) =
     andThen (query_prism_withdraw_orders S D env g address start_after limit order)
       (\<lambda>(claimable, orders). Ok (PrismWithdrawOrdersResponse claimable orders))"
| "query S D env g QueryXprismState = andThen (query_xprism_state S D env g) (\<lambda>x. Ok (XprismStateResponse x))"

subsection \<open>Reachable states\<close>

text \<open>
  The states of the contract: after its instantiation, and after any successful call by anybody, in
  any block and against any chain, and any reply. A failed call leaves the storage as it was.
\<close>

inductive gov_reach :: "cosmwasm \<Rightarrow> gov \<Rightarrow> bool" for S where
  instantiated: "instantiate_gov D env info msg = Ok (g, r) \<Longrightarrow> gov_reach S g"
| executed: "gov_reach S g \<Longrightarrow> execute S D fb env g info m = Ok (g', r) \<Longrightarrow> gov_reach S g'"
| replied: "gov_reach S g \<Longrightarrow> reply_gov D g rep = Ok (g', r) \<Longrightarrow> gov_reach S g'"

text \<open>What is always true of the configuration.\<close>

definition config_ok :: "gov \<Rightarrow> bool" where
  "config_ok g \<longleftrightarrow> quorum (CONFIG g) \<le> DEC_ONE \<and> threshold (CONFIG g) \<le> DEC_ONE
     \<and> MIN_POLL_GAS_LIMIT \<le> poll_gas_limit (CONFIG g)"

subsection \<open>Token flow\<close>

text \<open>The xPRISM a call brings in: the hook is called by the token after its transfer.\<close>

definition inflow :: "deps \<Rightarrow> gov \<Rightarrow> message_info \<Rightarrow> execute_msg \<Rightarrow> nat" where
  "inflow D g info m =
     (case m of
        Receive c \<Rightarrow>
          (case (xprism_token (CONFIG g), addr_canonicalize D (sender info)) of
             (Some x, Inr s) \<Rightarrow> if x = s then cw20_amount c else 0
           | _ \<Rightarrow> 0)
      | _ \<Rightarrow> 0)"

subsection \<open>How a poll evolves\<close>

text \<open>
  A step of the contract keeps what a poll was created with, moves its status along
  \<open>poll_step\<close>, keeps a supply snapshot once it is taken, adds votes while the poll is open and never
  after that.
\<close>

definition poll_next :: "poll \<Rightarrow> poll \<Rightarrow> bool" where
  "poll_next p q \<longleftrightarrow> (status q = status p \<or> poll_step (status p) (status q))
     \<and> poll_id q = poll_id p \<and> creator q = creator p \<and> end_time q = end_time p
     \<and> Gov_State.execute_data q = Gov_State.execute_data p \<and> deposit_amount q = deposit_amount p
     \<and> required_quorum q = required_quorum p \<and> required_threshold q = required_threshold p
     \<and> (supply_snapshot p \<noteq> None \<longrightarrow> supply_snapshot q = supply_snapshot p)
     \<and> (\<forall>o1. tally p o1 \<le> tally q o1)
     \<and> (status p \<noteq> InProgress \<longrightarrow> (\<forall>o1. tally q o1 = tally p o1))"

definition polls_evolve :: "gov \<Rightarrow> gov \<Rightarrow> bool" where
  "polls_evolve g g' \<longleftrightarrow> (\<forall>k p. get (POLL g) k = Some p \<longrightarrow> (\<exists>q. get (POLL g') k = Some q \<and> poll_next p q))"

text \<open>One call or reply, by anybody.\<close>

inductive gov_step :: "cosmwasm \<Rightarrow> gov \<Rightarrow> gov \<Rightarrow> bool" for S where
  call: "execute S D fb env g info m = Ok (g', r) \<Longrightarrow> gov_step S g g'"
| answer: "reply_gov D g rep = Ok (g', r) \<Longrightarrow> gov_step S g g'"


section \<open>Lemmas\<close>

lemma poll_next_refl [simp]: "poll_next p p"
  by (simp add: poll_next_def)

lemma polls_evolve_same: "POLL g' = POLL g \<Longrightarrow> polls_evolve g g'"
  by (auto simp: polls_evolve_def)

lemma polls_evolve_put:
  assumes "wf_store (POLL g)" and "get (POLL g) k = Some p" and "poll_next p q" and "POLL g' = put k q (POLL g)"
  shows "polls_evolve g g'"
  using assms by (auto simp: polls_evolve_def get_put)

subsection \<open>Configuration\<close>

lemma instantiate_gov_inv:
  assumes "instantiate_gov D env info msg = Ok (g, r)"
  shows "gov_inv g" and "config_ok g"
  using assms
  by (auto simp: instantiate_gov_def validate_quorum_def validate_threshold_def validate_poll_gas_limit_def
      result_simps gov_inv_def poll_inv_def vote_inv_def orders_inv_def pending_orders_def config_ok_def
      split: if_splits)

lemma gov_inv_config [simp]: "gov_inv (g\<lparr>CONFIG := c\<rparr>) = gov_inv g"
  using poll_inv_cong [of g "g\<lparr>CONFIG := c\<rparr>"] poll_inv_cong [of "g\<lparr>CONFIG := c\<rparr>" g]
    vote_inv_cong [of g "g\<lparr>CONFIG := c\<rparr>"] vote_inv_cong [of "g\<lparr>CONFIG := c\<rparr>" g]
    orders_inv_cong [of g "g\<lparr>CONFIG := c\<rparr>"] orders_inv_cong [of "g\<lparr>CONFIG := c\<rparr>" g]
  by (auto simp: gov_inv_def)

lemma xprism_owed_config [simp]: "xprism_owed (g\<lparr>CONFIG := c\<rparr>) = xprism_owed g"
  by (simp add: xprism_owed_def total_deposits_def poll_deposits_def)

lemma set_field_other [simp]:
  assumes "\<And>v c. f (u v c) = f c"
  shows "f (set_field u x c) = f c"
  using assms by (simp add: set_field_def split: option.split)

lemma update_config_Ok:
  assumes "update_config D g info ow quo thr vp ed pd sp rt gl = Inr (g', r)" and ok: "config_ok g"
  shows "addr_canonicalize D (sender info) = Inr (owner (CONFIG g))" and "config_ok g'"
    and "g' = g\<lparr>CONFIG := CONFIG g'\<rparr>" and "r = []"
    and "prism_token (CONFIG g') = prism_token (CONFIG g)" and "xprism_token (CONFIG g') = xprism_token (CONFIG g)"
proof -
  from assms(1) obtain s where s: "addr_canonicalize D (sender info) = Inr s" "owner (CONFIG g) = s"
    unfolding update_config_def Let_def by (elim andThen_OkE) (simp split: if_split_asm)
  from assms(1) obtain c1 c2 c3 c4 c where
    c1: "(case ow of None \<Rightarrow> Ok (CONFIG g)
       | Some a \<Rightarrow> andThen (addr_canonicalize D a) (\<lambda>a. Ok ((CONFIG g)\<lparr>owner := a\<rparr>))) = (Inr c1 :: (std_error, _) result)"
    and c2: "(case quo of None \<Rightarrow> Ok c1
       | Some q \<Rightarrow> andThen (validate_quorum q) (\<lambda>_. Ok (c1\<lparr>quorum := q\<rparr>))) = (Inr c2 :: (std_error, _) result)"
    and c3: "(case thr of None \<Rightarrow> Ok c2
       | Some t \<Rightarrow> andThen (validate_threshold t) (\<lambda>_. Ok (c2\<lparr>threshold := t\<rparr>))) = (Inr c3 :: (std_error, _) result)"
    and c4: "c4 = set_field (\<lambda>x c. c\<lparr>redemption_time := x\<rparr>) rt (set_field (\<lambda>x c. c\<lparr>snapshot_period := x\<rparr>) sp
        (set_field (\<lambda>x c. c\<lparr>proposal_deposit := x\<rparr>) pd (set_field (\<lambda>x c. c\<lparr>effective_delay := x\<rparr>) ed
        (set_field (\<lambda>x c. c\<lparr>voting_period := x\<rparr>) vp c3))))"
    and c: "(case gl of None \<Rightarrow> Ok c4 | Some l \<Rightarrow>
        andThen (validate_poll_gas_limit l) (\<lambda>_. Ok (c4\<lparr>poll_gas_limit := l\<rparr>))) = (Inr c :: (std_error, _) result)"
    and g': "g' = g\<lparr>CONFIG := c\<rparr>" "r = []"
    unfolding update_config_def Let_def s andThen.simps
    by (simp del: option.case split del: if_split option.split split: if_split_asm) (elim andThen_OkE, clarsimp)
  show "addr_canonicalize D (sender info) = Inr (owner (CONFIG g))" using s by simp
  show "g' = g\<lparr>CONFIG := CONFIG g'\<rparr>" "r = []" by (simp_all add: g')
  have "c1 = (CONFIG g)\<lparr>owner := owner c1\<rparr>" "c2 = c1\<lparr>quorum := quorum c2\<rparr>"
    "c3 = c2\<lparr>threshold := threshold c3\<rparr>" "c = c4\<lparr>poll_gas_limit := poll_gas_limit c\<rparr>"
    using c1 c2 c3 c by (auto simp: result_simps split: option.splits)
  then obtain a q t l where k: "c1 = (CONFIG g)\<lparr>owner := a\<rparr>" "c2 = c1\<lparr>quorum := q\<rparr>"
    "c3 = c2\<lparr>threshold := t\<rparr>" "c = c4\<lparr>poll_gas_limit := l\<rparr>" by (rule that)
  show "prism_token (CONFIG g') = prism_token (CONFIG g)" "xprism_token (CONFIG g') = xprism_token (CONFIG g)"
    by (simp_all add: g' k c4)
  have "quorum c2 \<le> DEC_ONE"
    using c2 ok by (auto simp: config_ok_def validate_quorum_def result_simps k(1) split: if_splits option.splits)
  moreover have "threshold c3 \<le> DEC_ONE"
    using c3 ok by (auto simp: config_ok_def validate_threshold_def result_simps k(1,2) split: if_splits option.splits)
  moreover have "MIN_POLL_GAS_LIMIT \<le> poll_gas_limit c"
    using c ok by (auto simp: config_ok_def validate_poll_gas_limit_def c4 k(1-3) result_simps
        split: if_splits option.splits)
  ultimately show "config_ok g'" by (simp add: config_ok_def g' k c4)
qed

lemma set_xprism_token_Ok:
  assumes "set_xprism_token D g msg = Inr (g', r)"
  obtains x where "xprism_token (CONFIG g) = None" and "g' = g\<lparr>CONFIG := (CONFIG g)\<lparr>xprism_token := Some x\<rparr>\<rparr>"
    and "r = []"
  using assms by (auto simp: set_xprism_token_def Let_def result_simps split: if_splits)

subsection \<open>What a call does to the polls and to the configuration\<close>

lemma receive_gov_Ok:
  assumes "receive_cw20 S D fb env g info m = Inr (g', r)"
  obtains (stake) x where "xprism_token (CONFIG g) = Some x" and "addr_canonicalize D (sender info) = Inr x"
      and "stake_voting_tokens S D g (cw20_sender m) (cw20_amount m) = Inr (g', r)"
  | (create) x ti desc li exec where "xprism_token (CONFIG g) = Some x" and "addr_canonicalize D (sender info) = Inr x"
      and "create_poll S D env g (cw20_sender m) (cw20_amount m) ti desc li exec = Inr (g', r)"
  | (redeem) x where "xprism_token (CONFIG g) = Some x" and "addr_canonicalize D (sender info) = Inr x"
      and "redeem_xprism S D env g (cw20_sender m) (cw20_amount m) = Inr (g', r)"
  | (mint) x s receiver where "xprism_token (CONFIG g) = Some x" and "addr_canonicalize D (sender info) = Inr s"
      and "x \<noteq> s" and "prism_token (CONFIG g) = s"
      and "mint_xprism S D env g receiver (cw20_amount m) = Inr (g', r)"
proof -
  from assms obtain x s where xs: "xprism_token (CONFIG g) = Some x" "addr_canonicalize D (sender info) = Inr s"
    by (auto simp: receive_cw20_def Let_def result_simps)
  show thesis
  proof (cases "x = s")
    case True
    with assms xs stake create redeem show thesis
      by (auto simp: receive_cw20_def Let_def split: sum.splits cw20_hook_msg.splits)
  next
    case False
    with assms xs mint show thesis
      by (auto simp: receive_cw20_def Let_def result_simps split: sum.splits cw20_hook_msg.splits if_splits)
  qed
qed

definition keeps :: "gov \<Rightarrow> gov \<Rightarrow> bool" where
  "keeps g g' \<longleftrightarrow> gov_inv g' \<and> CONFIG g' = CONFIG g \<and> polls_evolve g g'"

context cosmwasm_std
begin

lemma stake_keeps:
  assumes "stake_voting_tokens S D g who amount = Inr (g', r)" and inv: "gov_inv g"
  shows "keeps g g'"
proof -
  have "CONFIG g' = CONFIG g \<and> POLL g' = POLL g" by (rule stake_voting_tokens_Ok [OF assms(1)]) simp
  then show ?thesis using stake_voting_tokens_inv(1) [OF assms] by (simp add: keeps_def polls_evolve_same)
qed

lemma withdraw_keeps:
  assumes "withdraw_voting_tokens S D g info amount = Inr (g', r)" and inv: "gov_inv g"
  shows "keeps g g'"
proof -
  have "vote_inv g" using inv by (simp add: gov_inv_def)
  then have "CONFIG g' = CONFIG g \<and> POLL g' = POLL g" by (rule withdraw_voting_tokens_Ok [OF assms(1)]) simp
  then show ?thesis using withdraw_voting_tokens_inv [OF assms] by (simp add: keeps_def polls_evolve_same)
qed

lemma create_keeps:
  assumes "create_poll S D env g who amount ti desc li exec = Inr (g', r)" and inv: "gov_inv g"
  shows "keeps g g'"
proof (rule create_poll_Ok [OF assms(1)])
  fix p :: poll
  assume g': "g' = save_index InProgress (LAST_POLL_ID g) (save_poll (LAST_POLL_ID g) p
      (g\<lparr>LAST_POLL_ID := LAST_POLL_ID g + 1\<rparr>))"
  have pinv: "poll_inv g" using inv by (simp add: gov_inv_def)
  have "get (POLL g') k = Some q" if q: "get (POLL g) k = Some q" for k q
    using poll_inv_poll(3) [OF pinv q] q
    by (simp add: g' save_index_def save_poll_def get_put [OF gov_inv_stores(1) [OF inv]])
  then have "polls_evolve g g'" by (auto simp: polls_evolve_def)
  then show ?thesis using create_poll_inv(1) [OF assms] by (simp add: keeps_def g' save_index_def save_poll_def)
qed

lemma end_poll_keeps:
  assumes "end_poll S D env g pid = Inr (g', r)" and inv: "gov_inv g"
  shows "keeps g g'"
proof (rule end_poll_Ok [OF assms])
  fix h supp s msgs and p :: poll
  assume p: "get (POLL g) pid = Some p" "status p = InProgress"
    and snap: "case supply_snapshot p of Some n \<Rightarrow> supp = n | None \<Rightarrow> query_supply D h = Inr supp"
    and c: "count_poll S D h (p\<lparr>supply_snapshot := Some supp\<rparr>) (yes_votes p + no_votes p + abstain_votes p) supp
        = Inr (s, msgs)"
    and g': "g' = save_poll pid (p\<lparr>supply_snapshot := Some supp, status := s\<rparr>)
        (save_index s pid (remove_index InProgress pid g))"
  have "poll_next p (p\<lparr>supply_snapshot := Some supp, status := s\<rparr>)"
    using p(2) snap count_poll_Ok(1) [OF c]
    by (auto simp: poll_next_def poll_step_iff tally_def split: option.splits vote_option.splits)
  then have "polls_evolve g g'"
    by (rule polls_evolve_put [OF gov_inv_stores(1) [OF inv] p(1)])
      (simp add: g' save_poll_def save_index_def remove_index_def)
  then show ?thesis
    using end_poll_inv [OF assms] by (simp add: keeps_def g' save_poll_def save_index_def remove_index_def)
qed

lemma execute_poll_keeps:
  assumes "execute_poll S D env g pid = Inr (g', r)" and inv: "gov_inv g"
  shows "keeps g g'"
proof (rule execute_poll_Ok [OF assms(1)])
  fix p :: poll
  assume p: "get (POLL g) pid = Some p" "status p = Passed"
    and g': "g' = (save_poll pid (p\<lparr>status := Executed\<rparr>) (save_index Executed pid (remove_index Passed pid g)))
        \<lparr>TMP_POLL_ID := Some (poll_id p)\<rparr>"
  have "poll_next p (p\<lparr>status := Executed\<rparr>)"
    using p(2) by (simp add: poll_next_def poll_step_iff tally_def split: vote_option.splits)
  then have "polls_evolve g g'"
    by (rule polls_evolve_put [OF gov_inv_stores(1) [OF inv] p(1)])
      (simp add: g' save_poll_def save_index_def remove_index_def)
  then show ?thesis
    using execute_poll_inv [OF assms] by (simp add: keeps_def g' save_poll_def save_index_def remove_index_def)
qed

lemma cast_vote_keeps:
  assumes "cast_vote S D env g info pid o1 amount = Inr (g', r)" and inv: "gov_inv g"
  shows "keeps g g'"
proof (rule cast_vote_Ok [OF assms(1)])
  fix key snap and p q :: poll
  assume p: "get (POLL g) pid = Some p" "status p = InProgress"
    and q: "add_vote S p o1 amount = Inr q" and snap: "supply_snapshot p \<noteq> None \<Longrightarrow> snap = supply_snapshot p"
    and g': "g' = g\<lparr>BANK := put key ((manager_of g key)\<lparr>locked_balance :=
            locked_balance (manager_of g key) @ [(pid, \<lparr>vote = o1, balance = amount\<rparr>)]\<rparr>) (BANK g),
          POLL_VOTER := put (pid, key) \<lparr>vote = o1, balance = amount\<rparr> (POLL_VOTER g),
          POLL := put pid (q\<lparr>supply_snapshot := snap\<rparr>) (POLL g)\<rparr>"
  have "tally (q\<lparr>supply_snapshot := snap\<rparr>) o2 = tally q o2" for o2
    by (simp add: tally_def split: vote_option.splits)
  then have "poll_next p (q\<lparr>supply_snapshot := snap\<rparr>)"
    using add_vote_Ok [OF q] snap p(2) by (simp add: poll_next_def)
  then have "polls_evolve g g'"
    by (rule polls_evolve_put [OF gov_inv_stores(1) [OF inv] p(1)]) (simp add: g')
  then show ?thesis using cast_vote_inv(1) [OF assms] by (simp add: keeps_def g')
qed

lemma snapshot_poll_keeps:
  assumes "snapshot_poll S D env g pid = Inr (g', r)" and inv: "gov_inv g"
  shows "keeps g g'"
proof (rule snapshot_poll_Ok [OF assms(1)])
  fix s and p :: poll
  assume p: "get (POLL g) pid = Some p" "supply_snapshot p = None"
    and g': "g' = save_poll pid (p\<lparr>supply_snapshot := Some s\<rparr>) g"
  have "poll_next p (p\<lparr>supply_snapshot := Some s\<rparr>)"
    using p(2) by (simp add: poll_next_def tally_def split: vote_option.splits)
  then have "polls_evolve g g'"
    by (rule polls_evolve_put [OF gov_inv_stores(1) [OF inv] p(1)]) (simp add: g' save_poll_def)
  then show ?thesis using snapshot_poll_inv(1) [OF assms] by (simp add: keeps_def g' save_poll_def)
qed

lemma redeem_keeps:
  assumes "redeem_xprism S D env g who amount = Inr (g', r)" and inv: "gov_inv g"
  shows "keeps g g'"
proof -
  have "CONFIG g' = CONFIG g \<and> POLL g' = POLL g" by (rule redeem_xprism_Ok [OF assms(1)]) simp
  then show ?thesis using redeem_xprism_gov_inv(1) [OF assms] by (simp add: keeps_def polls_evolve_same)
qed

lemma claim_keeps:
  assumes "claim_redeemed_prism S D env g info = Inr (g', r)" and inv: "gov_inv g"
  shows "keeps g g'"
proof (rule claim_redeemed_prism_Ok [OF assms])
  fix wx wp
  assume c: "compute_withdrawable S g (now_seconds S env) (sender info) = Inr (g', wx, wp)" and "gov_inv g'"
  have oinv: "orders_inv g" using inv by (simp add: gov_inv_def)
  have "CONFIG g' = CONFIG g" "POLL g' = POLL g" by (subst compute_withdrawable_Ok(3) [OF c oinv], simp)+
  with \<open>gov_inv g'\<close> show ?thesis by (simp add: keeps_def polls_evolve_same)
qed

lemma mint_keeps:
  assumes "mint_xprism S D env g receiver amount = Inr (g', r)" and inv: "gov_inv g"
  shows "keeps g g'"
  using inv by (auto intro: mint_xprism_Ok [OF assms(1)] simp: keeps_def polls_evolve_same)

lemma receive_cw20_keeps:
  assumes "receive_cw20 S D fb env g info m = Inr (g', r)" and inv: "gov_inv g"
  shows "keeps g g'"
  using assms(1)
  by (rule receive_gov_Ok)
    (assumption | rule stake_keeps [OF _ inv] create_keeps [OF _ inv] redeem_keeps [OF _ inv] mint_keeps [OF _ inv])+

lemma execute_keeps:
  assumes "execute S D fb env g info m = Inr (g', r)" and inv: "gov_inv g"
    and no_update: "\<not> is_UpdateConfig m"
  shows "keeps g g'"
  using assms(1) no_update
  by (cases m)
    (auto intro: receive_cw20_keeps [OF _ inv] cast_vote_keeps [OF _ inv] withdraw_keeps [OF _ inv]
      end_poll_keeps [OF _ inv] execute_poll_keeps [OF _ inv] snapshot_poll_keeps [OF _ inv] claim_keeps [OF _ inv])

text \<open>Every call keeps the books and the limits of the configuration.\<close>

lemma execute_inv:
  assumes "execute S D fb env g info m = Inr (g', r)" and inv: "gov_inv g" and ok: "config_ok g"
  shows "gov_inv g' \<and> config_ok g' \<and> polls_evolve g g'"
proof (cases m)
  case (UpdateConfig ow quo thr vp ed pd sp rt gl)
  with assms(1) have "update_config D g info ow quo thr vp ed pd sp rt gl = Inr (g', r)" by simp
  note u = update_config_Ok [OF this ok]
  have "gov_inv g'" "POLL g' = POLL g" using inv by (subst u(3), simp)+
  then show ?thesis using u(2) by (simp add: polls_evolve_same)
qed (use execute_keeps [OF assms(1) inv] ok in \<open>simp_all add: keeps_def config_ok_def\<close>)

end

lemma reply_gov_inv:
  assumes "reply_gov D g rep = Inr (g', r)" and inv: "gov_inv g" and ok: "config_ok g"
  shows "gov_inv g' \<and> config_ok g' \<and> polls_evolve g g'"
proof (cases "reply_id rep = POLL_EXECUTE_REPLY_ID")
  case True
  with assms(1) obtain pid where tmp: "TMP_POLL_ID g = Some pid" and f: "failed_poll g pid = Inr (g', r)"
    by (auto simp: reply_gov_def read_tmp_poll_id_def result_simps)
  from f obtain p where p: "get (POLL g) pid = Some p"
    and g': "g' = save_poll pid (p\<lparr>status := Failed\<rparr>) (save_index Failed pid (remove_index Executed pid g))"
    by (auto simp: failed_poll_def result_simps)
  have "status p \<in> {Executed, Failed}" using inv tmp p unfolding gov_inv_def poll_inv_def by force
  then have "poll_next p (p\<lparr>status := Failed\<rparr>)"
    by (auto simp: poll_next_def poll_step_iff tally_def split: vote_option.splits)
  then have "polls_evolve g g'"
    by (rule polls_evolve_put [OF gov_inv_stores(1) [OF inv] p])
      (simp add: g' save_poll_def save_index_def remove_index_def)
  then show ?thesis using failed_poll_inv [OF f inv tmp] ok
    by (simp add: config_ok_def g' save_poll_def save_index_def remove_index_def)
next
  case False
  with assms(1) have "set_xprism_token D g rep = Inr (g', r)" by (simp add: reply_gov_def split: if_splits)
  then show ?thesis using inv ok by (elim set_xprism_token_Ok) (simp add: config_ok_def polls_evolve_same)
qed

end
