(* ===== verification/Gov_Properties.thy ===== *)
theory Gov_Properties
  imports Gov_Contract
begin

text \<open>
  The properties of the governance contract: its books over every reachable state, the life of a
  poll, the custody of xPRISM, the exchange between PRISM and xPRISM and the rights of the owner.
\<close>


section \<open>A concrete contract\<close>

text \<open>
  An open poll with Alice's vote, a passed poll waiting for its execution, and two redemptions of
  Bob, one of them matured at second 210.
\<close>

definition poll_open :: poll where
  "poll_open = \<lparr>poll_id = 1, creator = ''carol'', status = InProgress, yes_votes = 300, no_votes = 0,
     abstain_votes = 0, end_time = 200, title = ''open'', description = ''an open poll'', link = None,
     execute_data = None, deposit_amount = 5, supply_snapshot = None, required_quorum = 10 ^ 17,
     required_threshold = 5 * 10 ^ 17\<rparr>"

definition poll_passed :: poll where
  "poll_passed = \<lparr>poll_id = 2, creator = ''carol'', status = Passed, yes_votes = 400, no_votes = 0,
     abstain_votes = 0, end_time = 100, title = ''passed'', description = ''a passed poll'', link = None,
     execute_data = Some \<lparr>exec_contract = ''target'', exec_body = ''do''\<rparr>, deposit_amount = 6,
     supply_snapshot = Some 900, required_quorum = 10 ^ 17, required_threshold = 5 * 10 ^ 17\<rparr>"

definition gov_example :: gov where
  "gov_example = \<lparr>
     CONFIG = \<lparr>owner = ''owner'', prism_token = ''prism'', xprism_token = Some ''xprism'', quorum = 10 ^ 17,
       threshold = 5 * 10 ^ 17, voting_period = 100, effective_delay = 10, proposal_deposit = 5,
       snapshot_period = 10, redemption_time = 20, poll_gas_limit = 1000000\<rparr>,
     TMP_POLL_ID = None, LAST_POLL_ID = 3,
     POLL_INDEXER = [((''InProgress'', 1), True), ((''Passed'', 2), True)],
     POLL_VOTER = [((1, ''alice''), \<lparr>vote = Yes, balance = 300\<rparr>)],
     POLL = [(1, poll_open), (2, poll_passed)],
     BANK = [(''alice'', \<lparr>deposit = 400, locked_balance = [(1, \<lparr>vote = Yes, balance = 300\<rparr>)]\<rparr>)],
     WITHDRAW_ORDERS = [((''bob'', 50), (10, 7)), ((''bob'', 900), (20, 14))],
     TOTAL_PENDING_WITHDRAW = (30, 21)\<rparr>"

definition gov_chain :: deps where
  "gov_chain = empty_deps\<lparr>q_cw20_total_supply := (\<lambda>_. Inr 1000), q_cw20_balance := (\<lambda>_ _. Inr 521)\<rparr>"

lemmas gov_eval = gov_chain_def gov_example_def poll_open_def poll_passed_def get_def Let_def cw_eval

lemma gov_example_inv: "gov_inv gov_example"
proof -
  have "poll_inv gov_example"
    unfolding poll_inv_def
  proof (intro conjI allI impI)
    fix s k
    show "get (POLL_INDEXER gov_example) (status_to_string s, k) \<noteq> None \<longleftrightarrow>
        (\<exists>p. get (POLL gov_example) k = Some p \<and> status p = s)"
      by (cases s) (auto simp: gov_example_def get_def poll_open_def poll_passed_def)
  qed (auto simp: gov_example_def get_def poll_open_def poll_passed_def wf_store_def split: if_splits)
  moreover have "vote_inv gov_example"
    unfolding vote_inv_def
  proof (intro conjI allI impI)
    fix k p o1
    show "get (POLL gov_example) k = Some p \<Longrightarrow> status p = InProgress \<Longrightarrow> tally p o1 = cast_votes gov_example k o1"
      by (auto simp: gov_example_def get_def poll_open_def poll_passed_def tally_def cast_votes_def
          split: if_splits vote_option.splits)
  qed (auto simp: gov_example_def get_def poll_open_def wf_store_def manager_ok_def MAX_POLL_VOTES_PER_USER_def
      split: if_splits)
  moreover have "orders_inv gov_example"
    by (simp add: gov_example_def orders_inv_def pending_orders_def wf_store_def)
  ultimately show ?thesis by (simp add: gov_inv_def)
qed

lemma gov_example_config: "config_ok gov_example"
  by (simp add: config_ok_def gov_example_def DEC_ONE_def MIN_POLL_GAS_LIMIT_def)


section \<open>Books and polls\<close>

text \<open>
  C3: the books of governance are right in every state the contract can reach, whoever calls it, in
  any order and on any chain: polls are numbered without gaps and each is in the index of its
  status and of no other; the tallies of an open poll are the sums of the votes cast on it; a
  user's stake covers each of the user's votes on an open poll, each vote is listed once and a user
  has at most twenty; the pending totals are the sums of the queued redemptions; quorum and
  threshold are at most one and the gas limit at least the minimum.
\<close>

theorem gov_reachable_inv:
  assumes "cosmwasm_std S" and "gov_reach S g"
  shows "gov_inv g \<and> config_ok g"
  using assms(2)
proof induction
  case (instantiated D env info msg g r)
  then show ?case using instantiate_gov_inv by blast
next
  case (executed g D fb env info m g' r)
  then show ?case using cosmwasm_std.execute_inv [OF assms(1)] by blast
next
  case (replied g D rep g' r)
  then show ?case using reply_gov_inv by blast
qed

definition gov_msg_example :: instantiate_msg where
  "gov_msg_example = \<lparr>im_prism_token = ''prism'', im_quorum = 10 ^ 17, im_threshold = 5 * 10 ^ 17,
     im_voting_period = 100, im_effective_delay = 10, im_proposal_deposit = 5, im_snapshot_period = 10,
     im_redemption_time = 20, im_poll_gas_limit = 1000000, im_token_code_id = 7\<rparr>"

lemmas gov_setup_eval = instantiate_gov_def validate_quorum_def validate_threshold_def
  validate_poll_gas_limit_def MIN_POLL_GAS_LIMIT_def gov_msg_example_def

theorem gov_reachable_inv_witness:
  "\<exists>g0 r0 g1 r1. instantiate_gov gov_chain (env_at 10) (from_user ''owner'') gov_msg_example = Ok (g0, r0)
    \<and> execute cosmwasm_0_16 gov_chain (\<lambda>_. Inl NotFound) (env_at 11) g0 (from_user ''owner'')
        (UpdateConfig None None (Some 7) None None None None None None) = Ok (g1, r1)
    \<and> threshold (CONFIG g1) = 7 \<and> gov_inv g1 \<and> config_ok g1"
proof -
  obtain g0 r0 g1 r1 where
    run0: "instantiate_gov gov_chain (env_at 10) (from_user ''owner'') gov_msg_example = Ok (g0, r0)"
    and run1: "execute cosmwasm_0_16 gov_chain (\<lambda>_. Inl NotFound) (env_at 11) g0 (from_user ''owner'')
        (UpdateConfig None None (Some 7) None None None None None None) = Ok (g1, r1)"
    and t: "threshold (CONFIG g1) = 7"
    by (simp add: gov_setup_eval update_config_def set_field_def gov_eval)
  have "gov_reach cosmwasm_0_16 g1" by (rule gov_reach.executed [OF gov_reach.instantiated [OF run0] run1])
  from gov_reachable_inv [OF cosmwasm_0_16 this] run0 run1 t show ?thesis by blast
qed

text \<open>One step of the contract and a sequence of steps.\<close>

lemma gov_step_inv:
  assumes "cosmwasm_std S" and "gov_step S g g'" and "gov_inv g \<and> config_ok g"
  shows "gov_inv g' \<and> config_ok g' \<and> polls_evolve g g'"
  using assms(2,3)
proof cases
  case (call D fb env info m r)
  then show ?thesis using cosmwasm_std.execute_inv [OF assms(1)] assms(3) by blast
next
  case (answer D rep r)
  then show ?thesis using reply_gov_inv assms(3) by blast
qed

lemma gov_steps_over:
  assumes std: "cosmwasm_std S" and steps: "(gov_step S)\<^sup>*\<^sup>* g g'" and inv: "gov_inv g \<and> config_ok g"
    and over: "\<exists>p. get (POLL g) k = Some p \<and> status p \<in> {Executed, Failed}"
  shows "(gov_inv g' \<and> config_ok g') \<and> (\<exists>p. get (POLL g') k = Some p \<and> status p \<in> {Executed, Failed})"
  using steps
proof induction
  case (step g1 g2)
  then obtain p where i: "gov_inv g1 \<and> config_ok g1" and p: "get (POLL g1) k = Some p" "status p \<in> {Executed, Failed}"
    by blast
  from gov_step_inv [OF std step(2) i] obtain q where "gov_inv g2 \<and> config_ok g2" "get (POLL g2) k = Some q" "poll_next p q"
    using p(1) unfolding polls_evolve_def by blast
  then show ?case using p(2) by (auto simp: poll_next_def poll_step_iff)
qed (use inv over in blast)

text \<open>
  C33: a poll has one life. A step from a state with right books (every reachable state has them)
  keeps a stored poll stored, with its number, creator, end time, message, deposit and required
  quorum and threshold, and with its supply snapshot once it has one; its status stays or moves
  along open, passed, executed, failed or from open to rejected, and its tallies only grow, and
  only while it is open.
\<close>

theorem gov_poll_life:
  assumes "cosmwasm_std S" and "gov_inv g" and "config_ok g" and "gov_step S g g'"
    and "get (POLL g) k = Some p"
  shows "\<exists>q. get (POLL g') k = Some q \<and> poll_next p q"
  using gov_step_inv [OF assms(1,4)] assms(2,3,5) by (simp add: polls_evolve_def)

lemmas poll_eval = end_poll_def execute_poll_def count_poll_def load_poll_def save_poll_def save_index_def
  remove_index_def del_def POLL_EXECUTE_REPLY_ID_def

theorem gov_poll_life_witness:
  "\<exists>g' r q. execute cosmwasm_0_16 gov_chain (\<lambda>_. Inl NotFound) (env_at 210) gov_example (from_user ''dave'')
      (EndPoll 1) = Ok (g', r)
    \<and> get (POLL g') 1 = Some q \<and> status q = Passed \<and> poll_next poll_open q"
proof -
  obtain g' r q where run: "execute cosmwasm_0_16 gov_chain (\<lambda>_. Inl NotFound) (env_at 210) gov_example
      (from_user ''dave'') (EndPoll 1) = Ok (g', r)"
    and q: "get (POLL g') 1 = Some q" "status q = Passed"
    by (simp add: poll_eval gov_eval)
  have p: "get (POLL gov_example) 1 = Some poll_open" by (simp add: gov_example_def get_def)
  from gov_poll_life [OF cosmwasm_0_16 gov_example_inv gov_example_config gov_step.call [OF run] p] run q
  show ?thesis by auto
qed

text \<open>
  C11: the message of a poll is dispatched at most once. After a successful \<open>execute_poll\<close>, which asks
  for an answer only if the message fails, no sequence of calls and replies leads to a state in
  which \<open>execute_poll\<close> succeeds for the same poll again.
\<close>

theorem gov_executes_once:
  assumes std: "cosmwasm_std S" and inv: "gov_inv g" "config_ok g"
    and run: "execute_poll S D env g pid = Ok (g1, r)" and steps: "(gov_step S)\<^sup>*\<^sup>* g1 g2"
  shows "\<exists>e. execute_poll S D' env' g2 pid = Inl e"
proof -
  have "execute S D (\<lambda>_. Inl NotFound) env g (from_user []) (ExecutePoll pid) = Inr (g1, r)" using run by simp
  from cosmwasm_std.execute_inv [OF std this inv] have inv1: "gov_inv g1 \<and> config_ok g1" by blast
  have "\<exists>p. get (POLL g1) pid = Some p \<and> status p \<in> {Executed, Failed}"
    by (rule cosmwasm_std.execute_poll_Ok [OF std run])
      (use gov_inv_stores(1) [OF inv(1)] in \<open>simp add: save_poll_def save_index_def remove_index_def get_put\<close>)
  from gov_steps_over [OF std steps inv1 this] obtain p where
    "get (POLL g2) pid = Some p" "status p \<in> {Executed, Failed}" by blast
  then show ?thesis by (auto simp: execute_poll_def load_poll_def)
qed

theorem gov_executes_once_witness:
  "\<exists>g1 r g2 r2. execute_poll cosmwasm_0_16 gov_chain (env_at 210) gov_example 2 = Ok (g1, r)
    \<and> reply_gov gov_chain g1 \<lparr>reply_id = 1, reply_result = Inl ''out of gas''\<rparr> = Ok (g2, r2)
    \<and> (\<exists>e. execute_poll cosmwasm_0_16 gov_chain (env_at 220) g2 2 = Inl e)"
proof -
  obtain g1 r g2 r2 where run: "execute_poll cosmwasm_0_16 gov_chain (env_at 210) gov_example 2 = Ok (g1, r)"
    and rep: "reply_gov gov_chain g1 \<lparr>reply_id = 1, reply_result = Inl ''out of gas''\<rparr> = Ok (g2, r2)"
    by (simp add: poll_eval reply_gov_def read_tmp_poll_id_def failed_poll_def gov_eval)
  have "(gov_step cosmwasm_0_16)\<^sup>*\<^sup>* g1 g2" using gov_step.answer [OF rep] by blast
  from gov_executes_once [OF cosmwasm_0_16 gov_example_inv gov_example_config run this] run rep
  show ?thesis by blast
qed

text \<open>
  C16: how a poll is decided. \<open>end_poll\<close> succeeds only on an open poll whose voting time is over.
  The poll passes exactly if somebody voted, the votes are at least the required share of the
  supply of xPRISM (the snapshot, or the supply now; shares are cut to 18 digits), and more than the required share of the yes
  and no votes is yes; otherwise it is rejected. The supply used is recorded in the poll. A deposit
  is burnt if the quorum was missed and goes back to the creator otherwise, in xPRISM, the token of
  the configuration; without a deposit nothing is sent. The comment in the code asks for more than
  the quorum, and of the staked tokens; the code is content with the quorum and compares with the
  whole supply.
\<close>

theorem end_poll_decision:
  assumes std: "cosmwasm_std S" and inv: "gov_inv g" and run: "end_poll S D env g pid = Ok (g', r)"
  shows "\<exists>p q x xprism total_supply tallied quorum_reached.
    get (POLL g) pid = Some p \<and> get (POLL g') pid = Some q
    \<and> xprism_token (CONFIG g) = Some x \<and> addr_humanize D x = Ok xprism
    \<and> status p = InProgress \<and> end_time p \<le> now_seconds S env
    \<and> tallied = yes_votes p + no_votes p + abstain_votes p
    \<and> (case supply_snapshot p of Some n \<Rightarrow> total_supply = n | None \<Rightarrow> query_supply D xprism = Ok total_supply)
    \<and> supply_snapshot q = Some total_supply
    \<and> quorum_reached = (tallied \<noteq> 0 \<and>
        required_quorum p \<le> (if total_supply = 0 then 0 else tallied * DEC_ONE div total_supply))
    \<and> status q = (if quorum_reached \<and> yes_votes p \<noteq> 0
          \<and> required_threshold p < yes_votes p * DEC_ONE div (yes_votes p + no_votes p) then Passed else Rejected)
    \<and> (if deposit_amount p = 0 then r = []
       else if quorum_reached then \<exists>c. addr_humanize D (creator p) = Ok c
          \<and> r = [new_sub_msg (WasmExecute xprism (Cw20Transfer c (deposit_amount p)))]
       else r = [new_sub_msg (WasmExecute xprism (Cw20Burn (deposit_amount p)))])"
proof (rule cosmwasm_std.end_poll_Ok [OF std run inv])
  fix x h supp s msgs and p :: poll
  let ?w = "yes_votes p + no_votes p + abstain_votes p"
  let ?p = "p\<lparr>supply_snapshot := Some supp\<rparr>"
  let ?quo = "?w \<noteq> 0 \<and> required_quorum p \<le> (if supp = 0 then 0 else ?w * DEC_ONE div supp)"
  assume p: "get (POLL g) pid = Some p" "status p = InProgress" "end_time p \<le> now_seconds S env"
    and x: "xprism_token (CONFIG g) = Some x" "addr_humanize D x = Inr h"
    and supp: "case supply_snapshot p of Some n \<Rightarrow> supp = n | None \<Rightarrow> query_supply D h = Inr supp"
    and c: "count_poll S D h ?p ?w supp = Inr (s, msgs)"
    and g': "g' = save_poll pid (?p\<lparr>status := s\<rparr>) (save_index s pid (remove_index InProgress pid g))"
    and r: "r = add_messages msgs"
  have q: "get (POLL g') pid = Some (?p\<lparr>status := s\<rparr>)"
    by (simp add: g' save_poll_def save_index_def remove_index_def get_put [OF gov_inv_stores(1) [OF inv]])
  have "s = (if ?quo \<and> yes_votes p \<noteq> 0 \<and> required_threshold p < yes_votes p * DEC_ONE div (yes_votes p + no_votes p)
      then Passed else Rejected)"
    using cosmwasm_std.count_poll_Ok(1,3) [OF std c] by auto
  moreover have "deposit_amount p \<noteq> 0 \<longrightarrow> (if ?quo
        then \<exists>c. addr_humanize D (creator p) = Ok c
          \<and> r = [new_sub_msg (WasmExecute h (Cw20Transfer c (deposit_amount p)))]
        else r = [new_sub_msg (WasmExecute h (Cw20Burn (deposit_amount p)))])"
    using cosmwasm_std.count_poll_deposit [OF std c] unfolding r by (simp cong: if_cong split del: if_split)
  moreover have "deposit_amount p = 0 \<Longrightarrow> r = []"
    using cosmwasm_std.count_poll_no_deposit [OF std c] by (simp add: r add_messages_def)
  ultimately show ?thesis
    by (intro exI [of _ p] exI [of _ "?p\<lparr>status := s\<rparr>"] exI [of _ x] exI [of _ h] exI [of _ supp]
          exI [of _ ?w] exI [of _ ?quo])
      (use p x supp q in simp)
qed

theorem end_poll_decision_witness:
  "\<exists>g' r q. end_poll cosmwasm_0_16 gov_chain (env_at 210) gov_example 1 = Ok (g', r)
    \<and> get (POLL g') 1 = Some q \<and> status q = Passed
    \<and> r = [new_sub_msg (WasmExecute ''xprism'' (Cw20Transfer ''carol'' 5))]"
proof -
  obtain g' r where run: "end_poll cosmwasm_0_16 gov_chain (env_at 210) gov_example 1 = Ok (g', r)"
    and r: "r = [new_sub_msg (WasmExecute ''xprism'' (Cw20Transfer ''carol'' 5))]"
    by (simp add: poll_eval gov_eval)
  from end_poll_decision [OF cosmwasm_0_16 gov_example_inv run] obtain q where
    "get (POLL g') 1 = Some q" "status q = Passed"
    by (auto simp: gov_example_def get_def poll_open_def DEC_ONE_def query_supply_def gov_chain_def)
  with run r show ?thesis by blast
qed


section \<open>Custody and exchange\<close>

lemma end_poll_outflow:
  assumes std: "cosmwasm_std S" and inv: "gov_inv g" and run: "end_poll S D env g pid = Ok (g', r)"
    and x: "xprism_token (CONFIG g) = Some x" "addr_humanize D x = Ok h"
  shows "xprism_owed g' + outflow h r = xprism_owed g"
proof (rule cosmwasm_std.end_poll_Ok [OF std run inv])
  fix x' h' supp s msgs and p :: poll
  assume p: "get (POLL g) pid = Some p" and x': "xprism_token (CONFIG g) = Some x'" "addr_humanize D x' = Inr h'"
    and c: "count_poll S D h' (p\<lparr>supply_snapshot := Some supp\<rparr>) (yes_votes p + no_votes p + abstain_votes p) supp
        = Inr (s, msgs)"
    and r: "r = add_messages msgs"
  have "h' = h" using x x' by simp
  then have "outflow h r = deposit_amount p"
    using cosmwasm_std.count_poll_Ok(2) [OF std c] by (simp add: r)
  then show ?thesis using cosmwasm_std.end_poll_owed [OF std run inv] p by force
qed

lemma receive_cw20_custody:
  assumes std: "cosmwasm_std S" and inv: "gov_inv g" and run: "receive_cw20 S D fb env g info c = Inr (g', r)"
    and x: "xprism_token (CONFIG g) = Some x"
  shows "xprism_owed g' + outflow h r = xprism_owed g + inflow D g info (Receive c)"
  using run
proof (cases rule: receive_gov_Ok)
  case stake
  then show ?thesis using cosmwasm_std.stake_voting_tokens_inv(2) [OF std _ inv] x
    by (auto simp: inflow_def elim: cosmwasm_std.stake_voting_tokens_Ok [OF std])
next
  case create
  then show ?thesis using cosmwasm_std.create_poll_inv(2) [OF std _ inv] x
    by (auto simp: inflow_def elim: cosmwasm_std.create_poll_Ok [OF std])
next
  case (redeem y)
  then show ?thesis using cosmwasm_std.redeem_xprism_gov_inv(2,3) [OF std redeem(3) inv] x
    by (simp add: inflow_def)
next
  case mint
  then show ?thesis using x by (auto simp: inflow_def elim!: cosmwasm_std.mint_xprism_Ok [OF std])
qed

text \<open>
  Custody of xPRISM. What the contract owes in xPRISM, the stakes, the deposits of open polls and
  the queued redemptions, moves by exactly what comes in with a call and what its own messages send
  out or burn: owed after plus outflow is owed before plus inflow, for every message of the
  contract (the message of an executed poll is not one of its own; PRISM and xPRISM are different
  tokens).
\<close>

lemma gov_xprism_custody:
  assumes std: "cosmwasm_std S" and inv: "gov_inv g" and ok: "config_ok g"
    and run: "execute S D fb env g info m = Ok (g', r)"
    and tokens: "token_addrs D g = Ok (prism, xprism)" and differ: "prism \<noteq> xprism"
  shows "xprism_owed g' + outflow xprism r = xprism_owed g + inflow D g info m"
proof -
  from tokens obtain x where x: "xprism_token (CONFIG g) = Some x" "addr_humanize D x = Ok xprism"
    by (auto simp: token_addrs_def result_simps)
  show ?thesis
  proof (cases m)
    case (Receive c)
    with run have "receive_cw20 S D fb env g info c = Inr (g', r)" by simp
    then show ?thesis using receive_cw20_custody [OF std inv _ x(1)] Receive by simp
  next
    case (WithdrawVotingTokens amount)
    with run have "withdraw_voting_tokens S D g info amount = Inr (g', r)" by simp
    then show ?thesis using x WithdrawVotingTokens
      by (auto simp: inflow_def elim!: cosmwasm_std.withdraw_voting_tokens_owed [OF std _ inv])
  next
    case (UpdateConfig ow quo thr vp ed pd sp rt gl)
    with run have u: "update_config D g info ow quo thr vp ed pd sp rt gl = Inr (g', r)" by simp
    have "xprism_owed g' = xprism_owed g" by (subst update_config_Ok(3) [OF u ok]) simp
    then show ?thesis using update_config_Ok(4) [OF u ok] UpdateConfig by (simp add: inflow_def)
  next
    case (EndPoll pid)
    then show ?thesis using run end_poll_outflow [OF std inv _ x, of env pid g' r] by (simp add: inflow_def)
  next
    case (ExecutePoll pid)
    with run have e: "execute_poll S D env g pid = Inr (g', r)" by simp
    have "outflow xprism r = 0" by (rule cosmwasm_std.execute_poll_Ok [OF std e]) simp
    then show ?thesis using cosmwasm_std.execute_poll_owed [OF std e inv] ExecutePoll by (simp add: inflow_def)
  next
    case (CastVote pid o1 amount)
    with run have e: "cast_vote S D env g info pid o1 amount = Inr (g', r)" by simp
    have "r = []" by (rule cosmwasm_std.cast_vote_Ok [OF std e])
    then show ?thesis using cosmwasm_std.cast_vote_inv(2) [OF std e inv] CastVote by (simp add: inflow_def)
  next
    case (SnapshotPoll pid)
    with run have e: "snapshot_poll S D env g pid = Inr (g', r)" by simp
    have "r = []" by (rule cosmwasm_std.snapshot_poll_Ok [OF std e])
    then show ?thesis using cosmwasm_std.snapshot_poll_inv(2) [OF std e inv] SnapshotPoll by (simp add: inflow_def)
  next
    case ClaimRedeemedXprism
    with run have e: "claim_redeemed_prism S D env g info = Inr (g', r)" by simp
    show ?thesis
      by (rule cosmwasm_std.claim_redeemed_prism_Ok [OF std e inv])
        (use tokens differ ClaimRedeemedXprism in \<open>simp add: inflow_def\<close>)
  qed
qed

lemmas xprism_eval = token_addrs_def claim_redeemed_prism_def compute_withdrawable_def matured_orders_def
  MAX_ORDER_WITHDRAW_PER_TX_def sub_range_def redeem_xprism_def mint_xprism_def del_def

lemma gov_xprism_custody_witness:
  "\<exists>g' r. execute cosmwasm_0_16 gov_chain (\<lambda>_. Inl NotFound) (env_at 210) gov_example (from_user ''bob'')
      ClaimRedeemedXprism = Ok (g', r)
    \<and> outflow ''xprism'' r = 10 \<and> xprism_owed g' + 10 = xprism_owed gov_example"
proof -
  obtain g' r where run: "execute cosmwasm_0_16 gov_chain (\<lambda>_. Inl NotFound) (env_at 210) gov_example
      (from_user ''bob'') ClaimRedeemedXprism = Ok (g', r)" and out: "outflow ''xprism'' r = 10"
    by (simp add: xprism_eval outflow_def gov_eval)
  have "token_addrs gov_chain gov_example = Ok (''prism'', ''xprism'')" by (simp add: token_addrs_def gov_eval)
  from gov_xprism_custody [OF cosmwasm_0_16 gov_example_inv gov_example_config run this] run out show ?thesis
    by (simp add: inflow_def)
qed

text \<open>
  Minting xPRISM never dilutes the holders. The xPRISM minted for PRISM is rounded down at the
  ratio before the deposit, so the PRISM behind each xPRISM does not fall: with \<open>p\<close> PRISM behind \<open>x\<close>
  xPRISM before (what is queued for redemption set aside) and \<open>p + amount\<close> behind \<open>x + minted\<close> after,
  \<open>p * (x + minted) \<le> (p + amount) * x\<close>. Into an empty pool the rate is one to one.
\<close>

lemma mint_xprism_fair:
  assumes std: "cosmwasm_std S" and run: "mint_xprism S D env g receiver amount = Ok (g', r)"
    and tokens: "token_addrs D g = Ok (prism, xprism)"
    and bal: "query_token_balance D prism (contract_address env) = Ok bal" and supp: "query_supply D xprism = Ok supp"
  shows "\<exists>minted p x. r = [new_sub_msg (WasmExecute xprism (Cw20Mint receiver minted))] \<and> g' = g
    \<and> bal = p + amount + snd (TOTAL_PENDING_WITHDRAW g) \<and> supp = x + fst (TOTAL_PENDING_WITHDRAW g)
    \<and> (if p = 0 then minted = amount
       else p * (x + minted) \<le> (p + amount) * x \<and> amount * x < p * (minted + 1))"
proof (rule cosmwasm_std.mint_xprism_Ok [OF std run])
  fix prism' xprism' bal' supp' minted
  assume q: "token_addrs D g = Inr (prism', xprism')"
      "query_token_balance D prism' (contract_address env) = Inr bal'" "query_supply D xprism' = Inr supp'"
    and le: "amount + snd (TOTAL_PENDING_WITHDRAW g) \<le> bal'" "fst (TOTAL_PENDING_WITHDRAW g) \<le> supp'"
    and minted: "bal' - amount - snd (TOTAL_PENDING_WITHDRAW g) = 0 \<Longrightarrow> minted = amount"
      "bal' - amount - snd (TOTAL_PENDING_WITHDRAW g) \<noteq> 0 \<Longrightarrow> minted =
        amount * (supp' - fst (TOTAL_PENDING_WITHDRAW g)) div (bal' - amount - snd (TOTAL_PENDING_WITHDRAW g))"
    and res: "g' = g" "r = add_messages [WasmExecute xprism' (Cw20Mint receiver minted)]"
  have eq: "prism' = prism" "xprism' = xprism" "bal' = bal" "supp' = supp" using q tokens bal supp by auto
  define p where "p = bal - amount - snd (TOTAL_PENDING_WITHDRAW g)"
  define x where "x = supp - fst (TOTAL_PENDING_WITHDRAW g)"
  have "p * (x + minted) \<le> (p + amount) * x \<and> amount * x < p * (minted + 1)" if nz: "p \<noteq> 0"
  proof -
    have "minted = amount * x div p" using minted(2) nz unfolding eq p_def x_def by blast
    then show ?thesis using floor_div_bounds [OF nz, of "amount * x"] by (simp add: algebra_simps)
  qed
  moreover have "p = 0 \<Longrightarrow> minted = amount" using minted(1) by (simp add: eq p_def)
  ultimately show ?thesis
    using le res by (intro exI [of _ minted] exI [of _ p] exI [of _ x]) (simp add: eq p_def x_def add_messages_def)
qed

lemma mint_xprism_fair_witness:
  "\<exists>r. mint_xprism cosmwasm_0_16 gov_chain (env_at 210) gov_example ''alice'' 100 = Ok (gov_example, r)
    \<and> r = [new_sub_msg (WasmExecute ''xprism'' (Cw20Mint ''alice'' 242))] \<and> 400 * (970 + 242) \<le> (400 + 100) * (970 :: nat)"
proof -
  obtain r where run: "mint_xprism cosmwasm_0_16 gov_chain (env_at 210) gov_example ''alice'' 100 = Ok (gov_example, r)"
    and r: "r = [new_sub_msg (WasmExecute ''xprism'' (Cw20Mint ''alice'' 242))]"
    by (simp add: xprism_eval gov_eval)
  have t: "token_addrs gov_chain gov_example = Ok (''prism'', ''xprism'')"
    "query_token_balance gov_chain ''prism'' (contract_address (env_at 210)) = Ok 521"
    "query_supply gov_chain ''xprism'' = Ok 1000" by (simp_all add: token_addrs_def gov_eval)
  from mint_xprism_fair [OF cosmwasm_0_16 run t] have "400 * (970 + 242) \<le> (400 + 100) * (970 :: nat)"
    using r by (auto simp: gov_example_def new_sub_msg_def split: if_splits)
  with run r show ?thesis by blast
qed

text \<open>
  C30: redeeming xPRISM never dilutes the holders and never promises more PRISM than there is. The
  order sets \<open>ret\<close> PRISM aside for \<open>amount\<close> xPRISM, rounded down at the current ratio, payable after
  the redemption time: with \<open>p\<close> PRISM behind \<open>x\<close> xPRISM (queued redemptions set aside), a redemption
  of at most \<open>x\<close> leaves the pending total within the balance and
  \<open>p * (x - amount) \<le> (p - ret) * x\<close>.
\<close>

theorem redeem_xprism_fair:
  assumes std: "cosmwasm_std S" and run: "redeem_xprism S D env g who amount = Ok (g', r)"
    and tokens: "token_addrs D g = Ok (prism, xprism)"
    and bal: "query_token_balance D prism (contract_address env) = Ok bal" and supp: "query_supply D xprism = Ok supp"
    and avail: "fst (TOTAL_PENDING_WITHDRAW g) + amount \<le> supp"
  shows "\<exists>ret p x. bal = p + snd (TOTAL_PENDING_WITHDRAW g) \<and> supp = x + fst (TOTAL_PENDING_WITHDRAW g)
    \<and> get (WITHDRAW_ORDERS g) (who, timestamp_seconds S (block_time env + redemption_time (CONFIG g) * 10 ^ 9)) = None
    \<and> g' = g\<lparr>WITHDRAW_ORDERS := put (who, timestamp_seconds S (block_time env + redemption_time (CONFIG g) * 10 ^ 9))
          (amount, ret) (WITHDRAW_ORDERS g),
        TOTAL_PENDING_WITHDRAW := (fst (TOTAL_PENDING_WITHDRAW g) + amount, snd (TOTAL_PENDING_WITHDRAW g) + ret)\<rparr>
    \<and> snd (TOTAL_PENDING_WITHDRAW g') \<le> bal \<and> fst (TOTAL_PENDING_WITHDRAW g') \<le> supp
    \<and> ret \<le> p \<and> p * (x - amount) \<le> (p - ret) * x \<and> amount * p < (ret + 1) * x"
proof (rule cosmwasm_std.redeem_xprism_Ok [OF std run])
  fix prism' xprism' bal' supp' ret t
  assume q: "token_addrs D g = Inr (prism', xprism')"
      "query_token_balance D prism' (contract_address env) = Inr bal'" "query_supply D xprism' = Inr supp'"
    and le: "snd (TOTAL_PENDING_WITHDRAW g) \<le> bal'" "fst (TOTAL_PENDING_WITHDRAW g) < supp'"
    and ret: "ret = amount * (bal' - snd (TOTAL_PENDING_WITHDRAW g)) div (supp' - fst (TOTAL_PENDING_WITHDRAW g))"
    and t: "get (WITHDRAW_ORDERS g) (who, t) = None"
      "t = timestamp_seconds S (block_time env + redemption_time (CONFIG g) * 10 ^ 9)"
    and g': "g' = g\<lparr>WITHDRAW_ORDERS := put (who, t) (amount, ret) (WITHDRAW_ORDERS g),
        TOTAL_PENDING_WITHDRAW := (fst (TOTAL_PENDING_WITHDRAW g) + amount, snd (TOTAL_PENDING_WITHDRAW g) + ret)\<rparr>"
  have eq: "bal' = bal" "supp' = supp" using q tokens bal supp by auto
  define p where "p = bal - snd (TOTAL_PENDING_WITHDRAW g)"
  define x where "x = supp - fst (TOTAL_PENDING_WITHDRAW g)"
  have x: "x \<noteq> 0" "amount \<le> x" using le avail by (simp_all add: x_def eq)
  have r: "ret = amount * p div x" using ret unfolding eq p_def x_def .
  have b: "x * ret \<le> amount * p" "amount * p < x * (ret + 1)"
    using floor_div_bounds [OF x(1), of "amount * p"] by (simp_all add: r)
  have "x * ret \<le> x * p" using b(1) mult_le_mono1 [OF x(2), of p] by linarith
  then have ret_le: "ret \<le> p" using x(1) by simp
  have "p * (x - amount) \<le> (p - ret) * x"
    using b(1) by (simp add: diff_mult_distrib diff_mult_distrib2 algebra_simps)
  moreover have "amount * p < (ret + 1) * x" using b(2) by (simp add: algebra_simps)
  ultimately show ?thesis
    using ret_le le t avail
    by (intro exI [of _ ret] exI [of _ p] exI [of _ x] conjI) (simp_all add: g' eq p_def x_def)
qed

theorem redeem_xprism_fair_witness:
  "\<exists>g' r. redeem_xprism cosmwasm_0_16 gov_chain (env_at 210) gov_example ''alice'' 97 = Ok (g', r)
    \<and> TOTAL_PENDING_WITHDRAW g' = (127, 71) \<and> snd (TOTAL_PENDING_WITHDRAW g') \<le> 521"
proof -
  obtain g' r where run: "redeem_xprism cosmwasm_0_16 gov_chain (env_at 210) gov_example ''alice'' 97 = Ok (g', r)"
    and t: "TOTAL_PENDING_WITHDRAW g' = (127, 71)"
    by (simp add: xprism_eval gov_eval)
  have q: "token_addrs gov_chain gov_example = Ok (''prism'', ''xprism'')"
    "query_token_balance gov_chain ''prism'' (contract_address (env_at 210)) = Ok 521"
    "query_supply gov_chain ''xprism'' = Ok 1000"
    "fst (TOTAL_PENDING_WITHDRAW gov_example) + 97 \<le> 1000" by (simp_all add: token_addrs_def gov_eval)
  have "snd (TOTAL_PENDING_WITHDRAW g') \<le> 521" using redeem_xprism_fair [OF cosmwasm_0_16 run q] by blast
  with run t show ?thesis by blast
qed

text \<open>Claims: what is deleted, and that nothing due stays behind within the limit per transaction.\<close>

lemma get_fold_del_order:
  "get (fold (\<lambda>t. del (a, t)) ts s) (u, t) = (if u = a \<and> t \<in> set ts then None else get s (u, t))"
  by (induction ts arbitrary: s) (auto simp: get_del)

lemma takeWhile_sorted:
  assumes "sorted (map fst xs)"
  shows "takeWhile (\<lambda>(t, _). \<not> now < t) xs = filter (\<lambda>(t, _). t \<le> (now :: nat)) xs"
  using assms
proof (induction xs)
  case (Cons e xs)
  have "filter (\<lambda>(t, _). t \<le> now) xs = []" if "now < fst e"
    using Cons.prems that by (force simp: filter_empty_conv)
  then show ?case using Cons by (cases e) auto
qed simp

lemma matured_orders_all:
  assumes wf: "wf_store (WITHDRAW_ORDERS g)" and few: "length (sub_range a (WITHDRAW_ORDERS g)) \<le> MAX_ORDER_WITHDRAW_PER_TX"
    and order: "get (WITHDRAW_ORDERS g) (a, t) = Some (x, p)" "t \<le> now"
  shows "(t, x, p) \<in> set (matured_orders g now a)"
proof -
  have "sorted (map fst (sub_range a (WITHDRAW_ORDERS g)))"
    using wf_sub_range [OF wf] by (simp add: wf_store_def strict_sorted_iff)
  then have "matured_orders g now a = filter (\<lambda>(t, _). t \<le> now) (sub_range a (WITHDRAW_ORDERS g))"
    unfolding matured_orders_def using few by (simp add: takeWhile_sorted)
  then show ?thesis using order by (simp add: set_sub_range [OF wf])
qed

text \<open>
  C31: a claim pays exactly the sender's matured redemptions, once. The xPRISM of the claimed orders
  is burnt and their PRISM sent to the sender; every claimed order is due; the claimed orders are
  deleted and every other order is kept; and a sender with no more orders than the limit of one
  transaction has no due order left.
\<close>

theorem claim_exact:
  assumes std: "cosmwasm_std S" and inv: "gov_inv g" and run: "claim_redeemed_prism S D env g info = Ok (g', r)"
  shows "\<exists>orders prism xprism. token_addrs D g = Ok (prism, xprism) \<and> distinct (map fst orders)
    \<and> r = [new_sub_msg (WasmExecute xprism (Cw20Burn (\<Sum>(t, x, p)\<leftarrow>orders. x))),
           new_sub_msg (WasmExecute prism (Cw20Transfer (sender info) (\<Sum>(t, x, p)\<leftarrow>orders. p)))]
    \<and> (\<forall>t x p. (t, x, p) \<in> set orders \<longrightarrow>
          get (WITHDRAW_ORDERS g) (sender info, t) = Some (x, p) \<and> t \<le> now_seconds S env)
    \<and> (\<forall>u t. get (WITHDRAW_ORDERS g') (u, t) =
          (if u = sender info \<and> t \<in> fst ` set orders then None else get (WITHDRAW_ORDERS g) (u, t)))
    \<and> (length (sub_range (sender info) (WITHDRAW_ORDERS g)) \<le> MAX_ORDER_WITHDRAW_PER_TX \<longrightarrow>
          (\<forall>t. t \<le> now_seconds S env \<longrightarrow> get (WITHDRAW_ORDERS g') (sender info, t) = None))"
proof (rule cosmwasm_std.claim_redeemed_prism_Ok [OF std run inv])
  fix prism xprism wx wp
  let ?o = "matured_orders g (now_seconds S env) (sender info)"
  assume t: "token_addrs D g = Inr (prism, xprism)"
    and w: "wx = (\<Sum>(t, x, p)\<leftarrow>?o. x)" "wp = (\<Sum>(t, x, p)\<leftarrow>?o. p)"
    and r: "r = add_messages [WasmExecute xprism (Cw20Burn wx), WasmExecute prism (Cw20Transfer (sender info) wp)]"
    and c: "compute_withdrawable S g (now_seconds S env) (sender info) = Inr (g', wx, wp)"
  have wf: "wf_store (WITHDRAW_ORDERS g)" using gov_inv_stores [OF inv] by simp
  note sound = matured_orders_sound [OF wf, of "now_seconds S env" "sender info"]
  have "WITHDRAW_ORDERS g' = fold (\<lambda>t. del (sender info, t)) (map fst ?o) (WITHDRAW_ORDERS g)"
    using c by (auto simp: compute_withdrawable_def Let_def result_simps)
  then have left: "get (WITHDRAW_ORDERS g') (u, t) =
      (if u = sender info \<and> t \<in> fst ` set ?o then None else get (WITHDRAW_ORDERS g) (u, t))" for u t
    by (simp add: get_fold_del_order)
  have "get (WITHDRAW_ORDERS g') (sender info, t) = None"
    if few: "length (sub_range (sender info) (WITHDRAW_ORDERS g)) \<le> MAX_ORDER_WITHDRAW_PER_TX"
      and due: "t \<le> now_seconds S env" for t
  proof (cases "get (WITHDRAW_ORDERS g) (sender info, t)")
    case (Some o1)
    then show ?thesis using matured_orders_all [OF wf few _ due] by (cases o1) (force simp: left)
  qed (simp add: left)
  then show ?thesis
    using t sound left by (intro exI [of _ ?o] exI [of _ prism] exI [of _ xprism])
      (auto simp: r w add_messages_def)
qed

theorem claim_exact_witness:
  "\<exists>g' r. claim_redeemed_prism cosmwasm_0_16 gov_chain (env_at 210) gov_example (from_user ''bob'') = Ok (g', r)
    \<and> r = [new_sub_msg (WasmExecute ''xprism'' (Cw20Burn 10)), new_sub_msg (WasmExecute ''prism'' (Cw20Transfer ''bob'' 7))]
    \<and> get (WITHDRAW_ORDERS g') (''bob'', 50) = None"
proof -
  obtain g' r where run: "claim_redeemed_prism cosmwasm_0_16 gov_chain (env_at 210) gov_example (from_user ''bob'') = Ok (g', r)"
    and r: "r = [new_sub_msg (WasmExecute ''xprism'' (Cw20Burn 10)),
      new_sub_msg (WasmExecute ''prism'' (Cw20Transfer ''bob'' 7))]"
    by (simp add: xprism_eval gov_eval)
  have few: "length (sub_range (sender (from_user ''bob'')) (WITHDRAW_ORDERS gov_example)) \<le> MAX_ORDER_WITHDRAW_PER_TX"
    "50 \<le> now_seconds cosmwasm_0_16 (env_at 210)"
    by (simp_all add: sub_range_def MAX_ORDER_WITHDRAW_PER_TX_def gov_eval)
  have "get (WITHDRAW_ORDERS g') (sender (from_user ''bob''), 50) = None"
    using claim_exact [OF cosmwasm_0_16 gov_example_inv run] few by blast
  with run r show ?thesis by (auto simp: from_user_def)
qed

text \<open>
  A vote counts once, with staked tokens. A successful \<open>cast_vote\<close> is on an open poll whose time is
  not over, by a user who has not voted on it, with an amount covered by the user's stake; it adds
  exactly the amount to the chosen tally, records the vote, and moves no token.
\<close>

lemma cast_vote_counts:
  assumes std: "cosmwasm_std S" and inv: "gov_inv g"
    and run: "cast_vote S D env g info pid choice amount = Ok (g', r)"
  shows "\<exists>key p q. addr_canonicalize D (sender info) = Ok key
    \<and> get (POLL g) pid = Some p \<and> status p = InProgress \<and> now_seconds S env \<le> end_time p
    \<and> get (POLL_VOTER g) (pid, key) = None \<and> amount \<le> deposit (manager_of g key)
    \<and> get (POLL g') pid = Some q \<and> (\<forall>o1. tally q o1 = tally p o1 + (if o1 = choice then amount else 0))
    \<and> (\<forall>k. k \<noteq> pid \<longrightarrow> get (POLL g') k = get (POLL g) k)
    \<and> (\<forall>k a. get (POLL_VOTER g') (k, a) = (if (k, a) = (pid, key) then Some \<lparr>vote = choice, balance = amount\<rparr>
          else get (POLL_VOTER g) (k, a)))
    \<and> deposit (manager_of g' key) = deposit (manager_of g key) \<and> r = []"
proof (rule cosmwasm_std.cast_vote_Ok [OF std run])
  fix key snap and p q :: poll
  let ?m = "manager_of g key"
  let ?q = "q\<lparr>supply_snapshot := snap\<rparr>"
  assume facts: "addr_canonicalize D (sender info) = Inr key" "get (POLL g) pid = Some p" "status p = InProgress"
      "now_seconds S env \<le> end_time p" "get (POLL_VOTER g) (pid, key) = None" "amount \<le> deposit ?m"
    and q: "add_vote S p choice amount = Inr q"
    and g': "g' = g\<lparr>BANK := put key (?m\<lparr>locked_balance := locked_balance ?m @
            [(pid, \<lparr>vote = choice, balance = amount\<rparr>)]\<rparr>) (BANK g),
          POLL_VOTER := put (pid, key) \<lparr>vote = choice, balance = amount\<rparr> (POLL_VOTER g),
          POLL := put pid ?q (POLL g)\<rparr>" and r: "r = []"
  note wf = gov_inv_stores [OF inv]
  have "tally ?q o1 = tally p o1 + (if o1 = choice then amount else 0)" for o1
    using cosmwasm_std.add_vote_Ok(1) [OF std q, of o1] by (simp add: tally_def split: vote_option.splits)
  moreover have "deposit (manager_of g' key) = deposit ?m"
    by (simp add: g' manager_of_def get_put [OF wf(4)])
  ultimately show ?thesis
    by (intro exI [of _ key] exI [of _ p] exI [of _ ?q])
      (simp add: facts r g' get_put [OF wf(1)] get_put [OF wf(3)])
qed

lemma cast_vote_counts_witness:
  "\<exists>g' r q. cast_vote cosmwasm_0_16 gov_chain (env_at 150)
      (gov_example\<lparr>BANK := put ''bob'' \<lparr>deposit = 50, locked_balance = []\<rparr> (BANK gov_example)\<rparr>)
      (from_user ''bob'') 1 No 40 = Ok (g', r)
    \<and> get (POLL g') 1 = Some q \<and> tally q Yes = 300 \<and> tally q No = 40"
proof -
  let ?g = "gov_example\<lparr>BANK := put ''bob'' \<lparr>deposit = 50, locked_balance = []\<rparr> (BANK gov_example)\<rparr>"
  have inv: "gov_inv ?g"
    by (rule gov_inv_bank [OF gov_example_inv])
      (simp_all add: manager_of_def default_manager_def gov_example_def get_def manager_ok_def)
  obtain g' r where run: "cast_vote cosmwasm_0_16 gov_chain (env_at 150) ?g (from_user ''bob'') 1 No 40 = Ok (g', r)"
    by (simp add: cast_vote_def load_poll_def add_vote_def MAX_POLL_VOTES_PER_USER_def snapshot_supply_def
        save_poll_def gov_eval)
  have "tally poll_open Yes = 300" "tally poll_open No = 0" by (simp_all add: tally_def poll_open_def)
  moreover have "get (POLL ?g) 1 = Some poll_open" by (simp add: gov_example_def get_def)
  ultimately obtain q where "get (POLL g') 1 = Some q" "tally q Yes = 300" "tally q No = 40"
    using cast_vote_counts [OF cosmwasm_0_16 inv run] by auto
  with run show ?thesis by blast
qed

text \<open>
  C32: a withdrawal of stake never uncovers an open vote. It pays the sender, in the xPRISM of the
  configuration, the requested amount, or, when none is given, all that is free: what then stays
  staked is the largest of the sender's votes on open polls, or nothing. What stays staked covers
  each of the user's votes on an open poll; the votes on polls that are over are dropped from the
  user's list and from the voters of the poll, and no other vote is. The api gives the sender's
  address back for its canonical form.
\<close>

theorem withdraw_keeps_votes_covered:
  assumes std: "cosmwasm_std S" and inv: "gov_inv g"
    and run: "withdraw_voting_tokens S D g info amount = Ok (g', r)"
    and api: "\<forall>c. addr_canonicalize D (sender info) = Ok c \<longrightarrow> addr_humanize D c = Ok (sender info)"
  shows "\<exists>key m m' w x xprism. addr_canonicalize D (sender info) = Ok key \<and> get (BANK g) key = Some m
    \<and> get (BANK g') key = Some m' \<and> deposit m' + w = deposit m \<and> (\<forall>a. amount = Some a \<longrightarrow> w = a)
    \<and> (amount = None \<longrightarrow> deposit m' = Max (insert 0 ((\<lambda>(k, i). balance i) ` set (locked_balance m'))))
    \<and> xprism_token (CONFIG g) = Some x \<and> addr_humanize D x = Ok xprism
    \<and> r = [new_sub_msg (WasmExecute xprism (Cw20Transfer (sender info) w))]
    \<and> locked_balance m' = filter (\<lambda>(k, i). open_poll g k) (locked_balance m)
    \<and> (\<forall>k i. (k, i) \<in> set (locked_balance m') \<longrightarrow> balance i \<le> deposit m')
    \<and> (\<forall>k a. get (POLL_VOTER g') (k, a) = (if a = key \<and> \<not> open_poll g k \<and> k \<in> fst ` set (locked_balance m)
          then None else get (POLL_VOTER g) (k, a)))"
proof -
  have vinv: "vote_inv g" using inv by (simp add: gov_inv_def)
  show ?thesis
  proof (rule cosmwasm_std.withdraw_voting_tokens_Ok [OF std run vinv])
    fix key x h to w and m :: voting_token_manager
    let ?m = "m\<lparr>locked_balance := filter (\<lambda>(k, i). open_poll g k) (locked_balance m), deposit := deposit m - w\<rparr>"
    assume facts: "addr_canonicalize D (sender info) = Inr key" "get (BANK g) key = Some m"
        "w \<le> deposit m" "\<And>b. amount = Some b \<Longrightarrow> w = b" "r = add_messages [WasmExecute h (Cw20Transfer to w)]"
        "xprism_token (CONFIG g) = Some x" "addr_humanize D x = Inr h"
      and to: "addr_humanize D key = Inr to"
      and free: "amount = None \<Longrightarrow> deposit m - w =
        Max (insert 0 ((\<lambda>(k, i). balance i) ` set (filter (\<lambda>(k, i). open_poll g k) (locked_balance m))))"
      and cover: "\<And>k i. (k, i) \<in> set (locked_balance m) \<Longrightarrow> open_poll g k \<Longrightarrow> w + balance i \<le> deposit m"
      and g': "g' = g\<lparr>POLL_VOTER := fold (\<lambda>k. del (k, key))
          (map fst (filter (\<lambda>(k, i). \<not> open_poll g k) (locked_balance m))) (POLL_VOTER g), BANK := put key ?m (BANK g)\<rparr>"
    have bank: "get (BANK g') key = Some ?m" by (simp add: g' get_put [OF gov_inv_stores(4) [OF inv]])
    have covered: "balance i \<le> deposit ?m" if "(k, i) \<in> set (locked_balance ?m)" for k i
      using that cover [of k i] by auto
    have voters: "get (POLL_VOTER g') (k, a) = (if a = key \<and> \<not> open_poll g k \<and> k \<in> fst ` set (locked_balance m)
          then None else get (POLL_VOTER g) (k, a))" for k a
      by (auto simp: g' get_fold_del_voter image_iff)
    have "to = sender info" using api facts(1) to by auto
    with facts free have rest: "deposit ?m + w = deposit m" "r = [new_sub_msg (WasmExecute h (Cw20Transfer (sender info) w))]"
      "amount = None \<longrightarrow> deposit ?m = Max (insert 0 ((\<lambda>(k, i). balance i) ` set (locked_balance ?m)))"
      by (simp_all add: add_messages_def)
    show ?thesis
      by (intro exI [of _ key] exI [of _ m] exI [of _ ?m] exI [of _ w] exI [of _ x] exI [of _ h] conjI allI impI)
        (use facts bank rest covered voters in \<open>simp_all\<close>)
  qed
qed

theorem withdraw_keeps_votes_covered_witness:
  "\<exists>g' r m'. withdraw_voting_tokens cosmwasm_0_16 gov_chain gov_example (from_user ''alice'') None = Ok (g', r)
    \<and> r = [new_sub_msg (WasmExecute ''xprism'' (Cw20Transfer ''alice'' 100))]
    \<and> get (BANK g') ''alice'' = Some m' \<and> deposit m' = 300"
proof -
  have p: "get (BANK gov_example) ''alice'' = Some \<lparr>deposit = 400, locked_balance = [(1, \<lparr>vote = Yes, balance = 300\<rparr>)]\<rparr>"
    by (simp add: gov_example_def get_def)
  obtain g' r where run: "withdraw_voting_tokens cosmwasm_0_16 gov_chain gov_example (from_user ''alice'') None = Ok (g', r)"
    and r: "r = [new_sub_msg (WasmExecute ''xprism'' (Cw20Transfer ''alice'' 100))]"
    by (simp add: withdraw_voting_tokens_def compute_locked_balance_def send_tokens_def gov_eval)
  have "\<forall>c. addr_canonicalize gov_chain (sender (from_user ''alice'')) = Ok c \<longrightarrow>
      addr_humanize gov_chain c = Ok (sender (from_user ''alice''))"
    by (simp add: from_user_def addr_canonicalize_def addr_humanize_def gov_chain_def empty_deps_def)
  from withdraw_keeps_votes_covered [OF cosmwasm_0_16 gov_example_inv run this] obtain m' w where
    "get (BANK g') ''alice'' = Some m'" "deposit m' + w = 400" "w = 100"
    using r p by (auto simp: from_user_def addr_canonicalize_def gov_chain_def empty_deps_def new_sub_msg_def)
  then have "get (BANK g') ''alice'' = Some m'" "deposit m' = 300" by simp_all
  with run r show ?thesis by blast
qed


section \<open>Access\<close>

text \<open>
  Only the owner changes the configuration by a call, and never the tokens: whatever the message,
  if the configuration differs afterwards it was \<open>UpdateConfig\<close> sent by the owner, the token addresses
  are the same and the limits on quorum, threshold and gas still hold. Redemptions, stakes, votes
  and polls are untouched by it.
\<close>

lemma gov_owner_only:
  assumes std: "cosmwasm_std S" and inv: "gov_inv g" and ok: "config_ok g"
    and run: "execute S D fb env g info m = Ok (g', r)" and changed: "CONFIG g' \<noteq> CONFIG g"
  shows "addr_canonicalize D (sender info) = Ok (owner (CONFIG g)) \<and> is_UpdateConfig m \<and> r = []
    \<and> prism_token (CONFIG g') = prism_token (CONFIG g) \<and> xprism_token (CONFIG g') = xprism_token (CONFIG g)
    \<and> config_ok g' \<and> g' = g\<lparr>CONFIG := CONFIG g'\<rparr>"
proof (cases m)
  case (UpdateConfig ow quo thr vp ed pd sp rt gl)
  with run have "update_config D g info ow quo thr vp ed pd sp rt gl = Inr (g', r)" by simp
  from update_config_Ok [OF this ok] UpdateConfig show ?thesis by simp
qed (use cosmwasm_std.execute_keeps [OF std run inv] changed in \<open>simp_all add: keeps_def\<close>)

lemma gov_owner_only_witness:
  "\<exists>g' r. execute cosmwasm_0_16 gov_chain (\<lambda>_. Inl NotFound) (env_at 210) gov_example (from_user ''owner'')
      (UpdateConfig (Some ''dao'') None None None None None None (Some 40) None) = Ok (g', r)
    \<and> redemption_time (CONFIG g') = 40 \<and> xprism_token (CONFIG g') = Some ''xprism'' \<and> config_ok g'"
proof -
  obtain g' r where run: "execute cosmwasm_0_16 gov_chain (\<lambda>_. Inl NotFound) (env_at 210) gov_example (from_user ''owner'')
      (UpdateConfig (Some ''dao'') None None None None None None (Some 40) None) = Ok (g', r)"
    and t: "redemption_time (CONFIG g') = 40"
    by (simp add: update_config_def set_field_def gov_eval)
  have "CONFIG g' \<noteq> CONFIG gov_example" using t by (auto simp: gov_example_def)
  from gov_owner_only [OF cosmwasm_0_16 gov_example_inv gov_example_config run this] run t show ?thesis
    by (simp add: gov_example_def)
qed

end
