(* ===== verification/Lp_Staking.thy ===== *)
theory Lp_Staking
  imports Cosmwasm
begin

text \<open>
  \<open>contracts/prism-lp-staking\<close>: staking of liquidity tokens for PRISM rewards. A pool per staking
  token accrues rewards by a distribution schedule and its weight; stakers bond tokens, unbond them
  into orders that mature after the pool's unbond period, and claim rewards. Models \<open>state.rs\<close>,
  \<open>handle.rs\<close>, \<open>query.rs\<close>, \<open>contract.rs\<close> and the messages in \<open>packages/prism_protocol/src/lp_staking.rs\<close>.
\<close>


section \<open>Definitions\<close>

subsection \<open>Data\<close>

datatype contract_error =
    Std std_error
  | Unauthorized
  | InvalidStakingToken
  | NothingStaked
  | InvalidUnbondAmount
  | NothingAvailableToUnbond
  | NothingAvailableToWithdraw
  | InvalidCw20Msg
  | InvalidDistributionSchedule
  | DuplicateStakingToken
  | AlreadyExists
  | UnbondOrderOverwrite

record config =
  owner :: addr
  prism_token :: addr
  distribution_schedule :: "(nat \<times> nat \<times> nat) list"
  total_weight :: nat

record pool_info =
  last_distributed :: nat
  weight :: nat
  total_bond_amount :: nat
  total_pending_withdraw :: nat
  reward_index :: decimal
  pending_reward :: nat
  unbond_period :: nat

definition default_pool :: pool_info where
  "default_pool = \<lparr>last_distributed = 0, weight = 0, total_bond_amount = 0, total_pending_withdraw = 0,
     reward_index = 0, pending_reward = 0, unbond_period = 0\<rparr>"

record reward_info =
  staker_index :: decimal
  bond_amount :: nat
  withdrawable_amount :: nat
  staker_pending :: nat

definition default_reward_info :: reward_info where
  "default_reward_info = \<lparr>staker_index = 0, bond_amount = 0, withdrawable_amount = 0, staker_pending = 0\<rparr>"

text \<open>Keys: staking token; (staker, token); (staker, token, time of the order); (token, staker).\<close>

record lp =
  CONFIG :: config
  POOLS :: "(addr, pool_info) store"
  REWARD_INFO :: "(addr \<times> addr, reward_info) store"
  UNBOND_ORDERS :: "(addr \<times> addr \<times> nat, nat) store"
  STAKER_BY_TOKEN_INDEXER :: "(addr \<times> addr, bool) store"

type_synonym lp_result = "(contract_error, lp \<times> response) result"

subsection \<open>Rewards\<close>

text \<open>What the schedule distributes to a pool between its last update and now.\<close>

definition distribute_slot ::
  "cosmwasm \<Rightarrow> config \<Rightarrow> pool_info \<Rightarrow> nat \<Rightarrow> nat \<times> nat \<times> nat \<Rightarrow> nat \<Rightarrow> ('e, nat) result" where
  "distribute_slot S config pool current_time slot distributed_amount =
     (case slot of (s0, s1, s2) \<Rightarrow>
       if s0 > current_time \<or> s1 < last_distributed pool then Ok distributed_amount
       else
         andThen (u64_sub (min s1 current_time) (max s0 (last_distributed pool))) (\<lambda>seconds_passed.
         andThen (u64_sub s1 s0) (\<lambda>num_seconds.
         andThen (from_ratio S (weight pool) (total_weight config)) (\<lambda>share.
         andThen (umul_dec S s2 share) (\<lambda>pool_distribution_amount.
         andThen (from_ratio S pool_distribution_amount num_seconds) (\<lambda>distribution_amount_per_second.
         andThen (umul_dec S seconds_passed distribution_amount_per_second) (\<lambda>d.
         uadd S distributed_amount d)))))))"

definition pool_distribution ::
  "cosmwasm \<Rightarrow> config \<Rightarrow> pool_info \<Rightarrow> nat \<Rightarrow> ('e, nat) result" where
  "pool_distribution S config pool current_time =
     foldM (distribute_slot S config pool current_time) (distribution_schedule config) 0"

definition compute_pool_reward ::
  "cosmwasm \<Rightarrow> config \<Rightarrow> pool_info \<Rightarrow> nat \<Rightarrow> ('e, pool_info) result" where
  "compute_pool_reward S config pool current_time =
     andThen (pool_distribution S config pool current_time) (\<lambda>distributed_amount.
     let pool = pool\<lparr>last_distributed := current_time\<rparr> in
     if total_bond_amount pool = 0
     then andThen (uadd S (pending_reward pool) distributed_amount) (\<lambda>p. Ok (pool\<lparr>pending_reward := p\<rparr>))
     else
       andThen (uadd S (pending_reward pool) distributed_amount) (\<lambda>p.
       andThen (from_ratio S p (total_bond_amount pool)) (\<lambda>step.
       andThen (dec_add S (reward_index pool) step) (\<lambda>i.
       Ok (pool\<lparr>reward_index := i, pending_reward := 0\<rparr>)))))"

definition compute_staker_reward ::
  "cosmwasm \<Rightarrow> pool_info \<Rightarrow> reward_info \<Rightarrow> ('e, reward_info) result" where
  "compute_staker_reward S pool info =
     andThen (umul_dec S (bond_amount info) (reward_index pool)) (\<lambda>upto.
     andThen (umul_dec S (bond_amount info) (staker_index info)) (\<lambda>since.
     andThen (usub S upto since) (\<lambda>pending.
     andThen (uadd S (staker_pending info) pending) (\<lambda>p.
     Ok (info\<lparr>staker_index := reward_index pool, staker_pending := p\<rparr>)))))"

subsection \<open>Unbond orders\<close>

definition MAX_ORDER_WITHDRAW_PER_TX :: nat where
  "MAX_ORDER_WITHDRAW_PER_TX = 50"

text \<open>The orders of a staker on a token in the order of their creation.\<close>

definition orders_of :: "lp \<Rightarrow> addr \<Rightarrow> addr \<Rightarrow> (nat, nat) store" where
  "orders_of l staker token = sub_range token (sub_range staker (UNBOND_ORDERS l))"

definition withdrawable_step ::
  "cosmwasm \<Rightarrow> nat \<Rightarrow> nat \<Rightarrow> nat \<times> nat \<Rightarrow> nat \<times> nat list \<times> nat \<Rightarrow> ('e, nat \<times> nat list \<times> nat) result" where
  "withdrawable_step S current_time period item acc =
     (case (item, acc) of ((order_time, v), (amount, released, count)) \<Rightarrow>
       andThen (u64_add count 1) (\<lambda>count.
       if count \<le> MAX_ORDER_WITHDRAW_PER_TX then
         andThen (u64_add order_time period) (\<lambda>expires.
         if expires < current_time
         then andThen (uadd S amount v) (\<lambda>amount. Ok (amount, released @ [order_time], count))
         else Ok (amount, released, count))
       else Ok (amount, released, count)))"

definition get_withdrawable_amount ::
  "cosmwasm \<Rightarrow> lp \<Rightarrow> addr \<Rightarrow> addr \<Rightarrow> nat \<Rightarrow> nat \<Rightarrow> ('e, nat \<times> nat list \<times> nat) result" where
  "get_withdrawable_amount S l staker token current_time period =
     foldM (withdrawable_step S current_time period)
       (take (MAX_ORDER_WITHDRAW_PER_TX + 1) (orders_of l staker token)) (0, [], 0)"

definition remove_withdrawn :: "lp \<Rightarrow> addr \<Rightarrow> addr \<Rightarrow> nat list \<Rightarrow> lp" where
  "remove_withdrawn l staker token expired_orders =
     l\<lparr>UNBOND_ORDERS := fold (\<lambda>t. del (staker, token, t)) expired_orders (UNBOND_ORDERS l)\<rparr>"

definition pull_expired_withdraw_orders ::
  "cosmwasm \<Rightarrow> lp \<Rightarrow> addr \<Rightarrow> addr \<Rightarrow> reward_info \<Rightarrow> nat \<Rightarrow> nat \<Rightarrow> ('e, lp \<times> reward_info \<times> bool) result" where
  "pull_expired_withdraw_orders S l staker token info current_time period =
     andThen (get_withdrawable_amount S l staker token current_time period)
       (\<lambda>(withdrawable, expired_orders, order_count).
     andThen (uadd S (withdrawable_amount info) withdrawable) (\<lambda>w.
     Ok (remove_withdrawn l staker token expired_orders, info\<lparr>withdrawable_amount := w\<rparr>,
       order_count > length expired_orders)))"

definition update_or_remove_staker_rewards :: "lp \<Rightarrow> addr \<Rightarrow> addr \<Rightarrow> reward_info \<Rightarrow> bool \<Rightarrow> lp" where
  "update_or_remove_staker_rewards l staker token info orders_pending =
     (if staker_pending info = 0 \<and> bond_amount info = 0 \<and> withdrawable_amount info = 0 \<and> \<not> orders_pending
      then l\<lparr>REWARD_INFO := del (staker, token) (REWARD_INFO l),
             STAKER_BY_TOKEN_INDEXER := del (token, staker) (STAKER_BY_TOKEN_INDEXER l)\<rparr>
      else l\<lparr>REWARD_INFO := put (staker, token) info (REWARD_INFO l)\<rparr>)"

subsection \<open>Administration\<close>

definition update_owner :: "lp \<Rightarrow> message_info \<Rightarrow> addr \<Rightarrow> lp_result" where
  "update_owner l info new_owner =
     (let config = CONFIG l in
     if owner config \<noteq> sender info then Fail Unauthorized
     else Ok (l\<lparr>CONFIG := config\<lparr>owner := new_owner\<rparr>\<rparr>, []))"

definition add_distribution_schedule ::
  "cosmwasm \<Rightarrow> env \<Rightarrow> lp \<Rightarrow> message_info \<Rightarrow> (nat \<times> nat \<times> nat) list \<Rightarrow> lp_result" where
  "add_distribution_schedule S env l info schedule =
     (let config = CONFIG l; current_time = now_seconds S env in
     if owner config \<noteq> sender info then Fail Unauthorized
     else if \<exists>s\<in>set schedule. fst s < current_time \<or> fst (snd s) \<le> fst s \<or> snd (snd s) = 0
     then Fail InvalidDistributionSchedule
     else Ok (l\<lparr>CONFIG := config\<lparr>distribution_schedule := distribution_schedule config @ schedule\<rparr>\<rparr>, []))"

definition register_staking_token ::
  "cosmwasm \<Rightarrow> env \<Rightarrow> lp \<Rightarrow> message_info \<Rightarrow> addr \<Rightarrow> nat \<Rightarrow> nat \<Rightarrow> lp_result" where
  "register_staking_token S env l info staking_token period w =
     (let config = CONFIG l; current_time = now_seconds S env in
     if owner config \<noteq> sender info then Fail Unauthorized
     else
       andThen (foldM (\<lambda>(pool_staking_token, pool) l.
           if pool_staking_token = staking_token then Fail AlreadyExists
           else andThen (compute_pool_reward S config pool current_time) (\<lambda>pool.
             Ok (l\<lparr>POOLS := put pool_staking_token pool (POOLS l)\<rparr>))) (POOLS l) l) (\<lambda>l.
       let l = l\<lparr>POOLS := put staking_token
             (default_pool\<lparr>last_distributed := current_time, weight := w, unbond_period := period\<rparr>) (POOLS l)\<rparr>
       in andThen (u64_add (total_weight config) w) (\<lambda>tw.
       Ok (l\<lparr>CONFIG := config\<lparr>total_weight := tw\<rparr>\<rparr>, []))))"

text \<open>
  The loop over the pools updates the total weight when it meets the token, so the pools after it
  are updated with the new total.
\<close>

definition update_pool_step ::
  "cosmwasm \<Rightarrow> nat \<Rightarrow> addr \<Rightarrow> nat \<Rightarrow> addr \<times> pool_info \<Rightarrow> config \<times> lp \<times> bool
    \<Rightarrow> (contract_error, config \<times> lp \<times> bool) result" where
  "update_pool_step S current_time staking_token new_weight item acc =
     (case (item, acc) of ((pool_staking_token, pool), (config, l, pool_found)) \<Rightarrow>
       andThen (compute_pool_reward S config pool current_time) (\<lambda>pool.
       andThen
         (if pool_staking_token = staking_token then
            andThen (u64_sub (total_weight config) (weight pool)) (\<lambda>tw.
            andThen (u64_add tw new_weight) (\<lambda>tw.
            Ok (config\<lparr>total_weight := tw\<rparr>, pool\<lparr>weight := new_weight\<rparr>, True)))
          else Ok (config, pool, pool_found)) (\<lambda>(config, pool, pool_found).
       Ok (config, l\<lparr>POOLS := put pool_staking_token pool (POOLS l)\<rparr>, pool_found))))"

definition update_staking_token ::
  "cosmwasm \<Rightarrow> env \<Rightarrow> lp \<Rightarrow> message_info \<Rightarrow> addr \<Rightarrow> nat option \<Rightarrow> nat option \<Rightarrow> lp_result" where
  "update_staking_token S env l info staking_token period w =
     (let config = CONFIG l in
     if owner config \<noteq> sender info then Fail Unauthorized
     else
       andThen (case w of
           None \<Rightarrow> Ok l
         | Some new_weight \<Rightarrow>
             andThen (foldM (update_pool_step S (now_seconds S env) staking_token new_weight) (POOLS l)
               (config, l, False)) (\<lambda>(config, l, pool_found).
             if \<not> pool_found then Fail InvalidStakingToken else Ok (l\<lparr>CONFIG := config\<rparr>))) (\<lambda>l.
       andThen (case period of
           None \<Rightarrow> Ok l
         | Some p \<Rightarrow> andThen (or_err InvalidStakingToken (get (POOLS l) staking_token)) (\<lambda>pool.
             Ok (l\<lparr>POOLS := put staking_token (pool\<lparr>unbond_period := p\<rparr>) (POOLS l)\<rparr>))) (\<lambda>l.
       Ok (l, []))))"

subsection \<open>Staking\<close>

definition bond ::
  "cosmwasm \<Rightarrow> env \<Rightarrow> lp \<Rightarrow> addr \<Rightarrow> addr \<Rightarrow> nat \<Rightarrow> pool_info option \<Rightarrow> lp_result" where
  "bond S env l staking_token sender_addr amount given =
     andThen (or_err InvalidStakingToken (get (POOLS l) staking_token)) (\<lambda>stored.
     let config = CONFIG l; now = now_seconds S env;
         pool = (case given of Some p \<Rightarrow> p | None \<Rightarrow> stored);
         info = (case get (REWARD_INFO l) (sender_addr, staking_token) of
           Some i \<Rightarrow> i | None \<Rightarrow> default_reward_info)
     in andThen (pull_expired_withdraw_orders S l sender_addr staking_token info now (unbond_period pool))
       (\<lambda>(l, info, _).
     andThen (compute_pool_reward S config pool now) (\<lambda>pool.
     andThen (compute_staker_reward S pool info) (\<lambda>info.
     andThen (uadd S (total_bond_amount pool) amount) (\<lambda>total.
     andThen (uadd S (bond_amount info) amount) (\<lambda>mine.
     Ok (l\<lparr>REWARD_INFO := put (sender_addr, staking_token) (info\<lparr>bond_amount := mine\<rparr>) (REWARD_INFO l),
           STAKER_BY_TOKEN_INDEXER := put (staking_token, sender_addr) True (STAKER_BY_TOKEN_INDEXER l),
           POOLS := put staking_token (pool\<lparr>total_bond_amount := total\<rparr>) (POOLS l)\<rparr>, [])))))))"

definition unbond ::
  "cosmwasm \<Rightarrow> env \<Rightarrow> lp \<Rightarrow> message_info \<Rightarrow> addr \<Rightarrow> nat option \<Rightarrow> lp_result" where
  "unbond S env l info staking_token amount =
     (let config = CONFIG l; now = now_seconds S env; staker = sender info in
     andThen (or_err InvalidStakingToken (get (POOLS l) staking_token)) (\<lambda>pool.
     andThen (or_err NothingStaked (get (REWARD_INFO l) (staker, staking_token))) (\<lambda>ri.
     andThen (pull_expired_withdraw_orders S l staker staking_token ri now (unbond_period pool))
       (\<lambda>(l, ri, orders_pending).
     if bond_amount ri = 0 then Fail NothingAvailableToUnbond
     else
       andThen (case amount of
           Some a \<Rightarrow> if bond_amount ri < a then Fail InvalidUnbondAmount else Ok a
         | None \<Rightarrow> Ok (bond_amount ri)) (\<lambda>amount_to_unbond.
       andThen (compute_pool_reward S config pool now) (\<lambda>pool.
       andThen (compute_staker_reward S pool ri) (\<lambda>ri.
       andThen (usub S (total_bond_amount pool) amount_to_unbond) (\<lambda>total.
       andThen (usub S (bond_amount ri) amount_to_unbond) (\<lambda>mine.
       let pool = pool\<lparr>total_bond_amount := total\<rparr>; ri = ri\<lparr>bond_amount := mine\<rparr> in
       if unbond_period pool = 0 then
         Ok (update_or_remove_staker_rewards (l\<lparr>POOLS := put staking_token pool (POOLS l)\<rparr>)
              staker staking_token ri orders_pending,
           add_messages [WasmExecute staking_token (Cw20Transfer staker amount_to_unbond)])
       else if get (UNBOND_ORDERS l) (staker, staking_token, now) \<noteq> None then Fail UnbondOrderOverwrite
       else
         andThen (uadd S (total_pending_withdraw pool) amount_to_unbond) (\<lambda>pending.
         andThen (plus_seconds S (block_time env) (unbond_period pool)) (\<lambda>_.
         Ok (update_or_remove_staker_rewards
              (l\<lparr>UNBOND_ORDERS := put (staker, staking_token, now) amount_to_unbond (UNBOND_ORDERS l),
                POOLS := put staking_token (pool\<lparr>total_pending_withdraw := pending\<rparr>) (POOLS l)\<rparr>)
              staker staking_token ri True, []))))))))))))"

definition claim_unbonded :: "cosmwasm \<Rightarrow> env \<Rightarrow> lp \<Rightarrow> message_info \<Rightarrow> addr \<Rightarrow> lp_result" where
  "claim_unbonded S env l info staking_token =
     (let staker = sender info in
     andThen (or_err InvalidStakingToken (get (POOLS l) staking_token)) (\<lambda>pool.
     andThen (or_err NothingStaked (get (REWARD_INFO l) (staker, staking_token))) (\<lambda>ri.
     andThen (pull_expired_withdraw_orders S l staker staking_token ri (now_seconds S env) (unbond_period pool))
       (\<lambda>(l, ri, orders_pending).
     if withdrawable_amount ri = 0 then Fail NothingAvailableToWithdraw
     else
       let amount_to_send = withdrawable_amount ri; ri = ri\<lparr>withdrawable_amount := 0\<rparr> in
       andThen (usub S (total_pending_withdraw pool) amount_to_send) (\<lambda>pending.
       Ok (update_or_remove_staker_rewards
             (l\<lparr>POOLS := put staking_token (pool\<lparr>total_pending_withdraw := pending\<rparr>) (POOLS l)\<rparr>)
             staker staking_token ri orders_pending,
         add_messages [WasmExecute staking_token (Cw20Transfer staker amount_to_send)]))))))"

definition claim_step ::
  "cosmwasm \<Rightarrow> config \<Rightarrow> nat \<Rightarrow> addr \<Rightarrow> addr \<times> reward_info \<Rightarrow> lp \<times> nat \<Rightarrow> (contract_error, lp \<times> nat) result" where
  "claim_step S config now staker item acc =
     (case (item, acc) of ((staking_token, ri), (l, claim_amount)) \<Rightarrow>
       andThen (or_err (Std NotFound) (get (POOLS l) staking_token)) (\<lambda>pool.
       andThen (pull_expired_withdraw_orders S l staker staking_token ri now (unbond_period pool))
         (\<lambda>(l, ri, orders_pending).
       andThen (compute_pool_reward S config pool now) (\<lambda>pool.
       andThen (compute_staker_reward S pool ri) (\<lambda>ri.
       andThen (uadd S claim_amount (staker_pending ri)) (\<lambda>claim_amount.
       let l = update_or_remove_staker_rewards l staker staking_token (ri\<lparr>staker_pending := 0\<rparr>) orders_pending
       in Ok (l\<lparr>POOLS := put staking_token pool (POOLS l)\<rparr>, claim_amount)))))))"

definition claim_rewards ::
  "cosmwasm \<Rightarrow> env \<Rightarrow> lp \<Rightarrow> message_info \<Rightarrow> addr option \<Rightarrow> lp_result" where
  "claim_rewards S env l info staking_token =
     (let config = CONFIG l; staker = sender info in
     andThen (case staking_token of
         Some token \<Rightarrow> andThen (or_err InvalidStakingToken (get (REWARD_INFO l) (staker, token))) (\<lambda>ri.
           Ok [(token, ri)])
       | None \<Rightarrow> Ok (sub_range staker (REWARD_INFO l))) (\<lambda>reward_infos.
     andThen (foldM (claim_step S config (now_seconds S env) staker) reward_infos (l, 0)) (\<lambda>(l, claim_amount).
     Ok (l, if claim_amount = 0 then []
       else add_messages [WasmExecute (prism_token config) (Cw20Transfer staker claim_amount)]))))"

definition auto_stake_hook :: "cosmwasm \<Rightarrow> deps \<Rightarrow> env \<Rightarrow> lp \<Rightarrow> addr \<Rightarrow> addr \<Rightarrow> lp_result" where
  "auto_stake_hook S D env l staking_token sender_addr =
     andThen (map_err Std (query_token_balance D staking_token (contract_address env))) (\<lambda>staking_token_balance.
     andThen (or_err InvalidStakingToken (get (POOLS l) staking_token)) (\<lambda>pool.
     andThen (usub S staking_token_balance (total_bond_amount pool)) (\<lambda>rest.
     andThen (usub S rest (total_pending_withdraw pool)) (\<lambda>amount.
     bond S env l staking_token sender_addr amount (Some pool)))))"

subsection \<open>Entry points\<close>

record instantiate_msg =
  im_owner :: string
  im_prism_token :: string
  im_distribution_schedule :: "(nat \<times> nat \<times> nat) list"
  im_staking_tokens :: "(string \<times> nat \<times> nat) list"

datatype execute_msg =
    Receive cw20_receive_msg
  | UpdateOwner string
  | AddDistributionSchedule "(nat \<times> nat \<times> nat) list"
  | RegisterStakingToken string nat nat
  | UpdateStakingToken string "nat option" "nat option"
  | Unbond string "nat option"
  | ClaimUnbonded string
  | ClaimRewards "string option"
  | AutoStakeHook string

datatype cw20_hook_msg = Bond

text \<open>\<open>sort\<close>, then \<open>dedup_by\<close> on the names: of neighbours with the same name the first stays.\<close>

fun dedup_names :: "(string \<times> nat \<times> nat) list \<Rightarrow> (string \<times> nat \<times> nat) list" where
  "dedup_names (a # b # xs) = (if fst a = fst b then dedup_names (a # xs) else a # dedup_names (b # xs))"
| "dedup_names xs = xs"

definition instantiate_lp ::
  "cosmwasm \<Rightarrow> deps \<Rightarrow> env \<Rightarrow> instantiate_msg \<Rightarrow> lp_result" where
  "instantiate_lp S D env msg =
     (if \<exists>s\<in>set (im_distribution_schedule msg). fst (snd s) \<le> fst s then Fail InvalidDistributionSchedule
      else
        let staking_tokens = dedup_names (sort (im_staking_tokens msg)) in
        if length staking_tokens \<noteq> length (im_staking_tokens msg) then Fail DuplicateStakingToken
        else
          andThen (map_err Std (addr_validate D (im_owner msg))) (\<lambda>ow.
          andThen (map_err Std (addr_validate D (im_prism_token msg))) (\<lambda>prism.
          andThen (foldM (\<lambda>t w. u64_add w (fst (snd t))) staking_tokens 0) (\<lambda>tw.
          andThen (foldM (\<lambda>(staking_token, w, period) pools.
              andThen (map_err Std (addr_validate D staking_token)) (\<lambda>a.
              Ok (put a (default_pool\<lparr>last_distributed := now_seconds S env, weight := w,
                unbond_period := period\<rparr>) pools))) staking_tokens []) (\<lambda>pools.
          Ok (\<lparr>CONFIG = \<lparr>owner = ow, prism_token = prism,
                 distribution_schedule = im_distribution_schedule msg, total_weight = tw\<rparr>,
               POOLS = pools, REWARD_INFO = [], UNBOND_ORDERS = [], STAKER_BY_TOKEN_INDEXER = []\<rparr>, []))))))"

definition receive_cw20 ::
  "cosmwasm \<Rightarrow> deps \<Rightarrow> (binary \<Rightarrow> std_error + cw20_hook_msg) \<Rightarrow> env \<Rightarrow> lp \<Rightarrow> message_info
    \<Rightarrow> cw20_receive_msg \<Rightarrow> lp_result" where
  "receive_cw20 S D from_binary env l info m =
     andThen (map_err Std (addr_validate D (cw20_sender m))) (\<lambda>from.
     case from_binary (cw20_msg m) of
       Inr Bond \<Rightarrow> bond S env l (sender info) from (cw20_amount m) None
     | Inl e \<Rightarrow> Fail InvalidCw20Msg)"

text \<open>An optional address, unwrapped: a bad one panics.\<close>

definition validate_opt :: "deps \<Rightarrow> string option \<Rightarrow> (contract_error, addr option) result" where
  "validate_opt D a = (case a of None \<Rightarrow> Ok None
     | Some t \<Rightarrow> andThen (unwrap (addr_validate D t)) (\<lambda>a. Ok (Some a)))"

fun execute ::
  "cosmwasm \<Rightarrow> deps \<Rightarrow> (binary \<Rightarrow> std_error + cw20_hook_msg) \<Rightarrow> env \<Rightarrow> lp \<Rightarrow> message_info
    \<Rightarrow> execute_msg \<Rightarrow> lp_result" where
  "execute S D fb env l info (Receive m) = receive_cw20 S D fb env l info m"
| "execute S D fb env l info (UpdateOwner ow) =
     andThen (map_err Std (addr_validate D ow)) (\<lambda>a. update_owner l info a)"
| "execute S D fb env l info (AddDistributionSchedule schedule) =
     add_distribution_schedule S env l info schedule"
| "execute S D fb env l info (RegisterStakingToken token period w) =
     andThen (map_err Std (addr_validate D token)) (\<lambda>a. register_staking_token S env l info a period w)"
| "execute S D fb env l info (UpdateStakingToken token period w) =
     andThen (map_err Std (addr_validate D token)) (\<lambda>a. update_staking_token S env l info a period w)"
| "execute S D fb env l info (Unbond token amount) =
     andThen (map_err Std (addr_validate D token)) (\<lambda>a. unbond S env l info a amount)"
| "execute S D fb env l info (ClaimUnbonded token) =
     andThen (map_err Std (addr_validate D token)) (\<lambda>a. claim_unbonded S env l info a)"
| "execute S D fb env l info (ClaimRewards token) =
     andThen (validate_opt D token) (\<lambda>a. claim_rewards S env l info a)"
| "execute S D fb env l info (AutoStakeHook token) =
     andThen (map_err Std (addr_validate D token)) (\<lambda>a. auto_stake_hook S D env l a (sender info))"

subsection \<open>Queries\<close>

definition MAX_LIMIT :: nat where "MAX_LIMIT = 30"
definition DEFAULT_LIMIT :: nat where "DEFAULT_LIMIT = 10"
definition MAX_ORDER_LIMIT :: nat where "MAX_ORDER_LIMIT = 50"
definition DEFAULT_ORDER_LIMIT :: nat where "DEFAULT_ORDER_LIMIT = 30"

record reward_info_response_item =
  rr_staking_token :: string
  rr_bond_amount :: nat
  rr_pending_reward :: nat
  rr_withdrawable_amount :: nat

definition reward_as_res :: "reward_info \<Rightarrow> addr \<Rightarrow> reward_info_response_item" where
  "reward_as_res i token = \<lparr>rr_staking_token = token, rr_bond_amount = bond_amount i,
     rr_pending_reward = staker_pending i, rr_withdrawable_amount = withdrawable_amount i\<rparr>"

text \<open>A staker's rewards on one token as they stand now.\<close>

definition updated_staker_reward ::
  "cosmwasm \<Rightarrow> lp \<Rightarrow> nat \<Rightarrow> addr \<Rightarrow> addr \<Rightarrow> reward_info
    \<Rightarrow> (contract_error, reward_info_response_item) result" where
  "updated_staker_reward S l current_time staker token ri =
     andThen (or_err (Std NotFound) (get (POOLS l) token)) (\<lambda>pool.
     andThen (compute_pool_reward S (CONFIG l) pool current_time) (\<lambda>pool.
     andThen (compute_staker_reward S pool ri) (\<lambda>ri.
     andThen (get_withdrawable_amount S l staker token current_time (unbond_period pool)) (\<lambda>(w, _, _).
     andThen (uadd S (withdrawable_amount ri) w) (\<lambda>w.
     Ok (reward_as_res (ri\<lparr>withdrawable_amount := w\<rparr>) token))))))"

definition read_updated_staker_rewards ::
  "cosmwasm \<Rightarrow> lp \<Rightarrow> nat \<Rightarrow> addr \<Rightarrow> (contract_error, reward_info_response_item list) result" where
  "read_updated_staker_rewards S l current_time staker =
     mapM (\<lambda>(token, ri). updated_staker_reward S l current_time staker token ri)
       (sub_range staker (REWARD_INFO l))"

definition query_staker_info ::
  "cosmwasm \<Rightarrow> env \<Rightarrow> lp \<Rightarrow> addr \<Rightarrow> addr option
    \<Rightarrow> (contract_error, addr \<times> reward_info_response_item list) result" where
  "query_staker_info S env l staker staking_token =
     andThen (case staking_token of
         Some token \<Rightarrow>
           andThen (or_err (Std NotFound) (get (POOLS l) token)) (\<lambda>pool.
           andThen (or_err (Std NotFound) (get (REWARD_INFO l) (staker, token))) (\<lambda>ri.
           andThen (get_withdrawable_amount S l staker token (now_seconds S env) (unbond_period pool)) (\<lambda>(w, _, _).
           andThen (uadd S (withdrawable_amount ri) w) (\<lambda>w.
           andThen (compute_pool_reward S (CONFIG l) pool (now_seconds S env)) (\<lambda>pool.
           andThen (compute_staker_reward S pool (ri\<lparr>withdrawable_amount := w\<rparr>)) (\<lambda>ri.
           Ok [reward_as_res ri token]))))))
       | None \<Rightarrow> read_updated_staker_rewards S l (now_seconds S env) staker) (\<lambda>rewards.
     Ok (staker, rewards))"

definition read_token_stakers_with_updated_rewards ::
  "cosmwasm \<Rightarrow> lp \<Rightarrow> nat \<Rightarrow> addr \<Rightarrow> addr option \<Rightarrow> nat option
    \<Rightarrow> (contract_error, (addr \<times> reward_info_response_item list) list) result" where
  "read_token_stakers_with_updated_rewards S l current_time token start_after limit =
     andThen (or_err (Std NotFound) (get (POOLS l) token)) (\<lambda>pool.
     andThen (compute_pool_reward S (CONFIG l) pool current_time) (\<lambda>pool.
     mapM (\<lambda>(staker, _).
         andThen (or_err (Std NotFound) (get (REWARD_INFO l) (staker, token))) (\<lambda>ri.
         andThen (get_withdrawable_amount S l staker token current_time (unbond_period pool)) (\<lambda>(w, _, _).
         andThen (uadd S (withdrawable_amount ri) w) (\<lambda>w.
         andThen (compute_staker_reward S pool (ri\<lparr>withdrawable_amount := w\<rparr>)) (\<lambda>ri.
         Ok (staker, [reward_as_res ri token]))))))
       (take (min (case limit of Some n \<Rightarrow> n | None \<Rightarrow> DEFAULT_LIMIT) MAX_LIMIT)
         (range_from start_after (sub_range token (STAKER_BY_TOKEN_INDEXER l))))))"

definition query_unbond_orders ::
  "cosmwasm \<Rightarrow> env \<Rightarrow> lp \<Rightarrow> addr \<Rightarrow> addr \<Rightarrow> nat option \<Rightarrow> nat option
    \<Rightarrow> (contract_error, nat \<times> (nat \<times> nat) list) result" where
  "query_unbond_orders S env l token staker start_after limit =
     andThen (or_err (Std NotFound) (get (POOLS l) token)) (\<lambda>pool.
     foldM (\<lambda>(order_time, amount) (withdrawable, orders).
         andThen (u64_add order_time (unbond_period pool)) (\<lambda>end_time.
         andThen (if end_time < now_seconds S env then uadd S withdrawable amount else Ok withdrawable)
           (\<lambda>withdrawable. Ok (withdrawable, orders @ [(end_time, amount)]))))
       (take (min (case limit of Some n \<Rightarrow> n | None \<Rightarrow> DEFAULT_ORDER_LIMIT) MAX_ORDER_LIMIT)
         (range_from start_after (orders_of l staker token))) (0, []))"

datatype query_msg =
    QueryConfig
  | QueryPoolInfo string
  | QueryStakerInfo string "string option"
  | QueryTokenStakersInfo string "string option" "nat option"
  | QueryUnbondOrders string string "nat option" "nat option"

text \<open>The configuration and a pool are answered as they are stored.\<close>

datatype query_response =
    ConfigResponse config
  | PoolInfoResponse addr pool_info
  | StakerInfoResponse addr "reward_info_response_item list"
  | StakersInfoResponse "(addr \<times> reward_info_response_item list) list"
  | UnbondOrdersResponse nat "(nat \<times> nat) list"

fun query :: "cosmwasm \<Rightarrow> deps \<Rightarrow> env \<Rightarrow> lp \<Rightarrow> query_msg \<Rightarrow> (contract_error, query_response) result" where
  "query S D env l QueryConfig = Ok (ConfigResponse (CONFIG l))"
| "query S D env l (QueryPoolInfo token) =
     andThen (map_err Std (addr_validate D token)) (\<lambda>t.
     andThen (or_err (Std NotFound) (get (POOLS l) t)) (\<lambda>pool. Ok (PoolInfoResponse t pool)))"
| "query S D env l (QueryStakerInfo staker token) =
     andThen (map_err Std (addr_validate D staker)) (\<lambda>s.
     andThen (validate_opt D token) (\<lambda>t.
     andThen (query_staker_info S env l s t) (\<lambda>(s, rs). Ok (StakerInfoResponse s rs))))"
| "query S D env l (QueryTokenStakersInfo token start_after limit) =
     andThen (map_err Std (addr_validate D token)) (\<lambda>t.
     andThen (validate_opt D start_after) (\<lambda>s.
     andThen (read_token_stakers_with_updated_rewards S l (now_seconds S env) t s limit)
       (\<lambda>rs. Ok (StakersInfoResponse rs))))"
| "query S D env l (QueryUnbondOrders token staker start_after limit) =
     andThen (map_err Std (addr_validate D token)) (\<lambda>t.
     andThen (map_err Std (addr_validate D staker)) (\<lambda>s.
     andThen (query_unbond_orders S env l t s start_after limit)
       (\<lambda>(w, orders). Ok (UnbondOrdersResponse w orders))))"

end
