(* ===== verification/Lp_Accounting.thy ===== *)
theory Lp_Accounting
  imports Lp_Staking
begin

text \<open>
  The books of the staking contract: per token the bonded total is the sum of the stakers' bonds and
  the pending total is what has been unbonded and not yet paid out, in open orders or as withdrawable
  amounts; the index of stakers and the reward entries agree, and nobody with an open order is
  forgotten. One lemma per operation shows that the books are kept.
\<close>


section \<open>What the storage adds up to\<close>

definition bonded :: "lp \<Rightarrow> addr \<Rightarrow> nat" where
  "bonded l t = (\<Sum>(k, i)\<leftarrow>REWARD_INFO l. if snd k = t then bond_amount i else 0)"

definition withdrawable :: "lp \<Rightarrow> addr \<Rightarrow> nat" where
  "withdrawable l t = (\<Sum>(k, i)\<leftarrow>REWARD_INFO l. if snd k = t then withdrawable_amount i else 0)"

definition in_orders :: "lp \<Rightarrow> addr \<Rightarrow> nat" where
  "in_orders l t = (\<Sum>(k, v)\<leftarrow>UNBOND_ORDERS l. if fst (snd k) = t then v else 0)"

definition pool_weights :: "lp \<Rightarrow> nat" where
  "pool_weights l = (\<Sum>(k, p)\<leftarrow>POOLS l. weight p)"

definition lp_inv :: "lp \<Rightarrow> bool" where
  "lp_inv l \<longleftrightarrow> wf_store (POOLS l) \<and> wf_store (REWARD_INFO l) \<and> wf_store (UNBOND_ORDERS l)
     \<and> wf_store (STAKER_BY_TOKEN_INDEXER l)
     \<and> (\<forall>s t. get (REWARD_INFO l) (s, t) \<noteq> None \<longrightarrow> get (POOLS l) t \<noteq> None)
     \<and> (\<forall>s t. get (STAKER_BY_TOKEN_INDEXER l) (t, s) \<noteq> None \<longleftrightarrow> get (REWARD_INFO l) (s, t) \<noteq> None)
     \<and> (\<forall>s t k. get (UNBOND_ORDERS l) (s, t, k) \<noteq> None \<longrightarrow> get (REWARD_INFO l) (s, t) \<noteq> None)
     \<and> (\<forall>t p. get (POOLS l) t = Some p \<longrightarrow>
          total_bond_amount p = bonded l t \<and> total_pending_withdraw p = withdrawable l t + in_orders l t)
     \<and> total_weight (CONFIG l) = pool_weights l"


section \<open>Pulling matured orders\<close>

definition matured :: "nat \<Rightarrow> nat \<Rightarrow> (nat, nat) store \<Rightarrow> (nat, nat) store" where
  "matured now period orders = filter (\<lambda>(k, v). k + period < now) (take MAX_ORDER_WITHDRAW_PER_TX orders)"

context cosmwasm_std
begin

lemma withdrawable_step_Ok:
  assumes "withdrawable_step S now period (k, v) (a, ts, c) = (Inr (a', ts', c') :: ('e, _) result)"
  shows "c' = c + 1" and "(a', ts') =
    (if c + 1 \<le> MAX_ORDER_WITHDRAW_PER_TX \<and> k + period < now then (a + v, ts @ [k]) else (a, ts))"
  using assms by (auto simp: withdrawable_step_def result_simps cw_laws split: if_splits)

lemma withdrawable_fold:
  assumes "foldM (withdrawable_step S now period) xs (a, ts, c) = (Inr (a', ts', c') :: ('e, _) result)"
  shows "c' = c + length xs \<and>
    ts' = ts @ map fst (filter (\<lambda>(k, v). k + period < now) (take (MAX_ORDER_WITHDRAW_PER_TX - c) xs)) \<and>
    a' = a + (\<Sum>(k, v)\<leftarrow>filter (\<lambda>(k, v). k + period < now) (take (MAX_ORDER_WITHDRAW_PER_TX - c) xs). v)"
  using assms
proof (induction xs arbitrary: a ts c)
  case (Cons x xs)
  obtain k v where x: "x = (k, v)" by (cases x)
  from Cons.prems obtain a1 ts1 c1 where
    one: "withdrawable_step S now period (k, v) (a, ts, c) = (Inr (a1, ts1, c1) :: ('e, _) result)"
    and rest: "foldM (withdrawable_step S now period) xs (a1, ts1, c1) = (Inr (a', ts', c') :: ('e, _) result)"
    by (auto simp: x elim!: andThen_OkE)
  note one = withdrawable_step_Ok [OF one] and IH = Cons.IH [OF rest]
  show ?case
  proof (cases "c + 1 \<le> MAX_ORDER_WITHDRAW_PER_TX")
    case True
    then have "MAX_ORDER_WITHDRAW_PER_TX - c = Suc (MAX_ORDER_WITHDRAW_PER_TX - (c + 1))" by simp
    then show ?thesis using IH one True by (auto simp: x split: if_splits)
  next
    case False
    then show ?thesis using IH one by auto
  qed
qed simp

end

lemma wf_orders_of: "wf_store (UNBOND_ORDERS l) \<Longrightarrow> wf_store (orders_of l s t)"
  by (simp add: orders_of_def wf_sub_range)

lemma set_orders_of:
  assumes "wf_store (UNBOND_ORDERS l)"
  shows "(k, v) \<in> set (orders_of l s t) \<longleftrightarrow> get (UNBOND_ORDERS l) (s, t, k) = Some v"
proof -
  have "get (sub_range s (UNBOND_ORDERS l)) (t, k) = Some v \<longleftrightarrow> get (UNBOND_ORDERS l) (s, t, k) = Some v"
    by (simp add: entries_get [OF wf_sub_range [OF assms], symmetric] set_sub_range [OF assms])
  then show ?thesis by (simp add: orders_of_def set_sub_range [OF wf_sub_range [OF assms]])
qed

context cosmwasm_std
begin

lemma get_withdrawable_Ok:
  assumes "get_withdrawable_amount S l s t now period = (Inr (w, ts, c) :: ('e, _) result)"
    and wf: "wf_store (UNBOND_ORDERS l)"
  shows "ts = map fst (matured now period (orders_of l s t))"
    and "w = (\<Sum>(k, v)\<leftarrow>matured now period (orders_of l s t). v)"
    and "c \<le> length ts \<Longrightarrow> matured now period (orders_of l s t) = orders_of l s t"
proof -
  let ?o = "orders_of l s t"
  let ?M = MAX_ORDER_WITHDRAW_PER_TX
  have 0: "take ?M (take (?M + 1) ?o) = take ?M ?o" by simp
  have f: "c = length (take (?M + 1) ?o)" "ts = map fst (matured now period ?o)"
    "w = (\<Sum>(k, v)\<leftarrow>matured now period ?o. v)"
    using withdrawable_fold [OF assms(1) [unfolded get_withdrawable_amount_def]] unfolding matured_def by simp_all
  then show ts: "ts = map fst (matured now period ?o)" and "w = (\<Sum>(k, v)\<leftarrow>matured now period ?o. v)"
    by simp_all
  assume "c \<le> length ts"
  then have le: "length (take (?M + 1) ?o) \<le> length (matured now period ?o)" using f ts by simp
  also have "\<dots> \<le> length (take ?M ?o)" unfolding matured_def by (rule length_filter_le)
  finally have "length ?o \<le> ?M" by simp
  with le have "length ?o \<le> length (filter (\<lambda>(k, v). k + period < now) ?o)" by (simp add: matured_def)
  moreover have "length (filter (\<lambda>(k, v). k + period < now) ?o) \<le> length ?o" by (rule length_filter_le)
  ultimately have "\<forall>x\<in>set ?o. (\<lambda>(k, v). k + period < now) x" by (metis filter_id_conv length_filter_less linorder_not_less)
  then show "matured now period ?o = ?o" using \<open>length ?o \<le> ?M\<close> by (simp add: matured_def)
qed

end

definition info_of :: "lp \<Rightarrow> addr \<Rightarrow> addr \<Rightarrow> reward_info" where
  "info_of l s t = (case get (REWARD_INFO l) (s, t) of Some i \<Rightarrow> i | None \<Rightarrow> default_reward_info)"

text \<open>The sums after writing or removing one staker's entry.\<close>

lemma staker_sums_put:
  assumes "wf_store (REWARD_INFO l)" and "REWARD_INFO l' = put (s, t) i (REWARD_INFO l)"
  shows "bonded l' u + (if u = t then bond_amount (info_of l s t) else 0)
      = bonded l u + (if u = t then bond_amount i else 0)"
    and "withdrawable l' u + (if u = t then withdrawable_amount (info_of l s t) else 0)
      = withdrawable l u + (if u = t then withdrawable_amount i else 0)"
  using st.sum_save [OF assms(1), of "\<lambda>k i. if snd k = u then bond_amount i else 0" "(s, t)" i]
    st.sum_save [OF assms(1), of "\<lambda>k i. if snd k = u then withdrawable_amount i else 0" "(s, t)" i]
  by (auto simp: bonded_def withdrawable_def assms(2) info_of_def default_reward_info_def split: option.splits)

lemma staker_sums_del:
  assumes "wf_store (REWARD_INFO l)" and "REWARD_INFO l' = del (s, t) (REWARD_INFO l)"
  shows "bonded l' u + (if u = t then bond_amount (info_of l s t) else 0) = bonded l u"
    and "withdrawable l' u + (if u = t then withdrawable_amount (info_of l s t) else 0) = withdrawable l u"
  using st.sum_remove [OF assms(1), of "\<lambda>k i. if snd k = u then bond_amount i else 0" "(s, t)"]
    st.sum_remove [OF assms(1), of "\<lambda>k i. if snd k = u then withdrawable_amount i else 0" "(s, t)"]
  by (auto simp: bonded_def withdrawable_def assms(2) info_of_def default_reward_info_def split: option.splits)

text \<open>An entry is written, or removed when nothing is left in it.\<close>

definition staker_written :: "lp \<Rightarrow> lp \<Rightarrow> addr \<Rightarrow> addr \<Rightarrow> reward_info \<Rightarrow> bool" where
  "staker_written l l' s t i \<longleftrightarrow> REWARD_INFO l' = put (s, t) i (REWARD_INFO l)
     \<or> (REWARD_INFO l' = del (s, t) (REWARD_INFO l) \<and> bond_amount i = 0 \<and> withdrawable_amount i = 0)"

lemma staker_sums:
  assumes wf: "wf_store (REWARD_INFO l)" and w: "staker_written l l' s t i"
  shows "bonded l' u + (if u = t then bond_amount (info_of l s t) else 0)
      = bonded l u + (if u = t then bond_amount i else 0)"
    and "withdrawable l' u + (if u = t then withdrawable_amount (info_of l s t) else 0)
      = withdrawable l u + (if u = t then withdrawable_amount i else 0)"
    and "wf_store (REWARD_INFO l')" and "k \<noteq> (s, t) \<Longrightarrow> get (REWARD_INFO l') k = get (REWARD_INFO l) k"
    and "bond_amount (info_of l' s t) = bond_amount i"
    and "withdrawable_amount (info_of l' s t) = withdrawable_amount i"
  using w unfolding staker_written_def
  by (elim disjE, use staker_sums_put [OF wf, of l' s t i u] staker_sums_del [OF wf, of l' s t u]
    in \<open>auto simp: wf store_simps info_of_def [of l'] default_reward_info_def get_put [OF wf]\<close>)+

text \<open>One staker on one token: what a change of the entry, the orders and the pool has to satisfy.\<close>

lemma lp_inv_change:
  assumes inv: "lp_inv l" and p: "get (POOLS l) t = Some p"
    and pools: "POOLS l' = put t p' (POOLS l)" "weight p' = weight p" "CONFIG l' = CONFIG l"
    and wf: "wf_store (REWARD_INFO l')" "wf_store (UNBOND_ORDERS l')" "wf_store (STAKER_BY_TOKEN_INDEXER l')"
    and reward: "\<And>k. k \<noteq> (s, t) \<Longrightarrow> get (REWARD_INFO l') k = get (REWARD_INFO l) k"
    and index: "\<And>k. get (STAKER_BY_TOKEN_INDEXER l') k \<noteq> None \<longleftrightarrow>
      (if k = (t, s) then get (REWARD_INFO l') (s, t) \<noteq> None else get (STAKER_BY_TOKEN_INDEXER l) k \<noteq> None)"
    and orders: "\<And>s' t' k. (s', t') \<noteq> (s, t) \<Longrightarrow> get (UNBOND_ORDERS l') (s', t', k) = get (UNBOND_ORDERS l) (s', t', k)"
      "\<And>k. get (UNBOND_ORDERS l') (s, t, k) \<noteq> None \<Longrightarrow> get (REWARD_INFO l') (s, t) \<noteq> None"
    and sums: "bonded l' t = total_bond_amount p'" "withdrawable l' t + in_orders l' t = total_pending_withdraw p'"
      "\<And>u. u \<noteq> t \<Longrightarrow> bonded l' u = bonded l u"
      "\<And>u. u \<noteq> t \<Longrightarrow> withdrawable l' u + in_orders l' u = withdrawable l u + in_orders l u"
  shows "lp_inv l'"
proof -
  have wfp: "wf_store (POOLS l)" using inv by (simp add: lp_inv_def)
  have pool: "get (POOLS l') u = (if u = t then Some p' else get (POOLS l) u)" for u
    by (simp add: pools get_put [OF wfp])
  have "pool_weights l' = pool_weights l"
    using st.sum_save [OF wfp, of "\<lambda>k p. weight p" t p'] p pools by (simp add: pool_weights_def)
  then have "total_weight (CONFIG l') = pool_weights l'" using inv pools by (simp add: lp_inv_def)
  moreover have "get (POOLS l') t' \<noteq> None" if "get (REWARD_INFO l') (s', t') \<noteq> None" for s' t'
    using inv that reward [of "(s', t')"] unfolding lp_inv_def pool by (cases "(s', t') = (s, t)") auto
  moreover have "get (STAKER_BY_TOKEN_INDEXER l') (t', s') \<noteq> None \<longleftrightarrow> get (REWARD_INFO l') (s', t') \<noteq> None" for s' t'
    using inv index [of "(t', s')"] reward [of "(s', t')"] unfolding lp_inv_def by (cases "(s', t') = (s, t)") auto
  moreover have "get (REWARD_INFO l') (s', t') \<noteq> None" if "get (UNBOND_ORDERS l') (s', t', k) \<noteq> None" for s' t' k
  proof (cases "(s', t') = (s, t)")
    case False
    then have "get (UNBOND_ORDERS l) (s', t', k) \<noteq> None" using orders(1) that by simp
    then have "get (REWARD_INFO l) (s', t') \<noteq> None" using inv unfolding lp_inv_def by blast
    then show ?thesis using reward False by simp
  qed (use orders(2) that in simp)
  moreover have "total_bond_amount q = bonded l' u \<and> total_pending_withdraw q = withdrawable l' u + in_orders l' u"
    if "get (POOLS l') u = Some q" for u q
    using inv that sums by (cases "u = t") (auto simp: lp_inv_def pool)
  ultimately show ?thesis using wf wf_put [OF wfp, of t p'] by (simp add: lp_inv_def pools(1))
qed

lemma lp_inv_stores:
  assumes "lp_inv l"
  shows "wf_store (POOLS l)" and "wf_store (REWARD_INFO l)" and "wf_store (UNBOND_ORDERS l)"
    and "wf_store (STAKER_BY_TOKEN_INDEXER l)"
  using assms by (simp_all add: lp_inv_def)

lemma lp_inv_pool:
  assumes "lp_inv l" and "get (POOLS l) t = Some p"
  shows "total_bond_amount p = bonded l t" and "total_pending_withdraw p = withdrawable l t + in_orders l t"
  using assms unfolding lp_inv_def by blast+

context cosmwasm_std
begin

lemma pull_Ok:
  assumes "pull_expired_withdraw_orders S l s t i now period = (Inr (l', i', pend) :: ('e, _) result)"
    and wf: "wf_store (UNBOND_ORDERS l)"
  obtains w where "w = (\<Sum>(k, v)\<leftarrow>matured now period (orders_of l s t). v)"
    and "i' = i\<lparr>withdrawable_amount := withdrawable_amount i + w\<rparr>"
    and "l' = l\<lparr>UNBOND_ORDERS := fold del (map (\<lambda>(k, v). (s, t, k)) (matured now period (orders_of l s t))) (UNBOND_ORDERS l)\<rparr>"
    and "\<And>u. in_orders l' u + (if u = t then w else 0) = in_orders l u"
    and "\<And>k. \<not> pend \<Longrightarrow> get (UNBOND_ORDERS l') (s, t, k) = None"
proof -
  let ?m = "matured now period (orders_of l s t)"
  let ?ks = "map (\<lambda>(k, v). (s, t, k)) ?m"
  from assms(1) obtain w ts c where g: "get_withdrawable_amount S l s t now period = (Inr (w, ts, c) :: ('e, _) result)"
    and i': "i' = i\<lparr>withdrawable_amount := withdrawable_amount i + w\<rparr>"
    and l': "l' = remove_withdrawn l s t ts" and pend: "pend \<longleftrightarrow> length ts < c"
    by (auto simp: pull_expired_withdraw_orders_def result_simps uadd_Ok_iff)
  note g = get_withdrawable_Ok [OF g wf]
  have fold: "fold (\<lambda>k. del (s, t, k)) (map fst xs) o1 = fold del (map (\<lambda>(k, v). (s, t, k)) xs) o1"
    for xs :: "(nat, nat) store" and o1 by (induction xs arbitrary: o1) auto
  have eq: "l' = l\<lparr>UNBOND_ORDERS := fold del ?ks (UNBOND_ORDERS l)\<rparr>"
    by (simp add: l' remove_withdrawn_def g(1) fold)
  have sub: "set ?m \<subseteq> set (orders_of l s t)" by (auto simp: matured_def dest: in_set_takeD)
  have "distinct (map fst ?m)"
    unfolding matured_def
    by (intro distinct_map_filter) (simp add: take_map [symmetric] st.distinct_keys [OF wf_orders_of [OF wf]])
  then have "distinct ?ks" by (simp add: distinct_map inj_on_def case_prod_unfold)
  moreover have val: "\<forall>k\<in>set ?ks. get (UNBOND_ORDERS l) k = Some (the (get (UNBOND_ORDERS l) k))"
    using sub by (auto simp: set_orders_of [OF wf])
  ultimately have sum: "in_orders l' u + (\<Sum>k\<leftarrow>?ks. if fst (snd k) = u then the (get (UNBOND_ORDERS l) k) else 0)
      = in_orders l u" for u
    using sum_dels [OF wf, of ?ks _ "\<lambda>k v. if fst (snd k) = u then v else 0"] by (simp add: in_orders_def eq)
  have "map (\<lambda>x. the (get (UNBOND_ORDERS l) (s, t, fst x))) ?m = map snd ?m"
    using sub by (intro map_cong) (auto simp: set_orders_of [OF wf])
  then have "(\<Sum>x\<leftarrow>?m. the (get (UNBOND_ORDERS l) (s, t, fst x))) = (\<Sum>x\<leftarrow>?m. snd x)" by (rule arg_cong)
  then have "(\<Sum>k\<leftarrow>?ks. if fst (snd k) = u then the (get (UNBOND_ORDERS l) k) else 0) = (if u = t then w else 0)" for u
    by (cases "u = t") (simp_all add: o_def case_prod_unfold g(2))
  with sum have sum: "in_orders l' u + (if u = t then w else 0) = in_orders l u" for u by simp
  have "get (UNBOND_ORDERS l') (s, t, k) = None" if "\<not> pend" for k
  proof -
    have "?m = orders_of l s t" using g(3) pend that by simp
    then have "(s, t, k) \<in> set ?ks \<or> get (UNBOND_ORDERS l) (s, t, k) = None"
      using set_orders_of [OF wf, of k _ s t] by (cases "get (UNBOND_ORDERS l) (s, t, k)") force+
    then show ?thesis by (auto simp: eq get_dels)
  qed
  from that [OF g(2) i' eq sum this] show thesis .
qed

end


section \<open>Every operation keeps the books\<close>

text \<open>What the contract holds of a staking token for its stakers.\<close>

definition held :: "lp \<Rightarrow> addr \<Rightarrow> nat" where
  "held l t = (case get (POOLS l) t of None \<Rightarrow> 0 | Some p \<Rightarrow> total_bond_amount p + total_pending_withdraw p)"

lemma held_put:
  assumes "wf_store (POOLS l)" and "POOLS l' = put t p (POOLS l)"
  shows "held l' u = (if u = t then total_bond_amount p + total_pending_withdraw p else held l u)"
  using assms by (simp add: held_def get_put)

lemma held_at: "get (POOLS l) t = Some p \<Longrightarrow> held l t = total_bond_amount p + total_pending_withdraw p"
  by (simp add: held_def)

definition same_pool :: "pool_info \<Rightarrow> pool_info \<Rightarrow> bool" where
  "same_pool p q \<longleftrightarrow> weight q = weight p \<and> total_bond_amount q = total_bond_amount p
     \<and> total_pending_withdraw q = total_pending_withdraw p \<and> unbond_period q = unbond_period p"

context cosmwasm_std
begin

lemma compute_pool_reward_Ok:
  assumes "compute_pool_reward S c p now = (Inr q :: ('e, _) result)"
  shows "same_pool p q" and "last_distributed q = now" and "reward_index p \<le> reward_index q"
  using assms
  by (auto simp: compute_pool_reward_def same_pool_def Let_def result_simps cw_laws split: if_splits)

lemma compute_staker_reward_Ok:
  assumes "compute_staker_reward S p i = (Inr j :: ('e, _) result)"
  shows "bond_amount j = bond_amount i" and "withdrawable_amount j = withdrawable_amount i"
    and "staker_index j = reward_index p"
    and "staker_pending j + bond_amount i * staker_index i div DEC_ONE
      = staker_pending i + bond_amount i * reward_index p div DEC_ONE"
  using assms by (auto simp: compute_staker_reward_def result_simps cw_laws)

text \<open>
  One staker on one token: matured orders are pulled into the entry, then the entry, the pool and
  possibly a new order are written.
\<close>

lemma lp_inv_staker:
  assumes inv: "lp_inv l" and p: "get (POOLS l) t = Some p"
    and pull: "pull_expired_withdraw_orders S l s t (info_of l s t) now period = (Inr (l1, i1, pend) :: ('e, _) result)"
    and pools: "POOLS l' = put t p' (POOLS l)" "weight p' = weight p" "CONFIG l' = CONFIG l"
    and staker: "staker_written l l' s t i" "get (REWARD_INFO l') (s, t) = None \<Longrightarrow> \<not> pend \<and> extra = None"
    and index: "wf_store (STAKER_BY_TOKEN_INDEXER l')" "\<And>k. get (STAKER_BY_TOKEN_INDEXER l') k \<noteq> None \<longleftrightarrow>
      (if k = (t, s) then get (REWARD_INFO l') (s, t) \<noteq> None else get (STAKER_BY_TOKEN_INDEXER l) k \<noteq> None)"
    and orders: "UNBOND_ORDERS l' = (case extra of None \<Rightarrow> UNBOND_ORDERS l1
        | Some a \<Rightarrow> put (s, t, at_time) a (UNBOND_ORDERS l1))"
      "extra \<noteq> None \<Longrightarrow> get (UNBOND_ORDERS l1) (s, t, at_time) = None"
    and balance: "total_bond_amount p' + bond_amount (info_of l s t) = total_bond_amount p + bond_amount i"
      "total_pending_withdraw p' + withdrawable_amount i1
        = total_pending_withdraw p + withdrawable_amount i + (case extra of None \<Rightarrow> 0 | Some a \<Rightarrow> a)"
  shows "lp_inv l'"
proof -
  note wf = lp_inv_stores [OF inv] and old = lp_inv_pool [OF inv p]
  obtain w where i1: "i1 = (info_of l s t)\<lparr>withdrawable_amount := withdrawable_amount (info_of l s t) + w\<rparr>"
    and l1: "l1 = l\<lparr>UNBOND_ORDERS := fold del (map (\<lambda>(k, v). (s, t, k)) (matured now period (orders_of l s t)))
        (UNBOND_ORDERS l)\<rparr>"
    and sum: "\<And>u. in_orders l1 u + (if u = t then w else 0) = in_orders l u"
    and gone: "\<And>k. \<not> pend \<Longrightarrow> get (UNBOND_ORDERS l1) (s, t, k) = None"
    by (rule pull_Ok [OF pull wf(3)]) blast
  have wf1: "wf_store (UNBOND_ORDERS l1)" by (simp add: l1 wf store_simps)
  have in_orders: "in_orders l' u = in_orders l1 u + (if u = t then (case extra of None \<Rightarrow> 0 | Some a \<Rightarrow> a) else 0)" for u
  proof (cases extra)
    case (Some a)
    then show ?thesis
      using st.sum_save [OF wf1, of "\<lambda>k v. if fst (snd k) = u then v else 0" "(s, t, at_time)" a] orders
      by (simp add: in_orders_def)
  qed (simp add: in_orders_def orders(1))
  note sums = staker_sums [OF wf(2) staker(1)]
  show ?thesis
  proof (rule lp_inv_change [OF inv p pools sums(3) _ index(1) sums(4) index(2)])
    show "wf_store (UNBOND_ORDERS l')" using wf1 by (simp add: orders(1) store_simps split: option.split)
    show "get (UNBOND_ORDERS l') (s', t', k) = get (UNBOND_ORDERS l) (s', t', k)" if "(s', t') \<noteq> (s, t)" for s' t' k
    proof -
      have "get (UNBOND_ORDERS l1) (s', t', k) = get (UNBOND_ORDERS l) (s', t', k)"
        using that by (auto simp: l1 get_dels)
      then show ?thesis using that by (auto simp: orders(1) get_put [OF wf1] split: option.split)
    qed
    show "get (REWARD_INFO l') (s, t) \<noteq> None" if "get (UNBOND_ORDERS l') (s, t, k) \<noteq> None" for k
    proof
      assume "get (REWARD_INFO l') (s, t) = None"
      then have "\<not> pend" "extra = None" using staker(2) by auto
      then show False using that gone [of k] by (simp add: orders(1))
    qed
    show "bonded l' t = total_bond_amount p'" using sums(1) [of t] old balance by simp
    show "withdrawable l' t + in_orders l' t = total_pending_withdraw p'"
      using sums(2) [of t] sum [of t] in_orders [of t] old balance by (simp add: i1)
    show "bonded l' u = bonded l u" "withdrawable l' u + in_orders l' u = withdrawable l u + in_orders l u" if "u \<noteq> t" for u
      using that sums(1,2) [of u] sum [of u] in_orders [of u] by simp_all
  qed
qed

lemma bond_Ok:
  assumes "bond S env l t s amount given = Inr (l', r)" and inv: "lp_inv l"
    and given: "\<And>p. given = Some p \<Longrightarrow> get (POOLS l) t = Some p"
  shows "lp_inv l' \<and> CONFIG l' = CONFIG l \<and> r = []
    \<and> (\<forall>u. held l' u = held l u + (if u = t then amount else 0))
    \<and> bond_amount (info_of l' s t) = bond_amount (info_of l s t) + amount"
proof -
  note wf = lp_inv_stores [OF inv]
  from assms(1) obtain p where p: "get (POOLS l) t = Some p" by (auto simp: bond_def result_simps)
  have sel: "(case given of Some p \<Rightarrow> p | None \<Rightarrow> p) = p" using given p by (cases given) auto
  from assms(1) obtain l1 i1 pend q i2 where
    pull: "pull_expired_withdraw_orders S l s t (info_of l s t) (now_seconds S env) (unbond_period p)
        = (Inr (l1, i1, pend) :: (contract_error, _) result)"
    and q: "compute_pool_reward S (CONFIG l) p (now_seconds S env) = (Inr q :: (contract_error, _) result)"
    and i2: "compute_staker_reward S q i1 = (Inr i2 :: (contract_error, _) result)"
    and l': "l' = l1\<lparr>REWARD_INFO := put (s, t) (i2\<lparr>bond_amount := bond_amount i2 + amount\<rparr>) (REWARD_INFO l1),
           STAKER_BY_TOKEN_INDEXER := put (t, s) True (STAKER_BY_TOKEN_INDEXER l1),
           POOLS := put t (q\<lparr>total_bond_amount := total_bond_amount q + amount\<rparr>) (POOLS l1)\<rparr>" and r: "r = []"
    by (auto simp: bond_def p sel info_of_def [symmetric] result_simps uadd_Ok_iff Let_def)
  obtain l1: "l1 = l\<lparr>UNBOND_ORDERS := UNBOND_ORDERS l1\<rparr>" and i1: "bond_amount i1 = bond_amount (info_of l s t)"
    by (rule pull_Ok [OF pull wf(3)]) simp
  have same: "REWARD_INFO l1 = REWARD_INFO l" "STAKER_BY_TOKEN_INDEXER l1 = STAKER_BY_TOKEN_INDEXER l"
    "POOLS l1 = POOLS l" "CONFIG l1 = CONFIG l" by (subst l1, simp)+
  let ?i = "i2\<lparr>bond_amount := bond_amount i2 + amount\<rparr>"
  let ?q = "q\<lparr>total_bond_amount := total_bond_amount q + amount\<rparr>"
  have sp: "same_pool p q" by (rule compute_pool_reward_Ok(1) [OF q])
  note i2 = compute_staker_reward_Ok(1,2) [OF i2]
  have P: "POOLS l' = put t ?q (POOLS l)" by (simp add: l' same)
  have R: "staker_written l l' s t ?i" by (simp add: l' same staker_written_def)
  have "lp_inv l'"
    by (rule lp_inv_staker [OF inv p pull P _ _ R, where extra = None])
      (use sp i2 i1 in \<open>auto simp: l' same same_pool_def wf store_simps get_put [OF wf(2)] get_put [OF wf(4)]\<close>)
  moreover have "held l' u = held l u + (if u = t then amount else 0)" for u
    using sp by (simp add: held_put [OF wf(1) P] same_pool_def held_at [OF p])
  ultimately show ?thesis
    using staker_sums(5) [OF wf(2) R] by (simp add: r i2 i1) (simp add: l' same)
qed

text \<open>The entry after an operation on it, kept or removed.\<close>

lemma update_or_remove_written:
  assumes "lp_inv l" and "get (REWARD_INFO l) (s, t) = Some i0" and "REWARD_INFO l1 = REWARD_INFO l"
    and "STAKER_BY_TOKEN_INDEXER l1 = STAKER_BY_TOKEN_INDEXER l"
    and l': "l' = update_or_remove_staker_rewards l1 s t i pend"
  shows "staker_written l l' s t i" and "get (REWARD_INFO l') (s, t) = None \<Longrightarrow> \<not> pend"
    and "wf_store (STAKER_BY_TOKEN_INDEXER l')"
    and "get (STAKER_BY_TOKEN_INDEXER l') k \<noteq> None \<longleftrightarrow>
      (if k = (t, s) then get (REWARD_INFO l') (s, t) \<noteq> None else get (STAKER_BY_TOKEN_INDEXER l) k \<noteq> None)"
    and "POOLS l' = POOLS l1" and "CONFIG l' = CONFIG l1" and "UNBOND_ORDERS l' = UNBOND_ORDERS l1"
proof -
  note wf = lp_inv_stores [OF assms(1)]
  have "get (STAKER_BY_TOKEN_INDEXER l) (t, s) \<noteq> None" using assms(1,2) unfolding lp_inv_def by auto
  then show "get (STAKER_BY_TOKEN_INDEXER l') k \<noteq> None \<longleftrightarrow>
      (if k = (t, s) then get (REWARD_INFO l') (s, t) \<noteq> None else get (STAKER_BY_TOKEN_INDEXER l) k \<noteq> None)"
    by (auto simp: l' update_or_remove_staker_rewards_def assms(3,4) get_del get_put [OF wf(2)])
qed (auto simp: l' update_or_remove_staker_rewards_def staker_written_def assms(3,4) lp_inv_stores [OF assms(1)]
    store_simps split: if_splits)

lemma claim_unbonded_Ok:
  assumes "claim_unbonded S env l info t = Inr (l', r)" and inv: "lp_inv l"
  obtains p amount where "get (POOLS l) t = Some p" and "get (REWARD_INFO l) (sender info, t) \<noteq> None"
    and "amount = withdrawable_amount (info_of l (sender info) t)
        + (\<Sum>(k, v)\<leftarrow>matured (now_seconds S env) (unbond_period p) (orders_of l (sender info) t). v)"
    and "amount \<noteq> 0" and "r = [new_sub_msg (WasmExecute t (Cw20Transfer (sender info) amount))]"
    and "lp_inv l'" and "CONFIG l' = CONFIG l" and "\<And>u. held l' u + (if u = t then amount else 0) = held l u"
    and "UNBOND_ORDERS l' = fold del (map (\<lambda>(k, v). (sender info, t, k))
        (matured (now_seconds S env) (unbond_period p) (orders_of l (sender info) t))) (UNBOND_ORDERS l)"
    and "withdrawable_amount (info_of l' (sender info) t) = 0"
    and "bond_amount (info_of l' (sender info) t) = bond_amount (info_of l (sender info) t)"
proof -
  let ?s = "sender info"
  note wf = lp_inv_stores [OF inv]
  from assms(1) obtain p i0 where p: "get (POOLS l) t = Some p" and i0: "get (REWARD_INFO l) (?s, t) = Some i0"
    by (auto simp: claim_unbonded_def Let_def result_simps)
  have info: "info_of l ?s t = i0" by (simp add: info_of_def i0)
  from assms(1) obtain l1 i1 pend where
    pull: "pull_expired_withdraw_orders S l ?s t (info_of l ?s t) (now_seconds S env) (unbond_period p)
        = (Inr (l1, i1, pend) :: (contract_error, _) result)"
    and nz: "withdrawable_amount i1 \<noteq> 0" and le: "withdrawable_amount i1 \<le> total_pending_withdraw p"
    and l': "l' = update_or_remove_staker_rewards (l1\<lparr>POOLS := put t
        (p\<lparr>total_pending_withdraw := total_pending_withdraw p - withdrawable_amount i1\<rparr>) (POOLS l1)\<rparr>)
        ?s t (i1\<lparr>withdrawable_amount := 0\<rparr>) pend"
    and r: "r = add_messages [WasmExecute t (Cw20Transfer ?s (withdrawable_amount i1))]"
    by (auto simp: claim_unbonded_def p i0 info result_simps usub_Ok_iff Let_def split: if_splits)
  obtain l1: "l1 = l\<lparr>UNBOND_ORDERS := fold del (map (\<lambda>(k, v). (?s, t, k))
        (matured (now_seconds S env) (unbond_period p) (orders_of l ?s t))) (UNBOND_ORDERS l)\<rparr>"
    and i1: "withdrawable_amount i1 = withdrawable_amount (info_of l ?s t)
        + (\<Sum>(k, v)\<leftarrow>matured (now_seconds S env) (unbond_period p) (orders_of l ?s t). v)"
      "bond_amount i1 = bond_amount (info_of l ?s t)"
    by (rule pull_Ok [OF pull wf(3)]) simp
  let ?q = "p\<lparr>total_pending_withdraw := total_pending_withdraw p - withdrawable_amount i1\<rparr>"
  let ?l2 = "l1\<lparr>POOLS := put t ?q (POOLS l1)\<rparr>"
  note u = update_or_remove_written [OF inv i0 _ _ l']
  have w: "staker_written l l' ?s t (i1\<lparr>withdrawable_amount := 0\<rparr>)" by (rule u) (simp_all add: l1)
  have P: "POOLS l' = put t ?q (POOLS l)" using u(5) by (simp add: l1)
  have C: "CONFIG l' = CONFIG l" and O: "UNBOND_ORDERS l' = UNBOND_ORDERS l1" using u(6,7) by (simp_all add: l1)
  have "lp_inv l'"
    by (rule lp_inv_staker [OF inv p pull P _ C w, where extra = None])
      (use u(2-4) le i1 in \<open>simp_all add: l1 O\<close>)
  moreover have "held l' u + (if u = t then withdrawable_amount i1 else 0) = held l u" for u
    using le by (simp add: held_put [OF wf(1) P] held_at [OF p])
  ultimately show thesis
    by (intro that [OF p _ i1(1) nz _ _ C])
      (use i0 r O l1 i1 staker_sums(5,6) [OF wf(2) w] in \<open>simp_all add: add_messages_def\<close>)
qed

lemma unbond_run:
  assumes "unbond S env l info t amount = Inr (l', r)" and i0: "get (REWARD_INFO l) (sender info, t) = Some i0"
    and p: "get (POOLS l) t = Some p"
  obtains l1 i1 pend q i2 a where
    "pull_expired_withdraw_orders S l (sender info) t i0 (now_seconds S env) (unbond_period p)
        = (Inr (l1, i1, pend) :: (contract_error, _) result)"
    and "compute_pool_reward S (CONFIG l) p (now_seconds S env) = (Inr q :: (contract_error, _) result)"
    and "compute_staker_reward S q i1 = (Inr i2 :: (contract_error, _) result)"
    and "a = (case amount of Some a \<Rightarrow> a | None \<Rightarrow> bond_amount i1)" and "a \<le> bond_amount i1"
    and "a \<le> total_bond_amount q" and "a \<le> bond_amount i2"
    and "unbond_period q = 0 \<Longrightarrow> l' = update_or_remove_staker_rewards
          (l1\<lparr>POOLS := put t (q\<lparr>total_bond_amount := total_bond_amount q - a\<rparr>) (POOLS l1)\<rparr>)
          (sender info) t (i2\<lparr>bond_amount := bond_amount i2 - a\<rparr>) pend
        \<and> r = add_messages [WasmExecute t (Cw20Transfer (sender info) a)]"
    and "unbond_period q \<noteq> 0 \<Longrightarrow> get (UNBOND_ORDERS l1) (sender info, t, now_seconds S env) = None
        \<and> l' = update_or_remove_staker_rewards
          (l1\<lparr>UNBOND_ORDERS := put (sender info, t, now_seconds S env) a (UNBOND_ORDERS l1),
             POOLS := put t (q\<lparr>total_bond_amount := total_bond_amount q - a,
               total_pending_withdraw := total_pending_withdraw q + a\<rparr>) (POOLS l1)\<rparr>)
          (sender info) t (i2\<lparr>bond_amount := bond_amount i2 - a\<rparr>) True
        \<and> r = []"
proof -
  let ?s = "sender info"
  from assms(1) obtain l1 i1 pend q i2 a where
    run: "pull_expired_withdraw_orders S l ?s t i0 (now_seconds S env) (unbond_period p)
        = (Inr (l1, i1, pend) :: (contract_error, _) result)"
      "compute_pool_reward S (CONFIG l) p (now_seconds S env) = (Inr q :: (contract_error, _) result)"
      "compute_staker_reward S q i1 = (Inr i2 :: (contract_error, _) result)"
    and a: "(case amount of Some a \<Rightarrow> if bond_amount i1 < a then Fail InvalidUnbondAmount else Ok a
        | None \<Rightarrow> Ok (bond_amount i1)) = Inr a"
      "a \<le> total_bond_amount q" "a \<le> bond_amount i2"
    and res: "(if unbond_period q = 0 then
         Ok (update_or_remove_staker_rewards
              (l1\<lparr>POOLS := put t (q\<lparr>total_bond_amount := total_bond_amount q - a\<rparr>) (POOLS l1)\<rparr>)
              ?s t (i2\<lparr>bond_amount := bond_amount i2 - a\<rparr>) pend,
           add_messages [WasmExecute t (Cw20Transfer ?s a)])
       else if get (UNBOND_ORDERS l1) (?s, t, now_seconds S env) \<noteq> None then Fail UnbondOrderOverwrite
       else
         andThen (uadd S (total_pending_withdraw q) a) (\<lambda>pending.
         andThen (plus_seconds S (block_time env) (unbond_period q)) (\<lambda>_.
         Ok (update_or_remove_staker_rewards
              (l1\<lparr>UNBOND_ORDERS := put (?s, t, now_seconds S env) a (UNBOND_ORDERS l1),
                POOLS := put t (q\<lparr>total_bond_amount := total_bond_amount q - a,
                  total_pending_withdraw := pending\<rparr>) (POOLS l1)\<rparr>)
              ?s t (i2\<lparr>bond_amount := bond_amount i2 - a\<rparr>) True, [])))) = Inr (l', r)"
    unfolding unbond_def Let_def i0 p or_err.simps andThen.simps
    apply (elim andThen_OkE)
    apply (clarsimp simp del: not_None_eq)
    apply (simp split: if_split_asm del: not_None_eq)
    apply (elim andThen_OkE)
    apply (clarsimp simp: usub_Ok_iff simp del: not_None_eq)
    apply (rule that)
    apply (assumption | rule refl | simp cong: if_cong del: not_None_eq)+
    done
  have "a = (case amount of Some a \<Rightarrow> a | None \<Rightarrow> bond_amount i1)" "a \<le> bond_amount i1"
    using a(1) by (auto split: option.splits if_splits)
  from that [OF run this a(2,3)] res show thesis
    by (cases "unbond_period q = 0") (auto simp: result_simps uadd_Ok_iff split: if_splits)
qed

lemma unbond_Ok:
  assumes "unbond S env l info t amount = Inr (l', r)" and inv: "lp_inv l"
  obtains p a where "get (POOLS l) t = Some p" and "a = (case amount of Some a \<Rightarrow> a | None \<Rightarrow> bond_amount (info_of l (sender info) t))"
    and "bond_amount (info_of l' (sender info) t) + a = bond_amount (info_of l (sender info) t)"
    and "lp_inv l'" and "CONFIG l' = CONFIG l"
    and "unbond_period p = 0 \<Longrightarrow> r = [new_sub_msg (WasmExecute t (Cw20Transfer (sender info) a))]
      \<and> (\<forall>u. held l' u + (if u = t then a else 0) = held l u)"
    and "unbond_period p \<noteq> 0 \<Longrightarrow> r = [] \<and> (\<forall>u. held l' u = held l u)
      \<and> get (UNBOND_ORDERS l') (sender info, t, now_seconds S env) = Some a"
    and "\<And>k. k \<noteq> (sender info, t) \<Longrightarrow> get (REWARD_INFO l') k = get (REWARD_INFO l) k"
proof -
  let ?s = "sender info"
  note wf = lp_inv_stores [OF inv]
  from assms(1) obtain p i0 where p: "get (POOLS l) t = Some p" and i0: "get (REWARD_INFO l) (?s, t) = Some i0"
    by (auto simp: unbond_def Let_def result_simps)
  have info: "info_of l ?s t = i0" by (simp add: info_of_def i0)
  show thesis
  proof (rule unbond_run [OF assms(1) i0 p])
    fix l1 i1 pend q i2 a
    assume pull: "pull_expired_withdraw_orders S l ?s t i0 (now_seconds S env) (unbond_period p)
        = (Inr (l1, i1, pend) :: (contract_error, _) result)"
      and q: "compute_pool_reward S (CONFIG l) p (now_seconds S env) = (Inr q :: (contract_error, _) result)"
      and i2: "compute_staker_reward S q i1 = (Inr i2 :: (contract_error, _) result)"
      and a: "a = (case amount of Some a \<Rightarrow> a | None \<Rightarrow> bond_amount i1)" "a \<le> bond_amount i1" "a \<le> total_bond_amount q"
      and now: "unbond_period q = 0 \<Longrightarrow> l' = update_or_remove_staker_rewards
          (l1\<lparr>POOLS := put t (q\<lparr>total_bond_amount := total_bond_amount q - a\<rparr>) (POOLS l1)\<rparr>)
          ?s t (i2\<lparr>bond_amount := bond_amount i2 - a\<rparr>) pend \<and> r = add_messages [WasmExecute t (Cw20Transfer ?s a)]"
      and order: "unbond_period q \<noteq> 0 \<Longrightarrow> get (UNBOND_ORDERS l1) (?s, t, now_seconds S env) = None
        \<and> l' = update_or_remove_staker_rewards
          (l1\<lparr>UNBOND_ORDERS := put (?s, t, now_seconds S env) a (UNBOND_ORDERS l1),
             POOLS := put t (q\<lparr>total_bond_amount := total_bond_amount q - a,
               total_pending_withdraw := total_pending_withdraw q + a\<rparr>) (POOLS l1)\<rparr>)
          ?s t (i2\<lparr>bond_amount := bond_amount i2 - a\<rparr>) True \<and> r = []"
    note pull = pull [folded info]
    obtain l1: "l1 = l\<lparr>UNBOND_ORDERS := UNBOND_ORDERS l1\<rparr>" and i1: "bond_amount i1 = bond_amount (info_of l ?s t)"
      and wf1: "wf_store (UNBOND_ORDERS l1)"
      by (rule pull_Ok [OF pull wf(3)]) (simp add: wf store_simps)
    have same: "REWARD_INFO l1 = REWARD_INFO l" "STAKER_BY_TOKEN_INDEXER l1 = STAKER_BY_TOKEN_INDEXER l"
      "POOLS l1 = POOLS l" "CONFIG l1 = CONFIG l" by (subst l1, simp)+
    have sp: "same_pool p q" by (rule compute_pool_reward_Ok(1) [OF q])
    note j = compute_staker_reward_Ok(1,2) [OF i2]
    let ?i = "i2\<lparr>bond_amount := bond_amount i2 - a\<rparr>"
    have a': "a = (case amount of Some a \<Rightarrow> a | None \<Rightarrow> bond_amount (info_of l ?s t))" using a(1) unfolding i1 .
    show thesis
    proof (cases "unbond_period q = 0")
      case True
      let ?q = "q\<lparr>total_bond_amount := total_bond_amount q - a\<rparr>"
      let ?l2 = "l1\<lparr>POOLS := put t ?q (POOLS l1)\<rparr>"
      have l': "l' = update_or_remove_staker_rewards ?l2 ?s t ?i pend" using now [OF True] by simp
      note u = update_or_remove_written [OF inv i0 _ _ l', simplified, OF same(1,2)]
      have P: "POOLS l' = put t ?q (POOLS l)" and C: "CONFIG l' = CONFIG l" using u(5,6) by (simp_all add: same)
      have "lp_inv l'"
        by (rule lp_inv_staker [OF inv p pull P _ C u(1), where extra = None])
          (use u(2-4,7) a i1 j sp in \<open>auto simp: same_pool_def\<close>)
      moreover have "\<forall>u. held l' u + (if u = t then a else 0) = held l u"
        using sp a by (simp add: held_put [OF wf(1) P] same_pool_def held_at [OF p])
      ultimately show thesis
        by (intro that [OF p a' _ _ C])
          (use now [OF True] True sp staker_sums(4,5) [OF wf(2) u(1)] a i1 j in \<open>simp_all add: same_pool_def add_messages_def\<close>)
    next
      case False
      let ?q = "q\<lparr>total_bond_amount := total_bond_amount q - a, total_pending_withdraw := total_pending_withdraw q + a\<rparr>"
      let ?l2 = "l1\<lparr>UNBOND_ORDERS := put (?s, t, now_seconds S env) a (UNBOND_ORDERS l1), POOLS := put t ?q (POOLS l1)\<rparr>"
      have l': "l' = update_or_remove_staker_rewards ?l2 ?s t ?i True"
        and fresh: "get (UNBOND_ORDERS l1) (?s, t, now_seconds S env) = None" using order [OF False] by simp_all
      note u = update_or_remove_written [OF inv i0 _ _ l', simplified, OF same(1,2)]
      have P: "POOLS l' = put t ?q (POOLS l)" and C: "CONFIG l' = CONFIG l" using u(5,6) by (simp_all add: same)
      have "lp_inv l'"
        by (rule lp_inv_staker [OF inv p pull P _ C u(1), where extra = "Some a" and at_time = "now_seconds S env"])
          (use u(2-4,7) a i1 j sp fresh in \<open>auto simp: same_pool_def\<close>)
      moreover have "\<forall>u. held l' u = held l u"
        using sp a by (simp add: held_put [OF wf(1) P] same_pool_def held_at [OF p])
      ultimately show thesis
        by (intro that [OF p a' _ _ C])
          (use order [OF False] False sp staker_sums(4,5) [OF wf(2) u(1)] u(7) a i1 j
            in \<open>simp_all add: same_pool_def get_put [OF wf1]\<close>)
    qed
  qed
qed

text \<open>Claiming rewards.\<close>

lemma claim_step_Ok:
  assumes "claim_step S c now s (t, ri) (l, n) = Inr (l', n')" and inv: "lp_inv l"
    and ri: "get (REWARD_INFO l) (s, t) = Some ri"
  obtains l1 i1 pend p q i2 where "get (POOLS l) t = Some p"
    and "pull_expired_withdraw_orders S l s t ri now (unbond_period p) = (Inr (l1, i1, pend) :: (contract_error, _) result)"
    and "compute_pool_reward S c p now = (Inr q :: (contract_error, _) result)"
    and "compute_staker_reward S q i1 = (Inr i2 :: (contract_error, _) result)"
    and "n' = n + staker_pending i2"
    and "lp_inv l'" and "CONFIG l' = CONFIG l" and "\<And>u. held l' u = held l u"
    and "\<And>u. u \<noteq> t \<Longrightarrow> get (REWARD_INFO l') (s, u) = get (REWARD_INFO l) (s, u)"
    and "\<And>u. u \<noteq> t \<Longrightarrow> get (POOLS l') u = get (POOLS l) u"
    and "\<And>u k. u \<noteq> t \<Longrightarrow> get (UNBOND_ORDERS l') (s, u, k) = get (UNBOND_ORDERS l) (s, u, k)"
proof -
  note wf = lp_inv_stores [OF inv]
  have info: "info_of l s t = ri" by (simp add: info_of_def ri)
  from assms(1) obtain p l1 i1 pend q i2 where p: "get (POOLS l) t = Some p"
    and pull: "pull_expired_withdraw_orders S l s t ri now (unbond_period p) = (Inr (l1, i1, pend) :: (contract_error, _) result)"
    and q: "compute_pool_reward S c p now = (Inr q :: (contract_error, _) result)"
    and i2: "compute_staker_reward S q i1 = (Inr i2 :: (contract_error, _) result)"
    and n': "n' = n + staker_pending i2"
    and l': "l' = (update_or_remove_staker_rewards l1 s t (i2\<lparr>staker_pending := 0\<rparr>) pend)
      \<lparr>POOLS := put t q (POOLS (update_or_remove_staker_rewards l1 s t (i2\<lparr>staker_pending := 0\<rparr>) pend))\<rparr>"
    by (auto simp: claim_step_def result_simps uadd_Ok_iff Let_def)
  obtain l1: "l1 = l\<lparr>UNBOND_ORDERS := fold del (map (\<lambda>(k, v). (s, t, k))
        (matured now (unbond_period p) (orders_of l s t))) (UNBOND_ORDERS l)\<rparr>"
    and i1: "bond_amount i1 = bond_amount (info_of l s t)"
    by (rule pull_Ok [OF pull wf(3)]) (simp add: info)
  define l2 where "l2 = update_or_remove_staker_rewards l1 s t (i2\<lparr>staker_pending := 0\<rparr>) pend"
  note u = update_or_remove_written [OF inv ri _ _ l2_def]
  have w: "staker_written l l2 s t (i2\<lparr>staker_pending := 0\<rparr>)" by (rule u) (simp_all add: l1)
  have "POOLS l2 = POOLS l" using u(5) by (simp add: l1)
  then have l': "l' = l2\<lparr>POOLS := put t q (POOLS l)\<rparr>" unfolding l' l2_def [symmetric] by simp
  have w': "staker_written l l' s t (i2\<lparr>staker_pending := 0\<rparr>)" using w by (simp add: staker_written_def l')
  have C: "CONFIG l' = CONFIG l" and P: "POOLS l' = put t q (POOLS l)" and O: "UNBOND_ORDERS l' = UNBOND_ORDERS l1"
    using u(6,7) by (simp_all add: l' l1)
  have sp: "same_pool p q" by (rule compute_pool_reward_Ok(1) [OF q])
  note j = compute_staker_reward_Ok(1,2) [OF i2]
  have "lp_inv l'"
    by (rule lp_inv_staker [OF inv p pull [folded info] P _ C w', where extra = None])
      (use u(2-4) O i1 j sp in \<open>simp_all add: same_pool_def l' l1\<close>)
  moreover have "held l' u = held l u" for u
    using sp by (simp add: held_put [OF wf(1) P] same_pool_def held_at [OF p])
  moreover have "get (REWARD_INFO l') (s, u) = get (REWARD_INFO l) (s, u)" if "u \<noteq> t" for u
    using staker_sums(4) [OF wf(2) w'] that by simp
  ultimately show thesis
    using p pull q i2 n' C
    by (intro that) (auto simp: P O l1 get_put [OF wf(1)] get_dels)
qed

lemma claim_fold_inv:
  assumes "foldM (claim_step S c now s) ris (l, n) = Inr (l', n')" and "lp_inv l"
    and "\<forall>(t, ri)\<in>set ris. get (REWARD_INFO l) (s, t) = Some ri" and "distinct (map fst ris)"
  shows "lp_inv l' \<and> CONFIG l' = CONFIG l \<and> (\<forall>u. held l' u = held l u)"
  using assms
proof (induction ris arbitrary: l n)
  case (Cons x ris)
  obtain t ri where x: "x = (t, ri)" by (cases x)
  from Cons.prems(1) obtain l1 n1 where step: "claim_step S c now s (t, ri) (l, n) = Inr (l1, n1)"
    and rest: "foldM (claim_step S c now s) ris (l1, n1) = Inr (l', n')"
    by (auto simp: x elim!: andThen_OkE)
  have here: "get (REWARD_INFO l) (s, t) = Some ri" using Cons.prems(3) by (simp add: x)
  obtain inv1: "lp_inv l1" and C: "CONFIG l1 = CONFIG l" and h: "\<And>u. held l1 u = held l u"
    and other: "\<And>u. u \<noteq> t \<Longrightarrow> get (REWARD_INFO l1) (s, u) = get (REWARD_INFO l) (s, u)"
    by (rule claim_step_Ok [OF step Cons.prems(2) here]) blast
  have "\<forall>(t, ri)\<in>set ris. get (REWARD_INFO l1) (s, t) = Some ri"
  proof safe
    fix u i assume u: "(u, i) \<in> set ris"
    then have "u \<noteq> t" using Cons.prems(4) by (force simp: x)
    then show "get (REWARD_INFO l1) (s, u) = Some i" using Cons.prems(3) u by (auto simp: other)
  qed
  from Cons.IH [OF rest inv1 this] Cons.prems(4) C h show ?case by (simp add: x)
qed simp

lemma claim_rewards_Ok:
  assumes "claim_rewards S env l info token = Inr (l', r)" and inv: "lp_inv l"
  shows "lp_inv l' \<and> CONFIG l' = CONFIG l \<and> (\<forall>u. held l' u = held l u)"
    and "\<exists>n. r = (if n = 0 then [] else [new_sub_msg (WasmExecute (prism_token (CONFIG l)) (Cw20Transfer (sender info) n))])"
proof -
  let ?s = "sender info"
  note wf = lp_inv_stores [OF inv]
  from assms(1) obtain ris n where
    ris: "(case token of Some t \<Rightarrow> andThen (or_err InvalidStakingToken (get (REWARD_INFO l) (?s, t))) (\<lambda>ri. Ok [(t, ri)])
       | None \<Rightarrow> Ok (sub_range ?s (REWARD_INFO l))) = Inr ris"
    and fold: "foldM (claim_step S (CONFIG l) (now_seconds S env) ?s) ris (l, 0) = Inr (l', n)"
    and r: "r = (if n = 0 then [] else add_messages [WasmExecute (prism_token (CONFIG l)) (Cw20Transfer ?s n)])"
    by (auto simp: claim_rewards_def Let_def elim!: andThen_OkE)
  have "(\<forall>(t, ri)\<in>set ris. get (REWARD_INFO l) (?s, t) = Some ri) \<and> distinct (map fst ris)"
    using ris st.distinct_keys [OF wf_sub_range [OF wf(2)], of ?s]
    by (auto simp: result_simps set_sub_range [OF wf(2)] split: option.splits)
  then show "lp_inv l' \<and> CONFIG l' = CONFIG l \<and> (\<forall>u. held l' u = held l u)"
    using claim_fold_inv [OF fold inv] by blast
  show "\<exists>n. r = (if n = 0 then [] else [new_sub_msg (WasmExecute (prism_token (CONFIG l)) (Cw20Transfer ?s n))])"
    using r by (auto simp: add_messages_def)
qed

end

subsection \<open>Administration\<close>

text \<open>Writing one pool with the same totals, and the total weight with it.\<close>

lemma lp_inv_pool_put:
  assumes inv: "lp_inv l" and p: "get (POOLS l) k = Some p"
    and q: "total_bond_amount q = total_bond_amount p" "total_pending_withdraw q = total_pending_withdraw p"
    and w: "total_weight c + weight p = total_weight (CONFIG l) + weight q"
  shows "lp_inv (l\<lparr>POOLS := put k q (POOLS l), CONFIG := c\<rparr>)"
    and "held (l\<lparr>POOLS := put k q (POOLS l), CONFIG := c\<rparr>) u = held l u"
proof -
  note wf = lp_inv_stores [OF inv]
  let ?l = "l\<lparr>POOLS := put k q (POOLS l), CONFIG := c\<rparr>"
  have pool: "get (POOLS ?l) u = (if u = k then Some q else get (POOLS l) u)" for u by (simp add: get_put [OF wf(1)])
  have sums: "bonded ?l = bonded l" "withdrawable ?l = withdrawable l" "in_orders ?l = in_orders l"
    by (simp_all add: fun_eq_iff bonded_def withdrawable_def in_orders_def)
  have "pool_weights ?l + weight p = pool_weights l + weight q"
    using st.sum_save [OF wf(1), of "\<lambda>k p. weight p" k q] p by (simp add: pool_weights_def)
  then have "total_weight (CONFIG ?l) = pool_weights ?l" using w inv by (simp add: lp_inv_def)
  then show "lp_inv ?l"
    using inv p q unfolding lp_inv_def sums pool by (auto simp: wf_put)
  show "held ?l u = held l u" using p q by (simp add: held_def get_put [OF wf(1)])
qed

lemma lp_inv_new_pool:
  assumes inv: "lp_inv l" and new: "get (POOLS l) k = None"
    and q: "total_bond_amount q = 0" "total_pending_withdraw q = 0"
    and w: "total_weight c = total_weight (CONFIG l) + weight q"
  shows "lp_inv (l\<lparr>POOLS := put k q (POOLS l), CONFIG := c\<rparr>)"
    and "held (l\<lparr>POOLS := put k q (POOLS l), CONFIG := c\<rparr>) u = held l u"
proof -
  note wf = lp_inv_stores [OF inv]
  let ?l = "l\<lparr>POOLS := put k q (POOLS l), CONFIG := c\<rparr>"
  have pool: "get (POOLS ?l) u = (if u = k then Some q else get (POOLS l) u)" for u by (simp add: get_put [OF wf(1)])
  have no_reward: "get (REWARD_INFO l) (s, k) = None" for s using inv new unfolding lp_inv_def by blast
  have no_order: "get (UNBOND_ORDERS l) (s, k, n) = None" for s n using inv no_reward unfolding lp_inv_def by blast
  have "\<forall>(j, i)\<in>set (REWARD_INFO l). snd j \<noteq> k"
    using no_reward by (auto simp: entries_get [OF wf(2)])
  then have "bonded l k = 0" "withdrawable l k = 0" by (auto simp: bonded_def withdrawable_def)
  moreover have "\<forall>(j, i)\<in>set (UNBOND_ORDERS l). fst (snd j) \<noteq> k"
    using no_order by (auto simp: entries_get [OF wf(3)])
  then have "in_orders l k = 0" by (auto simp: in_orders_def)
  moreover have sums: "bonded ?l = bonded l" "withdrawable ?l = withdrawable l" "in_orders ?l = in_orders l"
    by (simp_all add: fun_eq_iff bonded_def withdrawable_def in_orders_def)
  moreover have "pool_weights ?l = pool_weights l + weight q"
    using st.sum_save [OF wf(1), of "\<lambda>k p. weight p" k q] new by (simp add: pool_weights_def)
  ultimately show "lp_inv ?l"
    using inv q w unfolding lp_inv_def sums pool by (auto simp: wf_put)
  show "held ?l u = held l u" using new q by (simp add: held_def get_put [OF wf(1)])
qed

context cosmwasm_std
begin

lemma register_fold_Ok:
  assumes "foldM (\<lambda>(k, p) l. if k = t then Fail AlreadyExists
        else andThen (compute_pool_reward S c p now) (\<lambda>p. Ok (l\<lparr>POOLS := put k p (POOLS l)\<rparr>))) ps l
      = (Inr l' :: (contract_error, lp) result)"
    and "lp_inv l" and "\<forall>(k, p)\<in>set ps. get (POOLS l) k = Some p" and "distinct (map fst ps)"
  shows "lp_inv l' \<and> CONFIG l' = CONFIG l \<and> (\<forall>u. held l' u = held l u) \<and> t \<notin> fst ` set ps
    \<and> (\<forall>u. get (POOLS l') u = None \<longleftrightarrow> get (POOLS l) u = None)"
  using assms
proof (induction ps arbitrary: l)
  case (Cons x ps)
  obtain k p where x: "x = (k, p)" by (cases x)
  from Cons.prems(1) obtain q where k: "k \<noteq> t" and q: "compute_pool_reward S c p now = (Inr q :: (contract_error, _) result)"
    and rest: "foldM (\<lambda>(k, p) l. if k = t then Fail AlreadyExists
        else andThen (compute_pool_reward S c p now) (\<lambda>p. Ok (l\<lparr>POOLS := put k p (POOLS l)\<rparr>))) ps
        (l\<lparr>POOLS := put k q (POOLS l)\<rparr>) = (Inr l' :: (contract_error, lp) result)"
    by (auto simp: x elim!: andThen_OkE split: if_splits)
  have here: "get (POOLS l) k = Some p" using Cons.prems(3) by (simp add: x)
  let ?l = "l\<lparr>POOLS := put k q (POOLS l)\<rparr>"
  have sp: "same_pool p q" by (rule compute_pool_reward_Ok(1) [OF q])
  have "lp_inv ?l" "\<And>u. held ?l u = held l u"
    using lp_inv_pool_put [OF Cons.prems(2) here, of q "CONFIG l"] sp by (simp_all add: same_pool_def)
  moreover have "get (POOLS ?l) u = (if u = k then Some q else get (POOLS l) u)" for u
    by (simp add: get_put [OF lp_inv_stores(1) [OF Cons.prems(2)]])
  moreover from this have "\<forall>(j, r)\<in>set ps. get (POOLS ?l) j = Some r" using Cons.prems(3,4) by (force simp: x)
  ultimately show ?case using Cons.IH [OF rest] Cons.prems(4) k here by (auto simp: x)
qed simp

lemma register_staking_token_Ok:
  assumes "register_staking_token S env l info t period w = Inr (l', r)" and inv: "lp_inv l"
  shows "lp_inv l' \<and> r = [] \<and> (\<forall>u. held l' u = held l u) \<and> sender info = owner (CONFIG l)
    \<and> prism_token (CONFIG l') = prism_token (CONFIG l)"
proof -
  let ?q = "default_pool\<lparr>last_distributed := now_seconds S env, weight := w, unbond_period := period\<rparr>"
  let ?c = "(CONFIG l)\<lparr>total_weight := total_weight (CONFIG l) + w\<rparr>"
  note wf = lp_inv_stores [OF inv]
  from assms(1) obtain l1 where own: "sender info = owner (CONFIG l)"
    and fold: "foldM (\<lambda>(k, p) l1. if k = t then Fail AlreadyExists
        else andThen (compute_pool_reward S (CONFIG l) p (now_seconds S env)) (\<lambda>p.
          Ok (l1\<lparr>POOLS := put k p (POOLS l1)\<rparr>))) (POOLS l) l = (Inr l1 :: (contract_error, lp) result)"
    and l': "l' = l1\<lparr>POOLS := put t ?q (POOLS l1), CONFIG := ?c\<rparr>" "r = []"
    by (auto simp: register_staking_token_def Let_def u64_add_Ok_iff elim!: andThen_OkE split: if_splits)
  have "\<forall>(k, p)\<in>set (POOLS l). get (POOLS l) k = Some p" by (auto simp: entries_get [OF wf(1)])
  note f = register_fold_Ok [OF fold inv this st.distinct_keys [OF wf(1)]]
  then have "get (POOLS l) t = None" by (metis entries_get [OF wf(1)] image_eqI fst_conv not_Some_eq)
  then have "get (POOLS l1) t = None" using f by simp
  then show ?thesis
    using lp_inv_new_pool [of l1 t ?q ?c] f own by (simp add: l' default_pool_def)
qed

lemma update_pool_step_Ok:
  assumes "update_pool_step S now t w (k, p) (c, l, found) = Inr (c1, l1, f1)"
  shows "\<exists>q q'. compute_pool_reward S c p now = (Inr q :: (contract_error, _) result)
    \<and> (if k = t then weight q \<le> total_weight c \<and> c1 = c\<lparr>total_weight := total_weight c - weight q + w\<rparr> \<and> q' = q\<lparr>weight := w\<rparr>
       else c1 = c \<and> q' = q)
    \<and> l1 = l\<lparr>POOLS := put k q' (POOLS l)\<rparr>"
  using assms
  by (auto simp: update_pool_step_def u64_sub_Ok_iff u64_add_Ok_iff elim!: andThen_OkE split: if_splits)

lemma update_fold_Ok:
  assumes "foldM (update_pool_step S now t w) ps (c, l, found) = Inr (c', l', found')"
    and "lp_inv (l\<lparr>CONFIG := c\<rparr>)" and "\<forall>(k, p)\<in>set ps. get (POOLS l) k = Some p" and "distinct (map fst ps)"
  shows "lp_inv (l'\<lparr>CONFIG := c'\<rparr>) \<and> (\<forall>u. held l' u = held l u) \<and> owner c' = owner c \<and> prism_token c' = prism_token c
    \<and> distribution_schedule c' = distribution_schedule c"
  using assms
proof (induction ps arbitrary: c l found)
  case (Cons x ps)
  obtain k p where x: "x = (k, p)" by (cases x)
  from Cons.prems(1) obtain c1 l1 f1 where step: "update_pool_step S now t w (k, p) (c, l, found) = Inr (c1, l1, f1)"
    and rest: "foldM (update_pool_step S now t w) ps (c1, l1, f1) = Inr (c', l', found')"
    by (auto simp: x elim!: andThen_OkE)
  from update_pool_step_Ok [OF step] obtain q q' where q: "compute_pool_reward S c p now = (Inr q :: (contract_error, _) result)"
    and c1: "if k = t then weight q \<le> total_weight c \<and> c1 = c\<lparr>total_weight := total_weight c - weight q + w\<rparr> \<and> q' = q\<lparr>weight := w\<rparr>
        else c1 = c \<and> q' = q"
    and l1: "l1 = l\<lparr>POOLS := put k q' (POOLS l)\<rparr>" by auto
  note rest = rest [unfolded l1]
  have here: "get (POOLS l) k = Some p" using Cons.prems(3) by (simp add: x)
  let ?l = "l\<lparr>POOLS := put k q' (POOLS l)\<rparr>"
  have sp: "same_pool p q" by (rule compute_pool_reward_Ok(1) [OF q])
  have wf: "wf_store (POOLS l)" using lp_inv_stores(1) [OF Cons.prems(2)] by simp
  have "total_weight c1 + weight p = total_weight c + weight q'" using c1 sp by (auto simp: same_pool_def split: if_splits)
  moreover have "total_bond_amount q' = total_bond_amount p" "total_pending_withdraw q' = total_pending_withdraw p"
    using c1 sp by (auto simp: same_pool_def split: if_splits)
  ultimately have "lp_inv (?l\<lparr>CONFIG := c1\<rparr>)" and h: "\<And>u. held ?l u = held l u"
    using lp_inv_pool_put [OF Cons.prems(2), of k p q' c1] here by (simp_all add: held_def)
  moreover have "\<forall>(j, r)\<in>set ps. get (POOLS ?l) j = Some r"
    using Cons.prems(3,4) by (force simp: x get_put [OF wf])
  ultimately show ?case
    using Cons.IH [OF rest] Cons.prems(4) c1 by (auto simp: x split: if_splits)
qed simp

lemma update_staking_token_Ok:
  assumes "update_staking_token S env l info t period w = Inr (l', r)" and inv: "lp_inv l"
  shows "lp_inv l' \<and> r = [] \<and> (\<forall>u. held l' u = held l u) \<and> sender info = owner (CONFIG l)
    \<and> prism_token (CONFIG l') = prism_token (CONFIG l)"
proof -
  from assms(1) obtain l1 where own: "sender info = owner (CONFIG l)"
    and l1: "(case w of None \<Rightarrow> Ok l | Some new_weight \<Rightarrow>
        andThen (foldM (update_pool_step S (now_seconds S env) t new_weight) (POOLS l) (CONFIG l, l, False))
          (\<lambda>(config, l, pool_found). if \<not> pool_found then Fail InvalidStakingToken else Ok (l\<lparr>CONFIG := config\<rparr>)))
        = Inr l1"
    and l': "(case period of None \<Rightarrow> Ok l1 | Some n \<Rightarrow> andThen (or_err InvalidStakingToken (get (POOLS l1) t)) (\<lambda>pool.
        Ok (l1\<lparr>POOLS := put t (pool\<lparr>unbond_period := n\<rparr>) (POOLS l1)\<rparr>))) = Inr l'" and r: "r = []"
    by (auto simp: update_staking_token_def Let_def elim!: andThen_OkE split: if_splits)
  have "lp_inv l1 \<and> (\<forall>u. held l1 u = held l u) \<and> prism_token (CONFIG l1) = prism_token (CONFIG l)"
  proof (cases w)
    case (Some n)
    with l1 obtain c l2 f where fold: "foldM (update_pool_step S (now_seconds S env) t n) (POOLS l) (CONFIG l, l, False)
        = Inr (c, l2, f)" and l1: "l1 = l2\<lparr>CONFIG := c\<rparr>"
      by (auto elim!: andThen_OkE split: if_splits)
    have "\<forall>(k, p)\<in>set (POOLS l). get (POOLS l) k = Some p" by (auto simp: entries_get [OF lp_inv_stores(1) [OF inv]])
    with update_fold_Ok [OF fold _ this st.distinct_keys [OF lp_inv_stores(1) [OF inv]]] inv show ?thesis
      by (simp add: l1 held_def)
  qed (use l1 inv in simp)
  moreover have "lp_inv l' \<and> (\<forall>u. held l' u = held l1 u) \<and> CONFIG l' = CONFIG l1" if i: "lp_inv l1"
  proof (cases period)
    case (Some n)
    with l' obtain p where p: "get (POOLS l1) t = Some p" and l': "l' = l1\<lparr>POOLS := put t (p\<lparr>unbond_period := n\<rparr>) (POOLS l1)\<rparr>"
      by (auto simp: result_simps)
    show ?thesis using lp_inv_pool_put [OF i p, of "p\<lparr>unbond_period := n\<rparr>" "CONFIG l1"] by (simp add: l')
  qed (use l' i in simp)
  ultimately show ?thesis using own r by auto
qed

end

end
