(* ===== verification/Lp_Properties.thy ===== *)
theory Lp_Properties
  imports Lp_Accounting
begin

text \<open>
  The properties of the staking contract: its books over every reachable state, the custody of the
  staking tokens, what a claim pays, and how rewards are distributed and shared.
\<close>


section \<open>Instantiation\<close>

text \<open>
  The validated address of a name is the name itself, which is what \<open>addr_validate\<close> of the crate
  answers for a good address.
\<close>

definition api_faithful :: "deps \<Rightarrow> bool" where
  "api_faithful D \<longleftrightarrow> (\<forall>a b. api_addr_validate D a = Inr b \<longrightarrow> b = a)"

lemma addr_validate_Ok: "api_faithful D \<Longrightarrow> addr_validate D a = Inr b \<Longrightarrow> b = a"
  by (auto simp: api_faithful_def addr_validate_def from_answer_Ok_iff)

lemma dedup_names_hd: "xs \<noteq> [] \<Longrightarrow> dedup_names xs \<noteq> [] \<and> hd (dedup_names xs) = hd xs"
  by (induction xs rule: dedup_names.induct) auto

lemma set_dedup_names: "set (dedup_names xs) \<subseteq> set xs"
  by (induction xs rule: dedup_names.induct) auto

lemma dedup_names_distinct: "sorted (map fst xs) \<Longrightarrow> distinct (map fst (dedup_names xs))"
proof (induction xs rule: dedup_names.induct)
  case (1 a b xs)
  then show ?case
  proof (cases "fst a = fst b")
    case False
    with 1 have "fst a < fst b" by auto
    then have "\<forall>x\<in>set (b # xs). fst a < fst x" using 1(3) by force
    then have "\<forall>x\<in>set (dedup_names (b # xs)). fst a < fst x" using set_dedup_names by blast
    then have "fst a \<notin> fst ` set (dedup_names (b # xs))" by force
    moreover have "distinct (map fst (dedup_names (b # xs)))" using 1(2) [OF False] 1(3) by simp
    ultimately show ?thesis using False by simp
  qed auto
qed auto

lemma sorted_fst: "sorted (xs :: ('a::linorder \<times> 'b::linorder) list) \<Longrightarrow> sorted (map fst xs)"
  by (induction xs) (auto simp: less_eq_prod_def order.strict_iff_order)

lemma weight_fold_Ok:
  assumes "foldM (\<lambda>t w. u64_add w (fst (snd t))) ts w = (Inr w' :: ('e, nat) result)"
  shows "w' = w + (\<Sum>t\<leftarrow>ts. fst (snd t))"
  using assms
proof (induction ts arbitrary: w)
  case (Cons t ts)
  then have "foldM (\<lambda>t w. u64_add w (fst (snd t))) ts (w + fst (snd t)) = (Inr w' :: ('e, nat) result)"
    by (auto simp: u64_add_Ok_iff elim!: andThen_OkE)
  from Cons.IH [OF this] show ?case by simp
qed simp

lemma pools_fold_Ok:
  assumes "foldM (\<lambda>(t, w, period) pools. andThen (map_err Std (addr_validate D t)) (\<lambda>a.
      Ok (put a (default_pool\<lparr>last_distributed := now, weight := w, unbond_period := period\<rparr>) pools))) ts pools
      = (Inr pools' :: (contract_error, _) result)"
    and "api_faithful D" and "distinct (map fst ts)" and "\<forall>x\<in>set ts. get pools (fst x) = None" and "wf_store pools"
    and "\<forall>k p. get pools k = Some p \<longrightarrow> total_bond_amount p = 0 \<and> total_pending_withdraw p = 0"
  shows "wf_store pools' \<and> (\<Sum>(k, p)\<leftarrow>pools'. weight p) = (\<Sum>(k, p)\<leftarrow>pools. weight p) + (\<Sum>t\<leftarrow>ts. fst (snd t))
    \<and> (\<forall>k p. get pools' k = Some p \<longrightarrow> total_bond_amount p = 0 \<and> total_pending_withdraw p = 0)"
  using assms
proof (induction ts arbitrary: pools)
  case (Cons x ts)
  obtain t w period where x: "x = (t, w, period)" by (cases x)
  let ?p = "default_pool\<lparr>last_distributed := now, weight := w, unbond_period := period\<rparr>"
  from Cons.prems(1) obtain a where a: "addr_validate D t = Inr a"
    and rest: "foldM (\<lambda>(t, w, period) pools. andThen (map_err Std (addr_validate D t)) (\<lambda>a.
      Ok (put a (default_pool\<lparr>last_distributed := now, weight := w, unbond_period := period\<rparr>) pools))) ts
      (put a ?p pools) = (Inr pools' :: (contract_error, _) result)"
    by (auto simp: x map_err_Ok_iff elim!: andThen_OkE)
  have at: "a = t" by (rule addr_validate_Ok [OF Cons.prems(2) a])
  have new: "get pools t = None" using Cons.prems(4) by (simp add: x)
  have g: "get (put a ?p pools) j = (if j = t then Some ?p else get pools j)" for j
    by (simp add: at get_put [OF Cons.prems(5)])
  have "(\<Sum>(k, p)\<leftarrow>put a ?p pools. weight p) = (\<Sum>(k, p)\<leftarrow>pools. weight p) + w"
    using st.sum_save [OF Cons.prems(5), of "\<lambda>k p. weight p" t ?p] new by (simp add: at)
  moreover note Cons.IH [OF rest Cons.prems(2)]
  moreover have "\<forall>x\<in>set ts. get (put a ?p pools) (fst x) = None" using Cons.prems(3,4) by (auto simp: g x)
  moreover have "\<forall>k p. get (put a ?p pools) k = Some p \<longrightarrow> total_bond_amount p = 0 \<and> total_pending_withdraw p = 0"
    using Cons.prems(6) unfolding g by (simp add: default_pool_def)
  ultimately show ?case using Cons.prems(3,5) by (simp add: x wf_put)
qed simp

lemma instantiate_lp_inv:
  assumes "instantiate_lp S D env msg = Inr (l, r)" and "api_faithful D"
  shows "lp_inv l \<and> r = []"
proof -
  let ?ts = "dedup_names (sort (im_staking_tokens msg))"
  from assms(1) obtain ow prism tw pools where tw: "foldM (\<lambda>t w. u64_add w (fst (snd t))) ?ts 0 = (Inr tw :: (contract_error, nat) result)"
    and pools: "foldM (\<lambda>(t, w, period) pools. andThen (map_err Std (addr_validate D t)) (\<lambda>a.
      Ok (put a (default_pool\<lparr>last_distributed := now_seconds S env, weight := w, unbond_period := period\<rparr>) pools))) ?ts []
      = (Inr pools :: (contract_error, _) result)"
    and l: "l = \<lparr>CONFIG = \<lparr>owner = ow, prism_token = prism,
                 distribution_schedule = im_distribution_schedule msg, total_weight = tw\<rparr>,
               POOLS = pools, REWARD_INFO = [], UNBOND_ORDERS = [], STAKER_BY_TOKEN_INDEXER = []\<rparr>" "r = []"
    by (auto simp: instantiate_lp_def Let_def elim!: andThen_OkE split: if_splits)
  have "distinct (map fst ?ts)" by (intro dedup_names_distinct sorted_fst) simp
  from pools_fold_Ok [OF pools assms(2) this] weight_fold_Ok [OF tw] show ?thesis
    by (auto simp: l lp_inv_def pool_weights_def bonded_def withdrawable_def in_orders_def)
qed


section \<open>The contract as a state machine\<close>

text \<open>The staking tokens that reach the contract with a call: only the token itself sends \<open>Receive\<close>.\<close>

definition lp_inflow :: "addr \<Rightarrow> message_info \<Rightarrow> execute_msg \<Rightarrow> nat" where
  "lp_inflow t info m = (case m of Receive c \<Rightarrow> if sender info = t then cw20_amount c else 0 | _ \<Rightarrow> 0)"

lemma lp_inv_config:
  assumes "lp_inv l" and "total_weight c = total_weight (CONFIG l)"
  shows "lp_inv (l\<lparr>CONFIG := c\<rparr>)" and "held (l\<lparr>CONFIG := c\<rparr>) u = held l u"
proof -
  have "bonded (l\<lparr>CONFIG := c\<rparr>) = bonded l" "withdrawable (l\<lparr>CONFIG := c\<rparr>) = withdrawable l"
    "in_orders (l\<lparr>CONFIG := c\<rparr>) = in_orders l" "pool_weights (l\<lparr>CONFIG := c\<rparr>) = pool_weights l"
    by (auto simp: bonded_def withdrawable_def in_orders_def pool_weights_def)
  with assms show "lp_inv (l\<lparr>CONFIG := c\<rparr>)" unfolding lp_inv_def by simp
qed (simp add: held_def)

lemma update_owner_Ok:
  assumes "update_owner l info a = Inr (l', r)" and inv: "lp_inv l"
  shows "lp_inv l' \<and> (\<forall>u. held l' u = held l u) \<and> r = [] \<and> sender info = owner (CONFIG l)
    \<and> prism_token (CONFIG l') = prism_token (CONFIG l)"
  using assms(1) lp_inv_config [OF inv, of "(CONFIG l)\<lparr>owner := a\<rparr>"]
  by (auto simp: update_owner_def Let_def split: if_splits)

lemma add_distribution_schedule_Ok:
  assumes "add_distribution_schedule S env l info sched = Inr (l', r)" and inv: "lp_inv l"
  shows "lp_inv l' \<and> (\<forall>u. held l' u = held l u) \<and> r = [] \<and> sender info = owner (CONFIG l)
    \<and> prism_token (CONFIG l') = prism_token (CONFIG l)"
  using assms(1) lp_inv_config [OF inv, of "(CONFIG l)\<lparr>distribution_schedule := distribution_schedule (CONFIG l) @ sched\<rparr>"]
  by (auto simp: add_distribution_schedule_def Let_def split: if_splits)

lemma validate_opt_Ok: "validate_opt D a = Inr b \<Longrightarrow> api_faithful D \<Longrightarrow> b = a"
  by (auto simp: validate_opt_def unwrap_Ok_iff addr_validate_Ok elim!: andThen_OkE split: option.splits)

context cosmwasm_std
begin

lemma auto_stake_hook_Ok:
  assumes "auto_stake_hook S D env l t s = Inr (l', r)" and inv: "lp_inv l"
  obtains b where "query_token_balance D t (contract_address env) = Inr b" and "get (POOLS l) t \<noteq> None"
    and "held l t \<le> b" and "lp_inv l'" and "r = []" and "CONFIG l' = CONFIG l"
    and "\<And>u. held l' u = (if u = t then b else held l u)"
    and "bond_amount (info_of l' s t) = bond_amount (info_of l s t) + (b - held l t)"
proof -
  from assms(1) obtain b p where b: "query_token_balance D t (contract_address env) = Inr b"
    and p: "get (POOLS l) t = Some p" and le: "total_bond_amount p + total_pending_withdraw p \<le> b"
    and run: "bond S env l t s (b - total_bond_amount p - total_pending_withdraw p) (Some p) = Inr (l', r)"
    by (auto simp: auto_stake_hook_def result_simps usub_Ok_iff le_diff_conv2 add.commute)
  have h: "held l t = total_bond_amount p + total_pending_withdraw p" by (rule held_at [OF p])
  from bond_Ok [OF run inv] p le h show thesis by (intro that [OF b]) (auto simp: diff_diff_add)
qed

text \<open>Every message keeps the books, and \<open>held\<close> follows the tokens in and out.\<close>

lemma receive_lp_Ok:
  assumes "receive_cw20 S D fb env l info c = Inr (l', r)" and inv: "lp_inv l"
  shows "lp_inv l' \<and> r = [] \<and> CONFIG l' = CONFIG l
    \<and> (\<forall>u. held l' u = held l u + (if u = sender info then cw20_amount c else 0))"
proof -
  from assms(1) obtain a where "bond S env l (sender info) a (cw20_amount c) None = Inr (l', r)"
    by (auto simp: receive_cw20_def elim!: andThen_OkE split: sum.splits cw20_hook_msg.splits)
  from bond_Ok [OF this inv] show ?thesis by simp
qed

lemma lp_execute_inv:
  assumes run: "execute S D fb env l info m = Inr (l', r)" and inv: "lp_inv l"
  shows "lp_inv l'"
proof (cases m)
  case (Unbond t a)
  with run obtain b where "unbond S env l info b a = Inr (l', r)" by (auto elim!: andThen_OkE)
  from unbond_Ok [OF this inv] show ?thesis by blast
next
  case (ClaimUnbonded t)
  with run obtain b where "claim_unbonded S env l info b = Inr (l', r)" by (auto elim!: andThen_OkE)
  from claim_unbonded_Ok [OF this inv] show ?thesis by blast
next
  case (AutoStakeHook t)
  with run obtain b where "auto_stake_hook S D env l b (sender info) = Inr (l', r)" by (auto elim!: andThen_OkE)
  from auto_stake_hook_Ok [OF this inv] show ?thesis by blast
qed (use run inv in \<open>auto elim!: andThen_OkE dest: receive_lp_Ok update_owner_Ok add_distribution_schedule_Ok
    register_staking_token_Ok update_staking_token_Ok claim_rewards_Ok(1)\<close>)

lemma lp_execute_held:
  assumes run: "execute S D fb env l info m = Inr (l', r)" and inv: "lp_inv l"
    and hook: "\<And>t. m \<noteq> AutoStakeHook t" and u: "u \<noteq> prism_token (CONFIG l)"
  shows "held l' u + outflow u r = held l u + lp_inflow u info m"
proof (cases m)
  case (Unbond t a)
  with run obtain b where b: "unbond S env l info b a = Inr (l', r)" by (auto elim!: andThen_OkE)
  show ?thesis
  proof (rule unbond_Ok [OF b inv])
    fix p :: pool_info and a'
    assume z: "unbond_period p = 0 \<Longrightarrow> r = [new_sub_msg (WasmExecute b (Cw20Transfer (sender info) a'))]
        \<and> (\<forall>u. held l' u + (if u = b then a' else 0) = held l u)"
      and nz: "unbond_period p \<noteq> 0 \<Longrightarrow> r = [] \<and> (\<forall>u. held l' u = held l u)
        \<and> get (UNBOND_ORDERS l') (sender info, b, now_seconds S env) = Some a'"
    show ?thesis
    proof (cases "unbond_period p = 0")
      case True
      then have "held l' u + (if u = b then a' else 0) = held l u" using z by blast
      then show ?thesis using z [OF True] by (auto simp: Unbond lp_inflow_def new_sub_msg_def split: if_splits)
    qed (use nz Unbond in \<open>simp add: lp_inflow_def\<close>)
  qed
next
  case (ClaimUnbonded t)
  with run obtain b where "claim_unbonded S env l info b = Inr (l', r)" by (auto elim!: andThen_OkE)
  then show ?thesis
  proof (rule claim_unbonded_Ok [OF _ inv])
    fix p amount
    assume r: "r = [new_sub_msg (WasmExecute b (Cw20Transfer (sender info) amount))]"
      and h: "\<And>u. held l' u + (if u = b then amount else 0) = held l u"
    show ?thesis using h [of u] by (auto simp: r ClaimUnbonded lp_inflow_def new_sub_msg_def)
  qed
next
  case (ClaimRewards t)
  with run obtain b where b: "claim_rewards S env l info b = Inr (l', r)" by (auto elim!: andThen_OkE)
  from claim_rewards_Ok [OF b inv] u show ?thesis
    by (auto simp: ClaimRewards lp_inflow_def new_sub_msg_def split: if_splits)
qed (use run inv hook in \<open>auto simp: lp_inflow_def elim!: andThen_OkE dest: receive_lp_Ok update_owner_Ok
    add_distribution_schedule_Ok register_staking_token_Ok update_staking_token_Ok\<close>)

end


section \<open>A concrete contract\<close>

text \<open>
  Two pools of equal weight and the same schedule of 1000 PRISM over seconds 100 to 200. Alice has
  bonded 40 in the first, with 5 withdrawable and two orders of which one matures at second 150; Bob has
  bonded 60 in each.
\<close>

definition lp_pool :: "nat \<Rightarrow> nat \<Rightarrow> pool_info" where
  "lp_pool b w = \<lparr>last_distributed = 100, weight = 1, total_bond_amount = b, total_pending_withdraw = w,
     reward_index = 0, pending_reward = 0, unbond_period = 30\<rparr>"

definition lp_staker :: "nat \<Rightarrow> nat \<Rightarrow> reward_info" where
  "lp_staker b w = \<lparr>staker_index = 0, bond_amount = b, withdrawable_amount = w, staker_pending = 0\<rparr>"

definition lp_example :: lp where
  "lp_example = \<lparr>
     CONFIG = \<lparr>owner = ''owner'', prism_token = ''prism'', distribution_schedule = [(100, 200, 1000)], total_weight = 2\<rparr>,
     POOLS = [(''lpa'', lp_pool 100 25), (''lpb'', lp_pool 60 0)],
     REWARD_INFO = [((''alice'', ''lpa''), lp_staker 40 5), ((''bob'', ''lpa''), lp_staker 60 0),
       ((''bob'', ''lpb''), lp_staker 60 0)],
     UNBOND_ORDERS = [((''alice'', ''lpa'', 110), 7), ((''alice'', ''lpa'', 130), 13)],
     STAKER_BY_TOKEN_INDEXER = [((''lpa'', ''alice''), True), ((''lpa'', ''bob''), True), ((''lpb'', ''bob''), True)]\<rparr>"

lemma lp_example_inv: "lp_inv lp_example"
  unfolding lp_inv_def
proof (intro conjI allI impI)
  fix t p assume "get (POOLS lp_example) t = Some p"
  then have "t = ''lpa'' \<and> p = lp_pool 100 25 \<or> t = ''lpb'' \<and> p = lp_pool 60 0"
    by (simp add: lp_example_def get_def split: if_splits)
  then show "total_bond_amount p = bonded lp_example t"
    and "total_pending_withdraw p = withdrawable lp_example t + in_orders lp_example t"
    by (elim disjE; simp add: lp_example_def lp_pool_def lp_staker_def bonded_def withdrawable_def in_orders_def)+
next
  fix s t
  show "get (STAKER_BY_TOKEN_INDEXER lp_example) (t, s) \<noteq> None \<longleftrightarrow> get (REWARD_INFO lp_example) (s, t) \<noteq> None"
    by (cases "t = ''lpa''"; cases "t = ''lpb''"; cases "s = ''alice''"; cases "s = ''bob''") (simp_all add: lp_example_def get_def)
qed (simp_all add: lp_example_def get_def wf_store_def pool_weights_def lp_pool_def split: if_splits)

lemmas lp_eval = lp_example_def lp_pool_def lp_staker_def get_def Let_def cw_eval
  get_withdrawable_amount_def pull_expired_withdraw_orders_def withdrawable_step_def orders_of_def sub_range_def
  MAX_ORDER_WITHDRAW_PER_TX_def remove_withdrawn_def update_or_remove_staker_rewards_def del_def
  compute_pool_reward_def pool_distribution_def distribute_slot_def compute_staker_reward_def default_pool_def
  default_reward_info_def


section \<open>Books and custody\<close>

text \<open>The states the contract can reach.\<close>

inductive lp_reach :: "cosmwasm \<Rightarrow> lp \<Rightarrow> bool" for S where
  instantiated: "instantiate_lp S D env msg = Ok (l, r) \<Longrightarrow> api_faithful D \<Longrightarrow> lp_reach S l"
| executed: "lp_reach S l \<Longrightarrow> execute S D fb env l info m = Ok (l', r) \<Longrightarrow> lp_reach S l'"

text \<open>
  C6: the books of the staking contract are right in every reachable state. The bonded total of a pool
  is the sum of its stakers' bonds; its pending total is what has been unbonded and not paid out, in
  orders or as withdrawable amounts; the total weight is the sum of the pools' weights; every
  reward entry belongs to a pool and is in the index of its token, and nobody else is; everybody
  with an open order has a reward entry, so no order is out of reach.
\<close>

theorem lp_reachable_inv:
  assumes "cosmwasm_std S" and "lp_reach S l"
  shows "lp_inv l"
  using assms(2)
proof induction
  case (instantiated D env msg l r)
  then show ?case using instantiate_lp_inv by blast
next
  case (executed l D fb env info m l' r)
  then show ?case using cosmwasm_std.lp_execute_inv [OF assms(1)] by blast
qed

definition lp_msg_example :: instantiate_msg where
  "lp_msg_example = \<lparr>im_owner = ''owner'', im_prism_token = ''prism'', im_distribution_schedule = [(100, 200, 1000)],
     im_staking_tokens = [(''lpb'', 1, 30), (''lpa'', 2, 30)]\<rparr>"

theorem lp_reachable_inv_witness:
  "\<exists>l0 r0 l1 r1. instantiate_lp cosmwasm_0_16 empty_deps (env_at 10) lp_msg_example = Ok (l0, r0)
    \<and> execute cosmwasm_0_16 empty_deps (\<lambda>_. Inr Bond) (env_at 110) l0 (from_user ''lpa'')
        (Receive \<lparr>cw20_sender = ''alice'', cw20_amount = 40, cw20_msg = []\<rparr>) = Ok (l1, r1)
    \<and> bonded l1 ''lpa'' = 40 \<and> lp_inv l1"
proof -
  obtain l0 r0 l1 r1 where
    run0: "instantiate_lp cosmwasm_0_16 empty_deps (env_at 10) lp_msg_example = Ok (l0, r0)"
    and run1: "execute cosmwasm_0_16 empty_deps (\<lambda>_. Inr Bond) (env_at 110) l0 (from_user ''lpa'')
        (Receive \<lparr>cw20_sender = ''alice'', cw20_amount = 40, cw20_msg = []\<rparr>) = Ok (l1, r1)"
    and b: "bonded l1 ''lpa'' = 40"
    by (simp add: instantiate_lp_def lp_msg_example_def receive_cw20_def bond_def bonded_def lp_eval)
  have "api_faithful empty_deps" by (simp add: api_faithful_def empty_deps_def)
  from lp_reach.executed [OF lp_reach.instantiated [OF run0 this] run1]
  have "lp_reach cosmwasm_0_16 l1" .
  from lp_reachable_inv [OF cosmwasm_0_16 this] run0 run1 b show ?thesis by blast
qed

text \<open>
  Custody of the staking tokens. What the contract holds of a token for its stakers, bonds and
  pending withdrawals, moves by exactly what comes in with a call and what its messages send out. An
  \<open>AutoStakeHook\<close> on the token bonds whatever the contract has beyond that, so that afterwards the
  books equal its balance. This holds for every token other than PRISM, in which rewards are paid:
  in a pool of PRISM itself the rewards would come out of the same balance.
\<close>

lemma lp_custody:
  assumes std: "cosmwasm_std S" and inv: "lp_inv l" and run: "execute S D fb env l info m = Ok (l', r)"
    and t: "t \<noteq> prism_token (CONFIG l)"
  shows "if \<exists>a. m = AutoStakeHook a \<and> addr_validate D a = Ok t
    then query_token_balance D t (contract_address env) = Ok (held l' t) \<and> held l t \<le> held l' t \<and> r = []
    else held l' t + outflow t r = held l t + lp_inflow t info m"
proof (cases "\<exists>a. m = AutoStakeHook a")
  case True
  with run obtain a b where m: "m = AutoStakeHook a" and a: "addr_validate D a = Inr b"
    and h: "auto_stake_hook S D env l b (sender info) = Inr (l', r)"
    by (auto simp: map_err_Ok_iff elim!: andThen_OkE)
  show ?thesis
    by (rule cosmwasm_std.auto_stake_hook_Ok [OF std h inv]) (auto simp: m a lp_inflow_def)
qed (use cosmwasm_std.lp_execute_held [OF std run inv _ t] in auto)

lemma lp_custody_witness:
  "\<exists>l' r. execute cosmwasm_0_16 empty_deps (\<lambda>_. Inr Bond) (env_at 150) lp_example (from_user ''alice'')
      (ClaimUnbonded ''lpa'') = Ok (l', r)
    \<and> outflow ''lpa'' r = 12 \<and> held l' ''lpa'' + 12 = held lp_example ''lpa''"
proof -
  obtain l' r where run: "execute cosmwasm_0_16 empty_deps (\<lambda>_. Inr Bond) (env_at 150) lp_example (from_user ''alice'')
      (ClaimUnbonded ''lpa'') = Ok (l', r)" and out: "outflow ''lpa'' r = 12"
    by (simp add: claim_unbonded_def lp_eval outflow_def)
  have "''lpa'' \<noteq> prism_token (CONFIG lp_example)" by (simp add: lp_example_def)
  from lp_custody [OF cosmwasm_0_16 lp_example_inv run this] run out show ?thesis by (simp add: lp_inflow_def)
qed

text \<open>
  C22: \<open>claim_unbonded\<close> pays the sender exactly the amount that was withdrawable plus those orders whose
  unbond period is over, among the oldest fifty, and takes them off the books; it never pays
  nothing, never pays an order early, and leaves every other order in place.
\<close>

theorem lp_claim_unbonded_exact:
  assumes std: "cosmwasm_std S" and inv: "lp_inv l" and run: "claim_unbonded S env l info t = Ok (l', r)"
  shows "\<exists>p amount due. get (POOLS l) t = Some p
    \<and> due = filter (\<lambda>(k, v). k + unbond_period p < now_seconds S env) (take 50 (orders_of l (sender info) t))
    \<and> amount = withdrawable_amount (info_of l (sender info) t) + (\<Sum>(k, v)\<leftarrow>due. v) \<and> amount \<noteq> 0
    \<and> r = [new_sub_msg (WasmExecute t (Cw20Transfer (sender info) amount))]
    \<and> withdrawable_amount (info_of l' (sender info) t) = 0
    \<and> (\<forall>s u k. get (UNBOND_ORDERS l') (s, u, k) =
        (if s = sender info \<and> u = t \<and> k \<in> fst ` set due then None else get (UNBOND_ORDERS l) (s, u, k)))"
proof (rule cosmwasm_std.claim_unbonded_Ok [OF std run inv])
  fix p :: pool_info and amount
  let ?due = "matured (now_seconds S env) (unbond_period p) (orders_of l (sender info) t)"
  assume p: "get (POOLS l) t = Some p"
    and a: "amount = withdrawable_amount (info_of l (sender info) t) + (\<Sum>(k, v)\<leftarrow>?due. v)" "amount \<noteq> 0"
    and r: "r = [new_sub_msg (WasmExecute t (Cw20Transfer (sender info) amount))]"
    and o: "UNBOND_ORDERS l' = fold del (map (\<lambda>(k, v). (sender info, t, k)) ?due) (UNBOND_ORDERS l)"
    and w: "withdrawable_amount (info_of l' (sender info) t) = 0"
  have "get (UNBOND_ORDERS l') (s, u, k) =
      (if s = sender info \<and> u = t \<and> k \<in> fst ` set ?due then None else get (UNBOND_ORDERS l) (s, u, k))" for s u k
    by (auto simp: o get_dels image_iff)
  then show ?thesis
    by (intro exI [of _ p] exI [of _ amount] exI [of _ ?due])
      (use p a r w in \<open>simp add: matured_def MAX_ORDER_WITHDRAW_PER_TX_def\<close>)
qed

theorem lp_claim_unbonded_exact_witness:
  "\<exists>l' r. claim_unbonded cosmwasm_0_16 (env_at 150) lp_example (from_user ''alice'') ''lpa'' = Ok (l', r)
    \<and> r = [new_sub_msg (WasmExecute ''lpa'' (Cw20Transfer ''alice'' 12))]
    \<and> get (UNBOND_ORDERS l') (''alice'', ''lpa'', 110) = None
    \<and> get (UNBOND_ORDERS l') (''alice'', ''lpa'', 130) = Some 13"
proof -
  obtain l' r where run: "claim_unbonded cosmwasm_0_16 (env_at 150) lp_example (from_user ''alice'') ''lpa'' = Ok (l', r)"
    by (simp add: claim_unbonded_def lp_eval)
  from lp_claim_unbonded_exact [OF cosmwasm_0_16 lp_example_inv run]
  have "r = [new_sub_msg (WasmExecute ''lpa'' (Cw20Transfer ''alice'' 12))]
    \<and> get (UNBOND_ORDERS l') (''alice'', ''lpa'', 110) = None \<and> get (UNBOND_ORDERS l') (''alice'', ''lpa'', 130) = Some 13"
    by (simp add: lp_eval info_of_def)
  with run show ?thesis by blast
qed

text \<open>
  \<open>unbond\<close> takes the given amount, or all, from the sender's bond and never more than the sender
  has. With an unbond period the amount becomes an order under the time of the block, which no
  earlier order has, nothing is paid and the contract still holds the tokens; without one it is sent
  at once. No other entry of a staker changes.
\<close>

lemma lp_unbond_exact:
  assumes std: "cosmwasm_std S" and inv: "lp_inv l" and run: "unbond S env l info t amount = Ok (l', r)"
  shows "\<exists>p a. get (POOLS l) t = Some p
    \<and> a = (case amount of Some a \<Rightarrow> a | None \<Rightarrow> bond_amount (info_of l (sender info) t))
    \<and> bond_amount (info_of l' (sender info) t) + a = bond_amount (info_of l (sender info) t)
    \<and> (\<forall>k. k \<noteq> (sender info, t) \<longrightarrow> get (REWARD_INFO l') k = get (REWARD_INFO l) k)
    \<and> (if unbond_period p = 0
       then r = [new_sub_msg (WasmExecute t (Cw20Transfer (sender info) a))] \<and> held l' t + a = held l t
       else r = [] \<and> get (UNBOND_ORDERS l') (sender info, t, now_seconds S env) = Some a \<and> held l' t = held l t)"
proof (rule cosmwasm_std.unbond_Ok [OF std run inv])
  fix p :: pool_info and a
  assume "get (POOLS l) t = Some p" and "a = (case amount of Some a \<Rightarrow> a | None \<Rightarrow> bond_amount (info_of l (sender info) t))"
    and "bond_amount (info_of l' (sender info) t) + a = bond_amount (info_of l (sender info) t)"
    and "unbond_period p = 0 \<Longrightarrow> r = [new_sub_msg (WasmExecute t (Cw20Transfer (sender info) a))]
      \<and> (\<forall>u. held l' u + (if u = t then a else 0) = held l u)"
    and "unbond_period p \<noteq> 0 \<Longrightarrow> r = [] \<and> (\<forall>u. held l' u = held l u)
      \<and> get (UNBOND_ORDERS l') (sender info, t, now_seconds S env) = Some a"
    and "\<And>k. k \<noteq> (sender info, t) \<Longrightarrow> get (REWARD_INFO l') k = get (REWARD_INFO l) k"
  moreover from this have "unbond_period p = 0 \<longrightarrow> held l' t + a = held l t" by (metis (full_types))
  ultimately show ?thesis
    by (intro exI [of _ p] exI [of _ a]) simp
qed

lemma lp_unbond_exact_witness:
  "\<exists>l' r. unbond cosmwasm_0_16 (env_at 150) lp_example (from_user ''bob'') ''lpa'' (Some 10) = Ok (l', r)
    \<and> get (UNBOND_ORDERS l') (''bob'', ''lpa'', 150) = Some 10 \<and> bond_amount (info_of l' ''bob'' ''lpa'') = 50"
proof -
  obtain l' r where run: "unbond cosmwasm_0_16 (env_at 150) lp_example (from_user ''bob'') ''lpa'' (Some 10) = Ok (l', r)"
    by (simp add: unbond_def lp_eval)
  have p: "get (POOLS lp_example) ''lpa'' = Some (lp_pool 100 25)" "bond_amount (info_of lp_example ''bob'' ''lpa'') = 60"
    by (simp_all add: lp_example_def lp_staker_def info_of_def get_def)
  have e: "now_seconds cosmwasm_0_16 (env_at 150) = 150" "sender (from_user ''bob'') = ''bob''" by (simp_all add: cw_eval)
  from lp_unbond_exact [OF cosmwasm_0_16 lp_example_inv run]
  have "get (UNBOND_ORDERS l') (''bob'', ''lpa'', 150) = Some 10 \<and> bond_amount (info_of l' ''bob'' ''lpa'') + 10 = 60"
    unfolding p e by (auto simp: lp_pool_def)
  with run show ?thesis by simp
qed


section \<open>Rewards\<close>

text \<open>Stores with the same entries are the same.\<close>

lemma store_eqI:
  assumes "wf_store a" and "wf_store b" and "\<And>k. get a k = get b k"
  shows "a = b"
proof (rule map_sorted_distinct_set_unique [of fst])
  show set: "set a = set b" using entries_get [OF assms(1)] entries_get [OF assms(2)] assms(3) by auto
  show "inj_on fst (set a \<union> set b)" using st.distinct_keys [OF assms(1)] by (simp add: set [symmetric] distinct_map)
qed (use assms in \<open>simp_all add: wf_store_def strict_sorted_iff\<close>)

lemma compute_staker_reward_withdrawable:
  "compute_staker_reward S q (i\<lparr>withdrawable_amount := w\<rparr>)
    = andThen (compute_staker_reward S q i) (\<lambda>j. Ok (j\<lparr>withdrawable_amount := w\<rparr>))"
  by (cases i) (simp add: compute_staker_reward_def andThen_assoc)

lemma updated_staker_reward_same:
  assumes "CONFIG k = CONFIG l" and "get (POOLS k) t = get (POOLS l) t" and "orders_of k s t = orders_of l s t"
  shows "updated_staker_reward S k now s t i = updated_staker_reward S l now s t i"
  using assms by (simp add: updated_staker_reward_def get_withdrawable_amount_def)

context cosmwasm_std
begin

lemma claim_reward_query:
  assumes p: "get (POOLS l) t = Some p"
    and pull: "pull_expired_withdraw_orders S l s t ri now (unbond_period p) = (Inr (l1, i1, pend) :: (contract_error, _) result)"
    and q: "compute_pool_reward S (CONFIG l) p now = (Inr q :: (contract_error, _) result)"
    and i2: "compute_staker_reward S q i1 = (Inr i2 :: (contract_error, _) result)"
  shows "updated_staker_reward S l now s t ri = Inr (reward_as_res i2 t)"
    and "get (REWARD_INFO l) (s, t) = Some ri \<Longrightarrow> now = now_seconds S env
      \<Longrightarrow> query_staker_info S env l s (Some t) = Inr (s, [reward_as_res i2 t])"
proof -
  from pull obtain w ts n where g: "get_withdrawable_amount S l s t now (unbond_period p) = (Inr (w, ts, n) :: (contract_error, _) result)"
    and a: "uadd S (withdrawable_amount ri) w = (Inr (withdrawable_amount ri + w) :: (contract_error, _) result)"
    and i1: "i1 = ri\<lparr>withdrawable_amount := withdrawable_amount ri + w\<rparr>"
    by (auto simp: pull_expired_withdraw_orders_def uadd_Ok_iff elim!: andThen_OkE)
  have per: "unbond_period q = unbond_period p" using compute_pool_reward_Ok(1) [OF q] by (simp add: same_pool_def)
  from i2 [unfolded i1 compute_staker_reward_withdrawable] obtain j where
    j: "compute_staker_reward S q ri = (Inr j :: (contract_error, _) result)"
    and i2': "i2 = j\<lparr>withdrawable_amount := withdrawable_amount ri + w\<rparr>" by (auto elim!: andThen_OkE)
  have jw: "withdrawable_amount j = withdrawable_amount ri" by (rule compute_staker_reward_Ok(2) [OF j])
  show "updated_staker_reward S l now s t ri = Inr (reward_as_res i2 t)"
    by (simp add: updated_staker_reward_def p q j per g jw a i2')
  assume "get (REWARD_INFO l) (s, t) = Some ri" and "now = now_seconds S env"
  then show "query_staker_info S env l s (Some t) = Inr (s, [reward_as_res i2 t])"
    using g q i2 by (simp add: query_staker_info_def p a i1)
qed

lemma claim_fold_query:
  assumes "foldM (claim_step S (CONFIG l) now s) ris (l, n) = Inr (l', n')" and "lp_inv l"
    and "\<forall>(t, ri)\<in>set ris. get (REWARD_INFO l) (s, t) = Some ri" and "distinct (map fst ris)"
  shows "\<exists>items. mapM (\<lambda>(t, ri). updated_staker_reward S l now s t ri) ris = Inr items
    \<and> n' = n + (\<Sum>i\<leftarrow>items. rr_pending_reward i)"
  using assms
proof (induction ris arbitrary: l n)
  case (Cons x ris)
  obtain t ri where x: "x = (t, ri)" by (cases x)
  from Cons.prems(1) obtain l1 n1 where step: "claim_step S (CONFIG l) now s (t, ri) (l, n) = Inr (l1, n1)"
    and rest: "foldM (claim_step S (CONFIG l) now s) ris (l1, n1) = Inr (l', n')"
    by (auto simp: x elim!: andThen_OkE)
  have here: "get (REWARD_INFO l) (s, t) = Some ri" using Cons.prems(3) by (simp add: x)
  show ?case
  proof (rule claim_step_Ok [OF step Cons.prems(2) here])
    fix l2 i1 pend q i2 and p :: pool_info
    assume p: "get (POOLS l) t = Some p"
      and pull: "pull_expired_withdraw_orders S l s t ri now (unbond_period p) = (Inr (l2, i1, pend) :: (contract_error, _) result)"
      and q: "compute_pool_reward S (CONFIG l) p now = (Inr q :: (contract_error, _) result)"
      and i2: "compute_staker_reward S q i1 = (Inr i2 :: (contract_error, _) result)"
      and n1: "n1 = n + staker_pending i2" and inv1: "lp_inv l1" and C: "CONFIG l1 = CONFIG l"
      and R: "\<And>u. u \<noteq> t \<Longrightarrow> get (REWARD_INFO l1) (s, u) = get (REWARD_INFO l) (s, u)"
      and P: "\<And>u. u \<noteq> t \<Longrightarrow> get (POOLS l1) u = get (POOLS l) u"
      and O: "\<And>u k. u \<noteq> t \<Longrightarrow> get (UNBOND_ORDERS l1) (s, u, k) = get (UNBOND_ORDERS l) (s, u, k)"
    have ne: "u \<noteq> t" if "(u, i) \<in> set ris" for u i using that Cons.prems(4) by (force simp: x)
    have "orders_of l1 s u = orders_of l s u" if "u \<noteq> t" for u
    proof (rule store_eqI)
      fix k
      show "get (orders_of l1 s u) k = get (orders_of l s u) k"
        using O [OF that, of k] set_orders_of [OF lp_inv_stores(3) [OF inv1], of k _ s u]
          set_orders_of [OF lp_inv_stores(3) [OF Cons.prems(2)], of k _ s u]
          entries_get [OF wf_orders_of [OF lp_inv_stores(3) [OF inv1]], of k _ s u]
          entries_get [OF wf_orders_of [OF lp_inv_stores(3) [OF Cons.prems(2)]], of k _ s u]
        by (metis option.exhaust)
    qed (auto intro: wf_orders_of lp_inv_stores inv1 Cons.prems(2))
    then have same: "mapM (\<lambda>(t, ri). updated_staker_reward S l1 now s t ri) ris
        = mapM (\<lambda>(t, ri). updated_staker_reward S l now s t ri) ris"
      using updated_staker_reward_same [OF C P] ne
      by (intro mapM_cong) auto
    have "\<forall>(u, i)\<in>set ris. get (REWARD_INFO l1) (s, u) = Some i"
      using Cons.prems(3) by (auto simp: x R [OF ne])
    with Cons.IH [OF rest [folded C] inv1] Cons.prems(4) obtain items where
      "mapM (\<lambda>(t, ri). updated_staker_reward S l now s t ri) ris = Inr items"
      "n' = n1 + (\<Sum>i\<leftarrow>items. rr_pending_reward i)" by (auto simp: x same)
    then show ?thesis
      using claim_reward_query(1) [OF p pull q i2] by (simp add: x n1 reward_as_res_def)
  qed
qed simp

end

text \<open>
  C27: a claim pays what the query shows. Whenever \<open>claim_rewards\<close> succeeds, for one token or for all
  of the sender's tokens, \<open>query_staker_info\<close> in the same block succeeds on the state before it, and
  the PRISM sent is exactly the sum of the pending rewards it answers (no message if that is zero).
\<close>

theorem lp_claim_matches_query:
  assumes std: "cosmwasm_std S" and inv: "lp_inv l" and run: "claim_rewards S env l info token = Ok (l', r)"
  shows "\<exists>items total. query_staker_info S env l (sender info) token = Ok (sender info, items)
    \<and> total = (\<Sum>i\<leftarrow>items. rr_pending_reward i)
    \<and> r = (if total = 0 then [] else
        [new_sub_msg (WasmExecute (prism_token (CONFIG l)) (Cw20Transfer (sender info) total))])"
proof (cases token)
  case None
  with run obtain n where fold: "foldM (claim_step S (CONFIG l) (now_seconds S env) (sender info))
      (sub_range (sender info) (REWARD_INFO l)) (l, 0) = Inr (l', n)"
    and r: "r = (if n = 0 then [] else add_messages [WasmExecute (prism_token (CONFIG l)) (Cw20Transfer (sender info) n)])"
    by (auto simp: claim_rewards_def Let_def elim!: andThen_OkE)
  have "\<forall>(t, ri)\<in>set (sub_range (sender info) (REWARD_INFO l)). get (REWARD_INFO l) (sender info, t) = Some ri"
    by (auto simp: set_sub_range [OF lp_inv_stores(2) [OF inv]])
  from cosmwasm_std.claim_fold_query [OF std fold inv this st.distinct_keys [OF wf_sub_range [OF lp_inv_stores(2) [OF inv]]]]
  obtain items where items: "mapM (\<lambda>(t, ri). updated_staker_reward S l (now_seconds S env) (sender info) t ri)
      (sub_range (sender info) (REWARD_INFO l)) = Inr items" and n: "n = (\<Sum>i\<leftarrow>items. rr_pending_reward i)"
    by auto
  show ?thesis
    by (intro exI [of _ items] exI [of _ n])
      (use r n items in \<open>simp add: None query_staker_info_def read_updated_staker_rewards_def add_messages_def\<close>)
next
  case (Some t)
  with run obtain ri n where ri: "get (REWARD_INFO l) (sender info, t) = Some ri"
    and step: "claim_step S (CONFIG l) (now_seconds S env) (sender info) (t, ri) (l, 0) = Inr (l', n)"
    and r: "r = (if n = 0 then [] else add_messages [WasmExecute (prism_token (CONFIG l)) (Cw20Transfer (sender info) n)])"
    by (auto simp: claim_rewards_def Let_def or_err_Ok_iff elim!: andThen_OkE)
  show ?thesis
  proof (rule cosmwasm_std.claim_step_Ok [OF std step inv ri])
    fix l2 i1 pend q i2 and p :: pool_info
    assume p: "get (POOLS l) t = Some p"
      and pull: "pull_expired_withdraw_orders S l (sender info) t ri (now_seconds S env) (unbond_period p)
          = (Inr (l2, i1, pend) :: (contract_error, _) result)"
      and q: "compute_pool_reward S (CONFIG l) p (now_seconds S env) = (Inr q :: (contract_error, _) result)"
      and i2: "compute_staker_reward S q i1 = (Inr i2 :: (contract_error, _) result)"
      and n: "n = 0 + staker_pending i2"
    show ?thesis
      using cosmwasm_std.claim_reward_query(2) [OF std p pull q i2 ri] n r
      by (simp add: Some reward_as_res_def add_messages_def)
  qed
qed

theorem lp_claim_matches_query_witness:
  "\<exists>l' r items. claim_rewards cosmwasm_0_16 (env_at 150) lp_example (from_user ''bob'') None = Ok (l', r)
    \<and> r = [new_sub_msg (WasmExecute ''prism'' (Cw20Transfer ''bob'' 399))]
    \<and> query_staker_info cosmwasm_0_16 (env_at 150) lp_example ''bob'' None = Ok (''bob'', items)
    \<and> (\<Sum>i\<leftarrow>items. rr_pending_reward i) = 399"
proof -
  obtain l' r where run: "claim_rewards cosmwasm_0_16 (env_at 150) lp_example (from_user ''bob'') None = Ok (l', r)"
    and r: "r = [new_sub_msg (WasmExecute ''prism'' (Cw20Transfer ''bob'' 399))]"
    by (simp add: claim_rewards_def claim_step_def lp_eval)
  from lp_claim_matches_query [OF cosmwasm_0_16 lp_example_inv run] obtain items where
    "query_staker_info cosmwasm_0_16 (env_at 150) lp_example ''bob'' None = Ok (''bob'', items)"
    "(\<Sum>i\<leftarrow>items. rr_pending_reward i) = 399"
    by (auto simp: r from_user_def new_sub_msg_def split: if_splits)
  with run r show ?thesis by blast
qed

subsection \<open>The schedule is never exceeded\<close>

text \<open>
  The life of a pool under a fixed configuration: updates by \<open>compute_pool_reward\<close> at times that never go back, and
  changes of the bonded and the pending amounts in between. The number is what the stakers have been credited with, the
  rises of the index times the bonded amount, in units of \<open>10\<close> to the \<open>-18\<close>.
\<close>

inductive pool_run :: "cosmwasm \<Rightarrow> config \<Rightarrow> pool_info \<Rightarrow> pool_info \<Rightarrow> nat \<Rightarrow> bool" for S c p where
  fresh: "pool_run S c p p 0"
| update: "pool_run S c p q w \<Longrightarrow> last_distributed q \<le> now
    \<Longrightarrow> compute_pool_reward S c q now = (Ok q' :: (contract_error, pool_info) result)
    \<Longrightarrow> pool_run S c p q' (w + (reward_index q' - reward_index q) * total_bond_amount q)"
| rebond: "pool_run S c p q w \<Longrightarrow> pool_run S c p (q\<lparr>total_bond_amount := b, total_pending_withdraw := x\<rparr>) w"

text \<open>A slot of the schedule: the share of a pool, its rate, and what is left to distribute from a time on.\<close>

definition slot_share :: "config \<Rightarrow> pool_info \<Rightarrow> nat \<times> nat \<times> nat \<Rightarrow> nat" where
  "slot_share c p s = snd (snd s) * (weight p * DEC_ONE div total_weight c) div DEC_ONE"

definition slot_rate :: "config \<Rightarrow> pool_info \<Rightarrow> nat \<times> nat \<times> nat \<Rightarrow> nat" where
  "slot_rate c p s = slot_share c p s * DEC_ONE div (fst (snd s) - fst s)"

definition slot_left :: "config \<Rightarrow> pool_info \<Rightarrow> nat \<Rightarrow> nat \<times> nat \<times> nat \<Rightarrow> nat" where
  "slot_left c p from s = (fst (snd s) - max (fst s) from) * slot_rate c p s div DEC_ONE"

lemma floor_add_le: "(a::nat) div d + b div d \<le> (a + b) div d"
  by (cases "d = 0") (simp_all add: less_eq_div_iff_mult_less_eq distrib_right add_mono)

lemma slot_left_share: "slot_left c p from s \<le> slot_share c p s"
proof (cases "fst (snd s) - fst s = 0")
  case False
  define n where "n = fst (snd s) - fst s"
  define r where "r = slot_rate c p s"
  define m where "m = slot_share c p s"
  have "fst (snd s) - max (fst s) from \<le> n" by (simp add: n_def)
  then have "(fst (snd s) - max (fst s) from) * r \<le> n * r" by (rule mult_le_mono1)
  also have "\<dots> \<le> m * DEC_ONE"
    using floor_div_bounds(1) [of n "m * DEC_ONE"] False by (simp add: r_def slot_rate_def m_def n_def)
  finally have "(fst (snd s) - max (fst s) from) * r div DEC_ONE \<le> m * DEC_ONE div DEC_ONE" by (rule div_le_mono)
  then show ?thesis by (simp add: slot_left_def r_def m_def DEC_ONE_def)
qed (simp add: slot_left_def)

lemma slot_left_same: "weight q = weight p \<Longrightarrow> slot_left c q = slot_left c p"
  by (simp add: fun_eq_iff slot_left_def slot_rate_def slot_share_def)

context cosmwasm_std
begin

lemma distribute_slot_Ok:
  assumes "distribute_slot S c p now s n = (Inr n' :: ('e, nat) result)" and "last_distributed p \<le> now"
  shows "n' + slot_left c p now s \<le> n + slot_left c p (last_distributed p) s"
proof -
  obtain s0 s1 s2 where s: "s = (s0, s1, s2)" by (cases s)
  show ?thesis
  proof (cases "s0 > now \<or> s1 < last_distributed p")
    case True
    then have "slot_left c p now s \<le> slot_left c p (last_distributed p) s"
      using assms(2) by (auto simp: slot_left_def s max_def)
    then show ?thesis using assms(1) True by (simp add: distribute_slot_def s)
  next
    case False
    define a where "a = min s1 now - max s0 (last_distributed p)"
    define b where "b = s1 - max s0 now"
    define r where "r = slot_rate c p s"
    have n': "n' = n + a * r div DEC_ONE" and le: "max s0 (last_distributed p) \<le> min s1 now"
      using assms(1) False
      by (auto simp: distribute_slot_def s result_simps cw_laws slot_rate_def slot_share_def a_def r_def)
    have "a * r div DEC_ONE + b * r div DEC_ONE \<le> (a * r + b * r) div DEC_ONE" by (rule floor_add_le)
    also have "a * r + b * r = (a + b) * r" by (simp add: distrib_right)
    also have "a + b = s1 - max s0 (last_distributed p)" using False le assms(2) unfolding a_def b_def by linarith
    finally show ?thesis by (simp add: n' slot_left_def s r_def [unfolded s] b_def)
  qed
qed

lemma distribute_fold_Ok:
  assumes "foldM (distribute_slot S c p now) ss n = (Inr n' :: ('e, nat) result)" and "last_distributed p \<le> now"
  shows "n' + (\<Sum>s\<leftarrow>ss. slot_left c p now s) \<le> n + (\<Sum>s\<leftarrow>ss. slot_left c p (last_distributed p) s)"
  using assms(1)
proof (induction ss arbitrary: n)
  case (Cons s ss)
  from Cons.prems obtain n1 where n1: "distribute_slot S c p now s n = (Inr n1 :: ('e, nat) result)"
    and rest: "foldM (distribute_slot S c p now) ss n1 = (Inr n' :: ('e, nat) result)" by (auto elim!: andThen_OkE)
  from distribute_slot_Ok [OF n1 assms(2)] Cons.IH [OF rest] show ?case by simp
qed simp

text \<open>An update credits no more than what was pending and what the schedule gives for the time passed.\<close>

lemma compute_pool_reward_credits:
  assumes run: "compute_pool_reward S c q now = (Inr q' :: ('e, _) result)" and le: "last_distributed q \<le> now"
  shows "(reward_index q' - reward_index q) * total_bond_amount q
      + (pending_reward q' + (\<Sum>s\<leftarrow>distribution_schedule c. slot_left c q now s)) * DEC_ONE
    \<le> (pending_reward q + (\<Sum>s\<leftarrow>distribution_schedule c. slot_left c q (last_distributed q) s)) * DEC_ONE"
    and "weight q' = weight q" and "last_distributed q' = now"
proof -
  from run obtain n where n: "pool_distribution S c q now = (Inr n :: ('e, nat) result)"
    by (auto simp: compute_pool_reward_def elim!: andThen_OkE)
  have left: "n + (\<Sum>s\<leftarrow>distribution_schedule c. slot_left c q now s)
      \<le> (\<Sum>s\<leftarrow>distribution_schedule c. slot_left c q (last_distributed q) s)"
    using distribute_fold_Ok [OF n [unfolded pool_distribution_def] le] by simp
  have "(reward_index q' - reward_index q) * total_bond_amount q + pending_reward q' * DEC_ONE
      \<le> (pending_reward q + n) * DEC_ONE"
    using run n floor_div_bounds(1) [of "total_bond_amount q" "(pending_reward q + n) * DEC_ONE"]
    by (auto simp: compute_pool_reward_def Let_def result_simps cw_laws mult.commute split: if_splits)
  then show "(reward_index q' - reward_index q) * total_bond_amount q
      + (pending_reward q' + (\<Sum>s\<leftarrow>distribution_schedule c. slot_left c q now s)) * DEC_ONE
    \<le> (pending_reward q + (\<Sum>s\<leftarrow>distribution_schedule c. slot_left c q (last_distributed q) s)) * DEC_ONE"
    using mult_le_mono1 [OF left, of DEC_ONE] by (simp add: distrib_right)
  show "weight q' = weight q" "last_distributed q' = now"
    using compute_pool_reward_Ok [OF run] by (simp_all add: same_pool_def)
qed

lemma pool_run_credits:
  assumes "pool_run S c p q w"
  shows "weight q = weight p \<and> w + (pending_reward q + (\<Sum>s\<leftarrow>distribution_schedule c. slot_left c p (last_distributed q) s)) * DEC_ONE
    \<le> (pending_reward p + (\<Sum>s\<leftarrow>distribution_schedule c. slot_left c p (last_distributed p) s)) * DEC_ONE"
  using assms
proof induction
  case (update q w now q')
  then show ?case using compute_pool_reward_credits [OF update(3,2)] slot_left_same [of q p c] by simp
qed simp_all

end

text \<open>
  C26: a pool never gets more than its share of the schedule, however often it is updated. Under a fixed
  configuration and weight, any number of updates by \<open>compute_pool_reward\<close>, at times that never go back and with the bonds
  changing in between, credit the stakers with an amount that, together with what the pool still keeps as pending, is at most what
  was pending at the start plus the sum over the slots of the slot's amount times the pool's part of the total weight,
  rounded down.
\<close>

theorem lp_schedule_bound:
  assumes std: "cosmwasm_std S" and run: "pool_run S c p q w"
  shows "w + pending_reward q * DEC_ONE \<le> (pending_reward p
    + (\<Sum>(s0, s1, s2)\<leftarrow>distribution_schedule c. s2 * (weight p * DEC_ONE div total_weight c) div DEC_ONE)) * DEC_ONE"
proof -
  have "(\<Sum>s\<leftarrow>distribution_schedule c. slot_left c p (last_distributed p) s) \<le> (\<Sum>s\<leftarrow>distribution_schedule c. slot_share c p s)"
    by (intro sum_list_mono slot_left_share)
  then have "(pending_reward p + (\<Sum>s\<leftarrow>distribution_schedule c. slot_left c p (last_distributed p) s)) * DEC_ONE
      \<le> (pending_reward p + (\<Sum>s\<leftarrow>distribution_schedule c. slot_share c p s)) * DEC_ONE" by simp
  with cosmwasm_std.pool_run_credits [OF std run]
  have "w + pending_reward q * DEC_ONE \<le> (pending_reward p + (\<Sum>s\<leftarrow>distribution_schedule c. slot_share c p s)) * DEC_ONE"
    unfolding distrib_right by linarith
  then show ?thesis by (simp add: slot_share_def case_prod_unfold)
qed

theorem lp_schedule_bound_witness:
  "\<exists>p1 p2. compute_pool_reward cosmwasm_0_16 (CONFIG lp_example) (lp_pool 100 25) 133 = (Ok p1 :: (contract_error, pool_info) result)
    \<and> compute_pool_reward cosmwasm_0_16 (CONFIG lp_example) p1 300 = (Ok p2 :: (contract_error, pool_info) result)
    \<and> reward_index p1 = 165 * 10 ^ 16 \<and> reward_index p2 = 5 * 10 ^ 18
    \<and> reward_index p2 * 100 \<le> (1000 * (1 * DEC_ONE div 2) div DEC_ONE) * DEC_ONE"
proof -
  obtain p1 where run1: "compute_pool_reward cosmwasm_0_16 (CONFIG lp_example) (lp_pool 100 25) 133 = (Ok p1 :: (contract_error, pool_info) result)"
    and p1: "p1 = \<lparr>last_distributed = 133, weight = 1, total_bond_amount = 100, total_pending_withdraw = 25,
      reward_index = 165 * 10 ^ 16, pending_reward = 0, unbond_period = 30\<rparr>"
    by (simp add: lp_eval)
  obtain p2 where run2: "compute_pool_reward cosmwasm_0_16 (CONFIG lp_example) p1 300 = (Ok p2 :: (contract_error, pool_info) result)"
    and p2: "reward_index p2 = 5 * 10 ^ 18"
    by (simp add: p1 lp_eval)
  have times: "last_distributed (lp_pool 100 25) \<le> 133" "last_distributed p1 \<le> 300" by (simp_all add: p1 lp_pool_def)
  have "pool_run cosmwasm_0_16 (CONFIG lp_example) (lp_pool 100 25) p2
      (0 + (reward_index p1 - reward_index (lp_pool 100 25)) * total_bond_amount (lp_pool 100 25)
        + (reward_index p2 - reward_index p1) * total_bond_amount p1)"
    by (rule pool_run.update [OF pool_run.update [OF pool_run.fresh times(1) run1] times(2) run2])
  from lp_schedule_bound [OF cosmwasm_0_16 this] have "reward_index p2 * 100 \<le> (1000 * (1 * DEC_ONE div 2) div DEC_ONE) * DEC_ONE"
    by (simp add: p1 p2 lp_pool_def lp_example_def DEC_ONE_def)
  with run1 run2 p2 show ?thesis by (auto simp: p1)
qed

lemma floor_diff_bounds:
  fixes x y d :: nat
  assumes "x \<le> y" and "d \<noteq> 0"
  shows "(y div d - x div d) * d < y - x + d" and "y - x < (y div d - x div d + 1) * d"
proof -
  define a where "a = x div d"
  define b where "b = y div d"
  define e where "e = b - a"
  have "a \<le> b" unfolding a_def b_def by (rule div_le_mono [OF assms(1)])
  then have b: "b = a + e" by (simp add: e_def)
  have "d * a \<le> x" "x < d * (a + 1)" "d * b \<le> y" "y < d * (b + 1)"
    unfolding a_def b_def by (rule floor_div_bounds [OF assms(2)])+
  then have "e * d < y - x + d" "y - x < (e + 1) * d" using assms(1) by (auto simp: b algebra_simps)
  then show "(y div d - x div d) * d < y - x + d" and "y - x < (y div d - x div d + 1) * d"
    by (simp_all add: a_def b_def e_def)
qed

context cosmwasm_std
begin

lemma pool_index_rise:
  assumes pool: "compute_pool_reward S c p now = (Inr q :: ('e, _) result)"
    and dist: "pool_distribution S c p now = (Inr n :: ('e, _) result)"
  shows "if total_bond_amount p = 0 then reward_index q = reward_index p \<and> pending_reward q = pending_reward p + n
      else pending_reward q = 0
        \<and> (reward_index q - reward_index p) * total_bond_amount p \<le> (pending_reward p + n) * DEC_ONE
        \<and> (pending_reward p + n) * DEC_ONE < (reward_index q - reward_index p + 1) * total_bond_amount p"
proof (cases "total_bond_amount p = 0")
  case True
  then show ?thesis using pool by (auto simp: compute_pool_reward_def dist Let_def result_simps cw_laws)
next
  case False
  define x where "x = (pending_reward p + n) * DEC_ONE"
  have "pending_reward q = 0 \<and> reward_index q = reward_index p + x div total_bond_amount p"
    using pool False by (auto simp: compute_pool_reward_def dist Let_def result_simps cw_laws x_def)
  then show ?thesis
    unfolding x_def [symmetric] using floor_div_bounds [OF False, of x] False by (simp add: mult.commute)
qed

lemma staker_credit:
  assumes "compute_staker_reward S q i = (Inr j :: ('e, _) result)" and le: "staker_index i \<le> reward_index q"
  shows "(staker_pending j - staker_pending i) * DEC_ONE < bond_amount i * (reward_index q - staker_index i) + DEC_ONE"
    and "bond_amount i * (reward_index q - staker_index i) < (staker_pending j - staker_pending i + 1) * DEC_ONE"
proof -
  define x where "x = bond_amount i * staker_index i"
  define y where "y = bond_amount i * reward_index q"
  have xy: "x \<le> y" unfolding x_def y_def using le by (rule mult_le_mono2)
  have "staker_pending j - staker_pending i = y div DEC_ONE - x div DEC_ONE"
    using compute_staker_reward_Ok(4) [OF assms(1)] div_le_mono [OF xy, of DEC_ONE] by (simp add: x_def y_def)
  then show "(staker_pending j - staker_pending i) * DEC_ONE < bond_amount i * (reward_index q - staker_index i) + DEC_ONE"
    and "bond_amount i * (reward_index q - staker_index i) < (staker_pending j - staker_pending i + 1) * DEC_ONE"
    using floor_diff_bounds [OF xy, of DEC_ONE] by (simp_all add: x_def y_def diff_mult_distrib2 DEC_ONE_def)
qed

lemma staker_credit_once:
  assumes "compute_staker_reward S q i = (Inr j :: ('e, _) result)"
  shows "compute_staker_reward S q j = (Inr j :: ('e, _) result)"
  using assms by (auto simp: compute_staker_reward_def andThen_Ok_iff cw_laws)

end

text \<open>
  How a pool's rewards are shared. An update of the pool raises the index by the reward of the pool
  over its bonded total, rounded down, so that all bonds together are credited with at most the
  reward and lose less than one part in \<open>10 ^ 18\<close> of a unit per bonded token; with nothing bonded the
  reward is kept for later. What an update credits to a staker differs from the bond times the rise
  of the index since the staker's last update by less than one unit, and updating twice in a row
  credits nothing more.
\<close>

lemma lp_reward_share:
  assumes std: "cosmwasm_std S" and pool: "compute_pool_reward S c p now = (Ok q :: (contract_error, _) result)"
    and dist: "pool_distribution S c p now = (Ok n :: (contract_error, _) result)"
    and staker: "compute_staker_reward S q i = (Ok j :: (contract_error, _) result)"
    and index: "staker_index i \<le> reward_index p"
  shows "(if total_bond_amount p = 0 then reward_index q = reward_index p \<and> pending_reward q = pending_reward p + n
      else pending_reward q = 0
        \<and> (reward_index q - reward_index p) * total_bond_amount p \<le> (pending_reward p + n) * DEC_ONE
        \<and> (pending_reward p + n) * DEC_ONE < (reward_index q - reward_index p + 1) * total_bond_amount p)
    \<and> (staker_pending j - staker_pending i) * DEC_ONE < bond_amount i * (reward_index q - staker_index i) + DEC_ONE
    \<and> bond_amount i * (reward_index q - staker_index i) < (staker_pending j - staker_pending i + 1) * DEC_ONE
    \<and> compute_staker_reward S q j = (Ok j :: (contract_error, _) result)"
proof -
  have le: "staker_index i \<le> reward_index q"
    using index cosmwasm_std.compute_pool_reward_Ok(3) [OF std pool] by simp
  show ?thesis
    by (intro conjI cosmwasm_std.pool_index_rise [OF std pool dist] cosmwasm_std.staker_credit [OF std staker le]
        cosmwasm_std.staker_credit_once [OF std staker])
qed

lemma lp_reward_share_witness:
  "\<exists>q j. compute_pool_reward cosmwasm_0_16 (CONFIG lp_example) (lp_pool 100 25) 150 = (Ok q :: (contract_error, _) result)
    \<and> compute_staker_reward cosmwasm_0_16 q (lp_staker 40 5) = (Ok j :: (contract_error, _) result)
    \<and> staker_pending j = 100 \<and> reward_index q * 100 \<le> 250 * DEC_ONE"
proof -
  obtain q j where q: "compute_pool_reward cosmwasm_0_16 (CONFIG lp_example) (lp_pool 100 25) 150 = (Ok q :: (contract_error, _) result)"
    and j: "compute_staker_reward cosmwasm_0_16 q (lp_staker 40 5) = (Ok j :: (contract_error, _) result)"
    and s: "staker_pending j = 100"
    by (simp add: lp_eval)
  have n: "pool_distribution cosmwasm_0_16 (CONFIG lp_example) (lp_pool 100 25) 150 = (Ok 250 :: (contract_error, _) result)"
    by (simp add: lp_eval)
  have "staker_index (lp_staker 40 5) \<le> reward_index (lp_pool 100 25)" by (simp add: lp_staker_def lp_pool_def)
  from lp_reward_share [OF cosmwasm_0_16 q n j this] q j s show ?thesis by (auto simp: lp_pool_def)
qed


section \<open>Administration\<close>

text \<open>What the loop of \<open>update_staking_token\<close> does to each pool.\<close>

context cosmwasm_std
begin

lemma update_fold_pools:
  assumes "foldM (update_pool_step S now t w) ps (c, l, found) = Inr (c', l', found')"
    and "wf_store (POOLS l)" and "wf_store ps" and "\<forall>(k, p)\<in>set ps. get (POOLS l) k = Some p"
  shows "(\<forall>k p. (k, p) \<in> set ps \<longrightarrow> (\<exists>q. compute_pool_reward S (if k \<le> t then c else c') p now = (Inr q :: (contract_error, _) result)
      \<and> get (POOLS l') k = Some (if k = t then q\<lparr>weight := w\<rparr> else q)))
    \<and> (\<forall>k. k \<notin> fst ` set ps \<longrightarrow> get (POOLS l') k = get (POOLS l) k) \<and> (t \<notin> fst ` set ps \<longrightarrow> c' = c)"
  using assms
proof (induction ps arbitrary: c l found)
  case (Cons x ps)
  obtain k p where x: "x = (k, p)" by (cases x)
  from Cons.prems(1) obtain c1 l1 f1 where step: "update_pool_step S now t w (k, p) (c, l, found) = Inr (c1, l1, f1)"
    and rest: "foldM (update_pool_step S now t w) ps (c1, l1, f1) = Inr (c', l', found')"
    by (auto simp: x elim!: andThen_OkE)
  from update_pool_step_Ok [OF step] obtain q q' where q: "compute_pool_reward S c p now = (Inr q :: (contract_error, _) result)"
    and c1: "k \<noteq> t \<Longrightarrow> c1 = c" and q': "q' = (if k = t then q\<lparr>weight := w\<rparr> else q)"
    and l1: "l1 = l\<lparr>POOLS := put k q' (POOLS l)\<rparr>" by (auto split: if_splits)
  have g: "get (POOLS l1) j = (if j = k then Some q' else get (POOLS l) j)" for j
    by (simp add: l1 get_put [OF Cons.prems(2)])
  have above: "\<forall>j\<in>fst ` set ps. k < j" and wf: "wf_store ps" using Cons.prems(3) by (auto simp: x wf_store_def)
  have ih: "(\<forall>k p. (k, p) \<in> set ps \<longrightarrow> (\<exists>q. compute_pool_reward S (if k \<le> t then c1 else c') p now = (Inr q :: (contract_error, _) result)
      \<and> get (POOLS l') k = Some (if k = t then q\<lparr>weight := w\<rparr> else q)))
    \<and> (\<forall>k. k \<notin> fst ` set ps \<longrightarrow> get (POOLS l') k = get (POOLS l1) k) \<and> (t \<notin> fst ` set ps \<longrightarrow> c' = c1)"
  proof (rule Cons.IH [OF rest _ wf])
    show "wf_store (POOLS l1)" by (simp add: l1 wf_put Cons.prems(2))
    show "\<forall>(k, p)\<in>set ps. get (POOLS l1) k = Some p" using Cons.prems(4) above by (fastforce simp: g x)
  qed
  have "k \<notin> fst ` set ps" using above by blast
  then have head: "get (POOLS l') k = Some q'" using ih g [of k] by simp
  have not_after: "k > t \<Longrightarrow> t \<notin> fst ` set ps" using above by force
  have "\<exists>r. compute_pool_reward S (if j \<le> t then c else c') s now = (Inr r :: (contract_error, _) result)
      \<and> get (POOLS l') j = Some (if j = t then r\<lparr>weight := w\<rparr> else r)" if "(j, s) \<in> set (x # ps)" for j s
  proof (cases "(j, s) \<in> set ps")
    case True
    then have "k < j" using above by force
    then have eq: "(if j \<le> t then c1 else c') = (if j \<le> t then c else c')" using c1 by auto
    show ?thesis by (rule mp [OF spec [OF spec [OF conjunct1 [OF ih], of j], of s] True, unfolded eq])
  next
    case False
    then have "j = k" "s = p" using that by (auto simp: x)
    moreover have "k > t \<Longrightarrow> c' = c" using ih not_after c1 by auto
    ultimately show ?thesis using q head q' by (cases "k \<le> t") auto
  qed
  then show ?case using ih g c1 by (auto simp: x)
qed simp

end

text \<open>
  What a change of a pool's weight does. Every pool is brought up to date first: the pools up to
  the token, in the order of the keys, with the old total weight, the pools after it with the new
  total. Only the token's own weight changes; the total weight stays the sum of the weights.
\<close>

lemma lp_weight_change:
  assumes std: "cosmwasm_std S" and inv: "lp_inv l"
    and run: "update_staking_token S env l info t None (Some w) = Ok (l', r)" and k: "get (POOLS l) k = Some p"
  shows "\<exists>q. compute_pool_reward S (if k \<le> t then CONFIG l else CONFIG l') p (now_seconds S env)
        = (Ok q :: (contract_error, _) result)
    \<and> get (POOLS l') k = Some (if k = t then q\<lparr>weight := w\<rparr> else q)
    \<and> total_weight (CONFIG l') = pool_weights l' \<and> sender info = owner (CONFIG l)"
proof -
  note wf = lp_inv_stores(1) [OF inv]
  from run obtain c l2 f where fold: "foldM (update_pool_step S (now_seconds S env) t w) (POOLS l) (CONFIG l, l, False)
      = Inr (c, l2, f)" and l': "l' = l2\<lparr>CONFIG := c\<rparr>"
    by (auto simp: update_staking_token_def Let_def elim!: andThen_OkE split: if_splits)
  have all: "\<forall>(k, p)\<in>set (POOLS l). get (POOLS l) k = Some p" by (auto simp: entries_get [OF wf])
  have "(k, p) \<in> set (POOLS l)" using k by (simp add: entries_get [OF wf])
  with cosmwasm_std.update_fold_pools [OF std fold wf wf all] obtain q where
    "compute_pool_reward S (if k \<le> t then CONFIG l else c) p (now_seconds S env) = (Inr q :: (contract_error, _) result)"
    "get (POOLS l2) k = Some (if k = t then q\<lparr>weight := w\<rparr> else q)" by blast
  moreover from cosmwasm_std.update_staking_token_Ok [OF std run inv]
  have "total_weight (CONFIG l') = pool_weights l'" "sender info = owner (CONFIG l)" by (simp_all add: lp_inv_def)
  ultimately show ?thesis by (intro exI [of _ q]) (auto simp: l' split: if_splits)
qed

lemma lp_weight_change_witness:
  "\<exists>l' r qa qb. update_staking_token cosmwasm_0_16 (env_at 150) lp_example (from_user ''owner'') ''lpa'' None (Some 3) = Ok (l', r)
    \<and> get (POOLS l') ''lpa'' = Some qa \<and> get (POOLS l') ''lpb'' = Some qb \<and> total_weight (CONFIG l') = 4
    \<and> compute_pool_reward cosmwasm_0_16 (CONFIG lp_example) (lp_pool 100 25) 150 = (Ok (qa\<lparr>weight := 1\<rparr>) :: (contract_error, _) result)
    \<and> compute_pool_reward cosmwasm_0_16 (CONFIG l') (lp_pool 60 0) 150 = (Ok qb :: (contract_error, _) result)
    \<and> compute_pool_reward cosmwasm_0_16 (CONFIG lp_example) (lp_pool 60 0) 150 \<noteq> (Ok qb :: (contract_error, _) result)"
proof -
  let ?run = "update_staking_token cosmwasm_0_16 (env_at 150) lp_example (from_user ''owner'') ''lpa'' None (Some 3)"
  obtain l' r where run: "?run = Ok (l', r)" and tw: "total_weight (CONFIG l') = 4"
    and ne: "\<And>qb. get (POOLS l') ''lpb'' = Some qb \<Longrightarrow>
      compute_pool_reward cosmwasm_0_16 (CONFIG lp_example) (lp_pool 60 0) 150 \<noteq> (Ok qb :: (contract_error, _) result)"
    by (simp add: update_staking_token_def update_pool_step_def lp_eval)
  have pools: "get (POOLS lp_example) ''lpa'' = Some (lp_pool 100 25)" "get (POOLS lp_example) ''lpb'' = Some (lp_pool 60 0)"
    by (simp_all add: lp_example_def get_def)
  have now: "now_seconds cosmwasm_0_16 (env_at 150) = 150" by (simp add: cw_eval)
  have order: "\<not> ''lpb'' \<le> ''lpa''" by simp
  from lp_weight_change [OF cosmwasm_0_16 lp_example_inv run pools(1)] obtain q where
    q: "compute_pool_reward cosmwasm_0_16 (CONFIG lp_example) (lp_pool 100 25) 150 = (Ok q :: (contract_error, _) result)"
      "get (POOLS l') ''lpa'' = Some (q\<lparr>weight := 3\<rparr>)" by (auto simp: now)
  have "weight q = 1" using cw.compute_pool_reward_Ok(1) [OF q(1)] by (simp add: same_pool_def lp_pool_def)
  then have "q\<lparr>weight := 3, weight := 1\<rparr> = q" by simp
  moreover from lp_weight_change [OF cosmwasm_0_16 lp_example_inv run pools(2)] obtain qb where
    "compute_pool_reward cosmwasm_0_16 (CONFIG l') (lp_pool 60 0) 150 = (Ok qb :: (contract_error, _) result)"
      "get (POOLS l') ''lpb'' = Some qb" by (auto simp: now order)
  ultimately show ?thesis using run tw ne q by (intro exI conjI) auto
qed

text \<open>
  Only the owner administers the contract. A call that changes the configuration, that is the
  owner, the schedule or the total weight, comes from the owner, and so does every successful
  registration or update of a staking token; the reward token never changes.
\<close>

lemma lp_owner_only:
  assumes std: "cosmwasm_std S" and inv: "lp_inv l" and run: "execute S D fb env l info m = Ok (l', r)"
  shows "(sender info = owner (CONFIG l) \<or>
      CONFIG l' = CONFIG l \<and> (\<nexists>t period w. m = RegisterStakingToken t period w)
      \<and> (\<nexists>t period w. m = UpdateStakingToken t period w))
    \<and> prism_token (CONFIG l') = prism_token (CONFIG l)"
proof (cases m)
  case (Receive c)
  then show ?thesis using run cosmwasm_std.receive_lp_Ok [OF std _ inv] by simp
next
  case (Unbond t a)
  with run obtain b where b: "unbond S env l info b a = Inr (l', r)" by (auto elim!: andThen_OkE)
  show ?thesis by (rule cosmwasm_std.unbond_Ok [OF std b inv]) (simp add: Unbond)
next
  case (ClaimUnbonded t)
  with run obtain b where b: "claim_unbonded S env l info b = Inr (l', r)" by (auto elim!: andThen_OkE)
  show ?thesis by (rule cosmwasm_std.claim_unbonded_Ok [OF std b inv]) (simp add: ClaimUnbonded)
next
  case (ClaimRewards t)
  with run obtain b where b: "claim_rewards S env l info b = Inr (l', r)" by (auto elim!: andThen_OkE)
  show ?thesis using cosmwasm_std.claim_rewards_Ok(1) [OF std b inv] by (simp add: ClaimRewards)
next
  case (AutoStakeHook t)
  with run obtain b where b: "auto_stake_hook S D env l b (sender info) = Inr (l', r)" by (auto elim!: andThen_OkE)
  show ?thesis by (rule cosmwasm_std.auto_stake_hook_Ok [OF std b inv]) (simp add: AutoStakeHook)
qed (use run inv in \<open>auto elim!: andThen_OkE dest: update_owner_Ok add_distribution_schedule_Ok
    cosmwasm_std.register_staking_token_Ok [OF std] cosmwasm_std.update_staking_token_Ok [OF std]\<close>)

lemma lp_owner_only_witness:
  "\<exists>l' r. execute cosmwasm_0_16 empty_deps (\<lambda>_. Inr Bond) (env_at 150) lp_example (from_user ''owner'')
      (RegisterStakingToken ''lpc'' 30 2) = Ok (l', r)
    \<and> total_weight (CONFIG l') = 4 \<and> prism_token (CONFIG l') = ''prism''"
proof -
  obtain l' r where run: "execute cosmwasm_0_16 empty_deps (\<lambda>_. Inr Bond) (env_at 150) lp_example (from_user ''owner'')
      (RegisterStakingToken ''lpc'' 30 2) = Ok (l', r)" and w: "total_weight (CONFIG l') = 4"
    by (simp add: register_staking_token_def lp_eval)
  from lp_owner_only [OF cosmwasm_0_16 lp_example_inv run] run w show ?thesis by (simp add: lp_example_def)
qed

end
