(* ===== verification/Solvency.thy ===== *)
theory Solvency
  imports Custody Xprism_Boost Gov_Properties Lp_Properties
begin

text \<open>
  The contracts that hold tokens for their users, as custodians in the sense of \<open>Custody\<close>: xPRISM in the boost
  contract (\<open>contracts/prism-xprism-boost\<close>) and in the governance contract (\<open>contracts/prism-gov\<close>), and the liquidity
  tokens in \<open>contracts/prism-lp-staking\<close>. A call is the message with everything the chain supplies: the answers to queries,
  the decoder of hooks, the block and the sender. For each contract the laws of the locale are proved from the lemmas of
  its theory, and the properties say what follows along any sequence of transactions.
\<close>


section \<open>The calls of the contracts\<close>

datatype boost_call =
  BoostExecute deps "binary \<Rightarrow> std_error + Xprism_Boost.cw20_hook_msg" env message_info Xprism_Boost.execute_msg

primrec run_boost ::
  "cosmwasm \<Rightarrow> boost_call \<Rightarrow> boost_state \<Rightarrow> (Xprism_Boost.contract_error, boost_state \<times> response) result" where
  "run_boost S (BoostExecute D fb env info m) st = Xprism_Boost.execute S D fb st env info m"

text \<open>A hook is called by the token after its transfer, so a call that is accepted has brought its amount.\<close>

primrec boost_brings :: "boost_call \<Rightarrow> boost_state \<Rightarrow> nat" where
  "boost_brings (BoostExecute D fb env info m) st =
     (case m of Xprism_Boost.Receive c \<Rightarrow> cw20_amount c | _ \<Rightarrow> 0)"

datatype gov_call =
    GovExecute deps "binary \<Rightarrow> std_error + Gov_Contract.cw20_hook_msg" env message_info Gov_Contract.execute_msg
  | GovReply deps reply

primrec run_gov :: "cosmwasm \<Rightarrow> gov_call \<Rightarrow> gov \<Rightarrow> gov_result" where
  "run_gov S (GovExecute D fb env info m) g = Gov_Contract.execute S D fb env g info m"
| "run_gov S (GovReply D rep) g = reply_gov D g rep"

primrec gov_brings :: "gov_call \<Rightarrow> gov \<Rightarrow> nat" where
  "gov_brings (GovExecute D fb env info m) g = inflow D g info m"
| "gov_brings (GovReply D rep) g = 0"

text \<open>The chain reads the two token addresses of the configuration in the same way in every call, as two tokens.\<close>

primrec names_tokens :: "addr \<Rightarrow> addr \<Rightarrow> gov_call \<Rightarrow> gov \<times> nat \<Rightarrow> bool" where
  "names_tokens prism xprism (GovExecute D fb env info m) gb = (token_addrs D (fst gb) = Ok (prism, xprism) \<and> prism \<noteq> xprism)"
| "names_tokens prism xprism (GovReply D rep) gb = True"

datatype lp_call =
  LpExecute deps "binary \<Rightarrow> std_error + Lp_Staking.cw20_hook_msg" env message_info Lp_Staking.execute_msg

primrec run_lp :: "cosmwasm \<Rightarrow> lp_call \<Rightarrow> lp \<Rightarrow> lp_result" where
  "run_lp S (LpExecute D fb env info m) l = Lp_Staking.execute S D fb env l info m"

primrec lp_brings :: "addr \<Rightarrow> lp_call \<Rightarrow> lp \<Rightarrow> nat" where
  "lp_brings t (LpExecute D fb env info m) l = lp_inflow t info m"

text \<open>\<open>AutoStakeHook\<close> asks the token for the contract's balance, which is the balance of the ledger.\<close>

primrec reports_balance :: "addr \<Rightarrow> lp_call \<Rightarrow> lp \<times> nat \<Rightarrow> bool" where
  "reports_balance t (LpExecute D fb env info m) lb =
     (case m of AutoStakeHook a \<Rightarrow> query_token_balance D t (contract_address env) = Ok (snd lb) | _ \<Rightarrow> True)"


section \<open>The boost contract\<close>

lemma run_boost_moves:
  assumes std: "cosmwasm_std S" and inv: "boost_inv st" and run: "run_boost S c st = Inr (st', r)"
  shows "boost_inv st' \<and> Xprism_Boost.xprism_token (Xprism_Boost.CONFIG st') = Xprism_Boost.xprism_token (Xprism_Boost.CONFIG st)
    \<and> total_locked st' + outflow (Xprism_Boost.xprism_token (Xprism_Boost.CONFIG st)) r = total_locked st + boost_brings c st"
proof (cases c)
  case (BoostExecute D fb env info m)
  with run have ex: "Xprism_Boost.execute S D fb st env info m = Inr (st', r)" by simp
  note inv' = boost_execute_inv [OF std inv ex]
  show ?thesis
  proof (cases m)
    case (Receive x)
    with ex obtain who where b: "Xprism_Boost.bond S D st env who (cw20_amount x) = Inr (st', r)"
      by (auto elim: Xprism_Boost.receive_cw20_OkE split: if_splits)
    have "r = []" "Xprism_Boost.CONFIG st' = Xprism_Boost.CONFIG st" by (rule cosmwasm_std.bond_OkE [OF std b]; simp)+
    then show ?thesis using cosmwasm_std.bond_locked [OF std b inv] inv' by (simp add: BoostExecute Receive)
  next
    case (UpdateConfig ow bo ma lp)
    with ex have "Xprism_Boost.update_config D st ow bo ma lp = Inr (st', r)" by (simp split: if_splits)
    from Xprism_Boost.update_config_frame [OF this] inv' show ?thesis
      by (simp add: BoostExecute UpdateConfig total_locked_def)
  next
    case (Unbond amount)
    with ex have u: "Xprism_Boost.unbond S st env info amount = Inr (st', r)" by simp
    obtain amt where amt: "total_locked st' + amt = total_locked st"
      "hd r = new_sub_msg (WasmExecute (Xprism_Boost.xprism_token (Xprism_Boost.CONFIG st)) (Cw20Transfer (sender info) amt))"
      using cosmwasm_std.unbond_locked [OF std u inv] by blast
    have "outflow (Xprism_Boost.xprism_token (Xprism_Boost.CONFIG st)) r = amt"
      by (rule cosmwasm_std.unbond_OkE [OF std u])
        (use amt(2) in \<open>auto simp: add_messages_def new_sub_msg_def split: option.splits\<close>)
    moreover have "Xprism_Boost.CONFIG st' = Xprism_Boost.CONFIG st" by (rule cosmwasm_std.unbond_OkE [OF std u]) simp
    ultimately show ?thesis using amt(1) inv' by (simp add: BoostExecute Unbond)
  qed
qed

sublocale cosmwasm_std \<subseteq> boost_ledger: exact_custodian "run_boost S" boost_brings tok "\<lambda>_ _. True"
  "\<lambda>st. boost_inv st \<and> Xprism_Boost.xprism_token (Xprism_Boost.CONFIG st) = tok" total_locked for tok
  by unfold_locales (use run_boost_moves [OF cosmwasm_std_axioms] in auto)

interpretation boost_xprism: exact_custodian "run_boost cosmwasm_0_16" boost_brings "''xprism''" "\<lambda>_ _. True"
  "\<lambda>st. boost_inv st \<and> Xprism_Boost.xprism_token (Xprism_Boost.CONFIG st) = ''xprism''" total_locked
  by unfold_locales


section \<open>The governance contract\<close>

definition gov_books :: "gov \<Rightarrow> bool" where
  "gov_books g \<longleftrightarrow> gov_inv g \<and> config_ok g \<and> Gov_State.xprism_token (Gov_State.CONFIG g) \<noteq> None"

lemma run_gov_moves:
  assumes std: "cosmwasm_std S" and books: "gov_books g" and ok: "names_tokens prism xprism c (g, bal)"
    and run: "run_gov S c g = Inr (g', r)"
  shows "gov_books g' \<and> xprism_owed g' + outflow xprism r = xprism_owed g + gov_brings c g"
proof (cases c)
  case (GovExecute D fb env info m)
  have inv: "gov_inv g" "config_ok g" "Gov_State.xprism_token (Gov_State.CONFIG g) \<noteq> None"
    using books by (simp_all add: gov_books_def)
  from run have ex: "Gov_Contract.execute S D fb env g info m = Inr (g', r)" by (simp add: GovExecute)
  have "Gov_State.xprism_token (Gov_State.CONFIG g') = Gov_State.xprism_token (Gov_State.CONFIG g)"
    using gov_owner_only [OF std inv(1,2) ex] by (cases "Gov_State.CONFIG g' = Gov_State.CONFIG g") simp_all
  then show ?thesis
    using cosmwasm_std.execute_inv [OF std ex inv(1,2)] gov_xprism_custody [OF std inv(1,2) ex] ok inv(3)
    by (simp add: GovExecute gov_books_def)
next
  case (GovReply D rep)
  have inv: "gov_inv g" "config_ok g" "Gov_State.xprism_token (Gov_State.CONFIG g) \<noteq> None"
    using books by (simp_all add: gov_books_def)
  from run have rp: "reply_gov D g rep = Inr (g', r)" by (simp add: GovReply)
  have "reply_id rep = POLL_EXECUTE_REPLY_ID"
    using rp inv(3) by (auto simp: reply_gov_def set_xprism_token_def Let_def split: if_splits)
  with rp obtain pid where tmp: "TMP_POLL_ID g = Some pid" and f: "failed_poll g pid = Inr (g', r)"
    by (auto simp: reply_gov_def read_tmp_poll_id_def result_simps)
  have "r = []" "Gov_State.CONFIG g' = Gov_State.CONFIG g"
    using f by (auto simp: failed_poll_def result_simps save_poll_def save_index_def remove_index_def)
  then show ?thesis using failed_poll_owed [OF f inv(1) tmp] reply_gov_inv [OF rp inv(1,2)] inv(3)
    by (simp add: GovReply gov_books_def)
qed

sublocale cosmwasm_std \<subseteq> gov_ledger: exact_custodian "run_gov S" gov_brings xprism "names_tokens prism xprism"
  gov_books xprism_owed for prism xprism
  by unfold_locales (use run_gov_moves [OF cosmwasm_std_axioms] in blast)+

interpretation gov_xprism: exact_custodian "run_gov cosmwasm_0_16" gov_brings "''xprism''" "names_tokens ''prism'' ''xprism''"
  gov_books xprism_owed
  by unfold_locales


section \<open>Staking of liquidity tokens\<close>

lemma run_lp_keeps:
  assumes std: "cosmwasm_std S" and inv: "lp_inv l" and t: "t \<noteq> Lp_Staking.prism_token (Lp_Staking.CONFIG l)"
    and ok: "reports_balance t c (l, bal)" and le: "held l t \<le> bal" and run: "run_lp S c l = Inr (l', r)"
  shows "lp_inv l' \<and> t \<noteq> Lp_Staking.prism_token (Lp_Staking.CONFIG l') \<and> held l' t + outflow t r \<le> bal + lp_brings t c l"
proof (cases c)
  case (LpExecute D fb env info m)
  from run have ex: "Lp_Staking.execute S D fb env l info m = Inr (l', r)" by (simp add: LpExecute)
  have keeps: "lp_inv l'" "Lp_Staking.prism_token (Lp_Staking.CONFIG l') = Lp_Staking.prism_token (Lp_Staking.CONFIG l)"
    using cosmwasm_std.lp_execute_inv [OF std ex inv] lp_owner_only [OF std inv ex] by simp_all
  have "held l' t + outflow t r \<le> bal + lp_inflow t info m"
  proof (cases "\<exists>a. m = AutoStakeHook a")
    case True
    then obtain a where m: "m = AutoStakeHook a" ..
    with ex obtain b where h: "auto_stake_hook S D env l b (sender info) = Inr (l', r)" by (auto elim!: andThen_OkE)
    show ?thesis by (rule cosmwasm_std.auto_stake_hook_Ok [OF std h inv]) (use ok le in \<open>auto simp: LpExecute m\<close>)
  next
    case False
    then show ?thesis using cosmwasm_std.lp_execute_held [OF std ex inv _ t] le by auto
  qed
  then show ?thesis using keeps t by (simp add: LpExecute)
qed

sublocale cosmwasm_std \<subseteq> lp_ledger: custodian "run_lp S" "lp_brings t" t "reports_balance t"
  "\<lambda>l. lp_inv l \<and> t \<noteq> Lp_Staking.prism_token (Lp_Staking.CONFIG l)" "\<lambda>l. held l t" for t
  by unfold_locales (use run_lp_keeps [OF cosmwasm_std_axioms] in blast)

interpretation lp_token: custodian "run_lp cosmwasm_0_16" "lp_brings ''lp''" "''lp''" "reports_balance ''lp''"
  "\<lambda>l. lp_inv l \<and> ''lp'' \<noteq> Lp_Staking.prism_token (Lp_Staking.CONFIG l)" "\<lambda>l. held l ''lp''"
  by unfold_locales

context cosmwasm_std
begin

lemmas boost_solvent = boost_ledger.solvent and boost_exact = boost_ledger.exact
lemmas gov_solvent = gov_ledger.solvent
lemmas lp_solvent = lp_ledger.solvent

end


section \<open>Properties\<close>

text \<open>
  C5: the boost contract is always solvent. From its instantiation on, whatever messages anybody sends in whatever
  order, its xPRISM balance is exactly the sum of the locked amounts, no transaction is undone for lack of xPRISM, and
  every user can take out the whole locked amount at any time: the call succeeds and the balance covers it.
\<close>

theorem boost_always_solvent:
  assumes std: "cosmwasm_std S" and init: "instantiate_boost D0 msg = Ok (st0, r0)"
    and tok: "tok = Xprism_Boost.xprism_token (Xprism_Boost.CONFIG st0)"
    and run: "transact_all (run_boost S) boost_brings tok calls (st0, 0) = (st, bal)"
  shows "bal = total_locked st \<and> never_short (run_boost S) boost_brings tok calls (st0, 0)
    \<and> (\<forall>who u D fb env coins. get (USER_INFO st) who = Some u \<longrightarrow>
      (\<exists>st' r. Xprism_Boost.execute S D fb st env \<lparr>sender = who, funds = coins\<rparr> (Xprism_Boost.Unbond None) = Ok (st', r)
        \<and> hd r = new_sub_msg (WasmExecute tok (Cw20Transfer who (amt_bonded u)))
        \<and> outflow tok r = amt_bonded u \<and> amt_bonded u \<le> bal \<and> get (USER_INFO st') who = None))"
proof -
  let ?inv = "\<lambda>st. boost_inv st \<and> Xprism_Boost.xprism_token (Xprism_Boost.CONFIG st) = tok"
  have st0: "?inv st0" "total_locked st0 = 0" using init tok
    by (auto simp: instantiate_boost_def result_simps boost_inv_def total_locked_def wf_store_def split: if_splits)
  have adm: "admissible (run_boost S) boost_brings tok (\<lambda>_ _. True) calls (st0, 0)" by (rule admissible_all) simp
  have le: "total_locked st0 \<le> 0" using st0(2) by simp
  note ledger = cosmwasm_std.boost_solvent [OF std st0(1) le adm run]
    cosmwasm_std.boost_exact [OF std st0(1) le adm run]
  have inv: "boost_inv st" "Xprism_Boost.xprism_token (Xprism_Boost.CONFIG st) = tok" and bal: "bal = total_locked st"
    using ledger st0(2) by simp_all
  have "\<exists>st' r. Xprism_Boost.execute S D fb st env \<lparr>sender = who, funds = coins\<rparr> (Xprism_Boost.Unbond None) = Ok (st', r)
        \<and> hd r = new_sub_msg (WasmExecute tok (Cw20Transfer who (amt_bonded u)))
        \<and> outflow tok r = amt_bonded u \<and> amt_bonded u \<le> bal \<and> get (USER_INFO st') who = None"
    if u: "get (USER_INFO st) who = Some u" for who u D fb env coins
    using u locked_le_total [OF inv(1) u]
    by (auto simp: Xprism_Boost.unbond_def u uchecked_sub_def cosmwasm_std.checked_sub_law [OF std] inv(2) bal get_del
        add_messages_def new_sub_msg_def Let_def split: option.splits)
  then show ?thesis using bal ledger(1) by blast
qed

definition boost_calls_example :: "boost_call list" where
  "boost_calls_example =
     [BoostExecute empty_deps (\<lambda>_. Inr (Xprism_Boost.Bond None)) (env_at 100) (from_user ''xprism'')
        (Xprism_Boost.Receive \<lparr>cw20_sender = ''alice'', cw20_amount = 40, cw20_msg = []\<rparr>),
      BoostExecute empty_deps (\<lambda>_. Inr (Xprism_Boost.Bond None)) (env_at 200) (from_user ''xprism'')
        (Xprism_Boost.Receive \<lparr>cw20_sender = ''bob'', cw20_amount = 10, cw20_msg = []\<rparr>),
      BoostExecute empty_deps (\<lambda>_. Inl NotFound) (env_at 300) (from_user ''mallory'') (Xprism_Boost.Unbond (Some 5)),
      BoostExecute empty_deps (\<lambda>_. Inl NotFound) (env_at 7300) (from_user ''bob'') (Xprism_Boost.Unbond (Some 4))]"

definition boost_fresh :: boost_state where
  "boost_fresh = \<lparr>Xprism_Boost.boost_state.CONFIG = \<lparr>Xprism_Boost.config.owner = ''owner'', Xprism_Boost.config.xprism_token = ''xprism'',
     boost_per_hour = 5 * 10 ^ 17, max_boost_per_xprism = 100, Xprism_Boost.config.launch_pool_contract = None\<rparr>,
     Xprism_Boost.boost_state.USER_INFO = []\<rparr>"

theorem boost_always_solvent_witness:
  "\<exists>st. instantiate_boost empty_deps boost_instantiate_example = Ok (boost_fresh, [])
    \<and> transact_all (run_boost cosmwasm_0_16) boost_brings ''xprism'' boost_calls_example (boost_fresh, 0) = (st, 46)
    \<and> total_locked st = 46
    \<and> (\<exists>st' r. Xprism_Boost.execute cosmwasm_0_16 empty_deps (\<lambda>_. Inl NotFound) st (env_at 7400) \<lparr>sender = ''alice'', funds = []\<rparr>
        (Xprism_Boost.Unbond None) = Ok (st', r) \<and> outflow ''xprism'' r = 40)"
proof -
  have init: "instantiate_boost empty_deps boost_instantiate_example = Ok (boost_fresh, [])"
    by (simp add: instantiate_boost_def boost_instantiate_example_def boost_fresh_def Xprism_Boost.MAX_BOOST_PER_HOUR_def cw_eval)
  have tok: "''xprism'' = Xprism_Boost.xprism_token (Xprism_Boost.CONFIG boost_fresh)" by (simp add: boost_fresh_def)
  obtain st where run: "transact_all (run_boost cosmwasm_0_16) boost_brings ''xprism'' boost_calls_example (boost_fresh, 0) = (st, 46)"
    and alice: "\<exists>u. get (USER_INFO st) ''alice'' = Some u \<and> amt_bonded u = 40"
    by (simp add: boost_calls_example_def boost_fresh_def transact_def Xprism_Boost.boost_eval)
  from alice obtain u where u: "get (USER_INFO st) ''alice'' = Some u" "amt_bonded u = 40" by blast
  note solvent = boost_always_solvent [OF cosmwasm_0_16 init tok run]
  then obtain st' r where "Xprism_Boost.execute cosmwasm_0_16 empty_deps (\<lambda>_. Inl NotFound) st (env_at 7400)
      \<lparr>sender = ''alice'', funds = []\<rparr> (Xprism_Boost.Unbond None) = Ok (st', r)" "outflow ''xprism'' r = 40"
    using u by metis
  then show ?thesis using init run solvent by auto
qed

text \<open>
  C4: the governance contract always covers what it owes in xPRISM. From any state with the
  invariant, as every reachable one, whose books are covered, whatever is called and whichever polls fail in between, the
  stakes, the deposits of open polls and the queued redemptions never exceed the xPRISM balance, and no transaction is
  undone for lack of xPRISM. The balance counts the xPRISM that calls bring and that the contract's messages take away;
  xPRISM that reaches the contract otherwise (a plain transfer, or a mint with the contract as receiver) would only add
  to it. The messages of executed polls are not counted as the contract's own.
\<close>

theorem gov_always_solvent:
  assumes std: "cosmwasm_std S" and inv: "gov_inv g0" "config_ok g0" and set: "Gov_State.xprism_token (Gov_State.CONFIG g0) \<noteq> None"
    and cover: "xprism_owed g0 \<le> bal0"
    and names: "admissible (run_gov S) gov_brings xprism (names_tokens prism xprism) calls (g0, bal0)"
    and run: "transact_all (run_gov S) gov_brings xprism calls (g0, bal0) = (g, bal)"
  shows "gov_inv g \<and> xprism_owed g \<le> bal
    \<and> never_short (run_gov S) gov_brings xprism calls (g0, bal0)"
proof -
  have "gov_books g0" using inv set by (simp add: gov_books_def)
  from cosmwasm_std.gov_solvent [OF std this cover names run] show ?thesis by (auto simp: gov_books_def)
qed

definition gov_calls_example :: "gov_call list" where
  "gov_calls_example =
     [GovExecute gov_chain (\<lambda>_. Inl NotFound) (env_at 210) (from_user ''bob'') ClaimRedeemedXprism,
      GovExecute gov_chain (\<lambda>_. Inl NotFound) (env_at 210) (from_user ''alice'') (WithdrawVotingTokens (Some 100))]"

definition gov_claimed :: gov where
  "gov_claimed = gov_example\<lparr>WITHDRAW_ORDERS := [((''bob'', 900), (20, 14))], TOTAL_PENDING_WITHDRAW := (20, 14)\<rparr>"

theorem gov_always_solvent_witness:
  "\<exists>g. xprism_owed gov_example = 435
    \<and> transact_all (run_gov cosmwasm_0_16) gov_brings ''xprism'' gov_calls_example (gov_example, 440) = (g, 330)
    \<and> xprism_owed g \<le> 330 \<and> never_short (run_gov cosmwasm_0_16) gov_brings ''xprism'' gov_calls_example (gov_example, 440)"
proof -
  have owed: "xprism_owed gov_example = 435"
    by (simp add: xprism_owed_def total_deposits_def poll_deposits_def gov_example_def poll_open_def poll_passed_def)
  have "\<exists>r. run_gov cosmwasm_0_16 (hd gov_calls_example) gov_example = Inr (gov_claimed, r) \<and> outflow ''xprism'' r = 10"
    by (simp add: gov_calls_example_def gov_claimed_def xprism_eval outflow_def gov_eval)
  then have one: "transact (run_gov cosmwasm_0_16) gov_brings ''xprism'' (hd gov_calls_example) (gov_example, 440) = (gov_claimed, 430)"
    by (auto simp: transact_def gov_calls_example_def inflow_def)
  have "\<exists>g r. run_gov cosmwasm_0_16 (gov_calls_example ! 1) gov_claimed = Inr (g, r) \<and> outflow ''xprism'' r = 100"
    by (simp add: gov_calls_example_def gov_claimed_def withdraw_voting_tokens_def send_tokens_def compute_locked_balance_def
        outflow_def gov_eval)
  then obtain g where two: "transact (run_gov cosmwasm_0_16) gov_brings ''xprism'' (gov_calls_example ! 1) (gov_claimed, 430) = (g, 330)"
    by (auto simp: transact_def gov_calls_example_def inflow_def)
  have run: "transact_all (run_gov cosmwasm_0_16) gov_brings ''xprism'' gov_calls_example (gov_example, 440) = (g, 330)"
    using one two by (simp add: gov_calls_example_def)
  have names: "admissible (run_gov cosmwasm_0_16) gov_brings ''xprism'' (names_tokens ''prism'' ''xprism'') gov_calls_example (gov_example, 440)"
    using one by (simp add: gov_calls_example_def) (simp add: token_addrs_def gov_claimed_def gov_eval)
  have "Gov_State.xprism_token (Gov_State.CONFIG gov_example) \<noteq> None" by (simp add: gov_example_def)
  from gov_always_solvent [OF cosmwasm_0_16 gov_example_inv gov_example_config this _ names run] run owed
  show ?thesis by auto
qed

text \<open>
  C7: the staking contract always covers the liquidity tokens of its stakers. For any token other than PRISM, from any
  state with the invariant, as every reachable one, whose books are covered, whatever is called, the bonds and the pending withdrawals of the
  token never exceed the balance, and no transaction is undone for lack of the token. \<open>AutoStakeHook\<close>, which bonds what the
  balance has beyond the books, is included: it relies on the token reporting the true balance.
\<close>

theorem lp_always_solvent:
  assumes std: "cosmwasm_std S" and inv: "lp_inv l0" and t: "t \<noteq> Lp_Staking.prism_token (Lp_Staking.CONFIG l0)"
    and cover: "held l0 t \<le> bal0"
    and reports: "admissible (run_lp S) (lp_brings t) t (reports_balance t) calls (l0, bal0)"
    and run: "transact_all (run_lp S) (lp_brings t) t calls (l0, bal0) = (l, bal)"
  shows "lp_inv l \<and> held l t \<le> bal \<and> never_short (run_lp S) (lp_brings t) t calls (l0, bal0)"
proof -
  have "lp_inv l0 \<and> t \<noteq> Lp_Staking.prism_token (Lp_Staking.CONFIG l0)" using inv t by simp
  from cosmwasm_std.lp_solvent [OF std this cover reports run] show ?thesis by blast
qed

definition lp_calls_example :: "lp_call list" where
  "lp_calls_example =
     [LpExecute empty_deps (\<lambda>_. Inr Lp_Staking.Bond) (env_at 150) (from_user ''alice'') (Lp_Staking.ClaimUnbonded ''lpa''),
      LpExecute empty_deps (\<lambda>_. Inr Lp_Staking.Bond) (env_at 150) (from_user ''bob'') (Lp_Staking.Unbond ''lpb'' (Some 60))]"

theorem lp_always_solvent_witness:
  "\<exists>l. transact_all (run_lp cosmwasm_0_16) (lp_brings ''lpa'') ''lpa'' lp_calls_example (lp_example, 125)
      = (l, 113)
    \<and> held lp_example ''lpa'' = 125 \<and> lp_inv l \<and> held l ''lpa'' \<le> 113"
proof -
  have held: "held lp_example ''lpa'' = 125" by (simp add: held_def lp_example_def get_def lp_pool_def)
  obtain l where run: "transact_all (run_lp cosmwasm_0_16) (lp_brings ''lpa'') ''lpa'' lp_calls_example
      (lp_example, 125) = (l, 113)"
    by (simp add: lp_calls_example_def transact_def Lp_Staking.claim_unbonded_def Lp_Staking.unbond_def lp_eval outflow_def
        lp_inflow_def)
  have reports: "admissible (run_lp cosmwasm_0_16) (lp_brings ''lpa'') ''lpa'' (reports_balance ''lpa'') lp_calls_example
      (lp_example, 125)" by (simp add: lp_calls_example_def)
  have "''lpa'' \<noteq> Lp_Staking.prism_token (Lp_Staking.CONFIG lp_example)" by (simp add: lp_example_def)
  from lp_always_solvent [OF cosmwasm_0_16 lp_example_inv this _ reports run] run held show ?thesis by auto
qed

end
