(* ===== verification/Prismswap.thy ===== *)
theory Prismswap
  imports Cosmwasm
begin

text \<open>
  The parts of \<open>packages/prismswap\<close> that the contracts call: the operations on assets of
  \<open>asset.rs\<close> and the balance queries of \<open>querier.rs\<close>.
\<close>


section \<open>Definitions\<close>

text \<open>\<open>querier.rs\<close>: native balances and pairs.\<close>

definition query_balance :: "deps \<Rightarrow> addr \<Rightarrow> string \<Rightarrow> (std_error, nat) result" where
  "query_balance D account_addr d = from_answer (q_bank_balance D account_addr d)"

definition query_all_balances :: "deps \<Rightarrow> addr \<Rightarrow> (std_error, coin list) result" where
  "query_all_balances D account_addr = from_answer (q_all_balances D account_addr)"

definition query_pair_info :: "deps \<Rightarrow> addr \<Rightarrow> asset_info \<times> asset_info \<Rightarrow> (std_error, pair_info) result" where
  "query_pair_info D factory_contract infos = from_answer (q_pair_info D factory_contract infos)"

text \<open>\<open>asset.rs\<close>: an asset is a cw20 token or a native denomination.\<close>

fun is_native_token :: "asset_info \<Rightarrow> bool" where
  "is_native_token (Cw20 a) = False"
| "is_native_token (Native d) = True"

fun query_pool :: "deps \<Rightarrow> asset_info \<Rightarrow> addr \<Rightarrow> (std_error, nat) result" where
  "query_pool D (Cw20 contract_addr) pool_addr = query_token_balance D contract_addr pool_addr"
| "query_pool D (Native d) pool_addr = query_balance D pool_addr d"

fun as_bytes :: "asset_info \<Rightarrow> string" where
  "as_bytes (Native d) = d"
| "as_bytes (Cw20 contract_addr) = contract_addr"

fun asset_info_to_string_legacy :: "asset_info \<Rightarrow> string" where
  "asset_info_to_string_legacy (Cw20 contract_addr) = contract_addr"
| "asset_info_to_string_legacy (Native d) = d"

fun check :: "deps \<Rightarrow> asset_info \<Rightarrow> (std_error, unit) result" where
  "check D (Cw20 a) = andThen (addr_validate D a) (\<lambda>_. Ok ())"
| "check D (Native d) = Ok ()"

definition query_pools :: "deps \<Rightarrow> pair_info \<Rightarrow> addr \<Rightarrow> (std_error, asset \<times> asset) result" where
  "query_pools D p contract_addr =
     andThen (query_pool D (fst (asset_infos p)) contract_addr) (\<lambda>a.
     andThen (query_pool D (snd (asset_infos p)) contract_addr) (\<lambda>b.
     Ok (\<lparr>asset_of = fst (asset_infos p), asset_amount = a\<rparr>, \<lparr>asset_of = snd (asset_infos p), asset_amount = b\<rparr>)))"

definition into_swap_msg :: "asset \<Rightarrow> addr \<Rightarrow> decimal option \<Rightarrow> string option \<Rightarrow> cosmos_msg" where
  "into_swap_msg a pair_contract max_spread to =
     (case asset_of a of
       Native d \<Rightarrow> WasmExecuteFunds pair_contract (PairSwap a None max_spread to)
         [\<lparr>denom = d, coin_amount = asset_amount a\<rparr>]
     | Cw20 contract_addr \<Rightarrow> WasmExecute contract_addr
         (Cw20Send pair_contract (asset_amount a) (PairSwap a None max_spread to)))"

definition balance_mismatch :: std_error where
  "balance_mismatch = GenericErr ''Native token balance mismatch between the argument and the transferred''"

definition assert_sent_native_token_balance :: "asset \<Rightarrow> message_info \<Rightarrow> (std_error, unit) result" where
  "assert_sent_native_token_balance a info =
     (case asset_of a of
       Native d \<Rightarrow>
         (case find (\<lambda>c. denom c = d) (funds info) of
           Some c \<Rightarrow> if asset_amount a = coin_amount c then Ok () else Fail balance_mismatch
         | None \<Rightarrow> if asset_amount a = 0 then Ok () else Fail balance_mismatch)
     | Cw20 _ \<Rightarrow> Ok ())"

definition asset_to_string_legacy :: "asset \<Rightarrow> string" where
  "asset_to_string_legacy a = asset_info_to_string_legacy (asset_of a) @ '':'' @ show_nat (asset_amount a)"


section \<open>Lemmas\<close>

text \<open>A token and a denomination of the same name share their key; two tokens never do.\<close>

lemma as_bytes_Cw20_inject [simp]:
  "\<not> is_native_token a \<Longrightarrow> \<not> is_native_token b \<Longrightarrow> as_bytes a = as_bytes b \<longleftrightarrow> a = b"
  by (cases a; cases b) auto

lemma not_native_iff: "\<not> is_native_token a \<longleftrightarrow> (\<exists>t. a = Cw20 t)"
  by (cases a) auto

end
