(* ===== verification/Prismswap_Messages.thy ===== *)
theory Prismswap_Messages
  imports Prismswap
begin

text \<open>
  The interfaces of the exchange in \<open>packages/prismswap\<close>: the messages and checks of a token (\<open>token.rs\<close>), of the
  factory with its fees (\<open>factory.rs\<close>), of the router (\<open>router.rs\<close>) and of a pair (\<open>pair.rs\<close>), and the queries of
  \<open>querier.rs\<close> that forward to them. The exchange contracts themselves are not in the repository: their answers are the
  fields of the record \<open>exchange\<close>, and \<open>Decimal::from_str\<close> is an argument of the fee definitions.
\<close>


section \<open>Definitions\<close>

subsection \<open>Tokens\<close>

definition get_cap :: "token_instantiate_msg \<Rightarrow> nat option" where
  "get_cap msg = Option.bind (token_mint msg) minter_cap"

definition is_valid_name :: "string \<Rightarrow> bool" where
  "is_valid_name name = (let n = length name in if n < 3 \<or> n > 50 then False else True)"

fun symbol_bytes_ok :: "nat list \<Rightarrow> bool" where
  "symbol_bytes_ok [] = True"
| "symbol_bytes_ok (byte # rest) =
     (if byte \<noteq> 45 \<and> (byte < 65 \<or> byte > 90) \<and> (byte < 97 \<or> byte > 122) then False else symbol_bytes_ok rest)"

definition is_valid_symbol :: "string \<Rightarrow> bool" where
  "is_valid_symbol symbol = (let bytes = map of_char symbol in
     if length bytes < 3 \<or> length bytes > 12 then False else symbol_bytes_ok bytes)"

definition validate :: "token_instantiate_msg \<Rightarrow> (std_error, unit) result" where
  "validate msg =
     (if \<not> is_valid_name (token_name msg)
      then Fail (GenericErr ''Name is not in the expected format (3-50 UTF-8 bytes)'')
      else if \<not> is_valid_symbol (token_symbol msg)
      then Fail (GenericErr (''Ticker symbol is not in expected format [a-zA-Z'' @ [CHR 0x5C] @ ''-]{3,12}''))
      else if token_decimals msg > 18 then Fail (GenericErr ''Decimals must not exceed 18'')
      else Ok ())"

subsection \<open>Fees of the factory\<close>

definition DEFAULT_TOTAL_FEE :: string where
  "DEFAULT_TOTAL_FEE = ''0.003''"

definition MAX_TOTAL_FEE :: string where
  "MAX_TOTAL_FEE = ''0.05''"

definition DEFAULT_PROTOCOL_FEE :: string where
  "DEFAULT_PROTOCOL_FEE = ''0.5''"

definition MAX_PROTOCOL_FEE :: string where
  "MAX_PROTOCOL_FEE = ''0.8''"

record fee_config =
  total_fee :: decimal
  protocol_fee :: decimal

text \<open>\<open>unwrap\<close> panics on a text that is not a decimal; the second bound is only parsed when the first holds.\<close>

definition unwrap_decimal :: "(string \<Rightarrow> std_error + decimal) \<Rightarrow> string \<Rightarrow> ('e, decimal) result" where
  "unwrap_decimal from_str s = or_panic (case from_str s of Inl _ \<Rightarrow> None | Inr d \<Rightarrow> Some d)"

definition is_valid :: "(string \<Rightarrow> std_error + decimal) \<Rightarrow> fee_config \<Rightarrow> ('e, bool) result" where
  "is_valid from_str f =
     andThen (unwrap_decimal from_str MAX_TOTAL_FEE) (\<lambda>max_total.
     if \<not> total_fee f \<le> max_total then Ok False
     else andThen (unwrap_decimal from_str MAX_PROTOCOL_FEE) (\<lambda>max_protocol. Ok (protocol_fee f \<le> max_protocol)))"

definition default_fee_config :: "(string \<Rightarrow> std_error + decimal) \<Rightarrow> ('e, fee_config) result" where
  "default_fee_config from_str =
     andThen (unwrap_decimal from_str DEFAULT_TOTAL_FEE) (\<lambda>t.
     andThen (unwrap_decimal from_str DEFAULT_PROTOCOL_FEE) (\<lambda>p.
     Ok \<lparr>total_fee = t, protocol_fee = p\<rparr>))"

subsection \<open>Messages of the factory\<close>

record factory_instantiate_msg =
  fim_token_code_id :: nat
  fim_pair_code_id :: nat
  fim_collector :: addr
  fim_owner :: addr

datatype factory_execute_msg =
    FactoryUpdateConfig "nat option" "nat option" "addr option" "addr option"
  | UpdatePairConfig "asset_info \<times> asset_info" fee_config
  | CreatePair "asset_info \<times> asset_info" "fee_config option"
  | Deregister "asset_info \<times> asset_info"

datatype factory_query_msg =
    FactoryConfig
  | FactoryPair "asset_info \<times> asset_info"
  | PairConfig "asset_info \<times> asset_info"
  | Pairs "(asset_info \<times> asset_info) option" "nat option"
  | PairsConfig "(asset_info \<times> asset_info) option" "nat option"
  | FeeInfo "asset_info \<times> asset_info"

record factory_config_response =
  fcr_owner :: addr
  fcr_token_code_id :: nat
  fcr_pair_code_id :: nat
  fcr_collector :: addr

record pair_config_response =
  pcr_pair_info :: pair_info
  pcr_fee_config :: fee_config

record pairs_response =
  pairs :: "pair_info list"

record pairs_config_response =
  pairs_config :: "pair_config_response list"

record fee_info_response =
  fir_fee_config :: fee_config
  fir_collector :: addr

subsection \<open>Messages of the router\<close>

definition MAX_SWAP_OPERATIONS :: nat where
  "MAX_SWAP_OPERATIONS = 50"

record router_instantiate_msg =
  rim_factory :: addr

fun get_target_asset_info :: "swap_operation \<Rightarrow> asset_info" where
  "get_target_asset_info (NativeSwap offer_denom ask_denom) = Native ask_denom"
| "get_target_asset_info (PrismSwap offer_asset_info ask_asset_info) = ask_asset_info"

datatype router_execute_msg =
    RouterReceive cw20_receive_msg
  | ExecuteSwapOperations "swap_operation list" "nat option" "addr option"
  | ExecuteSwapOperation swap_operation "addr option"
  | AssertMinimumReceive asset_info nat nat addr

datatype router_cw20_hook_msg = HookExecuteSwapOperations "swap_operation list" "nat option" "addr option"

datatype router_query_msg = RouterConfig | SimulateSwapOperations nat "swap_operation list"

record router_config_response =
  rcr_factory :: addr

record simulate_swap_operations_response =
  swap_amount :: nat

subsection \<open>Messages of a pair\<close>

definition DEFAULT_SLIPPAGE :: string where
  "DEFAULT_SLIPPAGE = ''0.005''"

definition MAX_ALLOWED_SLIPPAGE :: string where
  "MAX_ALLOWED_SLIPPAGE = ''0.5''"

record pair_instantiate_msg =
  pim_asset_infos :: "asset_info \<times> asset_info"
  pim_token_code_id :: nat
  pim_factory :: addr

datatype pair_execute_msg =
    PairReceive cw20_receive_msg
  | ProvideLiquidity "asset \<times> asset" "decimal option" "string option"
  | Swap asset "decimal option" "decimal option" "string option"

datatype pair_cw20_hook_msg =
    HookSwap "decimal option" "decimal option" "string option"
  | WithdrawLiquidity

datatype pair_query_msg =
    PairInfoQuery
  | Pool
  | PairConfigQuery
  | Simulation asset
  | ReverseSimulation asset

record pair_contract_config_response =
  pccr_pair_info :: pair_info
  pccr_factory :: addr

record pool_response =
  pool_assets :: "asset \<times> asset"
  total_share :: nat

record simulation_response =
  sim_return_amount :: nat
  sim_spread_amount :: nat
  sim_commission_amount :: nat

record reverse_simulation_response =
  rev_offer_amount :: nat
  rev_spread_amount :: nat
  rev_commission_amount :: nat

subsection \<open>Queries\<close>

text \<open>What the exchange and a token answer to a query, by the contract that is asked and the message.\<close>

record exchange =
  ex_token_symbol :: "addr \<Rightarrow> std_error + string" \<comment> \<open>of the token's \<open>TokenInfoResponse\<close>\<close>
  ex_factory_config :: "addr \<Rightarrow> factory_query_msg \<Rightarrow> std_error + factory_config_response"
  ex_fee_info :: "addr \<Rightarrow> factory_query_msg \<Rightarrow> std_error + fee_info_response"
  ex_pairs :: "addr \<Rightarrow> factory_query_msg \<Rightarrow> std_error + pairs_response"
  ex_simulation :: "addr \<Rightarrow> pair_query_msg \<Rightarrow> std_error + simulation_response"
  ex_reverse_simulation :: "addr \<Rightarrow> pair_query_msg \<Rightarrow> std_error + reverse_simulation_response"

definition query_token_symbol :: "exchange \<Rightarrow> addr \<Rightarrow> (std_error, string) result" where
  "query_token_symbol X contract_addr = from_answer (ex_token_symbol X contract_addr)"

definition query_factory_config :: "exchange \<Rightarrow> addr \<Rightarrow> (std_error, factory_config_response) result" where
  "query_factory_config X factory_contract = from_answer (ex_factory_config X factory_contract FactoryConfig)"

definition query_fee_info :: "exchange \<Rightarrow> addr \<Rightarrow> asset_info \<times> asset_info \<Rightarrow> (std_error, fee_info_response) result" where
  "query_fee_info X factory_contract infos = from_answer (ex_fee_info X factory_contract (FeeInfo infos))"

definition query_pairs_info ::
  "exchange \<Rightarrow> addr \<Rightarrow> (asset_info \<times> asset_info) option \<Rightarrow> nat option \<Rightarrow> (std_error, pairs_response) result" where
  "query_pairs_info X factory_contract start_after limit = from_answer (ex_pairs X factory_contract (Pairs start_after limit))"

definition simulate :: "exchange \<Rightarrow> addr \<Rightarrow> asset \<Rightarrow> (std_error, simulation_response) result" where
  "simulate X pair_contract offer_asset = from_answer (ex_simulation X pair_contract (Simulation offer_asset))"

definition reverse_simulate :: "exchange \<Rightarrow> addr \<Rightarrow> asset \<Rightarrow> (std_error, reverse_simulation_response) result" where
  "reverse_simulate X pair_contract ask_asset = from_answer (ex_reverse_simulation X pair_contract (ReverseSimulation ask_asset))"


section \<open>Lemmas\<close>

definition symbol_char :: "char \<Rightarrow> bool" where
  "symbol_char c \<longleftrightarrow> c = CHR ''-'' \<or> CHR ''A'' \<le> c \<and> c \<le> CHR ''Z'' \<or> CHR ''a'' \<le> c \<and> c \<le> CHR ''z''"

lemma symbol_byte: "symbol_char c \<longleftrightarrow> (of_char c = (45::nat) \<or> 65 \<le> (of_char c::nat) \<and> of_char c \<le> (90::nat)
    \<or> 97 \<le> (of_char c::nat) \<and> of_char c \<le> (122::nat))"
proof -
  have "c = CHR ''-'' \<longleftrightarrow> of_char c = (of_char CHR ''-'' :: nat)" by (simp only: of_char_eq_iff)
  then show ?thesis by (simp add: symbol_char_def less_eq_char_def)
qed

text \<open>The loop over the bytes accepts the character class of the error message.\<close>

lemma is_valid_symbol_iff: "is_valid_symbol s \<longleftrightarrow> 3 \<le> length s \<and> length s \<le> 12 \<and> list_all symbol_char s"
proof -
  have "symbol_bytes_ok (map of_char s) \<longleftrightarrow> list_all symbol_char s" for s
    by (induction s) (auto simp: symbol_byte)
  then show ?thesis by (auto simp: is_valid_symbol_def Let_def)
qed

lemma validate_Ok_iff: "validate msg = Ok () \<longleftrightarrow> 3 \<le> length (token_name msg) \<and> length (token_name msg) \<le> 50
    \<and> 3 \<le> length (token_symbol msg) \<and> length (token_symbol msg) \<le> 12 \<and> list_all symbol_char (token_symbol msg)
    \<and> token_decimals msg \<le> 18"
  by (auto simp: validate_def is_valid_name_def is_valid_symbol_iff Let_def)

text \<open>The parsed constants of the factory, and the default configuration among the valid ones.\<close>

definition reads_fees :: "(string \<Rightarrow> std_error + decimal) \<Rightarrow> bool" where
  "reads_fees from_str \<longleftrightarrow> from_str ''0.003'' = Inr (3 * 10 ^ 15) \<and> from_str ''0.05'' = Inr (5 * 10 ^ 16)
     \<and> from_str ''0.5'' = Inr (5 * 10 ^ 17) \<and> from_str ''0.8'' = Inr (8 * 10 ^ 17)"

lemma default_fee_config_valid:
  assumes "reads_fees from_str"
  shows "\<exists>f. default_fee_config from_str = (Ok f :: ('e, _) result) \<and> is_valid from_str f = (Ok True :: ('e, _) result)"
  using assms by (simp add: reads_fees_def default_fee_config_def is_valid_def unwrap_decimal_def MAX_TOTAL_FEE_def
      MAX_PROTOCOL_FEE_def DEFAULT_TOTAL_FEE_def DEFAULT_PROTOCOL_FEE_def)

lemma is_valid_iff:
  assumes "reads_fees from_str"
  shows "is_valid from_str f = (Ok True :: ('e, _) result) \<longleftrightarrow> total_fee f * 20 \<le> DEC_ONE \<and> protocol_fee f * 5 \<le> DEC_ONE * 4"
  using assms by (simp add: reads_fees_def is_valid_def unwrap_decimal_def MAX_TOTAL_FEE_def MAX_PROTOCOL_FEE_def DEC_ONE_def)

end
