(* ===== verification/Collector.thy ===== *)
theory Collector
  imports Prismswap
begin

text \<open>
  \<open>contracts/prism-collector\<close>: swaps what it is given, or what it holds, into an asset and sends the proceeds
  on, over a pair of the protocol's own exchange, over two of them, or over Astroport into the base
  denomination and from there. Models \<open>contract.rs\<close>, \<open>state.rs\<close>, \<open>error.rs\<close>, \<open>migration.rs\<close> and
  \<open>packages/prism_protocol/src/collector.rs\<close>. The exchanges are not in the repository: which pairs exist is a
  query, and a swap is the message that is sent.
\<close>


section \<open>Definitions\<close>

subsection \<open>Data\<close>

datatype contract_error =
    Std std_error
  | Unauthorized
  | MissingRoute asset_info asset_info
  | DuplicateAssets
  | LogicError string

record config =
  distribution_contract :: addr
  astroport_factory :: addr
  prismswap_factory :: addr
  prismswap_router :: addr
  prism_token :: addr
  base_denom :: string

record legacy_config =
  leg_distribution_contract :: addr
  leg_astroport_factory :: addr
  leg_prismswap_factory :: addr
  leg_prism_token :: addr
  leg_base_denom :: string

record instantiate_msg =
  im_distribution_contract :: string
  im_astroport_factory :: string
  im_prismswap_factory :: string
  im_prismswap_router :: string
  im_prism_token :: string
  im_base_denom :: string

datatype execute_msg =
    Distribute "asset_info list"
  | ConvertAndSend "asset list" "string option" asset_info
  | BaseSwapHook addr nat asset_info

datatype query_msg = QueryConfig

record config_response =
  res_distribution_contract :: string
  res_astroport_factory :: string
  res_prismswap_factory :: string
  res_prismswap_router :: string
  res_prism_token :: string
  res_base_denom :: string

datatype swap_route =
    PrismSwapDirect addr
  | PrismSwapRouter addr addr
  | AstroportToBase addr

subsection \<open>Routes\<close>

definition query_prismswap_pair :: "deps \<Rightarrow> config \<Rightarrow> asset_info \<times> asset_info \<Rightarrow> addr option" where
  "query_prismswap_pair D cfg infos =
     (case query_pair_info D (prismswap_factory cfg) infos of
       Inr p \<Rightarrow> Some (pair_contract_addr p) | Inl _ \<Rightarrow> None)"

definition query_astroport_pair :: "deps \<Rightarrow> config \<Rightarrow> asset_info \<times> asset_info \<Rightarrow> addr option" where
  "query_astroport_pair D cfg infos =
     (case q_astroport_pair D (astroport_factory cfg) infos of Inr a \<Rightarrow> Some a | Inl _ \<Rightarrow> None)"

definition get_swap_route :: "deps \<Rightarrow> config \<Rightarrow> asset_info \<Rightarrow> asset_info \<Rightarrow> swap_route option" where
  "get_swap_route D cfg offer dest =
     (case query_prismswap_pair D cfg (offer, dest) of
       Some pair_addr \<Rightarrow> Some (PrismSwapDirect pair_addr)
     | None \<Rightarrow>
         let prism = Cw20 (prism_token cfg) in
         (case query_prismswap_pair D cfg (offer, prism) of
           Some pair1_addr \<Rightarrow>
             (case query_prismswap_pair D cfg (dest, prism) of
               Some pair2_addr \<Rightarrow> Some (PrismSwapRouter pair1_addr pair2_addr)
             | None \<Rightarrow> None)
         | None \<Rightarrow>
             (case query_astroport_pair D cfg (offer, Native (base_denom cfg)) of
               Some pair_addr \<Rightarrow> Some (AstroportToBase pair_addr)
             | None \<Rightarrow> None)))"

subsection \<open>Swap messages\<close>

definition send_msg_with_native_funds ::
  "cosmwasm \<Rightarrow> asset \<Rightarrow> addr \<Rightarrow> exec_msg \<Rightarrow> (contract_error, cosmos_msg) result" where
  "send_msg_with_native_funds S a contract_addr msg =
     (case asset_of a of
       Native d \<Rightarrow> Ok (WasmExecuteFunds contract_addr msg [\<lparr>denom = d, coin_amount = asset_amount a\<rparr>])
     | Cw20 _ \<Rightarrow> Fail (LogicError (''send_msg_with_native_funds on non-native asset: ''
         @ asset_info_display S (asset_of a))))"

definition get_prism_direct_swap_msg :: "cosmwasm \<Rightarrow> addr \<Rightarrow> asset \<Rightarrow> addr \<Rightarrow> (contract_error, cosmos_msg) result" where
  "get_prism_direct_swap_msg S pair_addr offer receiver =
     (case asset_of offer of
       Cw20 _ \<Rightarrow> map_err Std (from_answer (asset_send_msg S offer pair_addr (PairSwapHook None None (Some receiver))))
     | Native _ \<Rightarrow> send_msg_with_native_funds S offer pair_addr (PairSwap offer None None (Some receiver)))"

definition get_prism_router_swap_msg ::
  "cosmwasm \<Rightarrow> config \<Rightarrow> asset \<Rightarrow> asset_info \<Rightarrow> asset_info \<Rightarrow> addr \<Rightarrow> (contract_error, cosmos_msg) result" where
  "get_prism_router_swap_msg S cfg offer ask base receiver =
     (let msg = RouterExecuteSwapOperations [PrismSwap (asset_of offer) base, PrismSwap base ask] None (Some receiver) in
     case asset_of offer of
       Cw20 _ \<Rightarrow> map_err Std (from_answer (asset_send_msg S offer (prismswap_router cfg) msg))
     | Native _ \<Rightarrow> send_msg_with_native_funds S offer (prismswap_router cfg) msg)"

definition get_astro_direct_swap_msg :: "cosmwasm \<Rightarrow> addr \<Rightarrow> asset \<Rightarrow> addr \<Rightarrow> (contract_error, cosmos_msg) result" where
  "get_astro_direct_swap_msg S pair_addr offer receiver =
     andThen (map_err Std (from_answer (astroport_max_slippage S))) (\<lambda>max_spread.
     case asset_of offer of
       Cw20 _ \<Rightarrow> map_err Std (from_answer (asset_send_msg S offer pair_addr
         (AstroPairSwapHook None (Some max_spread) (Some receiver))))
     | Native _ \<Rightarrow> send_msg_with_native_funds S offer pair_addr
         (AstroPairSwap offer None (Some max_spread) (Some receiver)))"

text \<open>One asset: skipped, sent on, or swapped over its route; the flag says that the base hook is needed.\<close>

definition swap_one ::
  "cosmwasm \<Rightarrow> deps \<Rightarrow> env \<Rightarrow> config \<Rightarrow> addr \<Rightarrow> asset_info \<Rightarrow> asset \<Rightarrow> cosmos_msg list \<times> bool
    \<Rightarrow> (contract_error, cosmos_msg list \<times> bool) result" where
  "swap_one S D env cfg receiver dest a acc =
     (case acc of (msgs, need_hook) \<Rightarrow>
     if asset_amount a = 0 then Ok (msgs, need_hook)
     else if asset_of a = dest then
       andThen (map_err Std (from_answer (asset_transfer_msg S a receiver))) (\<lambda>m. Ok (msgs @ [m], need_hook))
     else
       case get_swap_route D cfg (asset_of a) dest of
         Some (PrismSwapDirect pair_addr) \<Rightarrow>
           andThen (get_prism_direct_swap_msg S pair_addr a receiver) (\<lambda>m. Ok (msgs @ [m], need_hook))
       | Some (PrismSwapRouter _ _) \<Rightarrow>
           andThen (get_prism_router_swap_msg S cfg a dest (Cw20 (prism_token cfg)) receiver) (\<lambda>m. Ok (msgs @ [m], need_hook))
       | Some (AstroportToBase pair_addr) \<Rightarrow>
           andThen (get_astro_direct_swap_msg S pair_addr a (contract_address env)) (\<lambda>m. Ok (msgs @ [m], True))
       | None \<Rightarrow> Fail (MissingRoute (asset_of a) dest))"

definition get_swap_msgs ::
  "cosmwasm \<Rightarrow> deps \<Rightarrow> env \<Rightarrow> config \<Rightarrow> asset list \<Rightarrow> addr \<Rightarrow> asset_info \<Rightarrow> (contract_error, cosmos_msg list \<times> bool) result" where
  "get_swap_msgs S D env cfg assets receiver dest =
     (if length (remdups (map (\<lambda>a. asset_info_display S (asset_of a)) assets)) \<noteq> length assets then Fail DuplicateAssets
      else foldM (swap_one S D env cfg receiver dest) assets ([], False))"

subsection \<open>Handlers\<close>

text \<open>The payment of one asset: a token is pulled from the sender, coins must be in the funds.\<close>

definition collect_one ::
  "cosmwasm \<Rightarrow> env \<Rightarrow> config \<Rightarrow> message_info \<Rightarrow> asset \<Rightarrow> cosmos_msg list \<times> nat \<Rightarrow> (contract_error, cosmos_msg list \<times> nat) result" where
  "collect_one S env cfg info a acc =
     (case acc of (messages, base_amt) \<Rightarrow>
     if asset_amount a = 0 then Ok (messages, base_amt)
     else
       case asset_of a of
         Cw20 _ \<Rightarrow>
           andThen (map_err Std (from_answer (asset_transfer_from_msg S a (sender info) (contract_address env)))) (\<lambda>m.
           Ok (messages @ [m], base_amt))
       | Native d \<Rightarrow>
           andThen (map_err Std (assert_sent_native_token_balance a info)) (\<lambda>_.
           Ok (messages, if d = base_denom cfg then asset_amount a else base_amt)))"

definition convert_and_send ::
  "cosmwasm \<Rightarrow> deps \<Rightarrow> env \<Rightarrow> config \<Rightarrow> message_info \<Rightarrow> asset list \<Rightarrow> string option \<Rightarrow> asset_info
    \<Rightarrow> (contract_error, response) result" where
  "convert_and_send S D env cfg info assets receiver dest =
     andThen (foldM (collect_one S env cfg info) assets ([], 0)) (\<lambda>(messages, base_asset_input_amt).
     andThen (case receiver of
         Some a \<Rightarrow> map_err Std (addr_validate D a)
       | None \<Rightarrow> Ok (sender info)) (\<lambda>receiver.
     andThen (get_swap_msgs S D env cfg assets receiver dest) (\<lambda>(swap_msgs, need_hook).
     if need_hook then
       andThen (map_err Std (from_answer (q_asset_balance D (Native (base_denom cfg)) (contract_address env)))) (\<lambda>balance.
       andThen (uchecked_sub S (Std OverflowErr) balance base_asset_input_amt) (\<lambda>original_base_balance.
       Ok (add_messages (messages @ swap_msgs @
         [WasmExecute (contract_address env) (CollectorBaseSwapHook receiver original_base_balance dest)]))))
     else Ok (add_messages (messages @ swap_msgs)))))"

definition asset_balance :: "deps \<Rightarrow> env \<Rightarrow> asset_info \<Rightarrow> (contract_error, asset) result" where
  "asset_balance D env i =
     andThen (map_err Std (from_answer (q_asset_balance D i (contract_address env)))) (\<lambda>n.
     Ok \<lparr>asset_of = i, asset_amount = n\<rparr>)"

definition distribute :: "cosmwasm \<Rightarrow> deps \<Rightarrow> env \<Rightarrow> config \<Rightarrow> asset_info list \<Rightarrow> (contract_error, response) result" where
  "distribute S D env cfg infos =
     andThen (mapM (asset_balance D env) infos) (\<lambda>assets.
     let receiver = distribution_contract cfg; dest = Cw20 (prism_token cfg) in
     andThen (get_swap_msgs S D env cfg assets receiver dest) (\<lambda>(messages, need_hook).
     Ok (add_messages (if need_hook
       then messages @ [WasmExecute (contract_address env) (CollectorBaseSwapHook receiver 0 dest)]
       else messages))))"

definition base_swap_hook ::
  "cosmwasm \<Rightarrow> deps \<Rightarrow> env \<Rightarrow> config \<Rightarrow> message_info \<Rightarrow> addr \<Rightarrow> nat \<Rightarrow> asset_info \<Rightarrow> (contract_error, response) result" where
  "base_swap_hook S D env cfg info receiver prev_base_balance dest =
     (if sender info \<noteq> contract_address env then Fail Unauthorized
      else
        andThen (map_err Std (from_answer (q_asset_balance D (Native (base_denom cfg)) (contract_address env)))) (\<lambda>base_balance.
        andThen (uchecked_sub S (Std OverflowErr) base_balance prev_base_balance) (\<lambda>swap_amount.
        if swap_amount = 0 then Ok []
        else
          andThen (get_swap_msgs S D env cfg [\<lparr>asset_of = Native (base_denom cfg), asset_amount = swap_amount\<rparr>] receiver dest)
            (\<lambda>(swap_msgs, need_hook).
          if need_hook then Fail (LogicError ''need_hook set inside base_swap_hook, should not happen'')
          else Ok (add_messages swap_msgs)))))"

subsection \<open>Entry points\<close>

definition instantiate_collector :: "deps \<Rightarrow> instantiate_msg \<Rightarrow> (std_error, config \<times> response) result" where
  "instantiate_collector D msg =
     andThen (addr_validate D (im_distribution_contract msg)) (\<lambda>di.
     andThen (addr_validate D (im_astroport_factory msg)) (\<lambda>af.
     andThen (addr_validate D (im_prismswap_factory msg)) (\<lambda>pf.
     andThen (addr_validate D (im_prismswap_router msg)) (\<lambda>ro.
     andThen (addr_validate D (im_prism_token msg)) (\<lambda>pr.
     Ok (\<lparr>distribution_contract = di, astroport_factory = af, prismswap_factory = pf, prismswap_router = ro,
       prism_token = pr, base_denom = im_base_denom msg\<rparr>, []))))))"

fun execute ::
  "cosmwasm \<Rightarrow> deps \<Rightarrow> env \<Rightarrow> config \<Rightarrow> message_info \<Rightarrow> execute_msg \<Rightarrow> (contract_error, response) result" where
  "execute S D env cfg info (ConvertAndSend assets receiver dest) =
     andThen (map_err Std (mapM (\<lambda>a. check D (asset_of a)) assets)) (\<lambda>_.
     andThen (map_err Std (check D dest)) (\<lambda>_.
     convert_and_send S D env cfg info assets receiver dest))"
| "execute S D env cfg info (Distribute infos) =
     andThen (map_err Std (mapM (check D) infos)) (\<lambda>_. distribute S D env cfg infos)"
| "execute S D env cfg info (BaseSwapHook receiver prev dest) = base_swap_hook S D env cfg info receiver prev dest"

definition config_as_res :: "config \<Rightarrow> config_response" where
  "config_as_res c = \<lparr>res_distribution_contract = distribution_contract c, res_astroport_factory = astroport_factory c,
     res_prismswap_factory = prismswap_factory c, res_prismswap_router = prismswap_router c,
     res_prism_token = prism_token c, res_base_denom = base_denom c\<rparr>"

fun query :: "config \<Rightarrow> query_msg \<Rightarrow> (std_error, config_response) result" where
  "query cfg QueryConfig = Ok (config_as_res cfg)"

definition migrate_config :: "legacy_config \<Rightarrow> addr \<Rightarrow> config" where
  "migrate_config l router = \<lparr>distribution_contract = leg_distribution_contract l,
     astroport_factory = leg_astroport_factory l, prismswap_factory = leg_prismswap_factory l, prismswap_router = router,
     prism_token = leg_prism_token l, base_denom = leg_base_denom l\<rparr>"

definition migrate :: "deps \<Rightarrow> legacy_config \<Rightarrow> string \<Rightarrow> (std_error, config \<times> response) result" where
  "migrate D l router = andThen (addr_validate D router) (\<lambda>r. Ok (migrate_config l r, []))"


section \<open>What a message spends, and for whom\<close>

fun coins_out :: "string \<Rightarrow> cosmos_msg \<Rightarrow> nat" where
  "coins_out d (WasmExecuteFunds a m cs) = (\<Sum>c\<leftarrow>cs. if denom c = d then coin_amount c else 0)"
| "coins_out d (BankSend to cs) = (\<Sum>c\<leftarrow>cs. if denom c = d then coin_amount c else 0)"
| "coins_out d (TerraSwap c to) = (if denom c = d then coin_amount c else 0)"
| "coins_out d _ = 0"

fun asset_out :: "asset_info \<Rightarrow> cosmos_msg \<Rightarrow> nat" where
  "asset_out (Cw20 t) m = token_out t m"
| "asset_out (Native d) m = coins_out d m"

definition spent :: "asset_info \<Rightarrow> response \<Rightarrow> nat" where
  "spent i r = (\<Sum>m\<leftarrow>r. asset_out i (sub_body m))"

text \<open>
  The receiver that a swap names, and the one that a message is for. A swap that names nobody, and a message that is
  neither a transfer nor a swap, has no beneficiary.
\<close>

fun swap_to :: "exec_msg \<Rightarrow> addr option" where
  "swap_to (PairSwapHook b s to) = to"
| "swap_to (PairSwap a b s to) = to"
| "swap_to (AstroPairSwapHook b s to) = to"
| "swap_to (AstroPairSwap a b s to) = to"
| "swap_to (RouterExecuteSwapOperations ops n to) = to"
| "swap_to _ = None"

fun beneficiary :: "cosmos_msg \<Rightarrow> addr option" where
  "beneficiary (WasmExecute t (Cw20Transfer to n)) = Some to"
| "beneficiary (WasmExecute t (Cw20Send c n m)) = swap_to m"
| "beneficiary (BankSend to cs) = Some to"
| "beneficiary (WasmExecuteFunds c m cs) = swap_to m"
| "beneficiary _ = None"

text \<open>The message spends exactly an asset, to the profit of an address.\<close>

definition spends :: "asset \<Rightarrow> addr \<Rightarrow> cosmos_msg \<Rightarrow> bool" where
  "spends a to m \<longleftrightarrow> (\<forall>i. asset_out i m = (if i = asset_of a then asset_amount a else 0)) \<and> beneficiary m = Some to"

lemma spendsI_token: "asset_of a = Cw20 t \<Longrightarrow> swap_to h = Some to \<Longrightarrow> spends a to (WasmExecute t (Cw20Send c (asset_amount a) h))"
  unfolding spends_def by (auto, case_tac i, auto)

lemma spendsI_native: "asset_of a = Native d \<Longrightarrow> swap_to h = Some to
    \<Longrightarrow> spends a to (WasmExecuteFunds c h [\<lparr>denom = d, coin_amount = asset_amount a\<rparr>])"
  unfolding spends_def by (auto, case_tac i, auto)

lemma spendsI_transfer:
  "spends a to (case asset_of a of Cw20 t \<Rightarrow> WasmExecute t (Cw20Transfer to (asset_amount a))
    | Native d \<Rightarrow> BankSend to [\<lparr>denom = d, coin_amount = asset_amount a\<rparr>])"
  unfolding spends_def by (cases "asset_of a") (auto, (case_tac i, auto)+)

context cosmwasm_std
begin

lemma asset_send_spends:
  assumes "asset_of a = Cw20 t" and "swap_to h = Some to" and "asset_send_msg S a c h = Inr m"
  shows "spends a to m"
proof -
  obtain n where a: "a = \<lparr>asset_of = Cw20 t, asset_amount = n\<rparr>" using assms(1) by (cases a) simp
  then have "m = WasmExecute t (Cw20Send c n h)" using assms(3) by (simp add: asset_send_law)
  then show ?thesis using spendsI_token [OF assms(1,2)] by (simp add: a)
qed

lemma asset_transfer_spends:
  assumes "asset_transfer_msg S a to = Inr m"
  shows "spends a to m"
proof -
  obtain i n where a: "a = \<lparr>asset_of = i, asset_amount = n\<rparr>" by (cases a)
  have "m = (case i of Cw20 t \<Rightarrow> WasmExecute t (Cw20Transfer to n) | Native d \<Rightarrow> BankSend to [\<lparr>denom = d, coin_amount = n\<rparr>])"
    using assms by (cases i) (simp_all add: a asset_transfer_law native_transfer_law)
  then show ?thesis using spendsI_transfer [of a to] unfolding a by (cases i) simp_all
qed

lemma offer_spends:
  assumes "swap_to h = Some to" and "swap_to k = Some to"
    and "(case asset_of a of Cw20 _ \<Rightarrow> map_err Std (from_answer (asset_send_msg S a c h))
      | Native _ \<Rightarrow> send_msg_with_native_funds S a c k) = Inr m"
  shows "spends a to m"
proof (cases "asset_of a")
  case (Cw20 t)
  then have "asset_send_msg S a c h = Inr m" using assms(3) by (simp add: map_err_Ok_iff from_answer_Ok_iff)
  then show ?thesis by (rule asset_send_spends [OF Cw20 assms(1)])
next
  case (Native d)
  then have "m = WasmExecuteFunds c k [\<lparr>denom = d, coin_amount = asset_amount a\<rparr>]"
    using assms(3) by (simp add: send_msg_with_native_funds_def)
  then show ?thesis using spendsI_native [OF Native assms(2)] by simp
qed

lemma swap_msg_spends:
  "get_prism_direct_swap_msg S pair a to = Inr m \<Longrightarrow> spends a to m"
  "get_prism_router_swap_msg S cfg a ask base to = Inr m \<Longrightarrow> spends a to m"
  "get_astro_direct_swap_msg S pair a to = Inr m \<Longrightarrow> spends a to m"
  unfolding get_prism_direct_swap_msg_def get_prism_router_swap_msg_def get_astro_direct_swap_msg_def Let_def
  by (auto elim!: andThen_OkE elim: offer_spends [rotated 2])

text \<open>A successful run over the assets spends each of them as a whole; only with the hook is the contract itself named.\<close>

lemma swap_one_Ok:
  assumes "swap_one S D env cfg receiver dest a (ms, h) = Inr (ms', h')"
  shows "\<exists>ns. ms' = ms @ ns \<and> (\<forall>i. (\<Sum>m\<leftarrow>ns. asset_out i m) = (if asset_of a = i then asset_amount a else 0))
    \<and> (\<forall>m\<in>set ns. beneficiary m = Some receiver \<or> beneficiary m = Some (contract_address env) \<and> h') \<and> (h \<longrightarrow> h')"
proof (cases "asset_amount a = 0")
  case True
  then show ?thesis using assms by (auto simp: swap_one_def)
next
  case False
  then have "\<exists>m. ms' = ms @ [m] \<and> (spends a receiver m \<and> h' = h \<or> spends a (contract_address env) m \<and> h')"
    using assms
    by (auto simp: swap_one_def map_err_Ok_iff from_answer_Ok_iff elim!: andThen_OkE
        dest: asset_transfer_spends swap_msg_spends split: if_splits option.splits swap_route.splits)
  then show ?thesis by (auto simp: spends_def)
qed

lemma swap_fold_Ok:
  assumes "foldM (swap_one S D env cfg receiver dest) as (ms, h) = Inr (ms', h')"
  shows "\<exists>ns. ms' = ms @ ns \<and> (\<forall>i. (\<Sum>m\<leftarrow>ns. asset_out i m) = (\<Sum>a\<leftarrow>as. if asset_of a = i then asset_amount a else 0))
    \<and> (\<forall>m\<in>set ns. beneficiary m = Some receiver \<or> beneficiary m = Some (contract_address env) \<and> h') \<and> (h \<longrightarrow> h')"
  using assms
proof (induction as arbitrary: ms h)
  case (Cons a as)
  then obtain ms1 h1 where one: "swap_one S D env cfg receiver dest a (ms, h) = Inr (ms1, h1)"
    and rest: "foldM (swap_one S D env cfg receiver dest) as (ms1, h1) = Inr (ms', h')" by (auto elim!: andThen_OkE)
  obtain xs where x: "ms1 = ms @ xs" "\<And>i. (\<Sum>m\<leftarrow>xs. asset_out i m) = (if asset_of a = i then asset_amount a else 0)"
    "\<forall>m\<in>set xs. beneficiary m = Some receiver \<or> beneficiary m = Some (contract_address env) \<and> h1" "h \<longrightarrow> h1"
    using swap_one_Ok [OF one] by blast
  obtain ys where y: "ms' = ms1 @ ys"
    "\<And>i. (\<Sum>m\<leftarrow>ys. asset_out i m) = (\<Sum>a\<leftarrow>as. if asset_of a = i then asset_amount a else 0)"
    "\<forall>m\<in>set ys. beneficiary m = Some receiver \<or> beneficiary m = Some (contract_address env) \<and> h'" "h1 \<longrightarrow> h'"
    using Cons.IH [OF rest] by blast
  show ?case by (rule exI [of _ "xs @ ys"]) (use x y in auto)
qed simp

lemma get_swap_msgs_Ok:
  assumes "get_swap_msgs S D env cfg as receiver dest = Inr (ms, h)"
  shows "distinct (map asset_of as)"
    and "(\<Sum>m\<leftarrow>ms. asset_out i m) = (\<Sum>a\<leftarrow>as. if asset_of a = i then asset_amount a else 0)"
    and "m \<in> set ms \<Longrightarrow> beneficiary m = Some receiver \<or> beneficiary m = Some (contract_address env) \<and> h"
proof -
  have len: "length (remdups (map (\<lambda>a. asset_info_display S (asset_of a)) as)) = length as"
    and fold: "foldM (swap_one S D env cfg receiver dest) as ([], False) = Inr (ms, h)"
    using assms by (auto simp: get_swap_msgs_def split: if_splits)
  have "length (remdups (map (asset_info_display S) (map asset_of as))) = length (map (asset_info_display S) (map asset_of as))"
    using len by (simp add: o_def)
  then have "distinct (map (asset_info_display S) (map asset_of as))" unfolding length_remdups_eq remdups_id_iff_distinct .
  then show "distinct (map asset_of as)" by (simp only: distinct_map)
  from swap_fold_Ok [OF fold] show "(\<Sum>m\<leftarrow>ms. asset_out i m) = (\<Sum>a\<leftarrow>as. if asset_of a = i then asset_amount a else 0)"
    and "m \<in> set ms \<Longrightarrow> beneficiary m = Some receiver \<or> beneficiary m = Some (contract_address env) \<and> h" by auto
qed

end

definition listed :: "asset_info \<Rightarrow> asset list \<Rightarrow> nat" where
  "listed i as = (\<Sum>a\<leftarrow>as. if asset_of a = i then asset_amount a else 0)"

lemma listed_simps [simp]: "listed i [] = 0" "listed i (a # as) = (if asset_of a = i then asset_amount a else 0) + listed i as"
  by (simp_all add: listed_def)

lemma listed_unique: "i \<notin> asset_of ` set as \<Longrightarrow> listed i as = 0"
  by (induction as) auto

text \<open>What a call brings in of an asset: coins in its funds, tokens pulled from the sender by a message.\<close>

fun pulled :: "addr \<Rightarrow> addr \<Rightarrow> addr \<Rightarrow> cosmos_msg \<Rightarrow> nat" where
  "pulled who self t (WasmExecute c (Cw20TransferFrom fr to n)) = (if c = t \<and> fr = who \<and> to = self then n else 0)"
| "pulled who self t _ = 0"

fun received :: "message_info \<Rightarrow> addr \<Rightarrow> response \<Rightarrow> asset_info \<Rightarrow> nat" where
  "received info self r (Cw20 t) = (\<Sum>m\<leftarrow>r. pulled (sender info) self t (sub_body m))"
| "received info self r (Native d) = (\<Sum>c\<leftarrow>funds info. if denom c = d then coin_amount c else 0)"

lemma sent_native_paid:
  assumes "assert_sent_native_token_balance a info = Inr u" and "asset_of a = Native d"
  shows "asset_amount a \<le> (\<Sum>c\<leftarrow>funds info. if denom c = d then coin_amount c else 0)"
proof (cases "find (\<lambda>c. denom c = d) (funds info)")
  case (Some c)
  then have "c \<in> set (funds info)" "denom c = d" by (auto simp: find_Some_iff)
  then have "coin_amount c \<le> (\<Sum>c\<leftarrow>funds info. if denom c = d then coin_amount c else 0)"
    by (induction "funds info") (auto intro: trans_le_add2 member_le_sum_list)
  then show ?thesis using assms Some by (auto simp: assert_sent_native_token_balance_def split: if_splits)
qed (use assms in \<open>auto simp: assert_sent_native_token_balance_def split: if_splits\<close>)

context cosmwasm_std
begin

lemma collect_one_Ok:
  assumes "collect_one S env cfg info a (ms, b) = Inr (ms', b')"
  shows "\<exists>ns. ms' = ms @ ns \<and> (\<forall>m\<in>set ns. \<exists>t n. m = WasmExecute t (Cw20TransferFrom (sender info) (contract_address env) n))
    \<and> (\<forall>t. (\<Sum>m\<leftarrow>ns. pulled (sender info) (contract_address env) t m) = (if asset_of a = Cw20 t then asset_amount a else 0))
    \<and> (\<forall>d. asset_of a = Native d \<longrightarrow> asset_amount a \<le> (\<Sum>c\<leftarrow>funds info. if denom c = d then coin_amount c else 0))
    \<and> b' = (if asset_of a = Native (base_denom cfg) \<and> asset_amount a \<noteq> 0 then asset_amount a else b)"
proof (cases "asset_amount a = 0")
  case True
  then show ?thesis using assms by (auto simp: collect_one_def)
next
  case False
  show ?thesis
  proof (cases "asset_of a")
    case (Cw20 t)
    then obtain n where a: "a = \<lparr>asset_of = Cw20 t, asset_amount = n\<rparr>" by (cases a) simp
    let ?m = "WasmExecute t (Cw20TransferFrom (sender info) (contract_address env) n)"
    have "ms' = ms @ [?m]" "b' = b"
      using assms False by (auto simp: a collect_one_def asset_transfer_from_law)
    then show ?thesis by (auto simp: a)
  next
    case (Native d)
    then obtain u where "assert_sent_native_token_balance a info = Inr u" "ms' = ms"
      "b' = (if d = base_denom cfg then asset_amount a else b)"
      using assms False by (auto simp: collect_one_def map_err_Ok_iff elim!: andThen_OkE)
    then show ?thesis using sent_native_paid [OF _ Native] False by (auto simp: Native)
  qed
qed

lemma collect_fold_Ok:
  assumes "foldM (collect_one S env cfg info) as (ms, b) = Inr (ms', b')" and "distinct (map asset_of as)"
  shows "\<exists>ns. ms' = ms @ ns \<and> (\<forall>m\<in>set ns. \<exists>t n. m = WasmExecute t (Cw20TransferFrom (sender info) (contract_address env) n))
    \<and> (\<forall>t. (\<Sum>m\<leftarrow>ns. pulled (sender info) (contract_address env) t m) = listed (Cw20 t) as)
    \<and> (\<forall>d. listed (Native d) as \<le> (\<Sum>c\<leftarrow>funds info. if denom c = d then coin_amount c else 0))
    \<and> b' = (if listed (Native (base_denom cfg)) as \<noteq> 0 then listed (Native (base_denom cfg)) as else b)"
  using assms
proof (induction as arbitrary: ms b)
  case (Cons a as)
  then obtain ms1 b1 where one: "collect_one S env cfg info a (ms, b) = Inr (ms1, b1)"
    and rest: "foldM (collect_one S env cfg info) as (ms1, b1) = Inr (ms', b')" by (auto elim!: andThen_OkE)
  have u: "listed (asset_of a) as = 0" using Cons.prems(2) by (intro listed_unique) auto
  from collect_one_Ok [OF one] obtain xs where x: "ms1 = ms @ xs"
    "\<forall>m\<in>set xs. \<exists>t n. m = WasmExecute t (Cw20TransferFrom (sender info) (contract_address env) n)"
    "\<And>t. (\<Sum>m\<leftarrow>xs. pulled (sender info) (contract_address env) t m) = (if asset_of a = Cw20 t then asset_amount a else 0)"
    "\<And>d. asset_of a = Native d \<Longrightarrow> asset_amount a \<le> (\<Sum>c\<leftarrow>funds info. if denom c = d then coin_amount c else 0)"
    "b1 = (if asset_of a = Native (base_denom cfg) \<and> asset_amount a \<noteq> 0 then asset_amount a else b)" by blast
  from Cons.IH [OF rest] Cons.prems(2) obtain ys where y: "ms' = ms1 @ ys"
    "\<forall>m\<in>set ys. \<exists>t n. m = WasmExecute t (Cw20TransferFrom (sender info) (contract_address env) n)"
    "\<And>t. (\<Sum>m\<leftarrow>ys. pulled (sender info) (contract_address env) t m) = listed (Cw20 t) as"
    "\<And>d. listed (Native d) as \<le> (\<Sum>c\<leftarrow>funds info. if denom c = d then coin_amount c else 0)"
    "b' = (if listed (Native (base_denom cfg)) as \<noteq> 0 then listed (Native (base_denom cfg)) as else b1)" by auto
  show ?case by (rule exI [of _ "xs @ ys"]) (use x y u in auto)
qed simp

end

lemma spent_add_messages: "spent i (add_messages ms) = (\<Sum>m\<leftarrow>ms. asset_out i m)"
  by (simp add: spent_def add_messages_def new_sub_msg_def o_def)

lemma received_add_messages:
  "received info self (add_messages ms) (Cw20 t) = (\<Sum>m\<leftarrow>ms. pulled (sender info) self t m)"
  by (simp add: add_messages_def new_sub_msg_def o_def)

lemma hook_spends_nothing [simp]: "asset_out i (WasmExecute self (CollectorBaseSwapHook to prev d)) = 0"
  by (cases i) simp_all

lemma pulled_spends: "beneficiary m \<noteq> None \<Longrightarrow> pulled who self t m = 0"
  by (cases "(who, self, t, m)" rule: pulled.cases) auto


section \<open>A concrete collector\<close>

text \<open>Pairs of the protocol's exchange between PRISM and each of xPRISM and cLUNA; ANC only has a pair on Astroport.\<close>

definition collector_example :: config where
  "collector_example = \<lparr>distribution_contract = ''gov'', astroport_factory = ''astro'', prismswap_factory = ''factory'',
     prismswap_router = ''router'', prism_token = ''prism'', base_denom = ''uusd''\<rparr>"

definition collector_pairs :: "(asset_info \<times> asset_info) list" where
  "collector_pairs = [(Cw20 ''xprism'', Cw20 ''prism''), (Cw20 ''cluna'', Cw20 ''prism''), (Native ''uusd'', Cw20 ''prism'')]"

definition collector_chain :: deps where
  "collector_chain = empty_deps\<lparr>
     q_pair_info := (\<lambda>_ p. if p \<in> set collector_pairs \<or> (snd p, fst p) \<in> set collector_pairs
       then Inr \<lparr>asset_infos = p, pair_contract_addr = ''pair'', liquidity_token = ''lp''\<rparr> else Inl NotFound),
     q_astroport_pair := (\<lambda>_ p. if p = (Cw20 ''anc'', Native ''uusd'') then Inr ''astropair'' else Inl NotFound),
     q_asset_balance := (\<lambda>i _. Inr (if i = Native ''uusd'' then 1000 else if i = Cw20 ''cluna'' then 70 else 0))\<rparr>"

lemmas collector_eval = collector_example_def collector_chain_def collector_pairs_def Let_def cw_eval get_swap_msgs_def
  swap_one_def get_swap_route_def query_prismswap_pair_def query_pair_info_def query_astroport_pair_def collect_one_def
  get_prism_direct_swap_msg_def get_prism_router_swap_msg_def get_astro_direct_swap_msg_def send_msg_with_native_funds_def
  assert_sent_native_token_balance_def asset_balance_def


section \<open>Properties\<close>

text \<open>
  The hook can only be called by the collector itself, and it spends exactly what the base balance has grown by since the
  previous balance it was told, to the profit of the receiver; no other asset is spent.
\<close>

lemma collector_hook_exact:
  assumes std: "cosmwasm_std S" and run: "base_swap_hook S D env cfg info receiver prev dest = Ok r"
  shows "sender info = contract_address env
    \<and> q_asset_balance D (Native (base_denom cfg)) (contract_address env) = Inr (prev + spent (Native (base_denom cfg)) r)
    \<and> (\<forall>i. i \<noteq> Native (base_denom cfg) \<longrightarrow> spent i r = 0) \<and> (\<forall>m \<in> set r. beneficiary (sub_body m) = Some receiver)"
proof -
  let ?self = "contract_address env" and ?base = "Native (base_denom cfg)"
  from run obtain bal where self: "sender info = ?self" and bal: "q_asset_balance D ?base ?self = Inr bal" "prev \<le> bal"
    and rest: "(if bal - prev = 0 then Ok [] else
        andThen (get_swap_msgs S D env cfg [\<lparr>asset_of = ?base, asset_amount = bal - prev\<rparr>] receiver dest) (\<lambda>(swap_msgs, need_hook).
        if need_hook then Fail (LogicError ''need_hook set inside base_swap_hook, should not happen'')
        else Ok (add_messages swap_msgs))) = Inr r"
    by (auto simp: base_swap_hook_def map_err_Ok_iff from_answer_Ok_iff cosmwasm_std.uchecked_sub_Ok_iff [OF std]
        elim!: andThen_OkE split: if_splits)
  show ?thesis
  proof (cases "bal - prev = 0")
    case True
    then show ?thesis using self bal rest by (simp add: spent_def)
  next
    case False
    with rest obtain ms where sw: "get_swap_msgs S D env cfg [\<lparr>asset_of = ?base, asset_amount = bal - prev\<rparr>] receiver dest = Inr (ms, False)"
      and r: "r = add_messages ms" by (auto elim!: andThen_OkE split: if_splits)
    note s = cosmwasm_std.get_swap_msgs_Ok [OF std sw]
    have "spent i r = (if i = ?base then bal - prev else 0)" for i by (simp add: r spent_add_messages s(2))
    moreover have "beneficiary (sub_body m) = Some receiver" if "m \<in> set r" for m
      using that by (auto simp: r add_messages_def new_sub_msg_def dest!: s(3))
    ultimately show ?thesis using self bal by simp
  qed
qed

lemma collector_hook_exact_witness:
  "\<exists>r. base_swap_hook cosmwasm_0_16 collector_chain (env_at 1) collector_example (from_user ''self'') ''alice'' 960 (Cw20 ''xprism'') = Ok r
    \<and> 960 + spent (Native ''uusd'') r = 1000 \<and> r \<noteq> []"
proof -
  obtain r where run: "base_swap_hook cosmwasm_0_16 collector_chain (env_at 1) collector_example (from_user ''self'') ''alice'' 960
      (Cw20 ''xprism'') = Ok r" and ne: "r \<noteq> []" by (simp add: base_swap_hook_def collector_eval)
  from collector_hook_exact [OF cosmwasm_0_16 run] run ne show ?thesis
    by (auto simp: collector_chain_def collector_example_def)
qed

text \<open>
  C14: \<open>convert_and_send\<close> never touches what the collector itself holds, and works for the receiver. Its messages are
  first the transfers of tokens from the sender to the collector, then one message for each asset that it spends, and last, where
  needed, a hook to the collector itself. Of every asset, coin or token, it spends exactly the listed amount, which is at most
  what it takes in: the coins in its funds, or the tokens pulled from the sender. Each spending message names the receiver
  (the one given, or the sender) as its beneficiary, or the collector when the swap goes over Astroport, and then the hook is
  there. The hook is told a previous base balance that leaves out exactly the base coins this call has
  already spent, and whenever it runs it spends exactly what the base balance has grown beyond that, for the receiver.
\<close>

theorem collector_convert_conserves:
  assumes std: "cosmwasm_std S" and run: "convert_and_send S D env cfg info assets receiver dest = Ok r"
    and self: "self = contract_address env" and base: "base = Native (base_denom cfg)"
  shows "\<exists>to pulls swaps hook. r = add_messages (pulls @ swaps @ hook)
    \<and> (case receiver of None \<Rightarrow> to = sender info | Some a \<Rightarrow> addr_validate D a = (Ok to :: (std_error, addr) result))
    \<and> (\<forall>m\<in>set pulls. \<exists>t n. m = WasmExecute t (Cw20TransferFrom (sender info) self n))
    \<and> (\<forall>m\<in>set swaps. beneficiary m = Some to \<or> beneficiary m = Some self \<and> hook \<noteq> [])
    \<and> (hook = [] \<or> (\<exists>prev. hook = [WasmExecute self (CollectorBaseSwapHook to prev dest)]
          \<and> q_asset_balance D base self = Inr (prev + spent base r)
          \<and> (\<forall>D' env' info' r'. contract_address env' = self \<and> base_swap_hook S D' env' cfg info' to prev dest = Ok r' \<longrightarrow>
               q_asset_balance D' base self = Inr (prev + spent base r') \<and> (\<forall>m\<in>set r'. beneficiary (sub_body m) = Some to))))
    \<and> (\<forall>i. spent i r = (\<Sum>a\<leftarrow>assets. if asset_of a = i then asset_amount a else 0) \<and> spent i r \<le> received info self r i)"
proof -
  let ?self = "contract_address env" and ?base = "Native (base_denom cfg)"
  from run obtain ms b to sw h where col: "foldM (collect_one S env cfg info) assets ([], 0) = Inr (ms, b)"
    and to: "(case receiver of Some a \<Rightarrow> map_err Std (addr_validate D a) | None \<Rightarrow> Ok (sender info)) = Inr to"
    and sw: "get_swap_msgs S D env cfg assets to dest = Inr (sw, h)"
    and r: "(if h then
       andThen (map_err Std (from_answer (q_asset_balance D ?base ?self))) (\<lambda>balance.
       andThen (uchecked_sub S (Std OverflowErr) balance b) (\<lambda>prev.
       Ok (add_messages (ms @ sw @ [WasmExecute ?self (CollectorBaseSwapHook to prev dest)]))))
     else Ok (add_messages (ms @ sw))) = Inr r"
    by (auto simp: convert_and_send_def elim!: andThen_OkE)
  note s = cosmwasm_std.get_swap_msgs_Ok [OF std sw]
  from cosmwasm_std.collect_fold_Ok [OF std col s(1)] have
    c: "\<forall>m\<in>set ms. \<exists>t n. m = WasmExecute t (Cw20TransferFrom (sender info) ?self n)"
      "\<And>t. (\<Sum>m\<leftarrow>ms. pulled (sender info) ?self t m) = listed (Cw20 t) assets"
      "\<And>d. listed (Native d) assets \<le> (\<Sum>c\<leftarrow>funds info. if denom c = d then coin_amount c else 0)"
      "b = listed ?base assets" by auto
  have "asset_out i (WasmExecute t (Cw20TransferFrom p q n)) = 0" for i t p q n by (cases i) simp_all
  then have ms0: "(\<Sum>m\<leftarrow>ms. asset_out i m) = 0" for i using c(1) by (auto simp: sum_list_eq_0_iff)
  have swp: "(\<Sum>m\<leftarrow>sw. pulled (sender info) ?self t m) = 0" for t
    using s(3) pulled_spends by (fastforce simp: sum_list_eq_0_iff)
  obtain hook where hook: "r = add_messages (ms @ sw @ hook)"
    and hk: "hook = [] \<and> \<not> h \<or> (\<exists>prev. h \<and> hook = [WasmExecute ?self (CollectorBaseSwapHook to prev dest)]
      \<and> q_asset_balance D ?base ?self = Inr (prev + b))"
    using r by (cases h) (auto simp: map_err_Ok_iff from_answer_Ok_iff cosmwasm_std.uchecked_sub_Ok_iff [OF std] elim!: andThen_OkE)
  have sp: "spent i r = listed i assets" for i
    using hk by (auto simp: hook spent_add_messages ms0 s(2) listed_def)
  have le: "spent i r \<le> received info ?self r i" for i
    unfolding sp using hk c(3) by (cases i) (auto simp: c(2) hook received_add_messages swp simp del: received.simps(1))
  have to': "case receiver of None \<Rightarrow> to = sender info | Some a \<Rightarrow> addr_validate D a = (Ok to :: (std_error, addr) result)"
    using to by (auto simp: map_err_Ok_iff split: option.splits)
  have later: "\<forall>D' env' info' r'. contract_address env' = ?self \<and> base_swap_hook S D' env' cfg info' to prev dest = Ok r' \<longrightarrow>
      q_asset_balance D' ?base ?self = Inr (prev + spent ?base r') \<and> (\<forall>m\<in>set r'. beneficiary (sub_body m) = Some to)" for prev
    using collector_hook_exact [OF std] by metis
  have hk': "hook = [] \<or> (\<exists>prev. hook = [WasmExecute ?self (CollectorBaseSwapHook to prev dest)]
      \<and> q_asset_balance D ?base ?self = Inr (prev + spent ?base r))"
    using hk c(4) sp [of ?base] by auto
  have ben: "beneficiary m = Some to \<or> beneficiary m = Some ?self \<and> hook \<noteq> []" if "m \<in> set sw" for m
    using s(3) [OF that] hk by auto
  show ?thesis
    unfolding self base listed_def [symmetric]
  proof (rule exI [of _ to], rule exI [of _ ms], rule exI [of _ sw], rule exI [of _ hook], intro conjI ballI allI)
    show "hook = [] \<or> (\<exists>prev. hook = [WasmExecute ?self (CollectorBaseSwapHook to prev dest)]
        \<and> q_asset_balance D ?base ?self = Inr (prev + spent ?base r)
        \<and> (\<forall>D' env' info' r'. contract_address env' = ?self \<and> base_swap_hook S D' env' cfg info' to prev dest = Ok r' \<longrightarrow>
             q_asset_balance D' ?base ?self = Inr (prev + spent ?base r') \<and> (\<forall>m\<in>set r'. beneficiary (sub_body m) = Some to)))"
      using hk'
    proof
      assume "\<exists>prev. hook = [WasmExecute ?self (CollectorBaseSwapHook to prev dest)]
          \<and> q_asset_balance D ?base ?self = Inr (prev + spent ?base r)"
      then obtain prev where "hook = [WasmExecute ?self (CollectorBaseSwapHook to prev dest)]"
        "q_asset_balance D ?base ?self = Inr (prev + spent ?base r)" by blast
      with later [of prev] show ?thesis by (intro disjI2 exI [of _ prev] conjI)
    qed simp
  qed (fact hook to' sp le | rule ben c(1) [rule_format], assumption)+
qed

theorem collector_convert_conserves_witness:
  "\<exists>r. convert_and_send cosmwasm_0_16 collector_chain (env_at 1) collector_example
      \<lparr>sender = ''alice'', funds = [\<lparr>denom = ''uusd'', coin_amount = 40\<rparr>]\<rparr>
      [\<lparr>asset_of = Cw20 ''anc'', asset_amount = 9\<rparr>, \<lparr>asset_of = Native ''uusd'', asset_amount = 40\<rparr>] None (Cw20 ''xprism'') = Ok r
    \<and> spent (Cw20 ''anc'') r = 9 \<and> spent (Native ''uusd'') r \<le> 40
    \<and> new_sub_msg (WasmExecute ''self'' (CollectorBaseSwapHook ''alice'' 960 (Cw20 ''xprism''))) \<in> set r
    \<and> 960 + spent (Native ''uusd'') r = 1000"
proof -
  let ?info = "\<lparr>sender = ''alice'', funds = [\<lparr>denom = ''uusd'', coin_amount = 40\<rparr>]\<rparr>"
  obtain r where run: "convert_and_send cosmwasm_0_16 collector_chain (env_at 1) collector_example ?info
      [\<lparr>asset_of = Cw20 ''anc'', asset_amount = 9\<rparr>, \<lparr>asset_of = Native ''uusd'', asset_amount = 40\<rparr>] None (Cw20 ''xprism'') = Ok r"
    and sp: "spent (Cw20 ''anc'') r = 9"
    and hk: "new_sub_msg (WasmExecute ''self'' (CollectorBaseSwapHook ''alice'' 960 (Cw20 ''xprism''))) \<in> set r"
    by (simp add: convert_and_send_def collector_eval spent_def)
  have e: "contract_address (env_at 1) = ''self''" "base_denom collector_example = ''uusd''"
    "q_asset_balance collector_chain (Native ''uusd'') ''self'' = Inr 1000"
    by (simp_all add: collector_example_def collector_chain_def env_at_def)
  note c = collector_convert_conserves [OF cosmwasm_0_16 run refl refl, unfolded e]
  from c have "spent (Native ''uusd'') r = 40" by (elim exE conjE) simp
  with run sp hk show ?thesis by auto
qed

text \<open>
  C15: \<open>distribute\<close> turns everything the collector holds of the named assets over to the distribution contract. Of
  each named asset exactly the balance is spent, of any other asset nothing. Each of its messages but the hook
  names the distribution contract as its beneficiary, or the collector itself on the way over the base denomination; then the hook
  is the last message, and whenever it runs it spends the whole base balance, with the distribution contract as the beneficiary of
  every message.
\<close>

theorem collector_distribute_exact:
  assumes std: "cosmwasm_std S" and run: "distribute S D env cfg infos = Ok r"
    and self: "self = contract_address env" and base: "base = Native (base_denom cfg)"
    and to: "to = distribution_contract cfg" and dest: "dest = Cw20 (prism_token cfg)"
  shows "(\<forall>i. i \<in> set infos \<longrightarrow> q_asset_balance D i self = Inr (spent i r))
    \<and> (\<forall>i. i \<notin> set infos \<longrightarrow> spent i r = 0)
    \<and> (\<exists>swaps hook. r = add_messages (swaps @ hook)
      \<and> (\<forall>m\<in>set swaps. beneficiary m = Some to \<or> beneficiary m = Some self \<and> hook \<noteq> [])
      \<and> (hook = [] \<or> hook = [WasmExecute self (CollectorBaseSwapHook to 0 dest)]))
    \<and> (\<forall>D' env' info' r'. contract_address env' = self \<and> base_swap_hook S D' env' cfg info' to 0 dest = Ok r' \<longrightarrow>
        q_asset_balance D' base self = Inr (spent base r') \<and> (\<forall>m\<in>set r'. beneficiary (sub_body m) = Some to))"
proof -
  let ?self = "contract_address env" and ?to = "distribution_contract cfg" and ?dest = "Cw20 (prism_token cfg)"
  let ?hook = "WasmExecute ?self (CollectorBaseSwapHook ?to 0 ?dest)"
  from run obtain as ms h where as: "mapM (asset_balance D env) infos = Inr as"
    and sw: "get_swap_msgs S D env cfg as ?to ?dest = Inr (ms, h)"
    and r: "r = add_messages (if h then ms @ [?hook] else ms)"
    by (auto simp: distribute_def Let_def elim!: andThen_OkE)
  note s = cosmwasm_std.get_swap_msgs_Ok [OF std sw]
  have al: "list_all2 (\<lambda>i a. asset_of a = i \<and> q_asset_balance D i ?self = Inr (asset_amount a)) infos as"
    using as by (induction infos arbitrary: as)
      (auto simp: asset_balance_def map_err_Ok_iff from_answer_Ok_iff elim!: andThen_OkE)
  then have names: "infos = map asset_of as" by (induction rule: list_all2_induct) auto
  have sp: "spent i r = listed i as" for i by (cases h) (simp_all add: r spent_add_messages s(2) listed_def)
  have "listed (asset_of a) as = asset_amount a" if "a \<in> set as" for a
    using that s(1) by (induction as) (auto simp: listed_unique image_iff)
  moreover have "q_asset_balance D (asset_of a) ?self = Inr (asset_amount a)" if "a \<in> set as" for a
    using al that by (induction rule: list_all2_induct) auto
  ultimately have "q_asset_balance D i ?self = Inr (spent i r)" if "i \<in> set infos" for i
    using that by (auto simp: names sp)
  moreover have "spent i r = 0" if "i \<notin> set infos" for i using that by (simp add: sp names listed_unique)
  moreover have "\<exists>swaps hook. r = add_messages (swaps @ hook)
      \<and> (\<forall>m\<in>set swaps. beneficiary m = Some ?to \<or> beneficiary m = Some ?self \<and> hook \<noteq> []) \<and> (hook = [] \<or> hook = [?hook])"
    by (rule exI [of _ ms], rule exI [of _ "if h then [?hook] else []"]) (auto simp: r dest!: s(3))
  moreover have "q_asset_balance D' (Native (base_denom cfg)) ?self = Inr (spent (Native (base_denom cfg)) r')
      \<and> (\<forall>m\<in>set r'. beneficiary (sub_body m) = Some ?to)"
    if "contract_address env' = ?self \<and> base_swap_hook S D' env' cfg info' ?to 0 ?dest = Ok r'" for D' env' info' r'
    using collector_hook_exact [OF std conjunct2 [OF that]] that by simp
  ultimately show ?thesis unfolding self base to dest by blast
qed

theorem collector_distribute_exact_witness:
  "\<exists>r. distribute cosmwasm_0_16 collector_chain (env_at 1) collector_example [Cw20 ''cluna'', Native ''uusd''] = Ok r
    \<and> spent (Cw20 ''cluna'') r = 70 \<and> spent (Native ''uusd'') r = 1000"
proof -
  obtain r where run: "distribute cosmwasm_0_16 collector_chain (env_at 1) collector_example [Cw20 ''cluna'', Native ''uusd''] = Ok r"
    by (simp add: distribute_def collector_eval)
  from collector_distribute_exact [OF cosmwasm_0_16 run refl refl refl refl]
  have "(\<forall>i. i \<in> {Cw20 ''cluna'', Native ''uusd''} \<longrightarrow> q_asset_balance collector_chain i (contract_address (env_at 1)) = Inr (spent i r))"
    by simp
  with run show ?thesis by (auto simp: collector_chain_def)
qed

end
