(* ===== verification/Vault_State.thy ===== *)
theory Vault_State
  imports Cosmwasm
begin

text \<open>
  \<open>contracts/prism-vault\<close>, storage and arithmetic: \<open>state.rs\<close>, \<open>math.rs\<close> and the signed
  difference of \<open>packages/signed_integers\<close>. The vault takes Luna, delegates it and issues
  cLuna against it; burning cLuna enters the sender into a batch of unbond requests. This
  theory holds the records, the wait list and history of batches, and what is known of the
  rounding in \<open>decimal_division\<close> and of sums over the wait list.
\<close>


section \<open>Definitions\<close>

subsection \<open>Data\<close>

record parameters =
  epoch_period :: nat
  underlying_coin_denom :: string
  unbonding_period :: nat
  peg_recovery_fee :: decimal
  er_threshold :: decimal

record current_batch =
  current_id :: nat
  requested_with_fee :: nat

record state =
  exchange_rate :: decimal
  total_bond_amount :: nat
  last_index_modification :: nat
  prev_vault_balance :: nat
  actual_unbonded_amount :: nat
  last_unbonded_time :: nat
  last_processed_batch :: nat

record config =
  owner :: addr
  yluna_staking :: addr
  cluna_contract :: addr
  yluna_contract :: addr
  pluna_contract :: addr
  airdrop_registry_contract :: addr
  initialized :: bool
  token_admin :: addr
  token_code_id :: nat
  manager :: addr

record unbond_history =
  batch_id :: nat
  history_time :: nat
  history_amount :: nat
  applied_exchange_rate :: decimal
  withdraw_rate :: decimal
  released :: bool

record vault =
  CONFIG :: config
  PARAMETERS :: parameters
  CURRENT_BATCH :: current_batch
  STATE :: state
  UNBOND_WAITLIST :: "(addr \<times> nat, nat) store"
  UNBOND_HISTORY :: "(nat, unbond_history) store"
  VALIDATORS :: "(addr, bool) store"

text \<open>A handler of the vault: the new storage and the messages, or a failure.\<close>

type_synonym vault_result = "(std_error, vault \<times> response) result"

definition default_state :: state where
  "default_state = \<lparr>exchange_rate = 0, total_bond_amount = 0, last_index_modification = 0,
     prev_vault_balance = 0, actual_unbonded_amount = 0, last_unbonded_time = 0,
     last_processed_batch = 0\<rparr>"

definition assert_initialized :: "config \<Rightarrow> (std_error, config) result" where
  "assert_initialized c =
     (if initialized c then Ok c
      else Fail (GenericErr ''Contract initialization is not completed''))"

subsection \<open>Arithmetic\<close>

definition DECIMAL_FRACTIONAL :: nat where
  "DECIMAL_FRACTIONAL = 1000000000"

definition decimal_division :: "cosmwasm \<Rightarrow> nat \<Rightarrow> decimal \<Rightarrow> ('e, nat) result" where
  "decimal_division S a b =
     andThen (umul_dec S DECIMAL_FRACTIONAL b) (\<lambda>divisor.
     andThen (from_ratio S a divisor) (\<lambda>ratio.
     umul_dec S DECIMAL_FRACTIONAL ratio))"

text \<open>The magnitude and whether the difference is negative.\<close>

type_synonym signed_int = "nat \<times> bool"

definition from_subtraction :: "cosmwasm \<Rightarrow> nat \<Rightarrow> nat \<Rightarrow> ('e, signed_int) result" where
  "from_subtraction S minuend subtrahend =
     (case uint128_checked_sub S minuend subtrahend of
        None \<Rightarrow> andThen (or_panic (uint128_checked_sub S subtrahend minuend)) (\<lambda>d. Ok (d, True))
      | Some d \<Rightarrow> Ok (d, False))"

definition update_exchange_rate ::
  "cosmwasm \<Rightarrow> state \<Rightarrow> nat \<Rightarrow> nat \<Rightarrow> ('e, state) result" where
  "update_exchange_rate S st total_issued requested =
     andThen (uadd S total_issued requested) (\<lambda>actual_supply.
       if total_bond_amount st = 0 \<or> actual_supply = 0 then Ok (st\<lparr>exchange_rate := DEC_ONE\<rparr>)
       else andThen (from_ratio S (total_bond_amount st) actual_supply) (\<lambda>rate.
         Ok (st\<lparr>exchange_rate := rate\<rparr>)))"

subsection \<open>Wait list and history\<close>

definition store_unbond_wait_list ::
  "cosmwasm \<Rightarrow> vault \<Rightarrow> nat \<Rightarrow> addr \<Rightarrow> nat \<Rightarrow> (std_error, vault) result" where
  "store_unbond_wait_list S v batch sender_addr amount =
     andThen (uadd S (case get (UNBOND_WAITLIST v) (sender_addr, batch) of Some x \<Rightarrow> x | None \<Rightarrow> 0) amount)
       (\<lambda>total. Ok (v\<lparr>UNBOND_WAITLIST := put (sender_addr, batch) total (UNBOND_WAITLIST v)\<rparr>))"

fun remove_unbond_wait_list :: "vault \<Rightarrow> nat list \<Rightarrow> addr \<Rightarrow> vault" where
  "remove_unbond_wait_list v [] sender_addr = v"
| "remove_unbond_wait_list v (b # bs) sender_addr =
     remove_unbond_wait_list
       (v\<lparr>UNBOND_WAITLIST := del (sender_addr, b) (UNBOND_WAITLIST v)\<rparr>) bs sender_addr"

definition read_unbond_wait_list :: "vault \<Rightarrow> nat \<Rightarrow> addr \<Rightarrow> (std_error, nat) result" where
  "read_unbond_wait_list v batch sender_addr =
     or_err NotFound (get (UNBOND_WAITLIST v) (sender_addr, batch))"

definition read_unbond_history :: "vault \<Rightarrow> nat \<Rightarrow> (std_error, unbond_history) result" where
  "read_unbond_history v epoc_id =
     or_err (GenericErr ''Burn requests not found for the specified time period'')
       (get (UNBOND_HISTORY v) epoc_id)"

definition store_unbond_history :: "vault \<Rightarrow> nat \<Rightarrow> unbond_history \<Rightarrow> vault" where
  "store_unbond_history v b h = v\<lparr>UNBOND_HISTORY := put b h (UNBOND_HISTORY v)\<rparr>"

definition DEFAULT_UNBOND_WAITLIST_READ_LIMIT :: nat where
  "DEFAULT_UNBOND_WAITLIST_READ_LIMIT = 30"

definition MAX_LIMIT :: nat where
  "MAX_LIMIT = 100"

definition DEFAULT_LIMIT :: nat where
  "DEFAULT_LIMIT = 10"

definition waitlist_limit :: "nat option \<Rightarrow> nat" where
  "waitlist_limit limit =
     min (case limit of Some l \<Rightarrow> l | None \<Rightarrow> DEFAULT_UNBOND_WAITLIST_READ_LIMIT) MAX_LIMIT"

definition get_unbond_requests ::
  "vault \<Rightarrow> addr \<Rightarrow> nat option \<Rightarrow> nat option \<Rightarrow> (nat \<times> nat) list" where
  "get_unbond_requests v sender_addr start limit =
     take (waitlist_limit limit)
       (range_from (Some (case start of Some s \<Rightarrow> s | None \<Rightarrow> 0))
         (sub_range sender_addr (UNBOND_WAITLIST v)))"

definition get_unbond_batches :: "vault \<Rightarrow> addr \<Rightarrow> nat option \<Rightarrow> nat list" where
  "get_unbond_batches v sender_addr limit =
     map fst (filter
       (\<lambda>(b, x). case read_unbond_history v b of Inl e \<Rightarrow> False | Inr h \<Rightarrow> released h)
       (take (waitlist_limit limit) (sub_range sender_addr (UNBOND_WAITLIST v))))"

definition get_finished_amount ::
  "cosmwasm \<Rightarrow> vault \<Rightarrow> addr \<Rightarrow> nat option \<Rightarrow> (std_error, nat) result" where
  "get_finished_amount S v sender_addr limit =
     foldM (\<lambda>(b, x) acc.
         case read_unbond_history v b of
           Inl e \<Rightarrow> Ok acc
         | Inr h \<Rightarrow> if released h
                    then andThen (umul_dec S x (withdraw_rate h)) (uadd S acc)
                    else Ok acc)
       (take (waitlist_limit limit) (sub_range sender_addr (UNBOND_WAITLIST v))) 0"

definition query_get_finished_amount ::
  "cosmwasm \<Rightarrow> vault \<Rightarrow> addr \<Rightarrow> nat \<Rightarrow> nat option \<Rightarrow> (std_error, nat) result" where
  "query_get_finished_amount S v sender_addr time limit =
     foldM (\<lambda>(b, x) acc.
         case read_unbond_history v b of
           Inl e \<Rightarrow> Ok acc
         | Inr h \<Rightarrow> if history_time h < time
                    then andThen (umul_dec S x (withdraw_rate h)) (uadd S acc)
                    else Ok acc)
       (take (waitlist_limit limit) (sub_range sender_addr (UNBOND_WAITLIST v))) 0"

definition all_unbond_history :: "vault \<Rightarrow> nat option \<Rightarrow> nat option \<Rightarrow> unbond_history list" where
  "all_unbond_history v start limit =
     map snd (take (min (case limit of Some l \<Rightarrow> l | None \<Rightarrow> DEFAULT_LIMIT) MAX_LIMIT)
       (range_from (Some (case start of Some s \<Rightarrow> s | None \<Rightarrow> 0)) (UNBOND_HISTORY v)))"

subsection \<open>Whitelisted validators\<close>

definition store_white_validators :: "vault \<Rightarrow> addr \<Rightarrow> vault" where
  "store_white_validators v a = v\<lparr>VALIDATORS := put a True (VALIDATORS v)\<rparr>"

definition remove_white_validators :: "vault \<Rightarrow> addr \<Rightarrow> vault" where
  "remove_white_validators v a = v\<lparr>VALIDATORS := del a (VALIDATORS v)\<rparr>"

definition read_validators :: "vault \<Rightarrow> addr list" where
  "read_validators v = map fst (VALIDATORS v)"

definition is_valid_validator :: "vault \<Rightarrow> addr \<Rightarrow> bool" where
  "is_valid_validator v a = (get (VALIDATORS v) a \<noteq> None)"

definition read_valid_validators :: "vault \<Rightarrow> addr list" where
  "read_valid_validators v = read_validators v"

subsection \<open>What the wait list adds up to\<close>

text \<open>The cLuna entered into one batch, over all senders.\<close>

definition batch_total :: "vault \<Rightarrow> nat \<Rightarrow> nat" where
  "batch_total v b = (\<Sum>((a, k), x)\<leftarrow>UNBOND_WAITLIST v. if k = b then x else 0)"


section \<open>Lemmas\<close>

context cosmwasm_std
begin

lemma from_subtraction_eq:
  "from_subtraction S a b = (if b \<le> a then Ok (a - b, False) else Ok (b - a, True))"
  by (simp add: from_subtraction_def checked_sub_law)

lemma update_exchange_rate_Ok:
  assumes "update_exchange_rate S st issued requested = Inr st'"
  shows "st' = st\<lparr>exchange_rate :=
      (if total_bond_amount st = 0 \<or> issued + requested = 0 then DEC_ONE
       else total_bond_amount st * DEC_ONE div (issued + requested))\<rparr>"
  using assms by (auto simp: update_exchange_rate_def result_simps cw_laws split: if_splits)

text \<open>
  \<open>decimal_division\<close> first cuts the divisor down to nine digits, then divides with 18 digits
  and cuts the quotient down to an integer.
\<close>

lemma decimal_division_value:
  assumes "decimal_division S a b = Inr c"
  shows "c = a * DEC_ONE div (b div 10 ^ 9) * 10 ^ 9 div DEC_ONE" and "10 ^ 9 \<le> b"
proof -
  have nine: "(1000000000 :: nat) * b div DEC_ONE = b div 10 ^ 9"
  proof -
    have "(1000000000 :: nat) * b div (1000000000 * 10 ^ 9) = b div 10 ^ 9"
      by (rule div_mult_mult1) simp
    then show ?thesis by (simp add: DEC_ONE_def)
  qed
  have c: "c = 1000000000 * (a * DEC_ONE div (b div 10 ^ 9)) div DEC_ONE" and nz: "b div 10 ^ 9 \<noteq> 0"
    using assms
    by (auto simp: decimal_division_def result_simps cw_laws DECIMAL_FRACTIONAL_def nine)
  from c show "c = a * DEC_ONE div (b div 10 ^ 9) * 10 ^ 9 div DEC_ONE"
    by (simp add: mult.commute)
  from nz show "10 ^ 9 \<le> b"
    by (simp add: div_eq_0_iff)
qed

lemma decimal_division_nested:
  assumes "decimal_division S a b = Inr c"
  shows "c = a * 10 ^ 9 div (b div 10 ^ 9)"
proof -
  let ?q = "b div 10 ^ 9"
  have "c = a * DEC_ONE div ?q * 10 ^ 9 div (10 ^ 9 * 10 ^ 9)"
    using decimal_division_value(1) [OF assms] by (simp add: DEC_ONE_def)
  also have "\<dots> = a * DEC_ONE div ?q div 10 ^ 9"
    by (simp add: div_mult2_eq)
  also have "\<dots> = a * DEC_ONE div 10 ^ 9 div ?q"
    by (metis div_mult2_eq mult.commute)
  also have "a * DEC_ONE div 10 ^ 9 = a * 10 ^ 9"
    by (simp add: DEC_ONE_def)
  finally show ?thesis .
qed

lemma store_unbond_wait_list_Ok:
  assumes "store_unbond_wait_list S v b a x = Inr v'"
  shows "v' = v\<lparr>UNBOND_WAITLIST :=
      put (a, b) ((case get (UNBOND_WAITLIST v) (a, b) of Some y \<Rightarrow> y | None \<Rightarrow> 0) + x) (UNBOND_WAITLIST v)\<rparr>"
  using assms by (auto simp: store_unbond_wait_list_def result_simps cw_laws)

end

lemma remove_unbond_wait_list_eq:
  "remove_unbond_wait_list v bs a =
     v\<lparr>UNBOND_WAITLIST := fold (\<lambda>b. del (a, b)) bs (UNBOND_WAITLIST v)\<rparr>"
  by (induction v bs a rule: remove_unbond_wait_list.induct) auto

lemma wf_fold_del: "wf_store s \<Longrightarrow> wf_store (fold (\<lambda>b. del (a, b)) bs s)"
  by (induction bs arbitrary: s) (auto simp: wf_del)

lemma get_fold_del:
  "get (fold (\<lambda>b. del (a, b)) bs s) (c, k) = (if c = a \<and> k \<in> set bs then None else get s (c, k))"
  by (induction bs arbitrary: s) (auto simp: get_del)

text \<open>How the total of a batch moves when one entry is written or removed.\<close>

lemma batch_total_put:
  assumes "wf_store (UNBOND_WAITLIST v)"
  shows "batch_total (v\<lparr>UNBOND_WAITLIST := put (a, j) x (UNBOND_WAITLIST v)\<rparr>) b
      + (if j = b then case get (UNBOND_WAITLIST v) (a, j) of None \<Rightarrow> 0 | Some y \<Rightarrow> y else 0)
    = batch_total v b + (if j = b then x else 0)"
  using st.sum_save [OF assms, of "\<lambda>(a, k) x. if k = b then x else 0" "(a, j)" x]
  by (auto simp: batch_total_def case_prod_unfold split: option.splits)

lemma batch_total_del:
  assumes "wf_store (UNBOND_WAITLIST v)"
  shows "batch_total (v\<lparr>UNBOND_WAITLIST := del (a, j) (UNBOND_WAITLIST v)\<rparr>) b
      + (if j = b then case get (UNBOND_WAITLIST v) (a, j) of None \<Rightarrow> 0 | Some y \<Rightarrow> y else 0)
    = batch_total v b"
  using st.sum_remove [OF assms, of "\<lambda>(a, k) x. if k = b then x else 0" "(a, j)"]
  by (auto simp: batch_total_def case_prod_unfold split: option.splits)

lemma batch_total_remove_le:
  assumes "wf_store (UNBOND_WAITLIST v)"
  shows "batch_total (remove_unbond_wait_list v bs a) b \<le> batch_total v b"
  using assms
proof (induction v bs a rule: remove_unbond_wait_list.induct)
  case (2 v j bs a)
  have "batch_total (v\<lparr>UNBOND_WAITLIST := del (a, j) (UNBOND_WAITLIST v)\<rparr>) b \<le> batch_total v b"
    using batch_total_del [OF 2(2), of a j b] by linarith
  with 2 show ?case by (simp add: wf_del)
qed simp

lemma batch_total_remove_other:
  assumes "wf_store (UNBOND_WAITLIST v)" and "b \<notin> set bs"
  shows "batch_total (remove_unbond_wait_list v bs a) b = batch_total v b"
  using assms
proof (induction v bs a rule: remove_unbond_wait_list.induct)
  case (2 v j bs a)
  have "batch_total (v\<lparr>UNBOND_WAITLIST := del (a, j) (UNBOND_WAITLIST v)\<rparr>) b = batch_total v b"
    using batch_total_del [OF 2(2), of a j b] 2(3) by auto
  with 2 show ?case by (simp add: wf_del)
qed simp

lemma batch_total_waitlist_only:
  "UNBOND_WAITLIST v = UNBOND_WAITLIST w \<Longrightarrow> batch_total v = batch_total w"
  by (simp add: batch_total_def fun_eq_iff)

text \<open>A batch no wait-list entry mentions is empty.\<close>

lemma batch_total_none:
  assumes "\<forall>((a, k), x) \<in> set (UNBOND_WAITLIST v). k \<noteq> b"
  shows "batch_total v b = 0"
proof -
  have "map (\<lambda>((a, k), x). if k = b then x else 0) (UNBOND_WAITLIST v)
      = map (\<lambda>_. 0) (UNBOND_WAITLIST v)"
    using assms by (intro map_cong) auto
  then show ?thesis by (simp add: batch_total_def)
qed

end
