(* ===== verification/Vault_Bond.thy ===== *)
theory Vault_Bond
  imports Vault_State
begin

text \<open>
  Bonding (\<open>bond.rs\<close>) and the slashing check of \<open>contract.rs\<close> that every change of the bonded
  amount starts with. A bond delegates the paid Luna to one whitelisted validator and mints
  cLuna for it at the current exchange rate, less a peg recovery fee while the rate is below
  the threshold.
\<close>


section \<open>Definitions\<close>

definition query_total_issued :: "deps \<Rightarrow> vault \<Rightarrow> (std_error, nat) result" where
  "query_total_issued D v = from_answer (q_cw20_total_supply D (cluna_contract (CONFIG v)))"

text \<open>The delegated amount in the underlying coin, over all delegations.\<close>

fun sum_delegations :: "cosmwasm \<Rightarrow> string \<Rightarrow> delegation list \<Rightarrow> nat \<Rightarrow> ('e, nat) result" where
  "sum_delegations S dn [] acc = Ok acc"
| "sum_delegations S dn (d # ds) acc =
     (if denom (del_amount d) = dn
      then andThen (uadd S acc (coin_amount (del_amount d))) (sum_delegations S dn ds)
      else sum_delegations S dn ds acc)"

text \<open>
  \<open>slashing\<close> works on a copy of the state and saves it only when the delegations have shrunk
  below the recorded amount. It returns the storage and the copy.
\<close>

definition slashing ::
  "cosmwasm \<Rightarrow> deps \<Rightarrow> env \<Rightarrow> vault \<Rightarrow> state \<Rightarrow> parameters \<Rightarrow> (std_error, vault \<times> state) result" where
  "slashing S D env v st params =
     andThen (from_answer (q_all_delegations D (contract_address env))) (\<lambda>delegations.
       if delegations = [] then Ok (v, st)
       else andThen (sum_delegations S (underlying_coin_denom params) delegations 0)
         (\<lambda>actual_total_bonded.
           if total_bond_amount st > actual_total_bonded then
             andThen (query_total_issued D v) (\<lambda>total_issued.
             andThen (update_exchange_rate S (st\<lparr>total_bond_amount := actual_total_bonded\<rparr>)
                 total_issued (requested_with_fee (CURRENT_BATCH v)))
               (\<lambda>st'. Ok (v\<lparr>STATE := st'\<rparr>, st')))
           else Ok (v, st)))"

text \<open>The loop over the whitelist: jailed validators are skipped, an undelegated one wins.\<close>

fun bond_candidates ::
  "deps \<Rightarrow> addr \<Rightarrow> addr list \<Rightarrow> (nat \<times> addr) list \<Rightarrow> (std_error, addr + (nat \<times> addr) list) result" where
  "bond_candidates D self [] delegations = Ok (Inr delegations)"
| "bond_candidates D self (val # vals) delegations =
     andThen (from_answer (q_validator D val)) (\<lambda>found.
       case found of
         None \<Rightarrow> bond_candidates D self vals delegations
       | Some _ \<Rightarrow>
           andThen (from_answer (q_delegation D self val)) (\<lambda>delegation.
             case delegation of
               None \<Rightarrow> Ok (Inl val)
             | Some d \<Rightarrow> bond_candidates D self vals
                 (delegations @ [(coin_amount (fd_amount d), val)])))"

definition pick_bond_validator :: "deps \<Rightarrow> addr \<Rightarrow> addr list \<Rightarrow> (std_error, addr) result" where
  "pick_bond_validator D self validators =
     (if validators = [] then Fail (GenericErr ''There are not validators to pick from'')
      else andThen (bond_candidates D self validators []) (\<lambda>c.
        case c of
          Inl val \<Rightarrow> Ok val
        | Inr delegations \<Rightarrow>
            if delegations = [] then Fail (GenericErr ''All validators are jailed'')
            else Ok (snd (hd (sort delegations)))))"

definition select_validator ::
  "deps \<Rightarrow> env \<Rightarrow> vault \<Rightarrow> string option \<Rightarrow> (std_error, addr) result" where
  "select_validator D env v validator =
     (case validator of
        Some a \<Rightarrow>
          if is_valid_validator v a then Ok a
          else Fail (GenericErr ''The chosen validator is currently not supported'')
      | None \<Rightarrow> pick_bond_validator D (contract_address env) (read_valid_validators v))"

text \<open>\<open>mint_amount_with_fee\<close>: the minted amount, less the peg recovery fee.\<close>

definition bond_mint_with_fee ::
  "cosmwasm \<Rightarrow> parameters \<Rightarrow> state \<Rightarrow> nat \<Rightarrow> nat \<Rightarrow> nat \<Rightarrow> nat \<Rightarrow> (std_error, nat) result" where
  "bond_mint_with_fee S params st total_supply requested payment_amt mint_amount =
     (if exchange_rate st < er_threshold params then
        andThen (umul_dec S mint_amount (peg_recovery_fee params)) (\<lambda>max_peg_fee.
        andThen (uadd S total_supply mint_amount) (\<lambda>x.
        andThen (uadd S x requested) (\<lambda>claims.
        andThen (uadd S (total_bond_amount st) payment_amt) (\<lambda>backing.
        andThen (uchecked_sub S OverflowErr claims backing) (\<lambda>required_peg_fee.
        uchecked_sub S OverflowErr mint_amount (min max_peg_fee required_peg_fee))))))
      else Ok mint_amount)"

definition execute_bond_inner ::
  "cosmwasm \<Rightarrow> deps \<Rightarrow> env \<Rightarrow> vault \<Rightarrow> message_info \<Rightarrow> string option
    \<Rightarrow> (std_error, vault \<times> nat \<times> sub_msg list \<times> nat) result" where
  "execute_bond_inner S D env v info validator =
     andThen (select_validator D env v validator) (\<lambda>selected_validator.
     let params = PARAMETERS v; requested = requested_with_fee (CURRENT_BATCH v) in
     andThen (case cw0_must_pay S (funds info) (underlying_coin_denom params) of
         Inl e \<Rightarrow> Fail (GenericErr e) | Inr p \<Rightarrow> Ok p) (\<lambda>payment_amt.
     andThen (slashing S D env v (STATE v) params) (\<lambda>(v, st).
     andThen (unwrap_or 0 (query_total_issued D v)) (\<lambda>total_supply.
     andThen (decimal_division S payment_amt (exchange_rate st)) (\<lambda>mint_amount.
     andThen (bond_mint_with_fee S params st total_supply requested payment_amt mint_amount)
       (\<lambda>mint_amount_with_fee.
     andThen (uadd S total_supply mint_amount_with_fee) (\<lambda>total_supply.
     andThen (uadd S (total_bond_amount st) payment_amt) (\<lambda>bonded.
     andThen (update_exchange_rate S (st\<lparr>total_bond_amount := bonded\<rparr>) total_supply requested) (\<lambda>st.
     andThen (assert_initialized (CONFIG v)) (\<lambda>config.
     Ok (v\<lparr>STATE := st\<rparr>, mint_amount_with_fee,
       [new_sub_msg (StakingDelegate selected_validator
          \<lparr>denom = underlying_coin_denom params, coin_amount = payment_amt\<rparr>),
        new_sub_msg (WasmExecute (cluna_contract config)
          (Cw20Mint (sender info) mint_amount_with_fee))],
       payment_amt)))))))))))"

definition execute_bond ::
  "cosmwasm \<Rightarrow> deps \<Rightarrow> env \<Rightarrow> vault \<Rightarrow> message_info \<Rightarrow> string option \<Rightarrow> vault_result" where
  "execute_bond S D env v info validator =
     andThen (execute_bond_inner S D env v info validator)
       (\<lambda>(v, mint_amount_with_fee, messages, payment_amt). Ok (v, messages))"

definition execute_bond_split ::
  "cosmwasm \<Rightarrow> deps \<Rightarrow> env \<Rightarrow> vault \<Rightarrow> message_info \<Rightarrow> string option \<Rightarrow> vault_result" where
  "execute_bond_split S D env v info validator =
     andThen (assert_initialized (CONFIG v)) (\<lambda>config.
     andThen (execute_bond_inner S D env v info validator)
       (\<lambda>(v, mint_amount_with_fee, sub_messages, payment_amt).
     Ok (v, butlast sub_messages @ add_messages
       [WasmExecute (cluna_contract config) (Cw20Mint (contract_address env) mint_amount_with_fee),
        WasmExecute (yluna_contract config) (Cw20Mint (sender info) mint_amount_with_fee),
        WasmExecute (pluna_contract config) (Cw20Mint (sender info) mint_amount_with_fee)])))"

definition execute_slashing :: "cosmwasm \<Rightarrow> deps \<Rightarrow> env \<Rightarrow> vault \<Rightarrow> vault_result" where
  "execute_slashing S D env v =
     andThen (slashing S D env v (STATE v) (PARAMETERS v)) (\<lambda>(v, st). Ok (v, []))"

subsection \<open>Specification\<close>

text \<open>What is really delegated in the underlying coin.\<close>

definition delegated :: "string \<Rightarrow> delegation list \<Rightarrow> nat" where
  "delegated dn ds = (\<Sum>d\<leftarrow>ds. if denom (del_amount d) = dn then coin_amount (del_amount d) else 0)"

text \<open>The exchange rate the vault aims at: backing over claims, one if either is empty.\<close>

definition rate_of :: "nat \<Rightarrow> nat \<Rightarrow> decimal" where
  "rate_of backing claims =
     (if backing = 0 \<or> claims = 0 then DEC_ONE else backing * DEC_ONE div claims)"


section \<open>Lemmas\<close>

lemma delegated_Cons [simp]:
  "delegated dn (d # ds) =
     (if denom (del_amount d) = dn then coin_amount (del_amount d) else 0) + delegated dn ds"
  by (simp add: delegated_def)

lemma delegated_Nil [simp]: "delegated dn [] = 0"
  by (simp add: delegated_def)

text \<open>Every candidate the loop collects was on the whitelist, and so is an early winner.\<close>

lemma bond_candidates_in:
  assumes "bond_candidates D self vals ds = Inr c"
  shows "case c of Inl val \<Rightarrow> val \<in> set vals
    | Inr ds' \<Rightarrow> snd ` set ds' \<subseteq> set vals \<union> snd ` set ds"
  using assms
proof (induction vals arbitrary: ds)
  case (Cons val vals)
  from Cons.prems obtain found where found: "q_validator D val = Inr found"
    by (auto simp: result_simps)
  show ?case
  proof (cases found)
    case None
    with Cons.prems found have "bond_candidates D self vals ds = Inr c" by simp
    from Cons.IH [OF this] show ?thesis by (auto split: sum.splits)
  next
    case (Some w)
    with Cons.prems found obtain del where del: "q_delegation D self val = Inr del"
      by (auto simp: result_simps)
    show ?thesis
    proof (cases del)
      case None
      with Cons.prems found Some del show ?thesis by auto
    next
      case (Some d)
      with Cons.prems found \<open>found = Some w\<close> del
      have "bond_candidates D self vals (ds @ [(coin_amount (fd_amount d), val)]) = Inr c" by simp
      from Cons.IH [OF this] show ?thesis by (auto split: sum.splits)
    qed
  qed
qed auto

lemma pick_bond_validator_in:
  assumes "pick_bond_validator D self vals = Inr val"
  shows "val \<in> set vals"
proof -
  from assms obtain c where c: "bond_candidates D self vals [] = Inr c"
    and val: "(case c of Inl val \<Rightarrow> Ok val
        | Inr delegations \<Rightarrow>
            if delegations = [] then Fail (GenericErr ''All validators are jailed'')
            else Ok (snd (hd (sort delegations)))) = Ok val"
    by (auto simp: pick_bond_validator_def result_simps split: if_splits)
  show ?thesis
  proof (cases c)
    case (Inl w)
    with bond_candidates_in [OF c] val show ?thesis by simp
  next
    case (Inr ds)
    with val have "ds \<noteq> []" and "val = snd (hd (sort ds))" by (auto split: if_splits)
    then have "val \<in> snd ` set ds"
      by (metis set_sort hd_in_set image_eqI length_0_conv length_sort)
    with bond_candidates_in [OF c] Inr show ?thesis by auto
  qed
qed

lemma select_validator_whitelisted:
  assumes "select_validator D env v validator = Inr val" and "wf_store (VALIDATORS v)"
  shows "is_valid_validator v val" and "\<forall>a. validator = Some a \<longrightarrow> val = a"
proof -
  have "val \<in> set (read_validators v) \<Longrightarrow> is_valid_validator v val"
    using assms(2) by (auto simp: read_validators_def is_valid_validator_def entries_get)
  with assms(1) pick_bond_validator_in [of D "contract_address env" "read_valid_validators v" val]
  show "is_valid_validator v val" and "\<forall>a. validator = Some a \<longrightarrow> val = a"
    by (auto simp: select_validator_def read_valid_validators_def split: option.splits if_splits)
qed

context cosmwasm_std
begin

lemma sum_delegations_Ok:
  assumes "sum_delegations S dn ds acc = Inr x"
  shows "x = acc + delegated dn ds"
  using assms
  by (induction ds arbitrary: acc) (fastforce simp: result_simps uadd_Ok_iff split: if_splits)+

lemma update_rate_of:
  assumes "update_exchange_rate S st issued requested = Inr st'"
  shows "st' = st\<lparr>exchange_rate := rate_of (total_bond_amount st) (issued + requested)\<rparr>"
  using update_exchange_rate_Ok [OF assms] by (simp add: rate_of_def)

text \<open>
  The slashing check lowers the recorded amount to what is delegated and never raises it;
  when it lowers it, the rate is recomputed and the state is saved.
\<close>

lemma slashing_Ok:
  assumes "slashing S D env v st params = Inr (v', st')"
  obtains ds where "q_all_delegations D (contract_address env) = Inr ds"
    and "ds = [] \<or> total_bond_amount st \<le> delegated (underlying_coin_denom params) ds \<Longrightarrow>
      v' = v \<and> st' = st"
    and "ds \<noteq> [] \<Longrightarrow> delegated (underlying_coin_denom params) ds < total_bond_amount st \<Longrightarrow>
      \<exists>issued. q_cw20_total_supply D (cluna_contract (CONFIG v)) = Inr issued
        \<and> v' = v\<lparr>STATE := st'\<rparr>
        \<and> st' = st\<lparr>total_bond_amount := delegated (underlying_coin_denom params) ds,
            exchange_rate := rate_of (delegated (underlying_coin_denom params) ds)
              (issued + requested_with_fee (CURRENT_BATCH v))\<rparr>"
proof -
  from assms obtain ds where ds: "q_all_delegations D (contract_address env) = Inr ds"
    by (auto simp: slashing_def result_simps)
  show thesis
  proof (cases "ds = []")
    case True
    with assms ds that show thesis by (auto simp: slashing_def)
  next
    case False
    with assms ds obtain x where x: "sum_delegations S (underlying_coin_denom params) ds 0
        = (Inr x :: (std_error, nat) result)"
      by (auto simp: slashing_def result_simps)
    have del: "x = delegated (underlying_coin_denom params) ds"
      using sum_delegations_Ok [OF x] by simp
    show thesis
    proof (rule that [OF ds])
      assume "ds = [] \<or> total_bond_amount st \<le> delegated (underlying_coin_denom params) ds"
      with assms ds x False del show "v' = v \<and> st' = st" by (auto simp: slashing_def)
    next
      assume "delegated (underlying_coin_denom params) ds < total_bond_amount st"
      with assms ds x False del obtain issued where
        issued: "q_cw20_total_supply D (cluna_contract (CONFIG v)) = Inr issued"
        and upd: "update_exchange_rate S (st\<lparr>total_bond_amount := x\<rparr>) issued
            (requested_with_fee (CURRENT_BATCH v)) = (Inr st' :: (std_error, state) result)"
        and v': "v' = v\<lparr>STATE := st'\<rparr>"
        by (auto simp: slashing_def query_total_issued_def result_simps)
      from update_rate_of [OF upd] issued v' del
      show "\<exists>issued. q_cw20_total_supply D (cluna_contract (CONFIG v)) = Inr issued
        \<and> v' = v\<lparr>STATE := st'\<rparr>
        \<and> st' = st\<lparr>total_bond_amount := delegated (underlying_coin_denom params) ds,
            exchange_rate := rate_of (delegated (underlying_coin_denom params) ds)
              (issued + requested_with_fee (CURRENT_BATCH v))\<rparr>"
        by auto
    qed
  qed
qed

text \<open>What the check leaves alone: everything but the state, and of it all but two fields.\<close>

lemma slashing_frame:
  assumes "slashing S D env v st params = Inr (v', st')"
  shows "v' = v \<or> v' = v\<lparr>STATE := st'\<rparr>"
    and "st' = st\<lparr>total_bond_amount := total_bond_amount st', exchange_rate := exchange_rate st'\<rparr>"
    and "total_bond_amount st' \<le> total_bond_amount st"
  using assms by (rule slashing_Ok; cases "total_bond_amount st \<le> total_bond_amount st'"; force)+

lemma bond_mint_with_fee_le:
  assumes "bond_mint_with_fee S params st total_supply requested payment mint = Inr m"
  shows "m \<le> mint" and "er_threshold params \<le> exchange_rate st \<Longrightarrow> m = mint"
    and "mint - mint * peg_recovery_fee params div DEC_ONE \<le> m"
  using assms by (auto simp: bond_mint_with_fee_def result_simps cw_laws split: if_splits)

text \<open>The steps of a successful bond.\<close>

lemma execute_bond_inner_Ok:
  assumes "execute_bond_inner S D env v info validator = Inr (v', minted, msgs, payment)"
  obtains val v1 st1 issued mint where
    "select_validator D env v validator = Inr val"
    and "cw0_must_pay S (funds info) (underlying_coin_denom (PARAMETERS v)) = Inr payment"
    and "slashing S D env v (STATE v) (PARAMETERS v) = Inr (v1, st1)"
    and "issued = (case q_cw20_total_supply D (cluna_contract (CONFIG v1)) of Inl e \<Rightarrow> 0 | Inr s \<Rightarrow> s)"
    and "decimal_division S payment (exchange_rate st1) = (Inr mint :: (std_error, nat) result)"
    and "bond_mint_with_fee S (PARAMETERS v) st1 issued (requested_with_fee (CURRENT_BATCH v))
        payment mint = Inr minted"
    and "initialized (CONFIG v1)"
    and "v' = v1\<lparr>STATE := st1\<lparr>total_bond_amount := total_bond_amount st1 + payment,
        exchange_rate := rate_of (total_bond_amount st1 + payment)
          (issued + minted + requested_with_fee (CURRENT_BATCH v))\<rparr>\<rparr>"
    and "msgs = [new_sub_msg (StakingDelegate val
            \<lparr>denom = underlying_coin_denom (PARAMETERS v), coin_amount = payment\<rparr>),
          new_sub_msg (WasmExecute (cluna_contract (CONFIG v1)) (Cw20Mint (sender info) minted))]"
proof -
  have pay: "(case x of Inl e \<Rightarrow> Fail (GenericErr e) | Inr p \<Rightarrow> Ok p) = (Ok p :: (std_error, nat) result)
      \<longleftrightarrow> x = Inr p" for x p
    by (cases x) auto
  have tsup: "unwrap_or 0 (query_total_issued D w) = (Inr s :: (std_error, nat) result) \<longleftrightarrow>
      s = (case q_cw20_total_supply D (cluna_contract (CONFIG w)) of Inl e \<Rightarrow> 0 | Inr s \<Rightarrow> s)" for w s
    by (cases "q_cw20_total_supply D (cluna_contract (CONFIG w))") (auto simp: query_total_issued_def)
  have init: "assert_initialized c = Inr c' \<longleftrightarrow> initialized c \<and> c' = c" for c c'
    by (auto simp: assert_initialized_def)
  show thesis
    using assms unfolding execute_bond_inner_def Let_def
    apply (elim andThen_OkE)
    apply (clarsimp simp: pay tsup init uadd_Ok_iff elim!: andThen_OkE dest!: update_rate_of)
    apply (rule that)
    apply (assumption | simp)+
    done
qed

end

end
