(* ===== verification/Vault_Unbond.thy ===== *)
theory Vault_Unbond
  imports Vault_Bond
begin

text \<open>
  Unbonding (\<open>unbond.rs\<close>). Burnt cLuna is entered into the current batch; when an epoch has
  passed, the batch is undelegated, recorded in the history and a new one is opened. After
  the unbonding period a withdrawal first fixes the withdraw rate of every matured batch from
  the Luna that really arrived, and then pays the sender's share of the released batches.
\<close>


section \<open>Definitions\<close>

subsection \<open>Undelegating a batch\<close>

text \<open>
  \<open>pick_unbond_validator\<close>: delegations are drawn at random and undelegated until the claim
  is covered. \<open>Vec::remove\<close> panics out of range, \<open>gen_range\<close> panics on an empty range.
\<close>

function pick_unbond_loop ::
  "cosmwasm \<Rightarrow> string \<Rightarrow> nat \<Rightarrow> nat \<Rightarrow> delegation list \<Rightarrow> nat \<Rightarrow> sub_msg list
    \<Rightarrow> (std_error, sub_msg list) result" where
  "pick_unbond_loop S dn height iteration_index delegations claimed messages =
     (if claimed = 0 then Ok messages
      else andThen (u64_add height iteration_index) (\<lambda>seed.
        andThen (gen_range S seed 0 (length delegations)) (\<lambda>random_index.
        if length delegations \<le> random_index then Abort
        else
          let d = delegations ! random_index;
              rest = take random_index delegations @ drop (Suc random_index) delegations;
              val = coin_amount (del_amount d)
          in andThen (if val > claimed then Ok (claimed, 0)
                      else andThen (uchecked_sub S OverflowErr claimed val) (\<lambda>c. Ok (val, c)))
             (\<lambda>(undelegated_amount, claimed').
               andThen (u64_add iteration_index 1) (\<lambda>next.
               pick_unbond_loop S dn height next rest claimed'
                 (if undelegated_amount > 0
                  then messages @ [new_sub_msg (StakingUndelegate (del_validator d)
                    \<lparr>denom = dn, coin_amount = undelegated_amount\<rparr>)]
                  else messages))))))"
  by pat_completeness auto
termination
  by (relation "measure (\<lambda>(S, dn, height, i, ds, claimed, ms). length ds)")
     (auto simp: Let_def)

definition pick_unbond_validator ::
  "cosmwasm \<Rightarrow> deps \<Rightarrow> string \<Rightarrow> nat \<Rightarrow> addr \<Rightarrow> nat \<Rightarrow> (std_error, sub_msg list) result" where
  "pick_unbond_validator S D dn claim delegator height =
     andThen (unwrap (from_answer (q_all_delegations D delegator))) (\<lambda>all_delegations.
       pick_unbond_loop S dn height 0 all_delegations claim [])"

subsection \<open>Requesting an unbond\<close>

definition unbond_amount_with_fee ::
  "cosmwasm \<Rightarrow> parameters \<Rightarrow> state \<Rightarrow> nat \<Rightarrow> nat \<Rightarrow> nat \<Rightarrow> (std_error, nat) result" where
  "unbond_amount_with_fee S params st total_supply requested amount =
     (if exchange_rate st < er_threshold params then
        andThen (umul_dec S amount (peg_recovery_fee params)) (\<lambda>max_peg_fee.
        andThen (uadd S total_supply requested) (\<lambda>claims.
        andThen (uchecked_sub S OverflowErr claims (total_bond_amount st)) (\<lambda>required_peg_fee.
        uchecked_sub S OverflowErr amount (min max_peg_fee required_peg_fee))))
      else Ok amount)"

text \<open>Closing the batch: the part of \<open>execute_unbond\<close> that runs once per epoch.\<close>

definition close_batch ::
  "cosmwasm \<Rightarrow> deps \<Rightarrow> env \<Rightarrow> vault \<Rightarrow> parameters \<Rightarrow> state \<Rightarrow> current_batch
    \<Rightarrow> (std_error, vault \<times> state \<times> current_batch \<times> sub_msg list) result" where
  "close_batch S D env v params st batch =
     andThen (umul_dec S (requested_with_fee batch) (exchange_rate st)) (\<lambda>undelegation_amount.
     if undelegation_amount = 1
     then Fail (GenericErr ''Burn amount must be greater than 1 micro unit'')
     else andThen (pick_unbond_validator S D (underlying_coin_denom params) undelegation_amount
         (contract_address env) (block_height env)) (\<lambda>undelegated_msgs.
     andThen (unwrap (uchecked_sub S OverflowErr (total_bond_amount st) undelegation_amount)) (\<lambda>bonded.
     let history = \<lparr>batch_id = current_id batch, history_time = now_seconds S env,
           history_amount = requested_with_fee batch, applied_exchange_rate = exchange_rate st,
           withdraw_rate = exchange_rate st, released = False\<rparr>
     in andThen (u64_add (current_id batch) 1) (\<lambda>next_id.
     Ok (store_unbond_history v (current_id batch) history,
       st\<lparr>total_bond_amount := bonded, last_unbonded_time := now_seconds S env\<rparr>,
       \<lparr>current_id = next_id, requested_with_fee = 0\<rparr>,
       undelegated_msgs)))))"

definition execute_unbond ::
  "cosmwasm \<Rightarrow> deps \<Rightarrow> env \<Rightarrow> vault \<Rightarrow> nat \<Rightarrow> string \<Rightarrow> vault_result" where
  "execute_unbond S D env v amount sender_str =
     (let batch = CURRENT_BATCH v; params = PARAMETERS v in
     andThen (slashing S D env v (STATE v) params) (\<lambda>(v, st).
     andThen (unwrap_or 0 (query_total_issued D v)) (\<lambda>total_supply.
     andThen (unbond_amount_with_fee S params st total_supply (requested_with_fee batch) amount)
       (\<lambda>amount_with_fee.
     andThen (uadd S (requested_with_fee batch) amount_with_fee) (\<lambda>requested.
     let batch = batch\<lparr>requested_with_fee := requested\<rparr> in
     andThen (addr_validate D sender_str) (\<lambda>sender_addr.
     andThen (store_unbond_wait_list S v (current_id batch) sender_addr amount_with_fee) (\<lambda>v.
     andThen (unwrap (uchecked_sub S OverflowErr total_supply amount)) (\<lambda>total_supply.
     andThen (update_exchange_rate S st total_supply requested) (\<lambda>st.
     andThen (minus_seconds S (block_time env) (last_unbonded_time st)) (\<lambda>passed.
     andThen
       (if timestamp_seconds S passed > epoch_period params
        then close_batch S D env v params st batch
        else Ok (v, st, batch, [])) (\<lambda>(v, st, batch, messages).
     andThen (assert_initialized (CONFIG v)) (\<lambda>config.
     Ok (v\<lparr>CURRENT_BATCH := batch, STATE := st\<rparr>,
       messages @ [new_sub_msg (WasmExecute (cluna_contract config) (Cw20Burn amount))])))))))))))))"

subsection \<open>Fixing the withdraw rates\<close>

text \<open>
  A batch is due when it is in the history, has matured and is not yet released. Both loops
  of \<open>process_withdraw_rate\<close> walk up from the last processed batch as long as batches are due.
\<close>

definition due_history :: "vault \<Rightarrow> nat \<Rightarrow> nat \<Rightarrow> unbond_history option" where
  "due_history v historical_time i =
     (case read_unbond_history v i of
        Inl e \<Rightarrow> None
      | Inr h \<Rightarrow> if history_time h > historical_time then None
                 else if \<not> released h then Some h else None)"

lemma due_history_Some:
  "due_history v t i = Some h \<longleftrightarrow>
     get (UNBOND_HISTORY v) i = Some h \<and> history_time h \<le> t \<and> \<not> released h"
  by (cases "get (UNBOND_HISTORY v) i") (auto simp: due_history_def read_unbond_history_def)

text \<open>The keys from \<open>i\<close> on: what is left for the loops to visit.\<close>

definition histories_from :: "vault \<Rightarrow> nat \<Rightarrow> nat" where
  "histories_from v i = length (filter (\<lambda>e. i \<le> fst e) (UNBOND_HISTORY v))"

lemma histories_from_Suc:
  assumes "get (UNBOND_HISTORY v) i = Some h"
  shows "histories_from v (Suc i) < histories_from v i"
proof -
  have mem: "(i, h) \<in> set (filter (\<lambda>e. i \<le> fst e) (UNBOND_HISTORY v))"
    using assms by (auto simp: get_def dest: map_of_SomeD)
  have "filter (\<lambda>e. Suc i \<le> fst e) (UNBOND_HISTORY v)
      = filter (\<lambda>e. Suc i \<le> fst e) (filter (\<lambda>e. i \<le> fst e) (UNBOND_HISTORY v))"
    by (auto simp: filter_filter intro: filter_cong)
  moreover have "length (filter (\<lambda>e. Suc i \<le> fst e) (filter (\<lambda>e. i \<le> fst e) (UNBOND_HISTORY v)))
      < length (filter (\<lambda>e. i \<le> fst e) (UNBOND_HISTORY v))"
    by (rule length_filter_less [OF mem]) simp
  ultimately show ?thesis by (simp add: histories_from_def)
qed

lemma filter_put_above: "filter (\<lambda>e. Suc i \<le> fst e) (put i x s) = filter (\<lambda>e. Suc i \<le> fst e) s"
  by (induction s) auto

lemma histories_from_store:
  "histories_from (store_unbond_history v i h) (Suc i) = histories_from v (Suc i)"
  by (simp add: histories_from_def store_unbond_history_def filter_put_above)

text \<open>First loop: the expected payout of all due batches, and their number.\<close>

function total_unbonded_loop ::
  "cosmwasm \<Rightarrow> vault \<Rightarrow> nat \<Rightarrow> nat \<Rightarrow> nat \<Rightarrow> nat \<Rightarrow> (std_error, nat \<times> nat) result" where
  "total_unbonded_loop S v historical_time i total_unbonded_amount batch_count =
     (case due_history v historical_time i of
        None \<Rightarrow> Ok (total_unbonded_amount, batch_count)
      | Some history \<Rightarrow>
          andThen (umul_dec S (history_amount history) (withdraw_rate history)) (\<lambda>unbonded_amount.
          andThen (uadd S total_unbonded_amount unbonded_amount) (\<lambda>total.
          andThen (u64_add batch_count 1) (\<lambda>batch_count'.
          andThen (u64_add i 1) (\<lambda>i'.
          total_unbonded_loop S v historical_time i' total batch_count')))))"
  by pat_completeness auto
termination
  by (relation "measure (\<lambda>(S, v, t, i, total, n). histories_from v i)")
     (auto simp: due_history_Some result_simps dest: histories_from_Suc)

text \<open>The withdraw rate of one batch, given the expected total and the signed shortfall.\<close>

definition new_withdraw_rate ::
  "cosmwasm \<Rightarrow> nat \<Rightarrow> signed_int \<Rightarrow> unbond_history \<Rightarrow> (std_error, decimal) result" where
  "new_withdraw_rate S total_unbonded_amount slashed_amount history =
     andThen (umul_dec S (history_amount history) (withdraw_rate history)) (\<lambda>unbonded_amount_of_batch.
     andThen (from_ratio S unbonded_amount_of_batch total_unbonded_amount) (\<lambda>batch_slashing_weight.
     andThen (umul_dec S (fst slashed_amount) batch_slashing_weight) (\<lambda>slashed_amount_of_batch.
     andThen
       (if snd slashed_amount then
          andThen (uchecked_sub S OverflowErr slashed_amount_of_batch 1) (\<lambda>s.
          uadd S unbonded_amount_of_batch s)
        else
          andThen (if fst slashed_amount \<noteq> 0 then uadd S slashed_amount_of_batch 1
                   else Ok slashed_amount_of_batch) (\<lambda>s.
          andThen (from_subtraction S unbonded_amount_of_batch s) (\<lambda>d. Ok (fst d))))
       (\<lambda>actual_unbonded_amount_of_batch.
     from_ratio S actual_unbonded_amount_of_batch (history_amount history)))))"

text \<open>Second loop: fix the rate of each due batch and mark it released.\<close>

function release_loop ::
  "cosmwasm \<Rightarrow> vault \<Rightarrow> nat \<Rightarrow> nat \<Rightarrow> signed_int \<Rightarrow> nat \<Rightarrow> nat \<Rightarrow> (std_error, vault \<times> nat) result" where
  "release_loop S v historical_time total_unbonded_amount slashed_amount iterator last_processed =
     (case due_history v historical_time iterator of
        None \<Rightarrow> Ok (v, last_processed)
      | Some history \<Rightarrow>
          andThen (new_withdraw_rate S total_unbonded_amount slashed_amount history) (\<lambda>rate.
          andThen (u64_add iterator 1) (\<lambda>next.
          release_loop S
            (store_unbond_history v iterator (history\<lparr>withdraw_rate := rate, released := True\<rparr>))
            historical_time total_unbonded_amount slashed_amount next iterator)))"
  by pat_completeness auto
termination
  by (relation "measure (\<lambda>(S, v, t, total, slashed, i, last). histories_from v i)")
     (auto simp: due_history_Some result_simps histories_from_store dest: histories_from_Suc)

definition process_withdraw_rate ::
  "cosmwasm \<Rightarrow> vault \<Rightarrow> nat \<Rightarrow> nat \<Rightarrow> (std_error, vault) result" where
  "process_withdraw_rate S v historical_time vault_balance =
     (let st = STATE v in
     andThen (from_subtraction S vault_balance (prev_vault_balance st)) (\<lambda>balance_change.
     andThen (uadd S (actual_unbonded_amount st) (fst balance_change)) (\<lambda>actual_unbonded.
     andThen (u64_add (last_processed_batch st) 1) (\<lambda>first.
     andThen (total_unbonded_loop S v historical_time first 0 0) (\<lambda>(total_unbonded_amount, batch_count).
     andThen
       (if batch_count \<ge> 1 then
          andThen (from_subtraction S total_unbonded_amount actual_unbonded) (\<lambda>slashed_amount.
          release_loop S v historical_time total_unbonded_amount slashed_amount first
            (last_processed_batch st))
        else Ok (v, last_processed_batch st)) (\<lambda>(v, last_processed).
     Ok (v\<lparr>STATE := st\<lparr>last_processed_batch := last_processed,
       actual_unbonded_amount := 0\<rparr>\<rparr>)))))))"

subsection \<open>Withdrawing\<close>

definition execute_withdraw_unbonded ::
  "cosmwasm \<Rightarrow> deps \<Rightarrow> env \<Rightarrow> vault \<Rightarrow> message_info \<Rightarrow> vault_result" where
  "execute_withdraw_unbonded S D env v info =
     (let params = PARAMETERS v; coin_denom = underlying_coin_denom params in
     andThen (u64_sub (now_seconds S env) (unbonding_period params)) (\<lambda>historical_time.
     andThen (from_answer (q_bank_balance D (contract_address env) coin_denom)) (\<lambda>vault_balance.
     andThen (process_withdraw_rate S v historical_time vault_balance) (\<lambda>v.
     andThen (unwrap (get_finished_amount S v (sender info) None)) (\<lambda>withdraw_amount.
     if withdraw_amount = 0
     then Fail (GenericErr (''No withdrawable '' @ coin_denom @ '' assets are available yet''))
     else
       let v = remove_unbond_wait_list v (get_unbond_batches v (sender info) None) (sender info)
       in andThen (uchecked_sub S OverflowErr vault_balance withdraw_amount) (\<lambda>prev_balance.
       Ok (v\<lparr>STATE := (STATE v)\<lparr>prev_vault_balance := prev_balance\<rparr>\<rparr>,
         [new_sub_msg (BankSend (sender info)
            [\<lparr>denom = coin_denom, coin_amount = withdraw_amount\<rparr>])])))))))"

declare pick_unbond_loop.simps [simp del] total_unbonded_loop.simps [simp del]
  release_loop.simps [simp del]


section \<open>Lemmas on undelegation\<close>

text \<open>The amount a message undelegates, and from whom.\<close>

fun undelegated :: "cosmos_msg \<Rightarrow> nat" where
  "undelegated (StakingUndelegate val c) = coin_amount c"
| "undelegated _ = 0"

definition total_undelegated :: "sub_msg list \<Rightarrow> nat" where
  "total_undelegated ms = (\<Sum>m\<leftarrow>ms. undelegated (sub_body m))"

definition total_delegation :: "delegation list \<Rightarrow> nat" where
  "total_delegation ds = (\<Sum>d\<leftarrow>ds. coin_amount (del_amount d))"

text \<open>A message that undelegates some of the amount of one of the delegations.\<close>

definition undelegates_from :: "string \<Rightarrow> delegation list \<Rightarrow> sub_msg \<Rightarrow> bool" where
  "undelegates_from dn ds m \<longleftrightarrow> (\<exists>d\<in>set ds. \<exists>a. 0 < a \<and> a \<le> coin_amount (del_amount d)
     \<and> m = new_sub_msg (StakingUndelegate (del_validator d) \<lparr>denom = dn, coin_amount = a\<rparr>))"

lemma total_undelegated_append [simp]:
  "total_undelegated (xs @ ys) = total_undelegated xs + total_undelegated ys"
  by (simp add: total_undelegated_def)

lemma total_undelegated_single [simp]:
  "total_undelegated [new_sub_msg (StakingUndelegate val c)] = coin_amount c"
  by (simp add: total_undelegated_def new_sub_msg_def)

lemma total_undelegated_Nil [simp]: "total_undelegated [] = 0"
  by (simp add: total_undelegated_def)

lemma set_removed: "set (take r ds @ drop (Suc r) ds) \<subseteq> set ds"
  by (auto dest: in_set_takeD in_set_dropD)

lemma undelegates_from_mono:
  "undelegates_from dn ds m \<Longrightarrow> set ds \<subseteq> set es \<Longrightarrow> undelegates_from dn es m"
  unfolding undelegates_from_def by blast

lemma total_delegation_removed:
  assumes "r < length ds"
  shows "total_delegation ds =
    coin_amount (del_amount (ds ! r)) + total_delegation (take r ds @ drop (Suc r) ds)"
proof -
  have "ds = take r ds @ ds ! r # drop (Suc r) ds" using id_take_nth_drop [OF assms] .
  then have "total_delegation ds = total_delegation (take r ds @ ds ! r # drop (Suc r) ds)" by simp
  then show ?thesis by (simp add: total_delegation_def)
qed

context cosmwasm_std
begin

text \<open>One round of the loop: which delegation is drawn and how the claim shrinks.\<close>

lemma pick_unbond_loop_step:
  assumes "pick_unbond_loop S dn height i ds claimed ms = Inr ms'" and "claimed \<noteq> 0"
  obtains r d where "r < length ds" and "d = ds ! r"
    and "pick_unbond_loop S dn height (Suc i) (take r ds @ drop (Suc r) ds)
          (claimed - min claimed (coin_amount (del_amount d)))
          (ms @ (if 0 < coin_amount (del_amount d)
            then [new_sub_msg (StakingUndelegate (del_validator d)
              \<lparr>denom = dn, coin_amount = min claimed (coin_amount (del_amount d))\<rparr>)] else []))
        = Inr ms'"
proof -
  from assms obtain seed r where r: "gen_range S seed 0 (length ds) = (Inr r :: (std_error, nat) result)"
    and rest: "andThen (if coin_amount (del_amount (ds ! r)) > claimed then Ok (claimed, 0)
        else andThen (uchecked_sub S OverflowErr claimed (coin_amount (del_amount (ds ! r))))
          (\<lambda>c. Ok (coin_amount (del_amount (ds ! r)), c)))
      (\<lambda>(u, c). andThen (u64_add i 1) (\<lambda>next.
        pick_unbond_loop S dn height next (take r ds @ drop (Suc r) ds) c
          (if u > 0 then ms @ [new_sub_msg (StakingUndelegate (del_validator (ds ! r))
             \<lparr>denom = dn, coin_amount = u\<rparr>)] else ms))) = Inr ms'"
    by (subst (asm) pick_unbond_loop.simps) (auto simp: Let_def result_simps split: if_splits)
  have lt: "r < length ds" by (rule gen_range_Ok [OF r])
  show thesis
  proof (rule that [OF lt refl])
    show "pick_unbond_loop S dn height (Suc i) (take r ds @ drop (Suc r) ds)
          (claimed - min claimed (coin_amount (del_amount (ds ! r))))
          (ms @ (if 0 < coin_amount (del_amount (ds ! r))
            then [new_sub_msg (StakingUndelegate (del_validator (ds ! r))
              \<lparr>denom = dn, coin_amount = min claimed (coin_amount (del_amount (ds ! r)))\<rparr>)] else []))
        = Inr ms'"
      using rest assms(2)
      by (cases "coin_amount (del_amount (ds ! r)) > claimed")
         (auto simp: result_simps cw_laws min_def)
  qed
qed

text \<open>The messages undelegate exactly the claim, each within one of the delegations.\<close>

lemma pick_unbond_loop_exact:
  assumes "pick_unbond_loop S dn height i ds claimed ms = Inr ms'"
  shows "\<exists>new. ms' = ms @ new \<and> total_undelegated new = claimed
    \<and> (\<forall>m\<in>set new. undelegates_from dn ds m)"
  using assms
proof (induction "length ds" arbitrary: i ds claimed ms)
  case 0
  show ?case
  proof (cases "claimed = 0")
    case True
    with 0(2) show ?thesis by (simp add: pick_unbond_loop.simps)
  next
    case False
    with 0(2) have False by (rule pick_unbond_loop_step) (use 0(1) in simp)
    then show ?thesis ..
  qed
next
  case (Suc n)
  show ?case
  proof (cases "claimed = 0")
    case True
    with Suc.prems show ?thesis by (simp add: pick_unbond_loop.simps)
  next
    case False
    with Suc.prems show ?thesis
    proof (rule pick_unbond_loop_step)
      fix r and d :: delegation
      let ?rest = "take r ds @ drop (Suc r) ds" and ?val = "coin_amount (del_amount d)"
      let ?msg = "if 0 < ?val then [new_sub_msg (StakingUndelegate (del_validator d)
          \<lparr>denom = dn, coin_amount = min claimed ?val\<rparr>)] else []"
      assume r: "r < length ds" and d: "d = ds ! r"
        and run: "pick_unbond_loop S dn height (Suc i) ?rest (claimed - min claimed ?val) (ms @ ?msg)
          = Inr ms'"
      have "n = length ?rest" using Suc.hyps(2) r by simp
      from Suc.hyps(1) [OF this run] obtain new where
        new: "ms' = (ms @ ?msg) @ new" "total_undelegated new = claimed - min claimed ?val"
          "\<forall>m\<in>set new. undelegates_from dn ?rest m" by blast
      have "d \<in> set ds" using r d by simp
      then have "0 < ?val \<Longrightarrow> undelegates_from dn ds (new_sub_msg (StakingUndelegate
          (del_validator d) \<lparr>denom = dn, coin_amount = min claimed ?val\<rparr>))"
        unfolding undelegates_from_def using False
        by (intro bexI [of _ d] exI [of _ "min claimed ?val"]) simp_all
      then have "\<forall>m\<in>set ?msg. undelegates_from dn ds m" by simp
      moreover have "\<forall>m\<in>set new. undelegates_from dn ds m"
        using new(3) set_removed [of r ds] by (blast intro: undelegates_from_mono)
      moreover have "total_undelegated (?msg @ new) = claimed"
        using new(2) by auto
      ultimately show ?thesis using new(1) by (intro exI [of _ "?msg @ new"]) auto
    qed
  qed
qed

text \<open>When the delegations cover the claim, the loop ends and succeeds.\<close>

lemma pick_unbond_loop_total:
  assumes "claimed \<le> total_delegation ds" and "height + i + length ds < U64"
  shows "\<exists>ms'. pick_unbond_loop S dn height i ds claimed ms = Inr ms'"
  using assms
proof (induction "length ds" arbitrary: i ds claimed ms)
  case 0
  then show ?case by (simp add: total_delegation_def pick_unbond_loop.simps)
next
  case (Suc n)
  show ?case
  proof (cases "claimed = 0")
    case True
    then show ?thesis by (simp add: pick_unbond_loop.simps)
  next
    case False
    have "0 < length ds" using Suc.hyps(2) by linarith
    then obtain r where r: "gen_range S (height + i) 0 (length ds) = (Inr r :: (std_error, nat) result)"
      using gen_range_total by blast
    have lt: "r < length ds" by (rule gen_range_Ok [OF r])
    let ?val = "coin_amount (del_amount (ds ! r))" and ?rest = "take r ds @ drop (Suc r) ds"
    have "n = length ?rest" using Suc.hyps(2) lt by simp
    moreover have "claimed - min claimed ?val \<le> total_delegation ?rest"
      using Suc.prems(1) total_delegation_removed [OF lt] by linarith
    moreover have "height + Suc i + length ?rest < U64" using Suc.prems(2) lt by simp
    ultimately have IH: "\<exists>ms'. pick_unbond_loop S dn height (Suc i) ?rest
        (claimed - min claimed ?val) ms = Inr ms'" for ms
      by (rule Suc.hyps(1))
    have "u64_add i 1 = (Inr (Suc i) :: (std_error, nat) result)"
      using Suc.prems(2) lt by (simp add: u64_add_def)
    moreover have "u64_add height i = (Inr (height + i) :: (std_error, nat) result)"
      using Suc.prems(2) by (simp add: u64_add_def)
    moreover have "(if ?val > claimed then Ok (claimed, 0)
        else andThen (uchecked_sub S OverflowErr claimed ?val) (\<lambda>c. Ok (?val, c)))
        = (Inr (min claimed ?val, claimed - min claimed ?val) :: (std_error, nat \<times> nat) result)"
      by (auto simp: uchecked_sub_def checked_sub_law min_def)
    ultimately show ?thesis
      using IH False r lt by (subst pick_unbond_loop.simps) (simp add: Let_def)
  qed
qed

end

section \<open>Lemmas on releasing batches\<close>

text \<open>What a batch pays out at a rate, and the maximal run of due batches from \<open>i\<close> on.\<close>

definition payout :: "unbond_history \<Rightarrow> nat" where
  "payout h = history_amount h * withdraw_rate h div DEC_ONE"

definition due_run :: "vault \<Rightarrow> nat \<Rightarrow> nat \<Rightarrow> nat \<Rightarrow> bool" where
  "due_run v t i m \<longleftrightarrow>
     (\<forall>k\<in>{i..<i + m}. due_history v t k \<noteq> None) \<and> due_history v t (i + m) = None"

lemma due_run_unique:
  assumes "due_run v t i m" and "due_run v t i n"
  shows "m = n"
proof -
  have "\<not> a < b" if "due_run v t i a" and "due_run v t i b" for a b
  proof
    assume "a < b"
    then have "i + a \<in> {i..<i + b}" by simp
    with that show False unfolding due_run_def by blast
  qed
  from this [OF assms] this [OF assms(2,1)] show ?thesis by simp
qed

lemma due_run_Suc:
  assumes "due_history v t i = Some h" and "due_run v t (Suc i) m"
  shows "due_run v t i (Suc m)"
proof -
  have "due_history v t k \<noteq> None" if "k \<in> {i..<i + Suc m}" for k
    using that assms by (cases "k = i") (auto simp: due_run_def)
  then show ?thesis using assms(2) by (simp add: due_run_def)
qed

lemma due_history_store_other:
  assumes "wf_store (UNBOND_HISTORY v)" and "k \<noteq> i"
  shows "due_history (store_unbond_history v i h) t k = due_history v t k"
  using assms by (simp add: due_history_def read_unbond_history_def store_unbond_history_def get_put)

lemma due_run_store:
  assumes "wf_store (UNBOND_HISTORY v)" and "i < j"
  shows "due_run (store_unbond_history v i h) t j m = due_run v t j m"
  using assms by (auto simp: due_run_def due_history_store_other)

lemma sum_from_Suc:
  fixes f :: "nat \<Rightarrow> nat"
  shows "(\<Sum>k\<in>{i..<i + Suc m}. f k) = f i + (\<Sum>k\<in>{Suc i..<Suc i + m}. f k)"
  by (simp add: sum.atLeast_Suc_lessThan)

context cosmwasm_std
begin

lemma total_unbonded_loop_Ok:
  assumes "total_unbonded_loop S v t i acc n = Inr (acc', n')"
  shows "\<exists>m. due_run v t i m \<and> n' = n + m
    \<and> acc' = acc + (\<Sum>k\<in>{i..<i + m}. payout (the (get (UNBOND_HISTORY v) k)))"
  using assms
proof (induction "histories_from v i" arbitrary: i acc n rule: less_induct)
  case less
  show ?case
  proof (cases "due_history v t i")
    case None
    with less.prems have "n' = n" and "acc' = acc" by (simp_all add: total_unbonded_loop.simps)
    with None show ?thesis by (intro exI [of _ 0]) (simp add: due_run_def)
  next
    case (Some h)
    then have h: "get (UNBOND_HISTORY v) i = Some h" by (simp add: due_history_Some)
    from less.prems Some have
      "total_unbonded_loop S v t (Suc i) (acc + payout h) (Suc n) = Inr (acc', n')"
      by (subst (asm) total_unbonded_loop.simps) (auto simp: result_simps cw_laws payout_def)
    from less.hyps [OF histories_from_Suc [OF h] this] obtain m where
      "due_run v t (Suc i) m" "n' = Suc n + m"
      "acc' = acc + payout h + (\<Sum>k\<in>{Suc i..<Suc i + m}. payout (the (get (UNBOND_HISTORY v) k)))"
      by blast
    with Some h show ?thesis
      by (intro exI [of _ "Suc m"]) (simp add: due_run_Suc sum_from_Suc del: add_Suc_right sum.op_ivl_Suc)
  qed
qed

text \<open>One pass of the release loop over a batch.\<close>

lemma release_loop_Ok:
  assumes "release_loop S v t expected slashed i processed = Inr (v', processed')"
    and "wf_store (UNBOND_HISTORY v)"
  shows "\<exists>m. due_run v t i m \<and> processed' = (if m = 0 then processed else i + m - 1)
    \<and> v' = v\<lparr>UNBOND_HISTORY := UNBOND_HISTORY v'\<rparr> \<and> wf_store (UNBOND_HISTORY v')
    \<and> (\<forall>k. k \<notin> {i..<i + m} \<longrightarrow> get (UNBOND_HISTORY v') k = get (UNBOND_HISTORY v) k)
    \<and> (\<forall>k\<in>{i..<i + m}. \<exists>h r. due_history v t k = Some h \<and> new_withdraw_rate S expected slashed h = Inr r
        \<and> get (UNBOND_HISTORY v') k = Some (h\<lparr>withdraw_rate := r, released := True\<rparr>))"
  using assms
proof (induction "histories_from v i" arbitrary: v i processed rule: less_induct)
  case less
  show ?case
  proof (cases "due_history v t i")
    case None
    with less.prems have "v' = v" and "processed' = processed" by (simp_all add: release_loop.simps)
    with None less.prems show ?thesis by (intro exI [of _ 0]) (simp add: due_run_def)
  next
    case (Some h)
    then have h: "get (UNBOND_HISTORY v) i = Some h" by (simp add: due_history_Some)
    from less.prems(1) Some obtain r where r: "new_withdraw_rate S expected slashed h = Inr r"
      and run: "release_loop S (store_unbond_history v i (h\<lparr>withdraw_rate := r, released := True\<rparr>))
        t expected slashed (Suc i) i = Inr (v', processed')"
      by (subst (asm) release_loop.simps) (auto simp: result_simps)
    let ?v = "store_unbond_history v i (h\<lparr>withdraw_rate := r, released := True\<rparr>)"
    have wf: "wf_store (UNBOND_HISTORY ?v)" using less.prems(2)
      by (simp add: store_unbond_history_def wf_put)
    have smaller: "histories_from ?v (Suc i) < histories_from v i"
      using histories_from_Suc [OF h] by (simp add: histories_from_store)
    have old: "get (UNBOND_HISTORY ?v) k = (if k = i then Some (h\<lparr>withdraw_rate := r, released := True\<rparr>)
        else get (UNBOND_HISTORY v) k)" for k
      using less.prems(2) by (simp add: store_unbond_history_def get_put)
    from less.hyps [OF smaller run wf] obtain m where m: "due_run ?v t (Suc i) m"
      and pr: "processed' = (if m = 0 then i else Suc i + m - 1)"
      and v': "v' = ?v\<lparr>UNBOND_HISTORY := UNBOND_HISTORY v'\<rparr>" "wf_store (UNBOND_HISTORY v')"
      and out: "\<forall>k. k \<notin> {Suc i..<Suc i + m} \<longrightarrow> get (UNBOND_HISTORY v') k = get (UNBOND_HISTORY ?v) k"
      and ins: "\<forall>k\<in>{Suc i..<Suc i + m}. \<exists>h r. due_history ?v t k = Some h
        \<and> new_withdraw_rate S expected slashed h = Inr r
        \<and> get (UNBOND_HISTORY v') k = Some (h\<lparr>withdraw_rate := r, released := True\<rparr>)"
      by blast
    have run_m: "due_run v t i (Suc m)"
      using m Some less.prems(2) by (simp add: due_run_Suc due_run_store)
    have "\<forall>k. k \<notin> {i..<i + Suc m} \<longrightarrow> get (UNBOND_HISTORY v') k = get (UNBOND_HISTORY v) k"
      using out old by (metis add_Suc add_Suc_right atLeastLessThan_iff less_Suc_eq_le not_less_eq
          order_refl not_less_eq_eq Suc_leD le_add1)
    moreover have "\<exists>h r. due_history v t k = Some h \<and> new_withdraw_rate S expected slashed h = Inr r
        \<and> get (UNBOND_HISTORY v') k = Some (h\<lparr>withdraw_rate := r, released := True\<rparr>)"
      if k: "k \<in> {i..<i + Suc m}" for k
    proof (cases "k = i")
      case True
      then show ?thesis using Some r out old by auto
    next
      case False
      with k have "k \<in> {Suc i..<Suc i + m}" by auto
      with ins False less.prems(2) show ?thesis by (simp add: due_history_store_other)
    qed
    moreover have "v' = v\<lparr>UNBOND_HISTORY := UNBOND_HISTORY v'\<rparr>"
      using v'(1) by (simp add: store_unbond_history_def)
    ultimately show ?thesis using run_m pr v'(2) by (intro exI [of _ "Suc m"]) auto
  qed
qed

end

end
