(* ===== verification/Vault_Accounting.thy ===== *)
theory Vault_Accounting
  imports Vault_Unbond
begin

text \<open>
  Accounting of the unbonding batches: the invariant that ties the wait list, the current
  batch, the history and the last processed batch together, that bonding, unbonding and
  withdrawing keep it, and that the batches a withdrawal releases pay at most the Luna that has
  arrived for them.
\<close>

section \<open>Solvency\<close>

text \<open>
  Rounding in the split of a shortfall: each batch loses its floored share plus one, which
  covers the exact shortfall as long as it is not larger than the precision over the number of
  batches.
\<close>

lemma share_below:
  fixes u expected amount :: nat
  assumes "0 < expected"
  shows "amount * (u * W div expected) div W * expected \<le> amount * u"
proof -
  have "amount * (u * W div expected) div W * (expected * W) \<le> amount * (u * W div expected) * expected"
    by (metis div_times_less_eq_dividend mult.assoc mult.commute mult_le_mono1)
  also have "\<dots> \<le> amount * (u * W)"
    by (metis div_times_less_eq_dividend mult.assoc mult_le_mono2)
  finally have "(amount * (u * W div expected) div W * expected) * W \<le> (amount * u) * W"
    by (simp add: mult.assoc)
  then show ?thesis by (cases "W = 0") auto
qed

lemma ratio_payout_le: "a * (x * W div a) div W \<le> (x :: nat)"
proof -
  have "a * (x * W div a) div W \<le> x * W div W" by (intro div_le_mono times_div_less_eq_dividend)
  also have "\<dots> \<le> x" by simp
  finally show ?thesis .
qed

lemma share_above:
  fixes u expected amount :: nat
  assumes "0 < expected" "0 < W" "0 < amount"
  shows "amount * u * W < expected * W * (amount * (u * W div expected) div W + 1) + expected * amount"
proof -
  let ?w = "u * W div expected" let ?s = "amount * ?w div W"
  have "u * W < (?w + 1) * expected"
    using dividend_less_div_times [OF assms(1), of "u * W"] by (simp add: algebra_simps)
  then have "amount * (u * W) < amount * ((?w + 1) * expected)" using assms(3) by simp
  also have "\<dots> = expected * (amount * ?w) + expected * amount" by (simp add: algebra_simps)
  also have "expected * (amount * ?w) \<le> expected * ((?s + 1) * W)"
    using dividend_less_div_times [OF assms(2), of "amount * ?w"] by (intro mult_le_mono2) (simp add: algebra_simps)
  finally show ?thesis by (simp add: algebra_simps)
qed

lemma shares_cover:
  fixes u :: "nat \<Rightarrow> nat"
  assumes "finite K" "K \<noteq> {}" "0 < sum u K" "0 < W" "0 < amount" "amount * card K \<le> W"
  shows "amount \<le> (\<Sum>k\<in>K. amount * (u k * W div sum u K) div W + 1)"
proof -
  let ?T = "sum u K" let ?s = "\<lambda>k. amount * (u k * W div ?T) div W + 1"
  have "(\<Sum>k\<in>K. amount * u k * W) < (\<Sum>k\<in>K. ?T * W * ?s k + ?T * amount)"
    using assms by (intro sum_strict_mono share_above) simp_all
  then have "amount * ?T * W < ?T * W * sum ?s K + card K * (?T * amount)"
    by (simp only: sum.distrib sum_distrib_left [symmetric] sum_distrib_right [symmetric] sum_constant of_nat_id mult.left_commute [of "sum u K" "card K"])
  also have "\<dots> = ?T * (W * sum ?s K + amount * card K)" by (simp only: algebra_simps)
  also have "\<dots> \<le> ?T * (W * sum ?s K + W)" using assms(6) by simp
  finally have "?T * (amount * W) < ?T * (W * (sum ?s K + 1))" by (simp only: algebra_simps)
  then have "amount * W < W * (sum ?s K + 1)" by simp
  then have "amount < sum ?s K + 1" by (metis mult.commute nat_mult_less_cancel_disj)
  then show ?thesis by linarith
qed

lemma shares_within:
  fixes u :: "nat \<Rightarrow> nat"
  assumes "finite K" "0 < sum u K"
  shows "(\<Sum>k\<in>K. amount * (u k * W div sum u K) div W) \<le> amount"
proof -
  let ?T = "sum u K"
  have "(\<Sum>k\<in>K. amount * (u k * W div ?T) div W) * ?T \<le> (\<Sum>k\<in>K. amount * u k)"
    unfolding sum_distrib_right by (intro sum_mono share_below assms)
  then have "(\<Sum>k\<in>K. amount * (u k * W div ?T) div W) * ?T \<le> amount * ?T"
    by (simp add: sum_distrib_left)
  then show ?thesis using assms(2) by simp
qed

text \<open>
  The batches a withdrawal releases, and the amount the code takes for the Luna received for
  them: the recorded amount and the magnitude of the change of the balance, whatever its sign.
\<close>

definition newly_released :: "vault \<Rightarrow> nat \<Rightarrow> nat set" where
  "newly_released v m = {Suc (last_processed_batch (STATE v))..<Suc (last_processed_batch (STATE v)) + m}"

definition counted :: "vault \<Rightarrow> nat \<Rightarrow> nat" where
  "counted v balance = actual_unbonded_amount (STATE v) +
     (if prev_vault_balance (STATE v) \<le> balance then balance - prev_vault_balance (STATE v)
      else prev_vault_balance (STATE v) - balance)"

context cosmwasm_std
begin

text \<open>The rate a batch gets, as what it will pay out at most.\<close>

lemma new_withdraw_rate_Ok:
  assumes "new_withdraw_rate S expected sl h = Inr r"
  defines "s \<equiv> fst sl * (payout h * DEC_ONE div expected) div DEC_ONE"
  shows "0 < expected" and "0 < history_amount h"
    and "snd sl \<Longrightarrow> 1 \<le> s \<and> r = (payout h + (s - 1)) * DEC_ONE div history_amount h"
    and "\<not> snd sl \<Longrightarrow> fst sl = 0 \<Longrightarrow> r = payout h * DEC_ONE div history_amount h"
    and "\<not> snd sl \<Longrightarrow> fst sl \<noteq> 0 \<Longrightarrow> s + 1 \<le> payout h \<Longrightarrow>
      r = (payout h - (s + 1)) * DEC_ONE div history_amount h"
  using assms(1)
  by (auto simp: new_withdraw_rate_def result_simps cw_laws from_subtraction_eq s_def payout_def
      split: if_splits)

text \<open>
  \<open>process_withdraw_rate\<close> releases the maximal run of due batches after the last processed one;
  both of its loops see the same run.
\<close>

lemma process_withdraw_rate_Ok:
  assumes "process_withdraw_rate S v t bal = Inr v'" and wf: "wf_store (UNBOND_HISTORY v)"
  obtains m expected where
    "due_run v t (Suc (last_processed_batch (STATE v))) m"
    and "expected = (\<Sum>k\<in>newly_released v m. payout (the (get (UNBOND_HISTORY v) k)))"
    and "v' = v\<lparr>UNBOND_HISTORY := UNBOND_HISTORY v', STATE := (STATE v)\<lparr>
        last_processed_batch := last_processed_batch (STATE v) + m, actual_unbonded_amount := 0\<rparr>\<rparr>"
    and "wf_store (UNBOND_HISTORY v')"
    and "\<forall>k. k \<notin> newly_released v m \<longrightarrow> get (UNBOND_HISTORY v') k = get (UNBOND_HISTORY v) k"
    and "\<forall>k\<in>newly_released v m. \<exists>h r. due_history v t k = Some h
      \<and> new_withdraw_rate S expected
          (if counted v bal \<le> expected then (expected - counted v bal, False) else (counted v bal - expected, True)) h = Inr r
      \<and> get (UNBOND_HISTORY v') k = Some (h\<lparr>withdraw_rate := r, released := True\<rparr>)"
proof -
  let ?i = "last_processed_batch (STATE v) + 1"
  let ?st = "\<lambda>w p. w\<lparr>STATE := (STATE v)\<lparr>last_processed_batch := p, actual_unbonded_amount := 0\<rparr>\<rparr>"
  from assms(1) obtain bc a expected n w p where
    bc: "from_subtraction S bal (prev_vault_balance (STATE v)) = (Inr bc :: (std_error, signed_int) result)"
    and a: "uadd S (actual_unbonded_amount (STATE v)) (fst bc) = (Inr a :: (std_error, nat) result)"
    and tot: "total_unbonded_loop S v t ?i 0 0 = Inr (expected, n)"
    and rel0: "(if n \<ge> 1 then
          andThen (from_subtraction S expected a) (\<lambda>slashed_amount.
          release_loop S v t expected slashed_amount ?i (last_processed_batch (STATE v)))
        else Ok (v, last_processed_batch (STATE v))) = Inr (w, p)"
    and v': "v' = ?st w p"
    unfolding process_withdraw_rate_def Let_def
    apply (elim andThen_OkE)
    apply (clarsimp simp del: One_nat_def add_Suc_right simp: u64_add_Ok_iff)
    apply (erule andThen_OkE)
    apply (clarsimp simp del: One_nat_def simp: Suc_eq_plus1)
    done
  have "a = counted v bal"
    using bc a by (auto simp: from_subtraction_eq uadd_Ok_iff counted_def split: if_splits)
  note rel = rel0 [unfolded this]
  from total_unbonded_loop_Ok [OF tot] obtain m where m: "due_run v t ?i m" "n = m"
    and exp: "expected = (\<Sum>k\<in>newly_released v m. payout (the (get (UNBOND_HISTORY v) k)))"
    by (auto simp: newly_released_def)
  show thesis
  proof (cases "m = 0")
    case True
    with rel m(2) have "w = v" and "p = last_processed_batch (STATE v)" by auto
    with True v' m wf exp show thesis by (intro that) (auto simp: newly_released_def)
  next
    case False
    with rel m(2) have run: "release_loop S v t expected (if counted v bal \<le> expected
        then (expected - counted v bal, False) else (counted v bal - expected, True)) ?i
        (last_processed_batch (STATE v)) = Inr (w, p)"
      by (auto simp: from_subtraction_eq result_simps split: if_splits)
    from release_loop_Ok [OF run wf] obtain m' where m': "due_run v t ?i m'"
      and p: "p = (if m' = 0 then last_processed_batch (STATE v) else ?i + m' - 1)"
      and w: "w = v\<lparr>UNBOND_HISTORY := UNBOND_HISTORY w\<rparr>" "wf_store (UNBOND_HISTORY w)"
      and out: "\<forall>k. k \<notin> {?i..<?i + m'} \<longrightarrow> get (UNBOND_HISTORY w) k = get (UNBOND_HISTORY v) k"
      and ins: "\<forall>k\<in>{?i..<?i + m'}. \<exists>h r. due_history v t k = Some h
        \<and> new_withdraw_rate S expected (if counted v bal \<le> expected
            then (expected - counted v bal, False) else (counted v bal - expected, True)) h = Inr r
        \<and> get (UNBOND_HISTORY w) k = Some (h\<lparr>withdraw_rate := r, released := True\<rparr>)"
      by blast
    have eq: "m' = m" by (rule due_run_unique [OF m' m(1)])
    have new: "newly_released v m = {?i..<?i + m'}" by (simp add: newly_released_def eq)
    have uh: "UNBOND_HISTORY v' = UNBOND_HISTORY w" by (simp add: v')
    show thesis
    proof (rule that [of m expected])
      show "due_run v t (Suc (last_processed_batch (STATE v))) m" using m(1) by simp
      have "p = last_processed_batch (STATE v) + m" using p eq False by simp
      then show "v' = v\<lparr>UNBOND_HISTORY := UNBOND_HISTORY v', STATE := (STATE v)\<lparr>
        last_processed_batch := last_processed_batch (STATE v) + m, actual_unbonded_amount := 0\<rparr>\<rparr>"
        by (subst v', subst w(1)) (simp add: uh)
    qed (use exp w(2) out ins new uh in simp_all)
  qed
qed

text \<open>What a released batch pays is bounded by its part of the arrived amount.\<close>

lemma new_rate_payout:
  assumes "new_withdraw_rate S expected sl h = Inr r"
  defines "s \<equiv> fst sl * (payout h * DEC_ONE div expected) div DEC_ONE"
  shows "snd sl \<Longrightarrow> payout (h\<lparr>withdraw_rate := r, released := True\<rparr>) \<le> payout h + s"
    and "\<not> snd sl \<Longrightarrow> fst sl = 0 \<Longrightarrow> payout (h\<lparr>withdraw_rate := r, released := True\<rparr>) \<le> payout h"
    and "\<not> snd sl \<Longrightarrow> fst sl \<noteq> 0 \<Longrightarrow> s + 1 \<le> payout h \<Longrightarrow>
      payout (h\<lparr>withdraw_rate := r, released := True\<rparr>) \<le> payout h - (s + 1)"
proof -
  note new = new_withdraw_rate_Ok [OF assms(1), folded s_def]
  have le: "payout (h\<lparr>withdraw_rate := x * DEC_ONE div history_amount h, released := True\<rparr>) \<le> x" for x
    using ratio_payout_le [of "history_amount h" x] by (simp add: payout_def)
  show "snd sl \<Longrightarrow> payout (h\<lparr>withdraw_rate := r, released := True\<rparr>) \<le> payout h + s"
    using new(3) le [of "payout h + (s - 1)"] by force
  show "\<not> snd sl \<Longrightarrow> fst sl = 0 \<Longrightarrow> payout (h\<lparr>withdraw_rate := r, released := True\<rparr>) \<le> payout h"
    using new(4) le by simp
  show "\<not> snd sl \<Longrightarrow> fst sl \<noteq> 0 \<Longrightarrow> s + 1 \<le> payout h \<Longrightarrow>
      payout (h\<lparr>withdraw_rate := r, released := True\<rparr>) \<le> payout h - (s + 1)"
    using new(5) le by simp
qed

text \<open>All released batches together pay at most what has arrived.\<close>

lemma released_payouts_le:
  fixes u p :: "nat \<Rightarrow> nat"
  assumes fin: "finite K" and pos: "\<forall>k\<in>K. 0 < u k" and arr: "0 < arr"
    and prec: "(sum u K - arr) * card K \<le> DEC_ONE"
    and p: "\<forall>k\<in>K. \<exists>h r. payout h = u k
      \<and> new_withdraw_rate S (sum u K)
          (if arr \<le> sum u K then (sum u K - arr, False) else (arr - sum u K, True)) h = Inr r
      \<and> p k = payout (h\<lparr>withdraw_rate := r, released := True\<rparr>)"
  shows "sum p K \<le> arr"
proof (cases "K = {}")
  case False
  let ?T = "sum u K"
  have T: "0 < ?T" using False fin pos by (simp add: sum_pos)
  consider (surplus) "?T < arr" | (exact) "arr = ?T" | (short) "arr < ?T" by linarith
  then show ?thesis
  proof cases
    case surplus
    have "p k \<le> u k + (arr - ?T) * (u k * DEC_ONE div ?T) div DEC_ONE" if "k \<in> K" for k
      using bspec [OF p that] surplus new_rate_payout(1) by fastforce
    then have "sum p K \<le> ?T + (\<Sum>k\<in>K. (arr - ?T) * (u k * DEC_ONE div ?T) div DEC_ONE)"
      unfolding sum.distrib [symmetric] by (rule sum_mono)
    also have "\<dots> \<le> ?T + (arr - ?T)" using shares_within [OF fin T] by simp
    finally show ?thesis using surplus by simp
  next
    case exact
    have "p k \<le> u k" if "k \<in> K" for k
      using bspec [OF p that] exact new_rate_payout(2) by fastforce
    then show ?thesis using exact by (simp add: sum_mono)
  next
    case short
    let ?s = "\<lambda>k. (?T - arr) * (u k * DEC_ONE div ?T) div DEC_ONE + 1"
    have s: "?s k \<le> u k" if "k \<in> K" for k
    proof -
      have "(?s k - 1) * ?T \<le> (?T - arr) * u k" using share_below [OF T] by simp
      also have "\<dots> < ?T * u k" using short arr pos that by simp
      finally have "?s k - 1 < u k" by (simp add: mult.commute)
      then show ?thesis by linarith
    qed
    have "p k + ?s k \<le> u k" if "k \<in> K" for k
    proof -
      from bspec [OF p that] short obtain h r where h: "payout h = u k"
        and new: "new_withdraw_rate S ?T (?T - arr, False) h = Inr r"
        and pk: "p k = payout (h\<lparr>withdraw_rate := r, released := True\<rparr>)" by auto
      show ?thesis using new_rate_payout(3) [OF new] s [OF that] short h pk by simp
    qed
    then have "sum p K + sum ?s K \<le> ?T"
      unfolding sum.distrib [symmetric] by (rule sum_mono)
    moreover have "?T - arr \<le> sum ?s K"
      using shares_cover [OF fin False T _ _ prec] short by (simp add: DEC_ONE_def)
    ultimately show ?thesis using short by linarith
  qed
qed simp
end

section \<open>The accounting invariant\<close>

text \<open>
  Batches are numbered from one; those below the current one are in the history, and exactly
  those up to the last processed one are released. The wait list mentions no later batch than
  the current one; its entries for the current batch add up to the requested amount, for a
  closed batch to the recorded amount, and for a released batch to no more than that.
\<close>

definition vault_inv :: "vault \<Rightarrow> bool" where
  "vault_inv v \<longleftrightarrow>
     wf_store (UNBOND_WAITLIST v) \<and> wf_store (UNBOND_HISTORY v) \<and> wf_store (VALIDATORS v)
     \<and> last_processed_batch (STATE v) < current_id (CURRENT_BATCH v)
     \<and> (\<forall>k. get (UNBOND_HISTORY v) k \<noteq> None \<longleftrightarrow> 0 < k \<and> k < current_id (CURRENT_BATCH v))
     \<and> (\<forall>k h. get (UNBOND_HISTORY v) k = Some h \<longrightarrow> batch_id h = k
          \<and> (released h \<longleftrightarrow> k \<le> last_processed_batch (STATE v))
          \<and> batch_total v k \<le> history_amount h
          \<and> (\<not> released h \<longrightarrow> batch_total v k = history_amount h))
     \<and> (\<forall>a k x. get (UNBOND_WAITLIST v) (a, k) = Some x \<longrightarrow> 0 < k \<and> k \<le> current_id (CURRENT_BATCH v))
     \<and> batch_total v (current_id (CURRENT_BATCH v)) = requested_with_fee (CURRENT_BATCH v)"

lemma vault_invI:
  assumes "wf_store (UNBOND_WAITLIST v)" and "wf_store (UNBOND_HISTORY v)" and "wf_store (VALIDATORS v)"
    and "last_processed_batch (STATE v) < current_id (CURRENT_BATCH v)"
    and "\<And>k. get (UNBOND_HISTORY v) k \<noteq> None \<longleftrightarrow> 0 < k \<and> k < current_id (CURRENT_BATCH v)"
    and "\<And>k h. get (UNBOND_HISTORY v) k = Some h \<Longrightarrow> batch_id h = k
      \<and> (released h \<longleftrightarrow> k \<le> last_processed_batch (STATE v))
      \<and> batch_total v k \<le> history_amount h
      \<and> (\<not> released h \<longrightarrow> batch_total v k = history_amount h)"
    and "\<And>a k x. get (UNBOND_WAITLIST v) (a, k) = Some x \<Longrightarrow> 0 < k \<and> k \<le> current_id (CURRENT_BATCH v)"
    and "batch_total v (current_id (CURRENT_BATCH v)) = requested_with_fee (CURRENT_BATCH v)"
  shows "vault_inv v"
  using assms unfolding vault_inv_def by blast

lemma vault_inv_stores:
  assumes "vault_inv v"
  shows "wf_store (UNBOND_WAITLIST v)" and "wf_store (UNBOND_HISTORY v)" and "wf_store (VALIDATORS v)"
    and "last_processed_batch (STATE v) < current_id (CURRENT_BATCH v)"
    and "batch_total v (current_id (CURRENT_BATCH v)) = requested_with_fee (CURRENT_BATCH v)"
  using assms by (simp_all add: vault_inv_def)

lemma vault_inv_keys:
  assumes "vault_inv v"
  shows "get (UNBOND_HISTORY v) k \<noteq> None \<longleftrightarrow> 0 < k \<and> k < current_id (CURRENT_BATCH v)"
  using assms unfolding vault_inv_def by blast

lemma vault_inv_history:
  assumes "vault_inv v" and "get (UNBOND_HISTORY v) k = Some h"
  shows "batch_id h = k" and "released h \<longleftrightarrow> k \<le> last_processed_batch (STATE v)"
    and "batch_total v k \<le> history_amount h"
    and "\<not> released h \<Longrightarrow> batch_total v k = history_amount h"
    and "0 < k" and "k < current_id (CURRENT_BATCH v)"
  using assms unfolding vault_inv_def by blast+

lemma vault_inv_waitlist:
  assumes "vault_inv v" and "get (UNBOND_WAITLIST v) (a, k) = Some x"
  shows "0 < k" and "k \<le> current_id (CURRENT_BATCH v)"
  using assms unfolding vault_inv_def by blast+

text \<open>The invariant reads only these parts of the storage.\<close>

lemma vault_inv_cong:
  assumes "vault_inv v" and "UNBOND_WAITLIST w = UNBOND_WAITLIST v"
    and "UNBOND_HISTORY w = UNBOND_HISTORY v" and "wf_store (VALIDATORS w)"
    and "CURRENT_BATCH w = CURRENT_BATCH v"
    and "last_processed_batch (STATE w) = last_processed_batch (STATE v)"
  shows "vault_inv w"
  using assms(1) unfolding vault_inv_def assms(2-6) batch_total_waitlist_only [OF assms(2)]
  using assms(4) by blast

lemma batch_total_fresh:
  assumes "vault_inv v" and "current_id (CURRENT_BATCH v) < b"
  shows "batch_total v b = 0"
proof (rule batch_total_none)
  have wf: "wf_store (UNBOND_WAITLIST v)" using assms(1) by (simp add: vault_inv_def)
  have "k \<noteq> b" if "((a, k), x) \<in> set (UNBOND_WAITLIST v)" for a k x
  proof -
    from that wf have "get (UNBOND_WAITLIST v) (a, k) = Some x" by (simp add: entries_get)
    with assms(1) have "k \<le> current_id (CURRENT_BATCH v)" unfolding vault_inv_def by blast
    with assms(2) show ?thesis by simp
  qed
  then show "\<forall>((a, k), x)\<in>set (UNBOND_WAITLIST v). k \<noteq> b" by auto
qed

text \<open>Entering an amount into the current batch.\<close>

lemma vault_inv_request:
  assumes inv: "vault_inv v"
    and v': "v' = v\<lparr>UNBOND_WAITLIST := put (a, current_id (CURRENT_BATCH v))
        ((case get (UNBOND_WAITLIST v) (a, current_id (CURRENT_BATCH v)) of Some y \<Rightarrow> y | None \<Rightarrow> 0) + x)
        (UNBOND_WAITLIST v),
      CURRENT_BATCH := (CURRENT_BATCH v)\<lparr>requested_with_fee := requested_with_fee (CURRENT_BATCH v) + x\<rparr>\<rparr>"
  shows "vault_inv v'"
proof -
  let ?c = "current_id (CURRENT_BATCH v)"
  let ?y = "(case get (UNBOND_WAITLIST v) (a, ?c) of Some y \<Rightarrow> y | None \<Rightarrow> 0) + x"
  have wf: "wf_store (UNBOND_WAITLIST v)" using inv by (simp add: vault_inv_def)
  have bt: "batch_total v' b = batch_total v b + (if b = ?c then x else 0)" for b
  proof -
    have "batch_total v' b = batch_total (v\<lparr>UNBOND_WAITLIST := put (a, ?c) ?y (UNBOND_WAITLIST v)\<rparr>) b"
      by (simp add: v' batch_total_def)
    with batch_total_put [OF wf, of a ?c ?y b] show ?thesis by (auto split: option.splits)
  qed
  have closed: "b \<noteq> ?c" if "get (UNBOND_HISTORY v) b = Some h" for b h
    using inv that unfolding vault_inv_def by (metis less_irrefl option.distinct(1))
  show ?thesis
    unfolding vault_inv_def
  proof (intro conjI allI impI)
    show "wf_store (UNBOND_WAITLIST v')" by (simp add: v' wf_put wf)
    show "batch_total v' (current_id (CURRENT_BATCH v')) = requested_with_fee (CURRENT_BATCH v')"
      using inv by (simp add: bt v' [THEN arg_cong [where f = CURRENT_BATCH]] vault_inv_def)
  next
    fix u k z assume "get (UNBOND_WAITLIST v') (u, k) = Some z"
    then have "k = ?c \<or> get (UNBOND_WAITLIST v) (u, k) = Some z"
      by (simp add: v' get_put [OF wf] split: if_splits)
    moreover have "0 < ?c" using vault_inv_stores(4) [OF inv] by simp
    ultimately show "0 < k" "k \<le> current_id (CURRENT_BATCH v')"
      using vault_inv_waitlist [OF inv, of u k z] by (auto simp: v')
  next
    fix k h assume h: "get (UNBOND_HISTORY v') k = Some h"
    then have h': "get (UNBOND_HISTORY v) k = Some h" by (simp add: v')
    note facts = vault_inv_history [OF inv h'] closed [OF h'] bt [of k]
    show "batch_id h = k" "released h = (k \<le> last_processed_batch (STATE v'))"
        "batch_total v' k \<le> history_amount h" 
      using facts by (simp_all add: v' [THEN arg_cong [where f = STATE]])
    show "batch_total v' k = history_amount h" if "\<not> released h" using facts that by simp
  qed (use inv in \<open>simp_all add: v' vault_inv_def\<close>)
qed

text \<open>Closing the current batch into the history and opening the next one.\<close>

lemma vault_inv_close:
  assumes inv: "vault_inv v"
    and h: "h = \<lparr>batch_id = current_id (CURRENT_BATCH v), history_time = t,
      history_amount = requested_with_fee (CURRENT_BATCH v), applied_exchange_rate = er,
      withdraw_rate = er, released = False\<rparr>"
    and st: "last_processed_batch st = last_processed_batch (STATE v)"
    and v': "v' = v\<lparr>UNBOND_HISTORY := put (current_id (CURRENT_BATCH v)) h (UNBOND_HISTORY v), STATE := st,
      CURRENT_BATCH := \<lparr>current_id = current_id (CURRENT_BATCH v) + 1, requested_with_fee = 0\<rparr>\<rparr>"
  shows "vault_inv v'"
proof -
  let ?c = "current_id (CURRENT_BATCH v)"
  note wf = vault_inv_stores [OF inv]
  have bt: "batch_total v' = batch_total v" by (rule batch_total_waitlist_only) (simp add: v')
  have hist: "get (UNBOND_HISTORY v') k = (if k = ?c then Some h else get (UNBOND_HISTORY v) k)" for k
    by (simp add: v' get_put wf)
  have cur: "CURRENT_BATCH v' = \<lparr>current_id = ?c + 1, requested_with_fee = 0\<rparr>" "STATE v' = st"
    by (simp_all add: v')
  show ?thesis
    unfolding vault_inv_def
  proof (intro conjI allI impI)
    show "wf_store (UNBOND_HISTORY v')" by (simp add: v' wf_put wf)
    show "get (UNBOND_HISTORY v') k \<noteq> None \<longleftrightarrow> 0 < k \<and> k < current_id (CURRENT_BATCH v')" for k
      using vault_inv_keys [OF inv, of k] wf(4) by (auto simp: hist cur)
    show "batch_total v' (current_id (CURRENT_BATCH v')) = requested_with_fee (CURRENT_BATCH v')"
      using batch_total_fresh [OF inv, of "?c + 1"] by (simp add: cur bt)
  next
    fix u k z assume "get (UNBOND_WAITLIST v') (u, k) = Some z"
    then have "get (UNBOND_WAITLIST v) (u, k) = Some z" by (simp add: v')
    from vault_inv_waitlist [OF inv this]
    show "0 < k" "k \<le> current_id (CURRENT_BATCH v')" by (simp_all add: cur)
  next
    fix k g assume g: "get (UNBOND_HISTORY v') k = Some g"
    have "batch_id g = k \<and> released g = (k \<le> last_processed_batch (STATE v'))
        \<and> batch_total v' k \<le> history_amount g
        \<and> (\<not> released g \<longrightarrow> batch_total v' k = history_amount g)"
    proof (cases "k = ?c")
      case True
      with g have "g = h" by (simp add: hist)
      with True wf show ?thesis by (simp add: h bt cur st)
    next
      case False
      with g have "get (UNBOND_HISTORY v) k = Some g" by (simp add: hist)
      from vault_inv_history [OF inv this] show ?thesis by (simp add: bt cur st)
    qed
    then show "batch_id g = k" "released g = (k \<le> last_processed_batch (STATE v'))"
      "batch_total v' k \<le> history_amount g"
      "\<not> released g \<Longrightarrow> batch_total v' k = history_amount g" by blast+
  qed (use wf in \<open>simp_all add: v' st\<close>)
qed

text \<open>Removing released entries of one sender from the wait list.\<close>

lemma vault_inv_remove:
  assumes inv: "vault_inv v"
    and released: "\<forall>k\<in>set bs. \<exists>h. get (UNBOND_HISTORY v) k = Some h \<and> released h"
  shows "vault_inv (remove_unbond_wait_list v bs a)"
proof -
  let ?v = "remove_unbond_wait_list v bs a"
  note wf = vault_inv_stores [OF inv]
  have eq: "CURRENT_BATCH ?v = CURRENT_BATCH v" "STATE ?v = STATE v"
    "UNBOND_HISTORY ?v = UNBOND_HISTORY v" "VALIDATORS ?v = VALIDATORS v"
    "UNBOND_WAITLIST ?v = fold (\<lambda>b. del (a, b)) bs (UNBOND_WAITLIST v)"
    by (simp_all add: remove_unbond_wait_list_eq)
  have le: "batch_total ?v k \<le> batch_total v k" for k by (rule batch_total_remove_le [OF wf(1)])
  have other: "batch_total ?v k = batch_total v k" if "k \<notin> set bs" for k
    by (rule batch_total_remove_other [OF wf(1) that])
  have "current_id (CURRENT_BATCH v) \<notin> set bs"
    using released vault_inv_keys [OF inv, of "current_id (CURRENT_BATCH v)"] by auto
  then have "batch_total ?v (current_id (CURRENT_BATCH v)) = requested_with_fee (CURRENT_BATCH v)"
    using other wf by simp
  moreover have "batch_id g = k \<and> released g = (k \<le> last_processed_batch (STATE v))
      \<and> batch_total ?v k \<le> history_amount g
      \<and> (\<not> released g \<longrightarrow> batch_total ?v k = history_amount g)"
    if g: "get (UNBOND_HISTORY v) k = Some g" for k g
  proof -
    have "\<not> released g \<Longrightarrow> k \<notin> set bs" using released g by auto
    then show ?thesis using vault_inv_history [OF inv g] le [of k] other [of k]
      by (auto intro: order_trans)
  qed
  moreover have "0 < k \<and> k \<le> current_id (CURRENT_BATCH v)"
    if "get (UNBOND_WAITLIST ?v) (u, k) = Some z" for u k z
    using vault_inv_waitlist [OF inv, of u k z] that by (auto simp: eq get_fold_del split: if_splits)
  ultimately show ?thesis
    using wf vault_inv_keys [OF inv] unfolding vault_inv_def eq(1-4)
    by (simp add: eq(5) wf_fold_del)
qed

context cosmwasm_std
begin

text \<open>Fixing the withdraw rates.\<close>

lemma process_withdraw_rate_inv:
  assumes run: "process_withdraw_rate S v t bal = Inr v'" and inv: "vault_inv v"
  shows "vault_inv v'"
proof -
  note wf = vault_inv_stores [OF inv]
  obtain m expected where
    m: "due_run v t (Suc (last_processed_batch (STATE v))) m"
    and "expected = (\<Sum>k\<in>newly_released v m. payout (the (get (UNBOND_HISTORY v) k)))"
    and v': "v' = v\<lparr>UNBOND_HISTORY := UNBOND_HISTORY v', STATE := (STATE v)\<lparr>
        last_processed_batch := last_processed_batch (STATE v) + m, actual_unbonded_amount := 0\<rparr>\<rparr>"
    and wf': "wf_store (UNBOND_HISTORY v')"
    and out: "\<forall>k. k \<notin> newly_released v m \<longrightarrow> get (UNBOND_HISTORY v') k = get (UNBOND_HISTORY v) k"
    and ins: "\<forall>k\<in>newly_released v m. \<exists>h r. due_history v t k = Some h
      \<and> new_withdraw_rate S expected (if counted v bal \<le> expected
          then (expected - counted v bal, False) else (counted v bal - expected, True)) h = Inr r
      \<and> get (UNBOND_HISTORY v') k = Some (h\<lparr>withdraw_rate := r, released := True\<rparr>)"
    by (rule process_withdraw_rate_Ok [OF run wf(2)])
  let ?p = "last_processed_batch (STATE v)"
  have eq: "UNBOND_WAITLIST v' = UNBOND_WAITLIST v" "CURRENT_BATCH v' = CURRENT_BATCH v"
    "VALIDATORS v' = VALIDATORS v" "last_processed_batch (STATE v') = ?p + m"
    by (subst v', simp)+
  have bt: "batch_total v' = batch_total v" by (rule batch_total_waitlist_only [OF eq(1)])
  have mem: "k \<in> newly_released v m \<longleftrightarrow> ?p < k \<and> k \<le> ?p + m" for k by (auto simp: newly_released_def)
  have keys: "get (UNBOND_HISTORY v') k \<noteq> None \<longleftrightarrow> get (UNBOND_HISTORY v) k \<noteq> None" for k
    using out ins by (cases "k \<in> newly_released v m") (auto simp: due_history_Some)
  have "?p + m < current_id (CURRENT_BATCH v)"
  proof (cases "m = 0")
    case False
    then have "?p + m \<in> newly_released v m" by (simp add: mem)
    with ins have "get (UNBOND_HISTORY v) (?p + m) \<noteq> None" by (auto simp: due_history_Some)
    then show ?thesis using vault_inv_keys [OF inv] by blast
  qed (use wf in simp)
  moreover have "batch_id g = k \<and> released g = (k \<le> ?p + m)
      \<and> batch_total v k \<le> history_amount g
      \<and> (\<not> released g \<longrightarrow> batch_total v k = history_amount g)"
    if g: "get (UNBOND_HISTORY v') k = Some g" for k g
  proof (cases "k \<in> newly_released v m")
    case True
    from bspec [OF ins True] g obtain h r where h: "get (UNBOND_HISTORY v) k = Some h"
      and g': "g = h\<lparr>withdraw_rate := r, released := True\<rparr>" by (auto simp: due_history_Some)
    from vault_inv_history [OF inv h] True show ?thesis by (auto simp: g' mem)
  next
    case False
    with out g have "get (UNBOND_HISTORY v) k = Some g" by simp
    from vault_inv_history [OF inv this] False show ?thesis by (auto simp: mem)
  qed
  ultimately show ?thesis
    using wf wf' keys vault_inv_keys [OF inv] vault_inv_waitlist [OF inv]
    by (intro vault_invI) (simp_all add: eq bt)
qed

text \<open>The steps of a successful withdrawal.\<close>

lemma execute_withdraw_unbonded_Ok:
  assumes "execute_withdraw_unbonded S D env v info = Inr (v', r)"
  obtains bal v1 paid where
    "q_bank_balance D (contract_address env) (underlying_coin_denom (PARAMETERS v)) = Inr bal"
    and "unbonding_period (PARAMETERS v) \<le> now_seconds S env"
    and "process_withdraw_rate S v (now_seconds S env - unbonding_period (PARAMETERS v)) bal = Inr v1"
    and "get_finished_amount S v1 (sender info) None = Inr paid" and "paid \<noteq> 0" and "paid \<le> bal"
    and "v' = (remove_unbond_wait_list v1 (get_unbond_batches v1 (sender info) None) (sender info))
        \<lparr>STATE := (STATE v1)\<lparr>prev_vault_balance := bal - paid\<rparr>\<rparr>"
    and "r = [new_sub_msg (BankSend (sender info)
        [\<lparr>denom = underlying_coin_denom (PARAMETERS v), coin_amount = paid\<rparr>])]"
proof -
  show thesis
    using assms unfolding execute_withdraw_unbonded_def Let_def
    apply (elim andThen_OkE)
    apply (clarsimp simp: result_simps cw_laws remove_unbond_wait_list_eq split: if_splits)
    apply (rule that)
    apply (assumption | simp add: remove_unbond_wait_list_eq)+
    done
qed

lemma get_unbond_batches_released:
  "k \<in> set (get_unbond_batches v a limit) \<Longrightarrow> \<exists>h. get (UNBOND_HISTORY v) k = Some h \<and> released h"
  by (auto simp: get_unbond_batches_def read_unbond_history_def or_err_Ok_iff split: sum.splits)

lemma execute_withdraw_unbonded_inv:
  assumes run: "execute_withdraw_unbonded S D env v info = Inr (v', r)" and inv: "vault_inv v"
  shows "vault_inv v'"
proof -
  from execute_withdraw_unbonded_Ok [OF run] obtain bal v1 paid where
    v1: "process_withdraw_rate S v (now_seconds S env - unbonding_period (PARAMETERS v)) bal = Inr v1"
    and v': "v' = (remove_unbond_wait_list v1 (get_unbond_batches v1 (sender info) None) (sender info))
        \<lparr>STATE := (STATE v1)\<lparr>prev_vault_balance := bal - paid\<rparr>\<rparr>" by metis
  let ?w = "remove_unbond_wait_list v1 (get_unbond_batches v1 (sender info) None) (sender info)"
  have w: "vault_inv ?w"
    using process_withdraw_rate_inv [OF v1 inv] get_unbond_batches_released by (intro vault_inv_remove) auto
  show ?thesis
    by (rule vault_inv_cong [OF w])
      (use vault_inv_stores(3) [OF w] in \<open>simp_all add: v' remove_unbond_wait_list_eq\<close>)
qed


text \<open>The steps of a successful unbond request.\<close>

lemma execute_unbond_Ok:
  assumes "execute_unbond S D env v amount who = Inr (v', r)"
  obtains v1 st1 issued w a v2 st2 batch2 v3 st3 batch3 msgs where
    "slashing S D env v (STATE v) (PARAMETERS v) = Inr (v1, st1)"
    and "issued = (case q_cw20_total_supply D (cluna_contract (CONFIG v1)) of Inl e \<Rightarrow> 0 | Inr s \<Rightarrow> s)"
    and "unbond_amount_with_fee S (PARAMETERS v) st1 issued
        (requested_with_fee (CURRENT_BATCH v)) amount = Inr w"
    and "addr_validate D who = Inr a" and "amount \<le> issued"
    and "batch2 = (CURRENT_BATCH v)\<lparr>requested_with_fee := requested_with_fee (CURRENT_BATCH v) + w\<rparr>"
    and "v2 = v1\<lparr>UNBOND_WAITLIST := put (a, current_id (CURRENT_BATCH v))
        ((case get (UNBOND_WAITLIST v1) (a, current_id (CURRENT_BATCH v)) of Some y \<Rightarrow> y | None \<Rightarrow> 0) + w)
        (UNBOND_WAITLIST v1)\<rparr>"
    and "st2 = st1\<lparr>exchange_rate := rate_of (total_bond_amount st1)
        (issued - amount + (requested_with_fee (CURRENT_BATCH v) + w))\<rparr>"
    and "(if timestamp_seconds S (block_time env - last_unbonded_time st1 * 1000000000) > epoch_period (PARAMETERS v)
        then close_batch S D env v2 (PARAMETERS v) st2 batch2
        else Ok (v2, st2, batch2, [])) = Inr (v3, st3, batch3, msgs)"
    and "v' = v3\<lparr>CURRENT_BATCH := batch3, STATE := st3\<rparr>"
    and "r = msgs @ [new_sub_msg (WasmExecute (cluna_contract (CONFIG v3)) (Cw20Burn amount))]"
proof -
  have tsup: "unwrap_or 0 (query_total_issued D w) = (Inr s :: (std_error, nat) result) \<longleftrightarrow>
      s = (case q_cw20_total_supply D (cluna_contract (CONFIG w)) of Inl e \<Rightarrow> 0 | Inr s \<Rightarrow> s)" for w s
    by (cases "q_cw20_total_supply D (cluna_contract (CONFIG w))") (auto simp: query_total_issued_def)
  have init: "assert_initialized c = Inr c' \<longleftrightarrow> initialized c \<and> c' = c" for c c'
    by (auto simp: assert_initialized_def)
  show thesis
    using assms unfolding execute_unbond_def Let_def
    apply (elim andThen_OkE)
    apply (clarsimp simp: tsup init uadd_Ok_iff unwrap_Ok_iff uchecked_sub_Ok_iff minus_seconds_Ok_iff
        elim!: andThen_OkE dest!: update_rate_of store_unbond_wait_list_Ok simp del: split_paired_Ex)
    apply (rule that)
    apply (assumption | rule refl | simp)+
    done
qed
end

context cosmwasm_std
begin

lemma slashing_inv:
  assumes "slashing S D env v (STATE v) params = Inr (v1, st1)" and "vault_inv v"
  shows "vault_inv v1" and "last_processed_batch st1 = last_processed_batch (STATE v)"
    and "UNBOND_WAITLIST v1 = UNBOND_WAITLIST v" and "UNBOND_HISTORY v1 = UNBOND_HISTORY v"
    and "CURRENT_BATCH v1 = CURRENT_BATCH v" and "CONFIG v1 = CONFIG v"
    and "VALIDATORS v1 = VALIDATORS v" and "PARAMETERS v1 = PARAMETERS v"
proof -
  have st: "last_processed_batch st1 = last_processed_batch (STATE v)"
    by (subst slashing_frame(2) [OF assms(1)]) simp
  then show "last_processed_batch st1 = last_processed_batch (STATE v)" .
  show "vault_inv v1"
    using slashing_frame(1) [OF assms(1)] vault_inv_cong [OF assms(2), of v1]
      vault_inv_stores(3) [OF assms(2)] st assms(2) by auto
qed (use slashing_frame(1) [OF assms(1)] in auto)

lemma execute_bond_inner_inv:
  assumes "execute_bond_inner S D env v info validator = Inr (v', minted, msgs, payment)"
    and inv: "vault_inv v"
  shows "vault_inv v'"
proof (rule execute_bond_inner_Ok [OF assms(1)])
  fix v1 st1 and issued :: nat
  assume sl: "slashing S D env v (STATE v) (PARAMETERS v) = Inr (v1, st1)"
    and v': "v' = v1\<lparr>STATE := st1\<lparr>total_bond_amount := total_bond_amount st1 + payment,
        exchange_rate := rate_of (total_bond_amount st1 + payment)
          (issued + minted + requested_with_fee (CURRENT_BATCH v))\<rparr>\<rparr>"
  note s = slashing_inv [OF sl inv]
  show ?thesis
    by (rule vault_inv_cong [OF s(1)]) (use vault_inv_stores(3) [OF s(1)] slashing_frame(1) [OF sl] s(2)
      in \<open>auto simp: v'\<close>)
qed

lemma close_batch_Ok:
  assumes "close_batch S D env v params st batch = Inr (v', st', batch', msgs)"
  obtains undelegation where
    "undelegation = requested_with_fee batch * exchange_rate st div DEC_ONE"
    and "undelegation \<noteq> 1" and "undelegation \<le> total_bond_amount st"
    and "pick_unbond_validator S D (underlying_coin_denom params) undelegation
        (contract_address env) (block_height env) = Inr msgs"
    and "v' = v\<lparr>UNBOND_HISTORY := put (current_id batch)
          \<lparr>batch_id = current_id batch, history_time = now_seconds S env,
           history_amount = requested_with_fee batch, applied_exchange_rate = exchange_rate st,
           withdraw_rate = exchange_rate st, released = False\<rparr> (UNBOND_HISTORY v)\<rparr>"
    and "st' = st\<lparr>total_bond_amount := total_bond_amount st - undelegation,
        last_unbonded_time := now_seconds S env\<rparr>"
    and "batch' = \<lparr>current_id = current_id batch + 1, requested_with_fee = 0\<rparr>"
  using assms unfolding close_batch_def Let_def store_unbond_history_def
  apply (elim andThen_OkE)
  apply (clarsimp simp: result_simps umul_dec_Ok_iff uchecked_sub_Ok_iff split: if_splits)
  done

lemma execute_unbond_inv:
  assumes run: "execute_unbond S D env v amount who = Inr (v', r)" and inv: "vault_inv v"
  shows "vault_inv v'"
proof (rule execute_unbond_Ok [OF run])
  fix v1 st1 issued w a v2 st2 batch2 v3 st3 batch3 msgs
  assume sl: "slashing S D env v (STATE v) (PARAMETERS v) = Inr (v1, st1)"
    and batch2: "batch2 = (CURRENT_BATCH v)\<lparr>requested_with_fee := requested_with_fee (CURRENT_BATCH v) + w\<rparr>"
    and v2: "v2 = v1\<lparr>UNBOND_WAITLIST := put (a, current_id (CURRENT_BATCH v))
        ((case get (UNBOND_WAITLIST v1) (a, current_id (CURRENT_BATCH v)) of Some y \<Rightarrow> y | None \<Rightarrow> 0) + w)
        (UNBOND_WAITLIST v1)\<rparr>"
    and st2: "st2 = st1\<lparr>exchange_rate := rate_of (total_bond_amount st1)
        (issued - amount + (requested_with_fee (CURRENT_BATCH v) + w))\<rparr>"
    and epoch: "(if timestamp_seconds S (block_time env - last_unbonded_time st1 * 1000000000) > epoch_period (PARAMETERS v)
        then close_batch S D env v2 (PARAMETERS v) st2 batch2
        else Ok (v2, st2, batch2, [])) = Inr (v3, st3, batch3, msgs)"
    and v': "v' = v3\<lparr>CURRENT_BATCH := batch3, STATE := st3\<rparr>"
  note s = slashing_inv [OF sl inv]
  have "vault_inv (v2\<lparr>CURRENT_BATCH := batch2\<rparr>)"
    by (rule vault_inv_request [OF s(1)]) (simp add: v2 batch2 s)
  then have entered: "vault_inv (v2\<lparr>CURRENT_BATCH := batch2, STATE := st2\<rparr>)"
    by (rule vault_inv_cong) (use vault_inv_stores(3) [OF s(1)] slashing_frame(1) [OF sl] s(2)
      in \<open>auto simp: v2 st2\<close>)
  show "vault_inv v'"
  proof (cases "timestamp_seconds S (block_time env - last_unbonded_time st1 * 1000000000) > epoch_period (PARAMETERS v)")
    case True
    with epoch have "close_batch S D env v2 (PARAMETERS v) st2 batch2 = Inr (v3, st3, batch3, msgs)"
      by simp
    then show ?thesis
      by (rule close_batch_Ok) (rule vault_inv_close [OF entered refl,
          where st = st3 and t = "now_seconds S env" and er = "exchange_rate st2"], simp_all add: v')
  next
    case False
    with epoch entered show ?thesis by (simp add: v')
  qed
qed

lemma execute_slashing_inv:
  assumes "execute_slashing S D env v = Inr (v', r)" and "vault_inv v"
  shows "vault_inv v'"
  using assms slashing_inv(1) by (auto simp: execute_slashing_def result_simps)

end

text \<open>What the entry of a sender for a batch pays.\<close>

definition entry_payout :: "vault \<Rightarrow> addr \<Rightarrow> nat \<Rightarrow> nat" where
  "entry_payout v a k =
     the (get (UNBOND_WAITLIST v) (a, k)) * withdraw_rate (the (get (UNBOND_HISTORY v) k)) div DEC_ONE"

lemma get_unbond_batches_sound:
  assumes "wf_store (UNBOND_WAITLIST v)"
  shows "distinct (get_unbond_batches v a limit)"
    and "k \<in> set (get_unbond_batches v a limit) \<Longrightarrow> get (UNBOND_WAITLIST v) (a, k) \<noteq> None"
proof -
  let ?s = "sub_range a (UNBOND_WAITLIST v)"
  have "distinct (map fst (take n ?s))" for n
    using st.distinct_keys [OF wf_sub_range [OF assms], of a] by (simp add: take_map [symmetric] distinct_take)
  then show "distinct (get_unbond_batches v a limit)"
    unfolding get_unbond_batches_def by (rule distinct_map_filter)
  assume "k \<in> set (get_unbond_batches v a limit)"
  then obtain x where "(k, x) \<in> set ?s"
    unfolding get_unbond_batches_def by (auto dest: in_set_takeD)
  then show "get (UNBOND_WAITLIST v) (a, k) \<noteq> None" by (simp add: set_sub_range [OF assms])
qed

text \<open>The listed batches are the released ones among the first entries of the sender, up to the limit.\<close>

lemma get_unbond_batches_iff:
  assumes wf: "wf_store (UNBOND_WAITLIST v)"
  shows "k \<in> set (get_unbond_batches v a limit) \<longleftrightarrow> get (UNBOND_WAITLIST v) (a, k) \<noteq> None
    \<and> (\<exists>h. get (UNBOND_HISTORY v) k = Some h \<and> released h)
    \<and> card {j. j < k \<and> get (UNBOND_WAITLIST v) (a, j) \<noteq> None} < waitlist_limit limit"
proof -
  let ?s = "sub_range a (UNBOND_WAITLIST v)" let ?n = "waitlist_limit limit"
  have keys: "j \<in> set (map fst ?s) \<longleftrightarrow> get (UNBOND_WAITLIST v) (a, j) \<noteq> None" for j
    using set_sub_range [OF wf, of j _ a] by (force simp: image_iff)
  have "k \<in> set (get_unbond_batches v a limit) \<longleftrightarrow>
      k \<in> set (take ?n (map fst ?s)) \<and> (\<exists>h. get (UNBOND_HISTORY v) k = Some h \<and> released h)"
    unfolding get_unbond_batches_def
    by (force simp: take_map read_unbond_history_def or_err_Ok_iff image_iff split: sum.splits option.splits)
  also have "k \<in> set (take ?n (map fst ?s)) \<longleftrightarrow>
      k \<in> set (map fst ?s) \<and> card {j \<in> set (map fst ?s). j < k} < ?n"
    using wf_sub_range [OF wf, of a] unfolding wf_store_def by (rule set_take_sorted)
  also have "{j \<in> set (map fst ?s). j < k} = {j. j < k \<and> get (UNBOND_WAITLIST v) (a, j) \<noteq> None}"
    by (auto simp only: keys)
  finally show ?thesis by (simp only: keys) blast
qed

context cosmwasm_std
begin

text \<open>The finished amount is what the entries of the listed batches pay, no more and no less.\<close>

lemma finished_fold:
  assumes "foldM (\<lambda>(b, x) acc.
         case read_unbond_history v b of
           Inl e \<Rightarrow> Ok acc
         | Inr h \<Rightarrow> if released h
                    then andThen (umul_dec S x (withdraw_rate h)) (uadd S acc)
                    else Ok acc) es acc = (Inr total_paid :: (std_error, nat) result)"
    and "\<forall>(b, x)\<in>set es. get (UNBOND_WAITLIST v) (a, b) = Some x"
  shows "total_paid = acc + (\<Sum>b\<leftarrow>map fst (filter
       (\<lambda>(b, x). case read_unbond_history v b of Inl e \<Rightarrow> False | Inr h \<Rightarrow> released h) es).
       entry_payout v a b)"
  using assms
proof (induction es arbitrary: acc)
  case (Cons e es)
  obtain b x where e: "e = (b, x)" by (cases e)
  show ?case
  proof (cases "get (UNBOND_HISTORY v) b")
    case None
    with Cons show ?thesis by (simp add: e read_unbond_history_def)
  next
    case (Some h)
    show ?thesis
    proof (cases "released h")
      case False
      with Cons Some show ?thesis by (simp add: e read_unbond_history_def)
    next
      case True
      have x: "entry_payout v a b = x * withdraw_rate h div DEC_ONE"
        using Cons.prems(2) Some by (simp add: e entry_payout_def)
      from Cons.prems(1) Some True obtain acc' where acc': "acc' = acc + entry_payout v a b"
        and run: "foldM (\<lambda>(b, x) acc.
         case read_unbond_history v b of
           Inl e \<Rightarrow> Ok acc
         | Inr h \<Rightarrow> if released h
                    then andThen (umul_dec S x (withdraw_rate h)) (uadd S acc)
                    else Ok acc) es acc' = (Inr total_paid :: (std_error, nat) result)"
        by (auto simp: e read_unbond_history_def result_simps cw_laws x)
      have "\<forall>(b, x)\<in>set es. get (UNBOND_WAITLIST v) (a, b) = Some x" using Cons.prems(2) by simp
      from Cons.IH [OF run this] acc' Some True show ?thesis by (simp add: e read_unbond_history_def)
    qed
  qed
qed simp

lemma get_finished_amount_Ok:
  assumes "get_finished_amount S v a limit = Inr paid" and "wf_store (UNBOND_WAITLIST v)"
  shows "paid = (\<Sum>k\<leftarrow>get_unbond_batches v a limit. entry_payout v a k)"
  using finished_fold [OF assms(1) [unfolded get_finished_amount_def], of a]
    set_sub_range [OF assms(2), of _ _ a]
  unfolding get_unbond_batches_def by (auto dest!: in_set_takeD)

end


text \<open>The entries of a batch, each rounded down, pay at most what the batch pays.\<close>

lemma sum_floor_le: "(\<Sum>x\<leftarrow>xs. f x * r div W) \<le> (\<Sum>x\<leftarrow>xs. f x) * r div (W :: nat)"
proof (cases "W = 0")
  case False
  show ?thesis
  proof (induction xs)
    case (Cons x xs)
    have "f x * r div W + (\<Sum>x\<leftarrow>xs. f x) * r div W \<le> (f x * r + (\<Sum>x\<leftarrow>xs. f x) * r) div W"
      by (subst div_add1_eq) simp
    with Cons show ?case by (simp add: add_mult_distrib)
  qed simp
qed simp

definition batch_claims :: "vault \<Rightarrow> nat set \<Rightarrow> nat" where
  "batch_claims v K = (\<Sum>((a, k), x)\<leftarrow>UNBOND_WAITLIST v.
     if k \<in> K then x * withdraw_rate (the (get (UNBOND_HISTORY v) k)) div DEC_ONE else 0)"

lemma batch_claims_single:
  "batch_claims v {k} \<le> batch_total v k * withdraw_rate (the (get (UNBOND_HISTORY v) k)) div DEC_ONE"
proof -
  let ?r = "withdraw_rate (the (get (UNBOND_HISTORY v) k))"
  have "batch_claims v {k} = (\<Sum>e\<leftarrow>UNBOND_WAITLIST v. (if snd (fst e) = k then snd e else 0) * ?r div DEC_ONE)"
    unfolding batch_claims_def by (intro arg_cong [where f = sum_list] map_cong) auto
  also have "\<dots> \<le> (\<Sum>e\<leftarrow>UNBOND_WAITLIST v. if snd (fst e) = k then snd e else 0) * ?r div DEC_ONE"
    by (rule sum_floor_le)
  finally show ?thesis by (simp add: batch_total_def case_prod_unfold)
qed

lemma batch_claims_sum:
  assumes "finite K"
  shows "batch_claims v K = (\<Sum>k\<in>K. batch_claims v {k})"
proof -
  have "(\<Sum>k\<in>K. \<Sum>((a, j), x)\<leftarrow>w. if j \<in> {k} then f j x else 0)
      = (\<Sum>((a, j), x)\<leftarrow>w. if j \<in> K then f j x else (0 :: nat))" for f and w :: "((addr \<times> nat) \<times> nat) list"
    by (induction w) (auto simp: sum.distrib sum.delta' [OF assms] sum.delta [OF assms] assms)
  then show ?thesis unfolding batch_claims_def by simp
qed

lemma batch_claims_le_payouts:
  assumes inv: "vault_inv v" and fin: "finite K" and K: "\<forall>k\<in>K. get (UNBOND_HISTORY v) k \<noteq> None"
  shows "batch_claims v K \<le> (\<Sum>k\<in>K. payout (the (get (UNBOND_HISTORY v) k)))"
  unfolding batch_claims_sum [OF fin]
proof (rule sum_mono)
  fix k assume "k \<in> K"
  then obtain h where h: "get (UNBOND_HISTORY v) k = Some h" using K by auto
  have "batch_total v k * withdraw_rate h div DEC_ONE \<le> payout h"
    unfolding payout_def using vault_inv_history(3) [OF inv h] by (intro div_le_mono mult_le_mono1)
  then show "batch_claims v {k} \<le> payout (the (get (UNBOND_HISTORY v) k))"
    using batch_claims_single [of v k] h by simp
qed

context cosmwasm_std
begin

lemma process_withdraw_rate_frame:
  assumes "process_withdraw_rate S v t bal = Inr v'" and "wf_store (UNBOND_HISTORY v)"
  shows "UNBOND_WAITLIST v' = UNBOND_WAITLIST v"
proof (rule process_withdraw_rate_Ok [OF assms])
  fix m
  assume v': "v' = v\<lparr>UNBOND_HISTORY := UNBOND_HISTORY v', STATE := (STATE v)\<lparr>
        last_processed_batch := last_processed_batch (STATE v) + m, actual_unbonded_amount := 0\<rparr>\<rparr>"
  show ?thesis by (subst v') simp
qed

end

section \<open>Properties\<close>

definition vault_example :: vault where
  "vault_example = \<lparr>
     CONFIG = \<lparr>owner = ''owner'', yluna_staking = ''staking'', cluna_contract = ''cluna'',
       yluna_contract = ''yluna'', pluna_contract = ''pluna'', airdrop_registry_contract = ''airdrop'',
       initialized = True, token_admin = ''admin'', token_code_id = 3, manager = ''manager''\<rparr>,
     PARAMETERS = \<lparr>epoch_period = 100, underlying_coin_denom = ''uluna'', unbonding_period = 200,
       peg_recovery_fee = 5 * 10 ^ 15, er_threshold = 10 ^ 18\<rparr>,
     CURRENT_BATCH = \<lparr>current_id = 2, requested_with_fee = 300\<rparr>,
     STATE = \<lparr>exchange_rate = 10 ^ 18, total_bond_amount = 5000, last_index_modification = 0,
       prev_vault_balance = 10, actual_unbonded_amount = 0, last_unbonded_time = 100,
       last_processed_batch = 0\<rparr>,
     UNBOND_WAITLIST = [((''alice'', 1), 600), ((''alice'', 2), 300), ((''bob'', 1), 400)],
     UNBOND_HISTORY = [(1, \<lparr>batch_id = 1, history_time = 100, history_amount = 1000,
       applied_exchange_rate = 10 ^ 18, withdraw_rate = 10 ^ 18, released = False\<rparr>)],
     VALIDATORS = [(''val1'', True), (''val2'', True)]\<rparr>"

text \<open>The chain around it: two delegations of 2500 and 2600, 4700 cLuna issued, 960 Luna at hand.\<close>

definition vault_chain :: deps where
  "vault_chain = empty_deps\<lparr>
     q_all_delegations := (\<lambda>_. Inr [
       \<lparr>del_validator = ''val1'', del_amount = \<lparr>denom = ''uluna'', coin_amount = 2500\<rparr>\<rparr>,
       \<lparr>del_validator = ''val2'', del_amount = \<lparr>denom = ''uluna'', coin_amount = 2600\<rparr>\<rparr>]),
     q_delegation := (\<lambda>_ val. Inr (Some (if val = ''val1''
       then \<lparr>fd_amount = \<lparr>denom = ''uluna'', coin_amount = 2500\<rparr>,
         can_redelegate = \<lparr>denom = ''uluna'', coin_amount = 2500\<rparr>\<rparr>
       else \<lparr>fd_amount = \<lparr>denom = ''uluna'', coin_amount = 2600\<rparr>,
         can_redelegate = \<lparr>denom = ''uluna'', coin_amount = 0\<rparr>\<rparr>))),
     q_bank_balance := (\<lambda>_ _. Inr 960),
     q_cw20_total_supply := (\<lambda>_. Inr 4700)\<rparr>"

lemmas vault_eval = slashing_def query_total_issued_def update_exchange_rate_def
  store_unbond_wait_list_def decimal_division_def from_subtraction_def DECIMAL_FRACTIONAL_def
  assert_initialized_def select_validator_def is_valid_validator_def read_valid_validators_def
  read_validators_def pick_bond_validator_def bond_mint_with_fee_def execute_bond_inner_def
  execute_bond_def execute_bond_split_def unbond_amount_with_fee_def close_batch_def
  execute_unbond_def pick_unbond_validator_def pick_unbond_loop.simps store_unbond_history_def
  due_history_def read_unbond_history_def total_unbonded_loop.simps release_loop.simps
  new_withdraw_rate_def process_withdraw_rate_def get_finished_amount_def waitlist_limit_def
  sub_range_def DEFAULT_UNBOND_WAITLIST_READ_LIMIT_def MAX_LIMIT_def get_unbond_batches_def
  execute_withdraw_unbonded_def
  vault_example_def vault_chain_def get_def del_def Let_def cw_eval

lemma vault_example_inv: "vault_inv vault_example"
proof (rule vault_invI)
  fix k h assume "get (UNBOND_HISTORY vault_example) k = Some h"
  then show "batch_id h = k \<and> (released h \<longleftrightarrow> k \<le> last_processed_batch (STATE vault_example))
      \<and> batch_total vault_example k \<le> history_amount h
      \<and> (\<not> released h \<longrightarrow> batch_total vault_example k = history_amount h)"
    by (auto simp: vault_example_def get_def batch_total_def split: if_splits)
qed (auto simp: vault_example_def get_def batch_total_def wf_store_def split: if_splits)

text \<open>
  C2: the vault never promises more Luna than has arrived. When a withdrawal fixes the withdraw
  rates of the matured batches and the balance has not fallen below the balance recorded by the
  last withdrawal, the claims of all users on the newly released batches together are at most
  what the balance has gained since then and the amount recorded as unbonded. It needs every
  released batch to be worth something, some Luna to have arrived, and the shortfall times the
  number of batches to stay within the 18-digit precision of the rates.
\<close>

theorem vault_withdraw_solvent:
  assumes std: "cosmwasm_std S" and inv: "vault_inv v"
    and run: "process_withdraw_rate S v t bal = Ok v'"
    and K: "K = {last_processed_batch (STATE v)<..last_processed_batch (STATE v')}"
    and gained: "prev_vault_balance (STATE v) \<le> bal"
    and arrived: "arrived = actual_unbonded_amount (STATE v) + (bal - prev_vault_balance (STATE v))"
    and pos: "\<forall>k\<in>K. 0 < payout (the (get (UNBOND_HISTORY v) k))" and some: "0 < arrived"
    and prec: "((\<Sum>k\<in>K. payout (the (get (UNBOND_HISTORY v) k))) - arrived) * card K \<le> DEC_ONE"
  shows "batch_claims v' K \<le> arrived"
proof (rule cosmwasm_std.process_withdraw_rate_Ok [OF std run vault_inv_stores(2) [OF inv]])
  fix m expected
  assume exp: "expected = (\<Sum>k\<in>newly_released v m. payout (the (get (UNBOND_HISTORY v) k)))"
    and v': "v' = v\<lparr>UNBOND_HISTORY := UNBOND_HISTORY v', STATE := (STATE v)\<lparr>
        last_processed_batch := last_processed_batch (STATE v) + m, actual_unbonded_amount := 0\<rparr>\<rparr>"
    and ins: "\<forall>k\<in>newly_released v m. \<exists>h r. due_history v t k = Some h
      \<and> new_withdraw_rate S expected (if counted v bal \<le> expected
          then (expected - counted v bal, False) else (counted v bal - expected, True)) h = Inr r
      \<and> get (UNBOND_HISTORY v') k = Some (h\<lparr>withdraw_rate := r, released := True\<rparr>)"
  have "last_processed_batch (STATE v') = last_processed_batch (STATE v) + m" by (subst v') simp
  then have new: "newly_released v m = K" by (auto simp: K newly_released_def)
  have counted: "counted v bal = arrived" using gained by (simp add: counted_def arrived)
  have "(\<Sum>k\<in>K. payout (the (get (UNBOND_HISTORY v') k))) \<le> arrived"
  proof (rule cosmwasm_std.released_payouts_le [OF std _ pos some prec])
    show "\<forall>k\<in>K. \<exists>h r. payout h = payout (the (get (UNBOND_HISTORY v) k))
      \<and> new_withdraw_rate S (\<Sum>k\<in>K. payout (the (get (UNBOND_HISTORY v) k)))
          (if arrived \<le> (\<Sum>k\<in>K. payout (the (get (UNBOND_HISTORY v) k)))
           then ((\<Sum>k\<in>K. payout (the (get (UNBOND_HISTORY v) k))) - arrived, False)
           else (arrived - (\<Sum>k\<in>K. payout (the (get (UNBOND_HISTORY v) k))), True)) h = Inr r
      \<and> payout (the (get (UNBOND_HISTORY v') k)) = payout (h\<lparr>withdraw_rate := r, released := True\<rparr>)"
      using ins unfolding new exp counted by (fastforce simp: due_history_Some)
  qed (simp add: K)
  moreover have "\<forall>k\<in>K. get (UNBOND_HISTORY v') k \<noteq> None" using ins by (auto simp: new)
  ultimately show ?thesis
    using batch_claims_le_payouts [OF cosmwasm_std.process_withdraw_rate_inv [OF std run inv], of K]
    by (simp add: K)
qed

theorem vault_withdraw_solvent_witness:
  "\<exists>v'. process_withdraw_rate cosmwasm_0_16 vault_example 300 960 = Ok v'
    \<and> last_processed_batch (STATE v') = 1 \<and> prev_vault_balance (STATE vault_example) \<le> 960
    \<and> actual_unbonded_amount (STATE vault_example) + (960 - prev_vault_balance (STATE vault_example)) = 950
    \<and> batch_claims v' {0<..1} \<le> 950"
proof -
  obtain v' where run: "process_withdraw_rate cosmwasm_0_16 vault_example 300 960 = Ok v'"
    and last: "last_processed_batch (STATE v') = 1"
    by (simp add: vault_eval)
  have K: "{last_processed_batch (STATE vault_example)<..last_processed_batch (STATE v')} = {1}"
    by (auto simp: last vault_example_def)
  have arr: "prev_vault_balance (STATE vault_example) \<le> 960"
    "950 = actual_unbonded_amount (STATE vault_example) + (960 - prev_vault_balance (STATE vault_example))"
    by (simp_all add: vault_example_def)
  have claims: "batch_claims v' {last_processed_batch (STATE vault_example)<..last_processed_batch (STATE v')} \<le> 950"
    by (rule vault_withdraw_solvent [OF cosmwasm_0_16 vault_example_inv run refl arr])
      (simp_all only: K, simp_all add: vault_example_def get_def payout_def DEC_ONE_def)
  have "last_processed_batch (STATE vault_example) = 0" by (simp add: vault_example_def)
  from claims [unfolded this last] run last arr(1) arr(2) [symmetric] show ?thesis by blast
qed

text \<open>
  C18: a withdrawal pays out the sender's entries of the wait list that are released and among
  the sender's first thirty, counted by batch number, and no others. The message sends the sum
  of exactly those entries to the sender, each at the withdraw rate of its batch, those entries
  and no others are removed from the wait list, and the recorded balance is the balance of the
  vault less the amount sent. Thirty is the limit the code reads; a later entry stays for the
  next withdrawal.
\<close>

theorem vault_withdraw_exact:
  assumes std: "cosmwasm_std S" and inv: "vault_inv v"
    and run: "execute_withdraw_unbonded S D env v info = Ok (v', r)"
  shows "\<exists>bs paid bal. distinct bs
    \<and> (\<forall>k. k \<in> set bs \<longleftrightarrow> get (UNBOND_WAITLIST v) (sender info, k) \<noteq> None
        \<and> (\<exists>h. get (UNBOND_HISTORY v') k = Some h \<and> released h)
        \<and> card {j. j < k \<and> get (UNBOND_WAITLIST v) (sender info, j) \<noteq> None} < 30)
    \<and> paid = (\<Sum>k\<leftarrow>bs. the (get (UNBOND_WAITLIST v) (sender info, k))
        * withdraw_rate (the (get (UNBOND_HISTORY v') k)) div DEC_ONE)
    \<and> (\<forall>u k. get (UNBOND_WAITLIST v') (u, k) =
        (if u = sender info \<and> k \<in> set bs then None else get (UNBOND_WAITLIST v) (u, k)))
    \<and> r = [new_sub_msg (BankSend (sender info)
        [\<lparr>denom = underlying_coin_denom (PARAMETERS v), coin_amount = paid\<rparr>])] \<and> 0 < paid
    \<and> q_bank_balance D (contract_address env) (underlying_coin_denom (PARAMETERS v)) = Inr bal
    \<and> prev_vault_balance (STATE v') + paid = bal"
proof (rule cosmwasm_std.execute_withdraw_unbonded_Ok [OF std run])
  fix bal v1 paid
  let ?bs = "get_unbond_batches v1 (sender info) None"
  assume bal: "q_bank_balance D (contract_address env) (underlying_coin_denom (PARAMETERS v)) = Inr bal"
    and v1: "process_withdraw_rate S v (now_seconds S env - unbonding_period (PARAMETERS v)) bal = Inr v1"
    and paid: "get_finished_amount S v1 (sender info) None = Inr paid" "paid \<noteq> 0" "paid \<le> bal"
    and v': "v' = (remove_unbond_wait_list v1 ?bs (sender info))
        \<lparr>STATE := (STATE v1)\<lparr>prev_vault_balance := bal - paid\<rparr>\<rparr>"
    and r: "r = [new_sub_msg (BankSend (sender info)
        [\<lparr>denom = underlying_coin_denom (PARAMETERS v), coin_amount = paid\<rparr>])]"
  have inv1: "vault_inv v1" by (rule cosmwasm_std.process_withdraw_rate_inv [OF std v1 inv])
  have wl: "UNBOND_WAITLIST v1 = UNBOND_WAITLIST v"
    by (rule cosmwasm_std.process_withdraw_rate_frame [OF std v1 vault_inv_stores(2) [OF inv]])
  have uh: "UNBOND_HISTORY v' = UNBOND_HISTORY v1"
    by (simp add: v' remove_unbond_wait_list_eq)
  note batches = get_unbond_batches_sound(1) [OF vault_inv_stores(1) [OF inv1],
    where a = "sender info" and limit = None]
  have thirty: "waitlist_limit None = 30"
    by (simp add: waitlist_limit_def DEFAULT_UNBOND_WAITLIST_READ_LIMIT_def MAX_LIMIT_def)
  have listed: "k \<in> set ?bs \<longleftrightarrow> get (UNBOND_WAITLIST v) (sender info, k) \<noteq> None
        \<and> (\<exists>h. get (UNBOND_HISTORY v') k = Some h \<and> released h)
        \<and> card {j. j < k \<and> get (UNBOND_WAITLIST v) (sender info, j) \<noteq> None} < 30" for k
    using get_unbond_batches_iff [OF vault_inv_stores(1) [OF inv1], of k "sender info" None]
    by (simp only: wl uh thirty)
  have sum: "paid = (\<Sum>k\<leftarrow>?bs. the (get (UNBOND_WAITLIST v) (sender info, k))
        * withdraw_rate (the (get (UNBOND_HISTORY v') k)) div DEC_ONE)"
    using cosmwasm_std.get_finished_amount_Ok [OF std paid(1) vault_inv_stores(1) [OF inv1]]
    by (simp add: entry_payout_def wl uh)
  have gone: "get (UNBOND_WAITLIST v') (u, k) =
        (if u = sender info \<and> k \<in> set ?bs then None else get (UNBOND_WAITLIST v) (u, k))" for u k
    by (simp add: v' remove_unbond_wait_list_eq get_fold_del wl)
  have prev: "prev_vault_balance (STATE v') + paid = bal" "0 < paid" using paid by (simp_all add: v')
  show ?thesis
    by (intro exI [of _ ?bs] exI [of _ paid] exI [of _ bal] conjI allI)
      (fact batches sum r prev bal listed gone)+
qed

theorem vault_withdraw_exact_witness:
  "\<exists>v' r. execute_withdraw_unbonded cosmwasm_0_16 vault_chain (env_at 500) vault_example (from_user ''alice'')
      = Ok (v', r)
    \<and> r = [new_sub_msg (BankSend ''alice'' [\<lparr>denom = ''uluna'', coin_amount = 569\<rparr>])]
    \<and> (\<exists>bs. \<forall>u k. get (UNBOND_WAITLIST v') (u, k) =
        (if u = ''alice'' \<and> k \<in> set bs then None else get (UNBOND_WAITLIST vault_example) (u, k)))"
proof -
  obtain v' r where run: "execute_withdraw_unbonded cosmwasm_0_16 vault_chain (env_at 500) vault_example
      (from_user ''alice'') = Ok (v', r)"
    and r: "r = [new_sub_msg (BankSend ''alice'' [\<lparr>denom = ''uluna'', coin_amount = 569\<rparr>])]"
    by (simp add: vault_eval)
  from vault_withdraw_exact [OF cosmwasm_0_16 vault_example_inv run] obtain bs where
    "\<forall>u k. get (UNBOND_WAITLIST v') (u, k) = (if u = sender (from_user ''alice'') \<and> k \<in> set bs
      then None else get (UNBOND_WAITLIST vault_example) (u, k))" by blast
  then have "\<forall>u k. get (UNBOND_WAITLIST v') (u, k) = (if u = ''alice'' \<and> k \<in> set bs
      then None else get (UNBOND_WAITLIST vault_example) (u, k))" by (simp add: from_user_def)
  then show ?thesis using run r by blast
qed

text \<open>The bonded amount after the slashing check, given the delegations.\<close>

definition slashed_bond :: "vault \<Rightarrow> delegation list \<Rightarrow> nat" where
  "slashed_bond v ds = (if ds = [] then total_bond_amount (STATE v)
     else min (total_bond_amount (STATE v)) (delegated (underlying_coin_denom (PARAMETERS v)) ds))"

text \<open>The cLuna a user has in a batch.\<close>

definition requested_by :: "vault \<Rightarrow> addr \<Rightarrow> nat \<Rightarrow> nat" where
  "requested_by v a k = (case get (UNBOND_WAITLIST v) (a, k) of Some x \<Rightarrow> x | None \<Rightarrow> 0)"

context cosmwasm_std
begin

lemma slashing_bond:
  assumes "slashing S D env v (STATE v) (PARAMETERS v) = Inr (v1, st1)"
    and "q_all_delegations D (contract_address env) = Inr ds"
  shows "total_bond_amount st1 = slashed_bond v ds"
  using assms(1)
proof (rule slashing_Ok)
  fix ds' assume q: "q_all_delegations D (contract_address env) = Inr ds'"
    and same: "ds' = [] \<or> total_bond_amount (STATE v) \<le> delegated (underlying_coin_denom (PARAMETERS v)) ds' \<Longrightarrow>
      v1 = v \<and> st1 = STATE v"
    and less: "ds' \<noteq> [] \<Longrightarrow> delegated (underlying_coin_denom (PARAMETERS v)) ds' < total_bond_amount (STATE v) \<Longrightarrow>
      \<exists>issued. q_cw20_total_supply D (cluna_contract (CONFIG v)) = Inr issued
        \<and> v1 = v\<lparr>STATE := st1\<rparr>
        \<and> st1 = (STATE v)\<lparr>total_bond_amount := delegated (underlying_coin_denom (PARAMETERS v)) ds',
            exchange_rate := rate_of (delegated (underlying_coin_denom (PARAMETERS v)) ds')
              (issued + requested_with_fee (CURRENT_BATCH v))\<rparr>"
  have "ds' = ds" using q assms(2) by simp
  then show ?thesis using same less
    by (cases "ds = []"; cases "total_bond_amount (STATE v) \<le> delegated (underlying_coin_denom (PARAMETERS v)) ds")
      (auto simp: slashed_bond_def not_le)
qed

lemma unbond_amount_with_fee_le:
  assumes "unbond_amount_with_fee S params st issued requested amount = Inr w"
  shows "w \<le> amount" and "er_threshold params \<le> exchange_rate st \<Longrightarrow> w = amount"
    and "amount - amount * peg_recovery_fee params div DEC_ONE \<le> w"
  using assms by (auto simp: unbond_amount_with_fee_def result_simps cw_laws split: if_splits)

lemma pick_unbond_validator_exact:
  assumes "pick_unbond_validator S D dn claim self height = Inr ms"
    and "q_all_delegations D self = Inr ds"
  shows "total_undelegated ms = claim" and "\<forall>m\<in>set ms. undelegates_from dn ds m"
  using pick_unbond_loop_exact [of dn height 0 ds claim "[]" ms] assms
  by (simp_all add: pick_unbond_validator_def)

end

text \<open>
  C17: an unbond request enters the burnt cLuna, less at most the recovery fee, into the sender's
  entry of the current batch and nowhere else, and burns the full amount. As long as no more than
  the epoch period has passed since the last batch was closed, counted in whole seconds, it
  undelegates nothing and the batch stays open. Once more has passed the batch is closed: it is
  recorded, unreleased, with the requested total and the time, the undelegated amounts add up to
  exactly its value at the recorded rate and each comes out of one of the delegations, the bonded
  amount shrinks by it, the time of the closing is stored, and the next batch starts empty.
\<close>

theorem vault_unbond_accounting:
  assumes std: "cosmwasm_std S" and inv: "vault_inv v"
    and run: "execute_unbond S D env v amount who = Ok (v', r)"
    and ds: "q_all_delegations D (contract_address env) = Inr ds"
    and now: "now = block_time env div 10 ^ 9"
  shows "\<exists>w a. addr_validate D who = Ok a
    \<and> w \<le> amount \<and> amount - amount * peg_recovery_fee (PARAMETERS v) div DEC_ONE \<le> w
    \<and> (\<forall>u k. requested_by v' u k = requested_by v u k
        + (if u = a \<and> k = current_id (CURRENT_BATCH v) then w else 0))
    \<and> total_bond_amount (STATE v') + total_undelegated r = slashed_bond v ds
    \<and> last r = new_sub_msg (WasmExecute (cluna_contract (CONFIG v)) (Cw20Burn amount))
    \<and> (if now - last_unbonded_time (STATE v) \<le> epoch_period (PARAMETERS v)
       then butlast r = [] \<and> UNBOND_HISTORY v' = UNBOND_HISTORY v
         \<and> last_unbonded_time (STATE v') = last_unbonded_time (STATE v)
         \<and> CURRENT_BATCH v' = (CURRENT_BATCH v)
             \<lparr>requested_with_fee := requested_with_fee (CURRENT_BATCH v) + w\<rparr>
       else CURRENT_BATCH v' = \<lparr>current_id = current_id (CURRENT_BATCH v) + 1, requested_with_fee = 0\<rparr>
         \<and> last_unbonded_time (STATE v') = now
         \<and> (\<forall>m\<in>set (butlast r). undelegates_from (underlying_coin_denom (PARAMETERS v)) ds m)
         \<and> (\<exists>h. get (UNBOND_HISTORY v') (current_id (CURRENT_BATCH v)) = Some h
             \<and> history_amount h = requested_with_fee (CURRENT_BATCH v) + w
             \<and> history_time h = now \<and> \<not> released h
             \<and> total_undelegated r = payout h))"
proof (rule cosmwasm_std.execute_unbond_Ok [OF std run])
  fix v1 st1 issued w a v2 st2 batch2 v3 st3 batch3 msgs
  assume sl: "slashing S D env v (STATE v) (PARAMETERS v) = Inr (v1, st1)"
    and w: "unbond_amount_with_fee S (PARAMETERS v) st1 issued
        (requested_with_fee (CURRENT_BATCH v)) amount = Inr w"
    and a: "addr_validate D who = Inr a"
    and batch2: "batch2 = (CURRENT_BATCH v)\<lparr>requested_with_fee := requested_with_fee (CURRENT_BATCH v) + w\<rparr>"
    and v2: "v2 = v1\<lparr>UNBOND_WAITLIST := put (a, current_id (CURRENT_BATCH v))
        ((case get (UNBOND_WAITLIST v1) (a, current_id (CURRENT_BATCH v)) of Some y \<Rightarrow> y | None \<Rightarrow> 0) + w)
        (UNBOND_WAITLIST v1)\<rparr>"
    and st2: "st2 = st1\<lparr>exchange_rate := rate_of (total_bond_amount st1)
        (issued - amount + (requested_with_fee (CURRENT_BATCH v) + w))\<rparr>"
    and epoch: "(if timestamp_seconds S (block_time env - last_unbonded_time st1 * 1000000000) > epoch_period (PARAMETERS v)
        then close_batch S D env v2 (PARAMETERS v) st2 batch2
        else Ok (v2, st2, batch2, [])) = Inr (v3, st3, batch3, msgs)"
    and v': "v' = v3\<lparr>CURRENT_BATCH := batch3, STATE := st3\<rparr>"
    and r: "r = msgs @ [new_sub_msg (WasmExecute (cluna_contract (CONFIG v3)) (Cw20Burn amount))]"
  note s = cosmwasm_std.slashing_inv [OF std sl inv]
  have bond: "total_bond_amount st2 = slashed_bond v ds"
    using cosmwasm_std.slashing_bond [OF std sl ds] by (simp add: st2)
  have burn: "total_undelegated r = total_undelegated msgs"
    by (simp add: r total_undelegated_def new_sub_msg_def)
  have wl: "requested_by x u k = requested_by v u k
        + (if u = a \<and> k = current_id (CURRENT_BATCH v) then w else 0)"
    if "UNBOND_WAITLIST x = UNBOND_WAITLIST v2" for x u k
    using vault_inv_stores(1) [OF s(1)] by (simp add: that requested_by_def v2 get_put s)
  have last: "last_unbonded_time st1 = last_unbonded_time (STATE v)"
    by (subst cosmwasm_std.slashing_frame(2) [OF std sl]) simp
  have secs: "timestamp_seconds S (block_time env - last_unbonded_time st1 * 1000000000)
      = now - last_unbonded_time (STATE v)"
    by (simp add: cosmwasm_std.seconds_law [OF std] last now diff_mult_div)
  have clock: "now_seconds S env = now" by (simp add: now_seconds_def cosmwasm_std.seconds_law [OF std] now)
  show ?thesis
  proof (cases "now - last_unbonded_time (STATE v) > epoch_period (PARAMETERS v)")
    case False
    then have short: "now - last_unbonded_time (STATE v) \<le> epoch_period (PARAMETERS v)" by simp
    from False epoch [unfolded secs] have "v3 = v2" "st3 = st2" "batch3 = batch2" "msgs = []" by simp_all
    then show ?thesis
      using cosmwasm_std.unbond_amount_with_fee_le [OF std w] a bond wl [of v'] burn
      by (intro exI [of _ w] exI [of _ a]) (simp add: v' r v2 st2 batch2 s short last)
  next
    case True
    then have long: "\<not> now - last_unbonded_time (STATE v) \<le> epoch_period (PARAMETERS v)" by simp
    from True epoch [unfolded secs] have "close_batch S D env v2 (PARAMETERS v) st2 batch2 = Inr (v3, st3, batch3, msgs)"
      by simp
    then show ?thesis
    proof (rule cosmwasm_std.close_batch_Ok [OF std])
      fix x
      assume x: "x = requested_with_fee batch2 * exchange_rate st2 div DEC_ONE" "x \<le> total_bond_amount st2"
        and pick: "pick_unbond_validator S D (underlying_coin_denom (PARAMETERS v)) x
          (contract_address env) (block_height env) = Inr msgs"
        and v3: "v3 = v2\<lparr>UNBOND_HISTORY := put (current_id batch2)
          \<lparr>batch_id = current_id batch2, history_time = now_seconds S env,
           history_amount = requested_with_fee batch2, applied_exchange_rate = exchange_rate st2,
           withdraw_rate = exchange_rate st2, released = False\<rparr> (UNBOND_HISTORY v2)\<rparr>"
        and st3: "st3 = st2\<lparr>total_bond_amount := total_bond_amount st2 - x,
          last_unbonded_time := now_seconds S env\<rparr>"
        and batch3: "batch3 = \<lparr>current_id = current_id batch2 + 1, requested_with_fee = 0\<rparr>"
      note und = cosmwasm_std.pick_unbond_validator_exact [OF std pick ds]
      note wf = vault_inv_stores(2) [OF inv]
      show ?thesis
        using cosmwasm_std.unbond_amount_with_fee_le [OF std w] a bond wl [of v'] burn und x
        by (intro exI [of _ w] exI [of _ a])
          (simp add: v' r v2 v3 st3 batch3 batch2 s payout_def get_put [OF wf] long clock)
    qed
  qed
qed

theorem vault_unbond_accounting_witness:
  "\<exists>v' r. execute_unbond cosmwasm_0_16 vault_chain (env_at 500) vault_example 200 ''bob'' = Ok (v', r)
    \<and> total_bond_amount (STATE v') + total_undelegated r = 5000
    \<and> CURRENT_BATCH v' = \<lparr>current_id = 3, requested_with_fee = 0\<rparr>"
proof -
  have "\<exists>v' r. execute_unbond cosmwasm_0_16 vault_chain (env_at 500) vault_example 200 ''bob'' = Ok (v', r)
    \<and> CURRENT_BATCH v' = \<lparr>current_id = 3, requested_with_fee = 0\<rparr>"
    by (simp add: vault_eval)
  then obtain v' r where run:
    "execute_unbond cosmwasm_0_16 vault_chain (env_at 500) vault_example 200 ''bob'' = Ok (v', r)"
    "CURRENT_BATCH v' = \<lparr>current_id = 3, requested_with_fee = 0\<rparr>" by blast
  have ds: "q_all_delegations vault_chain (contract_address (env_at 500)) = Inr [
       \<lparr>del_validator = ''val1'', del_amount = \<lparr>denom = ''uluna'', coin_amount = 2500\<rparr>\<rparr>,
       \<lparr>del_validator = ''val2'', del_amount = \<lparr>denom = ''uluna'', coin_amount = 2600\<rparr>\<rparr>]" (is "_ = Inr ?ds")
    by (simp add: vault_chain_def)
  have "slashed_bond vault_example ?ds = 5000"
    by (simp add: slashed_bond_def vault_example_def)
  with vault_unbond_accounting [OF cosmwasm_0_16 vault_example_inv run(1) ds refl] run
  show ?thesis by auto
qed

text \<open>
  A bond delegates exactly the one coin the sender paid to a single whitelisted validator,
  the one the sender named if there is one, and mints cLuna to the sender. The bonded amount grows
  by the payment from its value after the slashing check, and the exchange rate is backing over
  claims: the bonded amount over issued, newly minted and requested cLuna.
\<close>

lemma vault_bond_accounting:
  assumes std: "cosmwasm_std S" and inv: "vault_inv v"
    and run: "execute_bond S D env v info validator = Ok (v', r)"
    and ds: "q_all_delegations D (contract_address env) = Inr ds"
    and issued: "q_cw20_total_supply D (cluna_contract (CONFIG v)) = Inr issued"
  shows "\<exists>val payment minted. funds info = [\<lparr>denom = underlying_coin_denom (PARAMETERS v), coin_amount = payment\<rparr>]
    \<and> payment \<noteq> 0 \<and> is_valid_validator v val \<and> (\<forall>a. validator = Some a \<longrightarrow> val = a)
    \<and> r = [new_sub_msg (StakingDelegate val \<lparr>denom = underlying_coin_denom (PARAMETERS v), coin_amount = payment\<rparr>),
          new_sub_msg (WasmExecute (cluna_contract (CONFIG v)) (Cw20Mint (sender info) minted))]
    \<and> total_bond_amount (STATE v') = slashed_bond v ds + payment
    \<and> exchange_rate (STATE v') = rate_of (slashed_bond v ds + payment)
        (issued + minted + requested_with_fee (CURRENT_BATCH v))"
proof -
  from run obtain minted payment where
    inner: "execute_bond_inner S D env v info validator = Inr (v', minted, r, payment)"
    by (auto simp: execute_bond_def result_simps)
  then show ?thesis
  proof (rule cosmwasm_std.execute_bond_inner_Ok [OF std])
    fix val v1 st1 i mint
    assume val: "select_validator D env v validator = Inr val"
      and pay: "cw0_must_pay S (funds info) (underlying_coin_denom (PARAMETERS v)) = Inr payment"
      and sl: "slashing S D env v (STATE v) (PARAMETERS v) = Inr (v1, st1)"
      and i: "i = (case q_cw20_total_supply D (cluna_contract (CONFIG v1)) of Inl e \<Rightarrow> 0 | Inr s \<Rightarrow> s)"
      and v': "v' = v1\<lparr>STATE := st1\<lparr>total_bond_amount := total_bond_amount st1 + payment,
        exchange_rate := rate_of (total_bond_amount st1 + payment)
          (i + minted + requested_with_fee (CURRENT_BATCH v))\<rparr>\<rparr>"
      and r: "r = [new_sub_msg (StakingDelegate val
            \<lparr>denom = underlying_coin_denom (PARAMETERS v), coin_amount = payment\<rparr>),
          new_sub_msg (WasmExecute (cluna_contract (CONFIG v1)) (Cw20Mint (sender info) minted))]"
    note s = cosmwasm_std.slashing_inv [OF std sl inv]
    show ?thesis
      using cosmwasm_std.must_pay_law [OF std pay] select_validator_whitelisted [OF val vault_inv_stores(3) [OF inv]]
        cosmwasm_std.slashing_bond [OF std sl ds] issued
      by (intro exI [of _ val] exI [of _ payment] exI [of _ minted]) (simp add: v' r i s)
  qed
qed

definition bond_payment :: message_info where
  "bond_payment = \<lparr>sender = ''carol'', funds = [\<lparr>denom = ''uluna'', coin_amount = 1000\<rparr>]\<rparr>"

lemma vault_bond_accounting_witness:
  "\<exists>v' r. execute_bond cosmwasm_0_16 vault_chain (env_at 500) vault_example bond_payment None = Ok (v', r)
    \<and> total_bond_amount (STATE v') = 6000
    \<and> r = [new_sub_msg (StakingDelegate ''val1'' \<lparr>denom = ''uluna'', coin_amount = 1000\<rparr>),
          new_sub_msg (WasmExecute ''cluna'' (Cw20Mint ''carol'' 1000))]"
proof -
  have "\<exists>v' r. execute_bond cosmwasm_0_16 vault_chain (env_at 500) vault_example bond_payment None = Ok (v', r)
      \<and> r = [new_sub_msg (StakingDelegate ''val1'' \<lparr>denom = ''uluna'', coin_amount = 1000\<rparr>),
          new_sub_msg (WasmExecute ''cluna'' (Cw20Mint ''carol'' 1000))]"
    by (simp add: vault_eval bond_payment_def)
  then obtain v' r where run:
    "execute_bond cosmwasm_0_16 vault_chain (env_at 500) vault_example bond_payment None = Ok (v', r)"
    "r = [new_sub_msg (StakingDelegate ''val1'' \<lparr>denom = ''uluna'', coin_amount = 1000\<rparr>),
          new_sub_msg (WasmExecute ''cluna'' (Cw20Mint ''carol'' 1000))]" by blast
  have ds: "q_all_delegations vault_chain (contract_address (env_at 500)) = Inr [
       \<lparr>del_validator = ''val1'', del_amount = \<lparr>denom = ''uluna'', coin_amount = 2500\<rparr>\<rparr>,
       \<lparr>del_validator = ''val2'', del_amount = \<lparr>denom = ''uluna'', coin_amount = 2600\<rparr>\<rparr>]" (is "_ = Inr ?ds")
    by (simp add: vault_chain_def)
  have "slashed_bond vault_example ?ds = 5000"
    by (simp add: slashed_bond_def vault_example_def)
  moreover have "q_cw20_total_supply vault_chain (cluna_contract (CONFIG vault_example)) = Inr 4700"
    by (simp add: vault_chain_def)
  ultimately show ?thesis
    using vault_bond_accounting [OF cosmwasm_0_16 vault_example_inv run(1) ds] run
    by (auto simp: bond_payment_def)
qed

text \<open>
  Bonding mints at the exchange rate. The minted cLuna at the rate in force, after the slashing
  check, is worth less than the payment plus the ninth-digit cut that the division makes in the
  rate, and without a recovery fee it is never less than the payment divided by the rate,
  rounded down.
\<close>

lemma vault_bond_mint_fair:
  assumes std: "cosmwasm_std S"
    and run: "execute_bond_inner S D env v info validator = Ok (v', minted, msgs, payment)"
    and sl: "slashing S D env v (STATE v) (PARAMETERS v) = Ok (v1, st1)"
  shows "minted * exchange_rate st1 \<le> payment * DEC_ONE + minted * 10 ^ 9
    \<and> (er_threshold (PARAMETERS v) \<le> exchange_rate st1 \<longrightarrow>
        payment * DEC_ONE div exchange_rate st1 \<le> minted)"
proof (rule cosmwasm_std.execute_bond_inner_Ok [OF std run])
  fix w1 t1 i mint
  assume sl': "slashing S D env v (STATE v) (PARAMETERS v) = Inr (w1, t1)"
    and mint: "decimal_division S payment (exchange_rate t1) = (Inr mint :: (std_error, nat) result)"
    and fee: "bond_mint_with_fee S (PARAMETERS v) t1 i (requested_with_fee (CURRENT_BATCH v))
        payment mint = Inr minted"
  have "t1 = st1" using sl sl' by simp
  let ?er = "exchange_rate st1" let ?q = "?er div 10 ^ 9"
  note m = cosmwasm_std.decimal_division_nested [OF std mint]
  have q: "0 < ?q" using cosmwasm_std.decimal_division_value(2) [OF std mint] \<open>t1 = st1\<close>
    by (simp add: div_greater_zero_iff)
  note le = cosmwasm_std.bond_mint_with_fee_le [OF std fee]
  have "minted * ?q \<le> payment * 10 ^ 9"
    using le(1) m \<open>t1 = st1\<close> by (metis div_times_less_eq_dividend mult_le_mono1 order_trans)
  have "minted * ?er \<le> minted * ((?q + 1) * 10 ^ 9)"
    using dividend_less_div_times [of "10 ^ 9" ?er] by (intro mult_le_mono2) simp
  also have "\<dots> = minted * ?q * 10 ^ 9 + minted * 10 ^ 9" by (simp add: algebra_simps)
  also have "\<dots> \<le> payment * 10 ^ 9 * 10 ^ 9 + minted * 10 ^ 9"
    using \<open>minted * ?q \<le> payment * 10 ^ 9\<close> by simp
  finally have upper: "minted * ?er \<le> payment * DEC_ONE + minted * 10 ^ 9" by (simp add: DEC_ONE_def)
  have "payment * DEC_ONE div ?er \<le> payment * DEC_ONE div (10 ^ 9 * ?q)"
    using q by (intro div_le_mono2) simp_all
  also have "\<dots> = payment * DEC_ONE div 10 ^ 9 div ?q" by (rule div_mult2_eq)
  also have "payment * DEC_ONE div 10 ^ 9 = payment * 10 ^ 9" by (simp add: DEC_ONE_def)
  finally have "payment * DEC_ONE div ?er \<le> mint" using m \<open>t1 = st1\<close> by simp
  then show ?thesis using upper le(2) \<open>t1 = st1\<close> by simp
qed

lemma vault_bond_mint_fair_witness:
  "\<exists>v' minted msgs. execute_bond_inner cosmwasm_0_16 vault_chain (env_at 500) vault_example bond_payment None
      = Ok (v', minted, msgs, 1000)
    \<and> minted * 10 ^ 18 \<le> 1000 * DEC_ONE + minted * 10 ^ 9 \<and> 1000 * DEC_ONE div 10 ^ 18 \<le> minted"
proof -
  have "\<exists>v' minted msgs. execute_bond_inner cosmwasm_0_16 vault_chain (env_at 500) vault_example bond_payment None
      = Ok (v', minted, msgs, 1000)"
    by (simp add: vault_eval bond_payment_def)
  then obtain v' minted msgs where
    run: "execute_bond_inner cosmwasm_0_16 vault_chain (env_at 500) vault_example bond_payment None
      = Ok (v', minted, msgs, 1000)" by blast
  have sl: "slashing cosmwasm_0_16 vault_chain (env_at 500) vault_example (STATE vault_example)
      (PARAMETERS vault_example) = Ok (vault_example, STATE vault_example)"
    by (simp add: vault_eval)
  have "exchange_rate (STATE vault_example) = 10 ^ 18" "er_threshold (PARAMETERS vault_example) = 10 ^ 18"
    by (simp_all add: vault_example_def)
  with vault_bond_mint_fair [OF cosmwasm_0_16 run sl] run show ?thesis by auto
qed

text \<open>
  C34: undelegating always succeeds when the delegations cover the claim: whatever the random draws
  are, the loop ends, the messages undelegate exactly the claim, and each takes a positive amount
  of one delegation that does not exceed it.
\<close>

theorem vault_undelegate_total:
  assumes std: "cosmwasm_std S" and ds: "q_all_delegations D self = Inr ds"
    and cover: "claim \<le> total_delegation ds" and height: "height + length ds < U64"
  shows "\<exists>ms. pick_unbond_validator S D dn claim self height = Ok ms \<and> total_undelegated ms = claim
    \<and> (\<forall>m\<in>set ms. undelegates_from dn ds m)"
proof -
  obtain ms where "pick_unbond_loop S dn height 0 ds claim [] = Inr ms"
    using cosmwasm_std.pick_unbond_loop_total [OF std cover, of height 0] height by auto
  then have "pick_unbond_validator S D dn claim self height = Ok ms"
    by (simp add: pick_unbond_validator_def ds)
  with cosmwasm_std.pick_unbond_validator_exact [OF std this ds] show ?thesis by blast
qed

theorem vault_undelegate_total_witness:
  "\<exists>ms. pick_unbond_validator cosmwasm_0_16 vault_chain ''uluna'' 5000 ''self'' 7 = Ok ms
    \<and> total_undelegated ms = 5000"
proof -
  have "q_all_delegations vault_chain ''self'' = Inr [
       \<lparr>del_validator = ''val1'', del_amount = \<lparr>denom = ''uluna'', coin_amount = 2500\<rparr>\<rparr>,
       \<lparr>del_validator = ''val2'', del_amount = \<lparr>denom = ''uluna'', coin_amount = 2600\<rparr>\<rparr>]"
    by (simp add: vault_chain_def)
  from vault_undelegate_total [OF cosmwasm_0_16 this, of 5000 7 "''uluna''"] show ?thesis
    by (auto simp: total_delegation_def U64_def)
qed

end
