(* ===== verification/Vault_Config.thy ===== *)
theory Vault_Config
  imports Vault_State Parse_Reply
begin

text \<open>
  Administration of the vault (\<open>config.rs\<close>): recording the token addresses as they are
  instantiated, changing parameters and configuration, keeping the validator whitelist and
  moving delegations between validators.
\<close>


section \<open>Definitions\<close>

definition MAX_VALIDATORS :: nat where
  "MAX_VALIDATORS = 20"

definition validate_rate :: "cosmwasm \<Rightarrow> decimal \<Rightarrow> (std_error, decimal) result" where
  "validate_rate S rate =
     (if rate > DEC_ONE
      then Fail (GenericErr (''Rate can not be bigger than one (given value: '' @ decimal_display S rate @ '')''))
      else Ok rate)"

text \<open>The sub-message that instantiates the next token, answered under the given id.\<close>

definition instantiate_token ::
  "config \<Rightarrow> env \<Rightarrow> nat \<Rightarrow> string \<Rightarrow> string \<Rightarrow> (addr \<times> nat) list \<Rightarrow> sub_msg" where
  "instantiate_token config env next_reply_id name symbol balances = \<lparr>
     sub_id = next_reply_id,
     sub_body = WasmInstantiate (token_code_id config)
       \<lparr>token_name = name, token_symbol = symbol, token_decimals = 6, initial_balances = balances,
        token_mint = Some \<lparr>minter = contract_address env, minter_cap = None\<rparr>\<rparr> (Some (token_admin config)),
     gas_limit = None, reply_mode = ReplyOnSuccess\<rparr>"

definition set_token_address :: "deps \<Rightarrow> env \<Rightarrow> vault \<Rightarrow> reply \<Rightarrow> vault_result" where
  "set_token_address D env v msg =
     (let config = CONFIG v in
     andThen (map_err (\<lambda>_. GenericErr ''error parsing token instantiation reply'')
       (parse_reply_instantiate_data msg)) (\<lambda>res.
     andThen (addr_validate D (instantiated_address res)) (\<lambda>token_addr.
     andThen
       (if reply_id msg = 0
        then Ok (config\<lparr>cluna_contract := token_addr\<rparr>, 1, ''Prism pLuna Token'', ''pLuna'')
        else if reply_id msg = 1
        then Ok (config\<lparr>pluna_contract := token_addr\<rparr>, 2, ''Prism yLuna Token'', ''yLuna'')
        else if reply_id msg = 2
        then Ok (config\<lparr>yluna_contract := token_addr\<rparr>, 3, [], [])
        else Fail (GenericErr ''invalid reply id''))
       (\<lambda>(config, next_reply_id, next_token_name, next_token_symbol).
     Ok (v\<lparr>CONFIG := config\<rparr>,
       if next_reply_id \<le> 2
       then [instantiate_token config env next_reply_id next_token_name next_token_symbol []]
       else [])))))"

definition execute_update_params ::
  "cosmwasm \<Rightarrow> vault \<Rightarrow> message_info \<Rightarrow> nat option \<Rightarrow> nat option \<Rightarrow> decimal option \<Rightarrow> decimal option
    \<Rightarrow> vault_result" where
  "execute_update_params S v info epoch unbonding fee threshold =
     (if sender info \<noteq> owner (CONFIG v) then Fail (GenericErr ''unauthorized'')
      else
        let params = PARAMETERS v in
        andThen (validate_rate S (case fee of Some x \<Rightarrow> x | None \<Rightarrow> peg_recovery_fee params)) (\<lambda>new_fee.
        andThen (validate_rate S (case threshold of Some x \<Rightarrow> x | None \<Rightarrow> er_threshold params)) (\<lambda>new_threshold.
        Ok (v\<lparr>PARAMETERS := \<lparr>
          epoch_period = (case epoch of Some x \<Rightarrow> x | None \<Rightarrow> epoch_period params),
          underlying_coin_denom = underlying_coin_denom params,
          unbonding_period = (case unbonding of Some x \<Rightarrow> x | None \<Rightarrow> unbonding_period params),
          peg_recovery_fee = new_fee,
          er_threshold = new_threshold\<rparr>\<rparr>, []))))"

definition execute_update_config ::
  "deps \<Rightarrow> vault \<Rightarrow> message_info \<Rightarrow> string option \<Rightarrow> string option \<Rightarrow> string option \<Rightarrow> string option
    \<Rightarrow> vault_result" where
  "execute_update_config D v info new_owner staking airdrop new_manager =
     (if sender info \<noteq> owner (CONFIG v) then Fail (GenericErr ''unauthorized'')
      else
        andThen (case new_owner of None \<Rightarrow> Ok (CONFIG v)
           | Some a \<Rightarrow> andThen (addr_validate D a) (\<lambda>x. Ok ((CONFIG v)\<lparr>owner := x\<rparr>))) (\<lambda>config.
        andThen (case staking of None \<Rightarrow> Ok (config, [])
           | Some a \<Rightarrow> andThen (addr_validate D a) (\<lambda>x.
               Ok (config\<lparr>yluna_staking := x\<rparr>, [new_sub_msg (SetWithdrawAddress a)]))) (\<lambda>(config, messages).
        andThen (case airdrop of None \<Rightarrow> Ok config
           | Some a \<Rightarrow> andThen (addr_validate D a) (\<lambda>x. Ok (config\<lparr>airdrop_registry_contract := x\<rparr>))) (\<lambda>config.
        andThen (case new_manager of None \<Rightarrow> Ok config
           | Some a \<Rightarrow> andThen (addr_validate D a) (\<lambda>x. Ok (config\<lparr>manager := x\<rparr>))) (\<lambda>config.
        let config =
          (if \<not> initialized config \<and> yluna_staking config \<noteq> [] \<and> airdrop_registry_contract config \<noteq> []
           then config\<lparr>initialized := True\<rparr> else config)
        in Ok (v\<lparr>CONFIG := config\<rparr>, messages))))))"

definition execute_register_validator ::
  "deps \<Rightarrow> env \<Rightarrow> vault \<Rightarrow> message_info \<Rightarrow> string \<Rightarrow> vault_result" where
  "execute_register_validator D env v info validator =
     (if sender info \<noteq> owner (CONFIG v) \<and> sender info \<noteq> contract_address env
      then Fail (GenericErr ''unauthorized'')
      else if MAX_VALIDATORS \<le> length (read_validators v)
      then Fail (GenericErr (''Can't register more than '' @ show_nat MAX_VALIDATORS @ '' validators''))
      else andThen (from_answer (q_all_validators D)) (\<lambda>vals.
        if validator \<notin> set vals then Fail (GenericErr ''The specified address is not a validator'')
        else Ok (store_white_validators v validator, [])))"

definition execute_deregister_validator ::
  "deps \<Rightarrow> env \<Rightarrow> vault \<Rightarrow> message_info \<Rightarrow> string \<Rightarrow> string \<Rightarrow> vault_result" where
  "execute_deregister_validator D env v info validator redel_validator =
     andThen (assert_initialized (CONFIG v)) (\<lambda>config.
     if owner config \<noteq> sender info then Fail (GenericErr ''unauthorized'')
     else if length (read_validators v) = 1
     then Fail (GenericErr ''Cannot remove the last whitelisted validator'')
     else
       let v = remove_white_validators v validator;
           query = q_delegation D (contract_address env) validator
       in if \<not> is_valid_validator v redel_validator
          then Fail (GenericErr ''The chosen validator to redelegate is currently not supported'')
          else Ok (v, case query of
              Inr (Some delegation) \<Rightarrow>
                [new_sub_msg (StakingRedelegate validator redel_validator (fd_amount delegation)),
                 new_sub_msg (WasmExecute (contract_address env) VaultUpdateGlobalIndex)]
            | _ \<Rightarrow> []))"

definition execute_redelegate ::
  "deps \<Rightarrow> env \<Rightarrow> vault \<Rightarrow> message_info \<Rightarrow> string \<Rightarrow> string \<Rightarrow> nat \<Rightarrow> vault_result" where
  "execute_redelegate D env v info source_val target_val amount =
     andThen (assert_initialized (CONFIG v)) (\<lambda>config.
     if sender info \<noteq> owner config \<and> sender info \<noteq> manager config
     then Fail (GenericErr ''unauthorized'')
     else if \<not> is_valid_validator v source_val \<or> \<not> is_valid_validator v target_val
     then Fail (GenericErr ''Invalid validators'')
     else andThen (from_answer (q_delegation D (contract_address env) source_val)) (\<lambda>del_query_res.
       case del_query_res of
         None \<Rightarrow> Fail (GenericErr ''The source validator delegation is not available'')
       | Some delegation \<Rightarrow>
           if coin_amount (fd_amount delegation) < amount
           then Fail (GenericErr
             ''The delegation of the source validator is less than the requested amount'')
           else if coin_amount (can_redelegate delegation) \<noteq> coin_amount (fd_amount delegation)
           then Fail (GenericErr ''There is a redelegation in progress'')
           else Ok (v,
             [new_sub_msg (StakingRedelegate source_val target_val
                \<lparr>denom = underlying_coin_denom (PARAMETERS v), coin_amount = amount\<rparr>),
              new_sub_msg (WasmExecute (contract_address env) VaultUpdateGlobalIndex)])))"


section \<open>Lemmas\<close>

lemma validate_rate_Ok_iff [result_simps]: "validate_rate S r = Inr x \<longleftrightarrow> x = r \<and> r \<le> DEC_ONE"
  by (auto simp: validate_rate_def)

lemma assert_initialized_Ok_iff [result_simps]:
  "assert_initialized c = Inr c' \<longleftrightarrow> initialized c \<and> c' = c"
  by (auto simp: assert_initialized_def)

text \<open>What administration promises: rates of at most one and at most twenty validators.\<close>

definition config_inv :: "vault \<Rightarrow> bool" where
  "config_inv v \<longleftrightarrow>
     peg_recovery_fee (PARAMETERS v) \<le> DEC_ONE \<and> er_threshold (PARAMETERS v) \<le> DEC_ONE
     \<and> wf_store (VALIDATORS v) \<and> length (VALIDATORS v) \<le> MAX_VALIDATORS"

lemma length_put_le: "length (put k x s) \<le> Suc (length s)"
  by (induction s) auto

lemma length_del_le: "length (del k s) \<le> length s"
  by (simp add: del_def)

text \<open>What each operation changes.\<close>

lemma set_token_address_Ok:
  assumes "set_token_address D env v msg = Inr (v', r)"
  obtains a where "v' = v\<lparr>CONFIG := (CONFIG v)\<lparr>cluna_contract := a\<rparr>\<rparr>" and "reply_id msg = 0"
  | a where "v' = v\<lparr>CONFIG := (CONFIG v)\<lparr>pluna_contract := a\<rparr>\<rparr>" and "reply_id msg = 1"
  | a where "v' = v\<lparr>CONFIG := (CONFIG v)\<lparr>yluna_contract := a\<rparr>\<rparr>" and "reply_id msg = 2" and "r = []"
  using assms by (auto simp: set_token_address_def Let_def result_simps split: if_splits)

lemma execute_update_params_Ok:
  assumes "execute_update_params S v info epoch unbonding fee threshold = Inr (v', r)"
  shows "sender info = owner (CONFIG v)" and "v' = v\<lparr>PARAMETERS := PARAMETERS v'\<rparr>" and "r = []"
    and "peg_recovery_fee (PARAMETERS v') \<le> DEC_ONE" and "er_threshold (PARAMETERS v') \<le> DEC_ONE"
    and "underlying_coin_denom (PARAMETERS v') = underlying_coin_denom (PARAMETERS v)"
  using assms by (auto simp: execute_update_params_def Let_def result_simps split: if_splits)

lemma execute_update_config_Ok:
  assumes "execute_update_config D v info o1 st ad m = Inr (v', r)"
  shows "sender info = owner (CONFIG v)" and "v' = v\<lparr>CONFIG := CONFIG v'\<rparr>"
    and "initialized (CONFIG v) \<Longrightarrow> initialized (CONFIG v')"
    and "r = [] \<or> (\<exists>a. r = [new_sub_msg (SetWithdrawAddress a)])"
    and "cluna_contract (CONFIG v') = cluna_contract (CONFIG v)"
    and "yluna_contract (CONFIG v') = yluna_contract (CONFIG v)"
    and "pluna_contract (CONFIG v') = pluna_contract (CONFIG v)"
proof -
  from assms have auth: "sender info = owner (CONFIG v)"
    by (auto simp: execute_update_config_def split: if_splits)
  with assms obtain c1 c2 c3 c4 where
    c1: "(case o1 of None \<Rightarrow> Ok (CONFIG v)
           | Some a \<Rightarrow> andThen (addr_validate D a) (\<lambda>x. Ok ((CONFIG v)\<lparr>owner := x\<rparr>))) = Ok c1"
    and c2: "(case st of None \<Rightarrow> Ok (c1, [])
           | Some a \<Rightarrow> andThen (addr_validate D a) (\<lambda>x.
               Ok (c1\<lparr>yluna_staking := x\<rparr>, [new_sub_msg (SetWithdrawAddress a)]))) = Ok (c2, r)"
    and c3: "(case ad of None \<Rightarrow> Ok c2
           | Some a \<Rightarrow> andThen (addr_validate D a) (\<lambda>x. Ok (c2\<lparr>airdrop_registry_contract := x\<rparr>))) = Ok c3"
    and c4: "(case m of None \<Rightarrow> Ok c3
           | Some a \<Rightarrow> andThen (addr_validate D a) (\<lambda>x. Ok (c3\<lparr>manager := x\<rparr>))) = Ok c4"
    and v'4: "v' = v\<lparr>CONFIG := if \<not> initialized c4 \<and> yluna_staking c4 \<noteq> [] \<and> airdrop_registry_contract c4 \<noteq> []
        then c4\<lparr>initialized := True\<rparr> else c4\<rparr>"
    unfolding execute_update_config_def Let_def
    apply (simp only: auth simp_thms if_False)
    apply (elim andThen_OkE)
    apply (clarsimp elim!: andThen_OkE)
    done
  obtain c5 where c5: "c5 = c4 \<or> c5 = c4\<lparr>initialized := True\<rparr>" and v': "v' = v\<lparr>CONFIG := c5\<rparr>"
    using v'4 by (auto split: if_splits)
  have same: "initialized c1 = initialized (CONFIG v) \<and> cluna_contract c1 = cluna_contract (CONFIG v)
      \<and> yluna_contract c1 = yluna_contract (CONFIG v) \<and> pluna_contract c1 = pluna_contract (CONFIG v)"
    "initialized c2 = initialized c1 \<and> cluna_contract c2 = cluna_contract c1
      \<and> yluna_contract c2 = yluna_contract c1 \<and> pluna_contract c2 = pluna_contract c1"
    "initialized c3 = initialized c2 \<and> cluna_contract c3 = cluna_contract c2
      \<and> yluna_contract c3 = yluna_contract c2 \<and> pluna_contract c3 = pluna_contract c2"
    "initialized c4 = initialized c3 \<and> cluna_contract c4 = cluna_contract c3
      \<and> yluna_contract c4 = yluna_contract c3 \<and> pluna_contract c4 = pluna_contract c3"
    using c1 c2 c3 c4 by (auto simp: result_simps split: option.splits)
  show "sender info = owner (CONFIG v)" by (rule auth)
  show "v' = v\<lparr>CONFIG := CONFIG v'\<rparr>" by (simp add: v')
  show "initialized (CONFIG v) \<Longrightarrow> initialized (CONFIG v')" using same c5 by (auto simp: v')
  show "r = [] \<or> (\<exists>a. r = [new_sub_msg (SetWithdrawAddress a)])"
    using c2 by (auto simp: result_simps split: option.splits)
  show "cluna_contract (CONFIG v') = cluna_contract (CONFIG v)"
    "yluna_contract (CONFIG v') = yluna_contract (CONFIG v)"
    "pluna_contract (CONFIG v') = pluna_contract (CONFIG v)"
    using same c5 by (auto simp: v')
qed

lemma execute_register_validator_Ok:
  assumes "execute_register_validator D env v info validator = Inr (v', r)"
  shows "sender info = owner (CONFIG v) \<or> sender info = contract_address env"
    and "length (VALIDATORS v) < MAX_VALIDATORS" and "v' = store_white_validators v validator" and "r = []"
  using assms
  by (auto simp: execute_register_validator_def read_validators_def result_simps split: if_splits)

lemma execute_deregister_validator_Ok:
  assumes "execute_deregister_validator D env v info validator redel = Inr (v', r)"
  shows "sender info = owner (CONFIG v)" and "initialized (CONFIG v)"
    and "v' = remove_white_validators v validator" and "is_valid_validator v' redel"
    and "r = [] \<or> (\<exists>c. r = [new_sub_msg (StakingRedelegate validator redel c),
           new_sub_msg (WasmExecute (contract_address env) VaultUpdateGlobalIndex)])"
  using assms
  by (auto simp: execute_deregister_validator_def Let_def result_simps split: if_splits sum.splits option.splits)

lemma execute_redelegate_Ok:
  assumes "execute_redelegate D env v info src tgt amount = Inr (v', r)"
  shows "sender info = owner (CONFIG v) \<or> sender info = manager (CONFIG v)" and "v' = v"
    and "is_valid_validator v src" and "is_valid_validator v tgt"
    and "r = [new_sub_msg (StakingRedelegate src tgt
                \<lparr>denom = underlying_coin_denom (PARAMETERS v), coin_amount = amount\<rparr>),
              new_sub_msg (WasmExecute (contract_address env) VaultUpdateGlobalIndex)]"
    and "\<exists>d. q_delegation D (contract_address env) src = Inr (Some d) \<and> amount \<le> coin_amount (fd_amount d)"
proof -
  from assms obtain res where res: "q_delegation D (contract_address env) src = Inr res"
    by (auto simp: execute_redelegate_def result_simps split: if_splits)
  with assms obtain d where "res = Some d"
    by (cases res) (auto simp: execute_redelegate_def result_simps split: if_splits)
  with assms res show "sender info = owner (CONFIG v) \<or> sender info = manager (CONFIG v)" "v' = v"
    "is_valid_validator v src" "is_valid_validator v tgt"
    "r = [new_sub_msg (StakingRedelegate src tgt
                \<lparr>denom = underlying_coin_denom (PARAMETERS v), coin_amount = amount\<rparr>),
              new_sub_msg (WasmExecute (contract_address env) VaultUpdateGlobalIndex)]"
    "\<exists>d. q_delegation D (contract_address env) src = Inr (Some d) \<and> amount \<le> coin_amount (fd_amount d)"
    by (auto simp: execute_redelegate_def result_simps split: if_splits)
qed

end
