(* ===== verification/Vault_Contract.thy ===== *)
theory Vault_Contract
  imports Vault_Accounting Vault_Config
begin

text \<open>
  The entry points of the vault (\<open>contract.rs\<close>) and the exchange between cLuna and its two halves
  (\<open>refract.rs\<close>): instantiate, execute, reply and the queries, the states they can reach and the
  properties of the contract as a whole.
\<close>


section \<open>Definitions\<close>

subsection \<open>Messages\<close>

record instantiate_msg =
  im_epoch_period :: nat
  im_underlying_coin_denom :: string
  im_unbonding_period :: nat
  im_peg_recovery_fee :: decimal
  im_er_threshold :: decimal
  im_validator :: string
  im_token_admin :: string
  im_token_code_id :: nat
  im_manager :: string

datatype execute_msg =
    UpdateConfig "string option" "string option" "string option" "string option"
  | RegisterValidator string
  | DeregisterValidator string string
  | UpdateParams "nat option" "nat option" "decimal option" "decimal option"
  | Redelegate string string nat
  | Bond "string option"
  | BondSplit "string option"
  | UpdateGlobalIndex "binary list option"
  | WithdrawUnbonded
  | CheckSlashing
  | Receive cw20_receive_msg
  | Split nat
  | Merge nat
  | DepositAirdropReward string
  | ClaimAirdrop string string binary

datatype cw20_hook_msg = Unbond

subsection \<open>Splitting and merging\<close>

definition split :: "env \<Rightarrow> vault \<Rightarrow> message_info \<Rightarrow> nat \<Rightarrow> vault_result" where
  "split env v info amount =
     andThen (assert_initialized (CONFIG v)) (\<lambda>config.
     Ok (v, add_messages
       [WasmExecute (cluna_contract config) (Cw20TransferFrom (sender info) (contract_address env) amount),
        WasmExecute (yluna_contract config) (Cw20Mint (sender info) amount),
        WasmExecute (pluna_contract config) (Cw20Mint (sender info) amount)]))"

definition merge :: "vault \<Rightarrow> message_info \<Rightarrow> nat \<Rightarrow> vault_result" where
  "merge v info amount =
     andThen (assert_initialized (CONFIG v)) (\<lambda>config.
     Ok (v, add_messages
       [WasmExecute (yluna_contract config) (Cw20BurnFrom (sender info) amount),
        WasmExecute (pluna_contract config) (Cw20BurnFrom (sender info) amount),
        WasmExecute (cluna_contract config) (Cw20Transfer (sender info) amount)]))"

subsection \<open>Entry points\<close>

definition instantiate_vault ::
  "cosmwasm \<Rightarrow> deps \<Rightarrow> env \<Rightarrow> message_info \<Rightarrow> instantiate_msg \<Rightarrow> vault_result" where
  "instantiate_vault S D env info msg =
     andThen (case cw0_must_pay S (funds info) (im_underlying_coin_denom msg) of
         Inl e \<Rightarrow> Fail (GenericErr e) | Inr p \<Rightarrow> Ok p) (\<lambda>payment_amt.
     andThen (addr_validate D (im_token_admin msg)) (\<lambda>admin.
     andThen (addr_validate D (im_manager msg)) (\<lambda>new_manager.
     let config = \<lparr>owner = sender info, yluna_staking = [], cluna_contract = [], yluna_contract = [],
           pluna_contract = [], airdrop_registry_contract = [], initialized = False,
           token_admin = admin, token_code_id = im_token_code_id msg, manager = new_manager\<rparr>;
         st = default_state\<lparr>exchange_rate := DEC_ONE, last_index_modification := now_seconds S env,
           last_unbonded_time := now_seconds S env, last_processed_batch := 0,
           total_bond_amount := payment_amt\<rparr>
     in andThen (validate_rate S (im_peg_recovery_fee msg)) (\<lambda>fee.
     andThen (validate_rate S (im_er_threshold msg)) (\<lambda>threshold.
     Ok (\<lparr>CONFIG = config,
          PARAMETERS = \<lparr>epoch_period = im_epoch_period msg,
            underlying_coin_denom = im_underlying_coin_denom msg,
            unbonding_period = im_unbonding_period msg, peg_recovery_fee = fee, er_threshold = threshold\<rparr>,
          CURRENT_BATCH = \<lparr>current_id = 1, requested_with_fee = 0\<rparr>,
          STATE = st, UNBOND_WAITLIST = [], UNBOND_HISTORY = [], VALIDATORS = []\<rparr>,
        [new_sub_msg (WasmExecute (contract_address env) (VaultRegisterValidator (im_validator msg))),
         new_sub_msg (StakingDelegate (im_validator msg)
           \<lparr>denom = im_underlying_coin_denom msg, coin_amount = payment_amt\<rparr>),
         instantiate_token config env 0 ''Prism cLuna Token'' ''cLuna''
           [(contract_address env, payment_amt)]]))))))"

definition withdraw_all_rewards :: "deps \<Rightarrow> addr \<Rightarrow> sub_msg list" where
  "withdraw_all_rewards D delegator =
     (case q_all_delegations D delegator of
        Inl e \<Rightarrow> []
      | Inr ds \<Rightarrow> map (\<lambda>d. new_sub_msg (WithdrawDelegatorReward (del_validator d))) ds)"

definition execute_update_global ::
  "cosmwasm \<Rightarrow> deps \<Rightarrow> env \<Rightarrow> vault \<Rightarrow> binary list option \<Rightarrow> vault_result" where
  "execute_update_global S D env v airdrop_hooks =
     andThen (assert_initialized (CONFIG v)) (\<lambda>config.
     Ok (v\<lparr>STATE := (STATE v)\<lparr>last_index_modification := now_seconds S env\<rparr>\<rparr>,
       map (\<lambda>m. new_sub_msg (WasmExecute (airdrop_registry_contract config) (RawMsg m)))
         (case airdrop_hooks of None \<Rightarrow> [] | Some hooks \<Rightarrow> hooks)
       @ withdraw_all_rewards D (contract_address env)
       @ [new_sub_msg (WasmExecute (yluna_staking config) StakingProcessDelegatorRewards)]))"

definition claim_airdrop ::
  "env \<Rightarrow> vault \<Rightarrow> message_info \<Rightarrow> string \<Rightarrow> string \<Rightarrow> binary \<Rightarrow> vault_result" where
  "claim_airdrop env v info airdrop_token_contract airdrop_contract claim_msg =
     andThen (assert_initialized (CONFIG v)) (\<lambda>conf.
     if sender info \<noteq> airdrop_registry_contract conf then Fail (GenericErr ''unauthorized'')
     else Ok (v,
       [new_sub_msg (WasmExecute airdrop_contract (RawMsg claim_msg)),
        new_sub_msg (WasmExecute (contract_address env)
          (VaultDepositAirdropReward airdrop_token_contract))]))"

definition deposit_airdrop_rewards ::
  "deps \<Rightarrow> env \<Rightarrow> vault \<Rightarrow> message_info \<Rightarrow> string \<Rightarrow> vault_result" where
  "deposit_airdrop_rewards D env v info airdrop_token_contract =
     andThen (assert_initialized (CONFIG v)) (\<lambda>conf.
     andThen (addr_validate D airdrop_token_contract) (\<lambda>airdrop_token_addr.
     if sender info \<noteq> contract_address env then Fail (GenericErr ''unauthorized'')
     else if airdrop_token_addr = cluna_contract conf
     then Fail (GenericErr ''the airdrop_token_contract can not be cLuna'')
     else andThen (query_token_balance D airdrop_token_addr (contract_address env)) (\<lambda>amount.
       Ok (v, add_messages
         [WasmExecute airdrop_token_addr (Cw20IncreaseAllowance (yluna_staking conf) amount),
          WasmExecute (yluna_staking conf) (StakingDepositRewards [\<lparr>asset_of = Cw20 airdrop_token_addr, asset_amount = amount\<rparr>])]))))"

definition receive_cw20 ::
  "cosmwasm \<Rightarrow> deps \<Rightarrow> (binary \<Rightarrow> std_error + cw20_hook_msg) \<Rightarrow> env \<Rightarrow> vault \<Rightarrow> message_info
    \<Rightarrow> cw20_receive_msg \<Rightarrow> vault_result" where
  "receive_cw20 S D from_binary env v info m =
     andThen (from_answer (from_binary (cw20_msg m))) (\<lambda>hook.
       case hook of Unbond \<Rightarrow>
         andThen (assert_initialized (CONFIG v)) (\<lambda>conf.
         if sender info \<noteq> cluna_contract conf then Fail (GenericErr ''unauthorized'')
         else execute_unbond S D env v (cw20_amount m) (cw20_sender m)))"

definition reply_vault :: "deps \<Rightarrow> env \<Rightarrow> vault \<Rightarrow> reply \<Rightarrow> vault_result" where
  "reply_vault D env v msg = set_token_address D env v msg"

fun execute ::
  "cosmwasm \<Rightarrow> deps \<Rightarrow> (binary \<Rightarrow> std_error + cw20_hook_msg) \<Rightarrow> env \<Rightarrow> vault \<Rightarrow> message_info
    \<Rightarrow> execute_msg \<Rightarrow> vault_result" where
  "execute S D fb env v info (Receive m) = receive_cw20 S D fb env v info m"
| "execute S D fb env v info (Bond validator) = execute_bond S D env v info validator"
| "execute S D fb env v info (BondSplit validator) = execute_bond_split S D env v info validator"
| "execute S D fb env v info (Split amount) = split env v info amount"
| "execute S D fb env v info (Merge amount) = merge v info amount"
| "execute S D fb env v info (UpdateGlobalIndex hooks) = execute_update_global S D env v hooks"
| "execute S D fb env v info WithdrawUnbonded = execute_withdraw_unbonded S D env v info"
| "execute S D fb env v info (RegisterValidator val) = execute_register_validator D env v info val"
| "execute S D fb env v info (DeregisterValidator val redel) =
     execute_deregister_validator D env v info val redel"
| "execute S D fb env v info CheckSlashing = execute_slashing S D env v"
| "execute S D fb env v info (UpdateParams ep up fee thr) = execute_update_params S v info ep up fee thr"
| "execute S D fb env v info (UpdateConfig ow ys ar ma) = execute_update_config D v info ow ys ar ma"
| "execute S D fb env v info (ClaimAirdrop token airdrop claim) = claim_airdrop env v info token airdrop claim"
| "execute S D fb env v info (DepositAirdropReward token) = deposit_airdrop_rewards D env v info token"
| "execute S D fb env v info (Redelegate src tgt amount) = execute_redelegate D env v info src tgt amount"

subsection \<open>Queries\<close>

datatype query_msg =
    QueryConfig
  | QueryState
  | QueryWhitelistedValidators
  | QueryCurrentBatch
  | QueryWithdrawableUnbonded string
  | QueryParameters
  | QueryUnbondRequests string "nat option" "nat option"
  | QueryAllHistory "nat option" "nat option"

record config_response =
  res_owner :: string
  res_yluna_staking :: string
  res_cluna_contract :: string
  res_pluna_contract :: string
  res_yluna_contract :: string
  res_airdrop_registry_contract :: string
  res_initialized :: bool
  res_manager :: string

text \<open>The responses; the state, batch, parameters and history responses repeat their records.\<close>

datatype query_response =
    ConfigResponse config_response
  | StateResponse state
  | WhitelistedValidatorsResponse "string list"
  | CurrentBatchResponse current_batch
  | WithdrawableUnbondedResponse nat
  | ParametersResponse parameters
  | UnbondRequestsResponse string "(nat \<times> nat) list"
  | AllHistoryResponse "unbond_history list"

definition config_as_res :: "config \<Rightarrow> config_response" where
  "config_as_res c = \<lparr>res_owner = owner c, res_yluna_staking = yluna_staking c,
     res_cluna_contract = cluna_contract c, res_pluna_contract = pluna_contract c,
     res_yluna_contract = yluna_contract c,
     res_airdrop_registry_contract = airdrop_registry_contract c,
     res_initialized = initialized c, res_manager = manager c\<rparr>"

definition query_withdrawable_unbonded ::
  "cosmwasm \<Rightarrow> deps \<Rightarrow> env \<Rightarrow> vault \<Rightarrow> string \<Rightarrow> (std_error, nat) result" where
  "query_withdrawable_unbonded S D env v address =
     andThen (u64_sub (now_seconds S env) (unbonding_period (PARAMETERS v))) (\<lambda>historical_time.
     andThen (addr_validate D address) (\<lambda>a.
     query_get_finished_amount S v a historical_time None))"

definition query_unbond_requests ::
  "deps \<Rightarrow> vault \<Rightarrow> string \<Rightarrow> nat option \<Rightarrow> nat option \<Rightarrow> (std_error, query_response) result" where
  "query_unbond_requests D v address start limit =
     andThen (addr_validate D address) (\<lambda>a.
     Ok (UnbondRequestsResponse address (get_unbond_requests v a start limit)))"

fun query ::
  "cosmwasm \<Rightarrow> deps \<Rightarrow> env \<Rightarrow> vault \<Rightarrow> query_msg \<Rightarrow> (std_error, query_response) result" where
  "query S D env v QueryConfig = Ok (ConfigResponse (config_as_res (CONFIG v)))"
| "query S D env v QueryState = Ok (StateResponse (STATE v))"
| "query S D env v QueryCurrentBatch = Ok (CurrentBatchResponse (CURRENT_BATCH v))"
| "query S D env v QueryWhitelistedValidators =
     Ok (WhitelistedValidatorsResponse (read_valid_validators v))"
| "query S D env v (QueryWithdrawableUnbonded address) =
     andThen (query_withdrawable_unbonded S D env v address) (\<lambda>x. Ok (WithdrawableUnbondedResponse x))"
| "query S D env v QueryParameters = Ok (ParametersResponse (PARAMETERS v))"
| "query S D env v (QueryUnbondRequests address start limit) = query_unbond_requests D v address start limit"
| "query S D env v (QueryAllHistory start limit) = Ok (AllHistoryResponse (all_unbond_history v start limit))"

subsection \<open>Reachable states\<close>

text \<open>
  The states of a vault: after its instantiation, and after any successful call by anybody, in any
  block and against any chain. A failed call leaves the storage as it was.
\<close>

inductive vault_reach :: "cosmwasm \<Rightarrow> vault \<Rightarrow> bool" for S where
  instantiated: "instantiate_vault S D env info msg = Ok (v, r) \<Longrightarrow> vault_reach S v"
| executed: "vault_reach S v \<Longrightarrow> execute S D fb env v info m = Ok (v', r) \<Longrightarrow> vault_reach S v'"
| replied: "vault_reach S v \<Longrightarrow> reply_vault D env v rep = Ok (v', r) \<Longrightarrow> vault_reach S v'"

subsection \<open>Token flow\<close>

text \<open>
  The messages of a response that go to one of the three tokens, and how the messages of the
  vault's own making move the cLuna it holds and the supplies of yLuna and pLuna. A raw payload is
  not decoded and counts as nothing here, so the two sums speak for a response only together with
  the list of the messages that reach the tokens.
\<close>

fun token_message :: "config \<Rightarrow> cosmos_msg \<Rightarrow> (addr \<times> exec_msg) option" where
  "token_message c (WasmExecute a x) =
     (if a \<in> {cluna_contract c, yluna_contract c, pluna_contract c} then Some (a, x) else None)"
| "token_message c (WasmExecuteFunds a x coins) =
     (if a \<in> {cluna_contract c, yluna_contract c, pluna_contract c} then Some (a, x) else None)"
| "token_message c _ = None"

definition token_messages :: "config \<Rightarrow> response \<Rightarrow> (addr \<times> exec_msg) list" where
  "token_messages c r = List.map_filter (\<lambda>m. token_message c (sub_body m)) r"

fun held_delta :: "config \<Rightarrow> addr \<Rightarrow> cosmos_msg \<Rightarrow> int" where
  "held_delta c self (WasmExecute a (Cw20Mint to n)) = (if a = cluna_contract c \<and> to = self then int n else 0)"
| "held_delta c self (WasmExecute a (Cw20TransferFrom from to n)) =
     (if a = cluna_contract c \<and> to = self then int n else 0)"
| "held_delta c self (WasmExecute a (Cw20Transfer to n)) = (if a = cluna_contract c then - int n else 0)"
| "held_delta c self (WasmExecute a (Cw20Burn n)) = (if a = cluna_contract c then - int n else 0)"
| "held_delta c self _ = 0"

fun supply_delta :: "addr \<Rightarrow> cosmos_msg \<Rightarrow> int" where
  "supply_delta token (WasmExecute a (Cw20Mint to n)) = (if a = token then int n else 0)"
| "supply_delta token (WasmExecute a (Cw20BurnFrom from n)) = (if a = token then - int n else 0)"
| "supply_delta token (WasmExecute a (Cw20Burn n)) = (if a = token then - int n else 0)"
| "supply_delta token _ = 0"

definition flow :: "(cosmos_msg \<Rightarrow> int) \<Rightarrow> response \<Rightarrow> int" where
  "flow f r = (\<Sum>m\<leftarrow>r. f (sub_body m))"


section \<open>Lemmas\<close>

lemma flow_simps [simp]:
  "flow f [] = 0" "flow f (m # r) = f (sub_body m) + flow f r" "flow f (r @ r') = flow f r + flow f r'"
  by (simp_all add: flow_def)

lemma token_messages_simps [simp]:
  "token_messages c [] = []"
  "token_messages c (m # r) = (case token_message c (sub_body m) of
     None \<Rightarrow> token_messages c r | Some x \<Rightarrow> x # token_messages c r)"
  "token_messages c (r @ r') = token_messages c r @ token_messages c r'"
  by (simp_all add: token_messages_def map_filter_simps split: option.splits)
    (simp add: List.map_filter_def)

lemma no_token_messages: "(\<And>m. m \<in> set r \<Longrightarrow> token_message c (sub_body m) = None) \<Longrightarrow> token_messages c r = []"
  by (induction r) simp_all

lemma sub_body_new [simp]: "sub_body (new_sub_msg m) = m"
  by (simp add: new_sub_msg_def)

lemma flow_map: "(\<And>x. f (g x) = 0) \<Longrightarrow> flow f (map (\<lambda>x. new_sub_msg (g x)) xs) = 0"
  by (induction xs) simp_all

lemma vault_inv_instantiated:
  assumes "instantiate_vault S D env info msg = Ok (v, r)"
  shows "vault_inv v" and "config_inv v"
proof -
  from assms obtain st fee thr par conf where
    v: "v = \<lparr>CONFIG = conf, PARAMETERS = par, CURRENT_BATCH = \<lparr>current_id = 1, requested_with_fee = 0\<rparr>,
        STATE = st, UNBOND_WAITLIST = [], UNBOND_HISTORY = [], VALIDATORS = []\<rparr>"
    and st: "last_processed_batch st = 0"
    and par: "peg_recovery_fee par \<le> DEC_ONE" "er_threshold par \<le> DEC_ONE"
    by (auto simp: instantiate_vault_def Let_def result_simps)
  show "vault_inv v" by (rule vault_invI) (auto simp: v st batch_total_def)
  show "config_inv v" by (simp add: v par config_inv_def)
qed

text \<open>What the operations of users leave alone.\<close>

definition same_admin :: "vault \<Rightarrow> vault \<Rightarrow> bool" where
  "same_admin v v' \<longleftrightarrow> CONFIG v' = CONFIG v \<and> PARAMETERS v' = PARAMETERS v \<and> VALIDATORS v' = VALIDATORS v"

lemma same_admin_inv: "same_admin v v' \<Longrightarrow> config_inv v \<Longrightarrow> config_inv v'"
  by (simp add: same_admin_def config_inv_def)

lemma same_admin_refl [simp]: "same_admin v v"
  by (simp add: same_admin_def)

context cosmwasm_std
begin

lemma slashing_admin:
  assumes "slashing S D env v st params = Inr (v', st')"
  shows "same_admin v v'"
  using slashing_frame(1) [OF assms] by (auto simp: same_admin_def)

lemma execute_bond_inner_admin:
  assumes "execute_bond_inner S D env v info validator = Inr (v', minted, msgs, payment)"
  shows "same_admin v v'" and "initialized (CONFIG v)"
  using assms by (rule execute_bond_inner_Ok; auto dest!: slashing_admin simp: same_admin_def)+

lemma execute_unbond_admin:
  assumes "execute_unbond S D env v amount who = Inr (v', r)"
  shows "same_admin v v'"
proof (rule execute_unbond_Ok [OF assms])
  fix v1 st1 a x v2 st2 batch2 v3 st3 batch3 msgs
  assume sl: "slashing S D env v (STATE v) (PARAMETERS v) = Inr (v1, st1)"
    and v2: "v2 = v1\<lparr>UNBOND_WAITLIST := put (a, current_id (CURRENT_BATCH v))
        ((case get (UNBOND_WAITLIST v1) (a, current_id (CURRENT_BATCH v)) of Some y \<Rightarrow> y | None \<Rightarrow> 0) + x)
        (UNBOND_WAITLIST v1)\<rparr>"
    and epoch: "(if timestamp_seconds S (block_time env - last_unbonded_time st1 * 1000000000) > epoch_period (PARAMETERS v)
        then close_batch S D env v2 (PARAMETERS v) st2 batch2
        else Ok (v2, st2, batch2, [])) = Inr (v3, st3, batch3, msgs)"
    and v': "v' = v3\<lparr>CURRENT_BATCH := batch3, STATE := st3\<rparr>"
  have "same_admin v v2" using slashing_admin [OF sl] by (simp add: v2 same_admin_def)
  moreover have "same_admin v2 v3"
    using epoch by (auto simp: same_admin_def elim: close_batch_Ok split: if_splits)
  ultimately show ?thesis by (simp add: v' same_admin_def)
qed

lemma release_loop_frame:
  assumes "release_loop S v t expected slashed i p = Inr (v', p')"
  shows "v' = v\<lparr>UNBOND_HISTORY := UNBOND_HISTORY v'\<rparr>"
  using assms
proof (induction "histories_from v i" arbitrary: v i p rule: less_induct)
  case less
  show ?case
  proof (cases "due_history v t i")
    case None
    with less.prems show ?thesis by (simp add: release_loop.simps)
  next
    case (Some h)
    then have h: "get (UNBOND_HISTORY v) i = Some h" by (simp add: due_history_Some)
    from less.prems Some obtain r where
      run: "release_loop S (store_unbond_history v i (h\<lparr>withdraw_rate := r, released := True\<rparr>))
        t expected slashed (Suc i) i = Inr (v', p')"
      by (subst (asm) release_loop.simps) (auto simp: result_simps)
    have "v' = (store_unbond_history v i (h\<lparr>withdraw_rate := r, released := True\<rparr>))
        \<lparr>UNBOND_HISTORY := UNBOND_HISTORY v'\<rparr>"
      by (rule less.hyps [OF _ run]) (use histories_from_Suc [OF h] in \<open>simp add: histories_from_store\<close>)
    then show ?thesis by (simp add: store_unbond_history_def)
  qed
qed

lemma process_withdraw_rate_admin:
  assumes "process_withdraw_rate S v t bal = Inr v'"
  shows "same_admin v v'"
proof -
  have "same_admin v w" if "release_loop S v t e s i p = Inr (w, q)" for w e s i p q
    unfolding same_admin_def by (subst (1 2 3) release_loop_frame [OF that]) simp
  moreover have "same_admin v (w\<lparr>STATE := st\<rparr>)" if "same_admin v w" for w st
    using that by (simp add: same_admin_def)
  ultimately show ?thesis
    using assms unfolding process_withdraw_rate_def Let_def
    by (elim andThen_OkE) (auto elim!: andThen_OkE split: if_splits)
qed

lemma execute_withdraw_admin:
  assumes "execute_withdraw_unbonded S D env v info = Inr (v', r)"
  shows "same_admin v v'"
proof (rule execute_withdraw_unbonded_Ok [OF assms])
  fix bal v1 and paid :: nat
  assume v1: "process_withdraw_rate S v (now_seconds S env - unbonding_period (PARAMETERS v)) bal = Inr v1"
    and v': "v' = (remove_unbond_wait_list v1 (get_unbond_batches v1 (sender info) None) (sender info))
        \<lparr>STATE := (STATE v1)\<lparr>prev_vault_balance := bal - paid\<rparr>\<rparr>"
  have "same_admin v v1" by (rule process_withdraw_rate_admin [OF v1])
  then show ?thesis by (simp add: v' same_admin_def remove_unbond_wait_list_eq)
qed

end

lemma receive_cw20_Ok:
  assumes "receive_cw20 S D fb env v info m = Inr (v', r)"
  shows "execute_unbond S D env v (cw20_amount m) (cw20_sender m) = Ok (v', r)"
    and "sender info = cluna_contract (CONFIG v)" and "initialized (CONFIG v)"
proof -
  from assms obtain hook where hook: "fb (cw20_msg m) = Inr hook"
    by (auto simp: receive_cw20_def result_simps)
  with assms show "execute_unbond S D env v (cw20_amount m) (cw20_sender m) = Ok (v', r)"
    "sender info = cluna_contract (CONFIG v)" "initialized (CONFIG v)"
    by (cases hook; auto simp: receive_cw20_def result_simps split: if_splits)+
qed

text \<open>An unbond request sends the tokens one message, the burn of the received cLuna.\<close>

lemma unbond_token_messages:
  assumes std: "cosmwasm_std S" and run: "execute_unbond S D env v amount who = Ok (v', r)"
    and inv: "vault_inv v"
  shows "token_messages (CONFIG v) r = [(cluna_contract (CONFIG v), Cw20Burn amount)]"
proof (rule cosmwasm_std.execute_unbond_Ok [OF std run])
  fix v1 st1 w a v2 st2 batch2 v3 st3 batch3 msgs k x
  assume sl: "slashing S D env v (STATE v) (PARAMETERS v) = Inr (v1, st1)"
    and v2: "v2 = v1\<lparr>UNBOND_WAITLIST := put k x (UNBOND_WAITLIST v1)\<rparr>"
    and epoch: "(if timestamp_seconds S (block_time env - last_unbonded_time st1 * 1000000000) > epoch_period (PARAMETERS v)
        then close_batch S D env v2 (PARAMETERS v) st2 batch2
        else Ok (v2, st2, batch2, [])) = Inr (v3, st3, batch3, msgs)"
    and r: "r = msgs @ [new_sub_msg (WasmExecute (cluna_contract (CONFIG v3)) (Cw20Burn amount))]"
  have conf: "CONFIG v2 = CONFIG v" using cosmwasm_std.slashing_inv(6) [OF std sl inv] by (simp add: v2)
  have "CONFIG v3 = CONFIG v \<and> token_messages (CONFIG v) msgs = []"
  proof (cases "timestamp_seconds S (block_time env - last_unbonded_time st1 * 1000000000) > epoch_period (PARAMETERS v)")
    case False
    with epoch conf show ?thesis by simp
  next
    case True
    with epoch have cl: "close_batch S D env v2 (PARAMETERS v) st2 batch2 = Inr (v3, st3, batch3, msgs)" by simp
    show ?thesis
    proof (rule cosmwasm_std.close_batch_Ok [OF std cl])
      fix u h
      assume pick: "pick_unbond_validator S D (underlying_coin_denom (PARAMETERS v)) u
          (contract_address env) (block_height env) = Inr msgs"
        and v3: "v3 = v2\<lparr>UNBOND_HISTORY := put (current_id batch2) h (UNBOND_HISTORY v2)\<rparr>"
      obtain ds where "q_all_delegations D (contract_address env) = Inr ds"
        using pick by (auto simp: pick_unbond_validator_def result_simps)
      from cosmwasm_std.pick_unbond_validator_exact(2) [OF std pick this]
      have "token_messages (CONFIG v) msgs = []"
        by (intro no_token_messages) (auto simp: undelegates_from_def)
      with conf show ?thesis by (simp add: v3)
    qed
  qed
  then show ?thesis by (simp add: r)
qed

text \<open>The messages that change nothing but the state's book-keeping, or nothing at all.\<close>

lemma split_Ok:
  assumes "split env v info amount = Inr (v', r)"
  shows "v' = v" and "initialized (CONFIG v)" and "r = add_messages
       [WasmExecute (cluna_contract (CONFIG v)) (Cw20TransferFrom (sender info) (contract_address env) amount),
        WasmExecute (yluna_contract (CONFIG v)) (Cw20Mint (sender info) amount),
        WasmExecute (pluna_contract (CONFIG v)) (Cw20Mint (sender info) amount)]"
  using assms by (auto simp: split_def result_simps)

lemma merge_Ok:
  assumes "merge v info amount = Inr (v', r)"
  shows "v' = v" and "initialized (CONFIG v)" and "r = add_messages
       [WasmExecute (yluna_contract (CONFIG v)) (Cw20BurnFrom (sender info) amount),
        WasmExecute (pluna_contract (CONFIG v)) (Cw20BurnFrom (sender info) amount),
        WasmExecute (cluna_contract (CONFIG v)) (Cw20Transfer (sender info) amount)]"
  using assms by (auto simp: merge_def result_simps)

lemma execute_update_global_Ok:
  assumes "execute_update_global S D env v hooks = Inr (v', r)"
  shows "v' = v\<lparr>STATE := (STATE v)\<lparr>last_index_modification := now_seconds S env\<rparr>\<rparr>"
  using assms by (auto simp: execute_update_global_def result_simps)

lemma airdrop_Ok:
  shows "claim_airdrop env v info token airdrop claim = Inr (v', r) \<Longrightarrow> v' = v"
    and "deposit_airdrop_rewards D env v info token = Inr (v', r) \<Longrightarrow> v' = v"
  by (auto simp: claim_airdrop_def deposit_airdrop_rewards_def result_simps split: if_splits)

text \<open>Every message, by what it may touch: the batches or the administration.\<close>

lemma execute_same_admin:
  assumes std: "cosmwasm_std S" and run: "execute S D fb env v info m = Ok (v', r)"
    and user: "\<forall>ow ys ar ma. m \<noteq> UpdateConfig ow ys ar ma" "\<forall>ep up fee thr. m \<noteq> UpdateParams ep up fee thr"
      "\<forall>val. m \<noteq> RegisterValidator val" "\<forall>val redel. m \<noteq> DeregisterValidator val redel"
  shows "same_admin v v'"
proof (cases m)
  case (Bond validator)
  with run show ?thesis
    by (auto simp: execute_bond_def result_simps dest: cosmwasm_std.execute_bond_inner_admin(1) [OF std])
next
  case (BondSplit validator)
  with run show ?thesis
    by (auto simp: execute_bond_split_def result_simps dest: cosmwasm_std.execute_bond_inner_admin(1) [OF std])
next
  case (UpdateGlobalIndex hooks)
  with run show ?thesis by (auto dest!: execute_update_global_Ok simp: same_admin_def)
next
  case WithdrawUnbonded
  with run show ?thesis using cosmwasm_std.execute_withdraw_admin [OF std] by simp
next
  case CheckSlashing
  with run show ?thesis
    by (auto simp: execute_slashing_def result_simps dest: cosmwasm_std.slashing_admin [OF std])
next
  case (Receive x)
  with run show ?thesis
    by (auto dest!: receive_cw20_Ok(1) cosmwasm_std.execute_unbond_admin [OF std])
qed (use run user in \<open>auto dest!: split_Ok(1) merge_Ok(1) airdrop_Ok execute_redelegate_Ok(2)\<close>)

lemma execute_keeps_inv:
  assumes std: "cosmwasm_std S" and run: "execute S D fb env v info m = Ok (v', r)"
    and inv: "vault_inv v" and cfg: "config_inv v"
  shows "vault_inv v' \<and> config_inv v'"
proof -
  note wf = vault_inv_stores(3) [OF inv]
  have admin: "vault_inv (v\<lparr>CONFIG := c\<rparr>)" "vault_inv (v\<lparr>PARAMETERS := p\<rparr>)" for c p
    by (rule vault_inv_cong [OF inv]; simp add: wf)+
  have vals: "vault_inv (v\<lparr>VALIDATORS := s\<rparr>)" if "wf_store s" for s
    by (rule vault_inv_cong [OF inv]) (simp_all add: that)
  show ?thesis
  proof (cases m)
    case (UpdateConfig ow ys ar ma)
    with run have c: "execute_update_config D v info ow ys ar ma = Inr (v', r)" by simp
    show ?thesis
      using admin(1) [of "CONFIG v'"] cfg execute_update_config_Ok(2) [OF c]
      by (simp add: config_inv_def) (metis vault.select_convs vault.surjective vault.update_convs)
  next
    case (UpdateParams ep up fee thr)
    with run have c: "execute_update_params S v info ep up fee thr = Inr (v', r)" by simp
    show ?thesis
      using admin(2) [of "PARAMETERS v'"] cfg execute_update_params_Ok(2,4,5) [OF c]
      by (simp add: config_inv_def) (metis vault.select_convs vault.surjective vault.update_convs)
  next
    case (RegisterValidator val)
    with run have c: "execute_register_validator D env v info val = Inr (v', r)" by simp
    have "length (VALIDATORS v') \<le> MAX_VALIDATORS"
      using execute_register_validator_Ok(2,3) [OF c] length_put_le [of val True "VALIDATORS v"]
      by (simp add: store_white_validators_def)
    then show ?thesis
      using vals [of "put val True (VALIDATORS v)"] cfg execute_register_validator_Ok(3) [OF c] wf
      by (simp add: store_white_validators_def config_inv_def wf_put)
  next
    case (DeregisterValidator val redel)
    with run have c: "execute_deregister_validator D env v info val redel = Inr (v', r)" by simp
    show ?thesis
      using vals [of "del val (VALIDATORS v)"] cfg execute_deregister_validator_Ok(3) [OF c] wf
        length_del_le [of val "VALIDATORS v"]
      by (simp add: remove_white_validators_def config_inv_def wf_del)
  next
    case (Bond validator)
    with run have "vault_inv v'"
      by (auto simp: execute_bond_def result_simps dest: cosmwasm_std.execute_bond_inner_inv [OF std _ inv])
    then show ?thesis using same_admin_inv [OF execute_same_admin [OF std run] cfg] Bond by simp
  next
    case (BondSplit validator)
    with run have "vault_inv v'"
      by (auto simp: execute_bond_split_def result_simps dest: cosmwasm_std.execute_bond_inner_inv [OF std _ inv])
    then show ?thesis using same_admin_inv [OF execute_same_admin [OF std run] cfg] BondSplit by simp
  next
    case (UpdateGlobalIndex hooks)
    with run have "v' = v\<lparr>STATE := (STATE v)\<lparr>last_index_modification := now_seconds S env\<rparr>\<rparr>"
      by (auto dest: execute_update_global_Ok)
    then have "vault_inv v'" by (intro vault_inv_cong [OF inv]) (simp_all add: wf)
    then show ?thesis using same_admin_inv [OF execute_same_admin [OF std run] cfg] UpdateGlobalIndex by simp
  next
    case WithdrawUnbonded
    with run have "vault_inv v'" using cosmwasm_std.execute_withdraw_unbonded_inv [OF std _ inv] by simp
    then show ?thesis using same_admin_inv [OF execute_same_admin [OF std run] cfg] WithdrawUnbonded by simp
  next
    case CheckSlashing
    with run have "vault_inv v'" using cosmwasm_std.execute_slashing_inv [OF std _ inv] by simp
    then show ?thesis using same_admin_inv [OF execute_same_admin [OF std run] cfg] CheckSlashing by simp
  next
    case (Receive x)
    with run have "vault_inv v'"
      using cosmwasm_std.execute_unbond_inv [OF std receive_cw20_Ok(1) inv] by simp
    then show ?thesis using same_admin_inv [OF execute_same_admin [OF std run] cfg] Receive by simp
  qed (use run inv cfg in \<open>auto dest!: split_Ok(1) merge_Ok(1) airdrop_Ok execute_redelegate_Ok(2)\<close>)
qed

lemma reply_keeps_inv:
  assumes "reply_vault D env v rep = Ok (v', r)" and inv: "vault_inv v" and cfg: "config_inv v"
  shows "vault_inv v' \<and> config_inv v'"
proof -
  have "vault_inv (v\<lparr>CONFIG := c\<rparr>) \<and> config_inv (v\<lparr>CONFIG := c\<rparr>)" for c
    using vault_inv_cong [OF inv, of "v\<lparr>CONFIG := c\<rparr>"] vault_inv_stores(3) [OF inv] cfg
    by (simp add: config_inv_def)
  with assms(1) show ?thesis by (auto simp: reply_vault_def elim!: set_token_address_Ok)
qed


section \<open>Properties\<close>

text \<open>
  C1: in every state the vault can reach, from its instantiation on and whoever calls what in
  which order, the books of the unbonding batches agree: the wait list adds up to the requested
  amount of the current batch, to the recorded amount of every closed batch that is not yet
  released, and to at most the recorded amount of a released one (withdrawals take entries out);
  exactly the batches up to the last processed one are released, no entry is for a later batch
  than the current one, the fee and the threshold are at most one and at most twenty validators
  are whitelisted.
\<close>

theorem vault_reachable_inv:
  assumes "cosmwasm_std S" and "vault_reach S v"
  shows "vault_inv v \<and> config_inv v"
  using assms(2)
proof induction
  case (instantiated D env info msg v r)
  then show ?case by (simp add: vault_inv_instantiated)
next
  case (executed v D fb env info m v' r)
  then show ?case using execute_keeps_inv [OF assms(1)] by blast
next
  case (replied v D env rep v' r)
  then show ?case using reply_keeps_inv by blast
qed

definition instantiate_example :: instantiate_msg where
  "instantiate_example = \<lparr>im_epoch_period = 100, im_underlying_coin_denom = ''uluna'',
     im_unbonding_period = 200, im_peg_recovery_fee = 5 * 10 ^ 15, im_er_threshold = 10 ^ 18,
     im_validator = ''val1'', im_token_admin = ''admin'', im_token_code_id = 3, im_manager = ''manager''\<rparr>"

theorem vault_reachable_inv_witness:
  "\<exists>v0 r0 v1 r1. instantiate_vault cosmwasm_0_16 vault_chain (env_at 100) bond_payment instantiate_example
      = Ok (v0, r0)
    \<and> execute cosmwasm_0_16 vault_chain (\<lambda>_. Inr Unbond) (env_at 100) v0 \<lparr>sender = ''carol'', funds = []\<rparr>
        (UpdateParams (Some 50) None None (Some 7)) = Ok (v1, r1)
    \<and> er_threshold (PARAMETERS v1) = 7 \<and> vault_inv v1 \<and> config_inv v1"
proof -
  obtain v0 r0 v1 r1 where
    run0: "instantiate_vault cosmwasm_0_16 vault_chain (env_at 100) bond_payment instantiate_example = Ok (v0, r0)"
    and run1: "execute cosmwasm_0_16 vault_chain (\<lambda>_. Inr Unbond) (env_at 100) v0 \<lparr>sender = ''carol'', funds = []\<rparr>
        (UpdateParams (Some 50) None None (Some 7)) = Ok (v1, r1)"
    and er: "er_threshold (PARAMETERS v1) = 7"
    by (simp add: instantiate_vault_def execute_update_params_def validate_rate_def instantiate_example_def
        bond_payment_def default_state_def vault_chain_def Let_def cw_eval)
  have "vault_reach cosmwasm_0_16 v1"
    by (rule vault_reach.executed [OF vault_reach.instantiated [OF run0] run1])
  from vault_reachable_inv [OF cosmwasm_0_16 this] run0 run1 er show ?thesis by blast
qed

text \<open>
  Only the owner changes how the vault is run. A successful call that changes the
  configuration or the parameters was made by the owner, one that changes the whitelist by the
  owner or the vault itself; an initialized vault stays initialized, the token addresses and the
  coin denomination never change by a call, and after a removal the validator that takes over the
  delegation is still whitelisted.
\<close>

lemma vault_admin_only:
  assumes std: "cosmwasm_std S" and run: "execute S D fb env v info m = Ok (v', r)"
  shows "(CONFIG v' \<noteq> CONFIG v \<or> PARAMETERS v' \<noteq> PARAMETERS v \<longrightarrow> sender info = owner (CONFIG v))
    \<and> (VALIDATORS v' \<noteq> VALIDATORS v \<longrightarrow> sender info = owner (CONFIG v) \<or> sender info = contract_address env)
    \<and> (initialized (CONFIG v) \<longrightarrow> initialized (CONFIG v'))
    \<and> cluna_contract (CONFIG v') = cluna_contract (CONFIG v)
    \<and> yluna_contract (CONFIG v') = yluna_contract (CONFIG v)
    \<and> pluna_contract (CONFIG v') = pluna_contract (CONFIG v)
    \<and> underlying_coin_denom (PARAMETERS v') = underlying_coin_denom (PARAMETERS v)
    \<and> (\<forall>val redel. m = DeregisterValidator val redel \<longrightarrow> is_valid_validator v' redel)"
proof (cases m)
  case (UpdateConfig ow ys ar ma)
  with run have c: "execute_update_config D v info ow ys ar ma = Inr (v', r)" by simp
  have "PARAMETERS v' = PARAMETERS v" "VALIDATORS v' = VALIDATORS v"
    by (subst execute_update_config_Ok(2) [OF c], simp)+
  with execute_update_config_Ok [OF c] UpdateConfig show ?thesis by simp
next
  case (UpdateParams ep up fee thr)
  with run have c: "execute_update_params S v info ep up fee thr = Inr (v', r)" by simp
  have "CONFIG v' = CONFIG v" "VALIDATORS v' = VALIDATORS v"
    by (subst execute_update_params_Ok(2) [OF c], simp)+
  with execute_update_params_Ok [OF c] UpdateParams show ?thesis by simp
next
  case (RegisterValidator val)
  with run have "execute_register_validator D env v info val = Inr (v', r)" by simp
  from execute_register_validator_Ok [OF this] RegisterValidator show ?thesis
    by (auto simp: store_white_validators_def)
next
  case (DeregisterValidator val redel)
  with run have "execute_deregister_validator D env v info val redel = Inr (v', r)" by simp
  from execute_deregister_validator_Ok [OF this] DeregisterValidator show ?thesis
    by (auto simp: remove_white_validators_def)
qed (use execute_same_admin [OF std run] in \<open>simp_all add: same_admin_def\<close>)

lemma vault_admin_only_witness:
  "\<exists>v' r. execute cosmwasm_0_16 vault_chain (\<lambda>_. Inr Unbond) (env_at 500) vault_example
      (from_user ''owner'') (DeregisterValidator ''val1'' ''val2'') = Ok (v', r)
    \<and> VALIDATORS v' \<noteq> VALIDATORS vault_example \<and> is_valid_validator v' ''val2''"
proof -
  obtain v' r where run: "execute cosmwasm_0_16 vault_chain (\<lambda>_. Inr Unbond) (env_at 500) vault_example
      (from_user ''owner'') (DeregisterValidator ''val1'' ''val2'') = Ok (v', r)"
    and changed: "VALIDATORS v' \<noteq> VALIDATORS vault_example"
    by (simp add: execute_deregister_validator_def remove_white_validators_def vault_eval)
  with vault_admin_only [OF cosmwasm_0_16 run] show ?thesis by blast
qed

text \<open>
  C29: yLuna and pLuna stay backed one to one by cLuna in the hands of the vault. In a state with the
  invariant, as every reachable one, a call sends the three tokens exactly these messages: a split takes the amount of cLuna from the sender and mints
  as much yLuna and pLuna to the sender, a merge burns both from the sender and returns the cLuna,
  a bond with split mints the three, the cLuna to the vault, a plain bond mints cLuna to the
  sender, an unbond request burns the cLuna that was sent with it, and every other call sends the
  tokens nothing. So all but the unbond request move the cLuna held by the vault and the two
  supplies by the same amount. The tokens, the vault, the yLuna staking contract and the airdrop
  registry are different contracts and the sender is not the vault. ClaimAirdrop, which only the
  registry calls, forwards a payload of the registry's choice to a contract of the registry's
  choice; the property needs that contract to be none of the three tokens, which the code does
  not check.
\<close>

theorem vault_refract_backing:
  assumes std: "cosmwasm_std S" and run: "execute S D fb env v info m = Ok (v', r)" and inv: "vault_inv v"
    and c: "c = CONFIG v" and self: "self = contract_address env"
    and distinct: "distinct [cluna_contract c, yluna_contract c, pluna_contract c, yluna_staking c,
      airdrop_registry_contract c, self]"
    and user: "sender info \<noteq> self"
    and airdrop: "\<forall>token target claim. m = ClaimAirdrop token target claim \<longrightarrow>
      target \<notin> {cluna_contract c, yluna_contract c, pluna_contract c}"
  shows "\<exists>d. token_messages c r = (case m of
        Split n \<Rightarrow> [(cluna_contract c, Cw20TransferFrom (sender info) self n),
          (yluna_contract c, Cw20Mint (sender info) n), (pluna_contract c, Cw20Mint (sender info) n)]
      | Merge n \<Rightarrow> [(yluna_contract c, Cw20BurnFrom (sender info) n),
          (pluna_contract c, Cw20BurnFrom (sender info) n), (cluna_contract c, Cw20Transfer (sender info) n)]
      | BondSplit val \<Rightarrow> [(cluna_contract c, Cw20Mint self d),
          (yluna_contract c, Cw20Mint (sender info) d), (pluna_contract c, Cw20Mint (sender info) d)]
      | Bond val \<Rightarrow> [(cluna_contract c, Cw20Mint (sender info) d)]
      | Receive x \<Rightarrow> [(cluna_contract c, Cw20Burn (cw20_amount x))]
      | _ \<Rightarrow> [])
    \<and> ((\<forall>x. m \<noteq> Receive x) \<longrightarrow>
        flow (supply_delta (yluna_contract c)) r = flow (held_delta c self) r
        \<and> flow (supply_delta (pluna_contract c)) r = flow (held_delta c self) r)"
proof (cases m)
  case (BondSplit validator)
  with run obtain minted msgs payment where
    inner: "execute_bond_inner S D env v info validator = Inr (v', minted, msgs, payment)"
    and r: "r = butlast msgs @ add_messages
       [WasmExecute (cluna_contract c) (Cw20Mint self minted),
        WasmExecute (yluna_contract c) (Cw20Mint (sender info) minted),
        WasmExecute (pluna_contract c) (Cw20Mint (sender info) minted)]"
    by (auto simp: execute_bond_split_def result_simps c self)
  obtain val coin x where "msgs = [new_sub_msg (StakingDelegate val coin), x]"
    by (rule cosmwasm_std.execute_bond_inner_Ok [OF std inner]) blast
  then show ?thesis using distinct user by (auto simp: BondSplit r add_messages_def)
next
  case (Bond validator)
  with run obtain minted payment where
    inner: "execute_bond_inner S D env v info validator = Inr (v', minted, r, payment)"
    by (auto simp: execute_bond_def result_simps)
  obtain val coin v1 st1 where sl: "slashing S D env v (STATE v) (PARAMETERS v) = Inr (v1, st1)"
    and r: "r = [new_sub_msg (StakingDelegate val coin),
      new_sub_msg (WasmExecute (cluna_contract (CONFIG v1)) (Cw20Mint (sender info) minted))]"
    by (rule cosmwasm_std.execute_bond_inner_Ok [OF std inner]) blast
  have "CONFIG v1 = c" using cosmwasm_std.slashing_admin [OF std sl] by (simp add: same_admin_def c)
  then show ?thesis using distinct user by (simp add: Bond r)
next
  case (Split n)
  then show ?thesis using run distinct by (auto dest!: split_Ok(3) simp: add_messages_def c self)
next
  case (Merge n)
  then show ?thesis using run distinct by (auto dest!: merge_Ok(3) simp: add_messages_def c self)
next
  case (Receive x)
  with run have "receive_cw20 S D fb env v info x = Inr (v', r)" by simp
  from unbond_token_messages [OF std receive_cw20_Ok(1) [OF this] inv]
  show ?thesis by (simp add: Receive c)
next
  case (UpdateGlobalIndex hooks)
  have "token_messages c (withdraw_all_rewards D self) = []" "flow f (withdraw_all_rewards D self) = 0"
    if "\<And>w. f (WithdrawDelegatorReward w) = 0" for f
    using that by (auto intro!: no_token_messages flow_map simp: withdraw_all_rewards_def split: sum.splits)
  moreover have "token_messages c (map (\<lambda>m. new_sub_msg (WasmExecute (airdrop_registry_contract c) (RawMsg m))) ms) = []" for ms
    using distinct by (intro no_token_messages) auto
  ultimately show ?thesis using run distinct
    by (auto simp: UpdateGlobalIndex execute_update_global_def flow_map result_simps c [symmetric] self [symmetric])
next
  case (UpdateConfig ow ys ar ma)
  with run show ?thesis by (auto dest!: execute_update_config_Ok(4))
next
  case (DeregisterValidator val redel)
  with run distinct show ?thesis by (auto dest!: execute_deregister_validator_Ok(5) simp: self)
next
  case (Redelegate src tgt n)
  with run distinct show ?thesis by (auto dest!: execute_redelegate_Ok(5) simp: self)
next
  case WithdrawUnbonded
  with run show ?thesis by (auto elim!: cosmwasm_std.execute_withdraw_unbonded_Ok [OF std])
next
  case (ClaimAirdrop token target claim)
  with run airdrop distinct show ?thesis
    by (auto simp: claim_airdrop_def result_simps self split: if_splits)
next
  case (DepositAirdropReward token)
  with run user show ?thesis
    by (auto simp: deposit_airdrop_rewards_def add_messages_def result_simps self split: if_splits)
qed (use run in \<open>auto dest!: execute_update_params_Ok(3) execute_register_validator_Ok(4)
    simp: execute_slashing_def result_simps\<close>)

theorem vault_refract_backing_witness:
  "\<exists>v' r. execute cosmwasm_0_16 vault_chain (\<lambda>_. Inr Unbond) (env_at 500) vault_example bond_payment
      (BondSplit (Some ''val2'')) = Ok (v', r)
    \<and> token_messages (CONFIG vault_example) r = [(''cluna'', Cw20Mint ''self'' 1000),
        (''yluna'', Cw20Mint ''carol'' 1000), (''pluna'', Cw20Mint ''carol'' 1000)]
    \<and> flow (supply_delta ''yluna'') r = flow (held_delta (CONFIG vault_example) ''self'') r"
proof -
  obtain v' r where run: "execute cosmwasm_0_16 vault_chain (\<lambda>_. Inr Unbond) (env_at 500) vault_example
      bond_payment (BondSplit (Some ''val2'')) = Ok (v', r)"
    and y: "token_messages (CONFIG vault_example) r = [(''cluna'', Cw20Mint ''self'' 1000),
        (''yluna'', Cw20Mint ''carol'' 1000), (''pluna'', Cw20Mint ''carol'' 1000)]"
    by (simp add: vault_eval bond_payment_def token_messages_def List.map_filter_def)
  have d: "distinct [cluna_contract (CONFIG vault_example), yluna_contract (CONFIG vault_example),
      pluna_contract (CONFIG vault_example), yluna_staking (CONFIG vault_example),
      airdrop_registry_contract (CONFIG vault_example), contract_address (env_at 500)]"
    by (simp add: vault_example_def env_at_def)
  have "sender bond_payment \<noteq> contract_address (env_at 500)" by (simp add: bond_payment_def env_at_def)
  from vault_refract_backing [OF cosmwasm_0_16 run vault_example_inv refl refl d this]
  have "flow (supply_delta (yluna_contract (CONFIG vault_example))) r
      = flow (held_delta (CONFIG vault_example) (contract_address (env_at 500))) r" by simp
  then have "flow (supply_delta ''yluna'') r = flow (held_delta (CONFIG vault_example) ''self'') r"
    by (simp add: vault_example_def env_at_def)
  with run y show ?thesis by blast
qed

text \<open>
  The three tokens get set up. When the chain answers each instantiation with the encoded
  address of the new token, the reply with id 0 records cLuna and instantiates pLuna under id 1,
  that reply records pLuna and instantiates yLuna under id 2, and that one records yLuna and ends
  the sequence, with all three addresses in the configuration.
\<close>

lemma vault_token_setup:
  assumes utf8: "utf8_valid (map unat a0)" "utf8_valid (map unat a1)" "utf8_valid (map unat a2)"
    and len: "length a0 < USIZE" "length a1 < USIZE" "length a2 < USIZE"
    and valid: "api_addr_validate D (map (\<lambda>b. char_of (unat b)) a0) = Inr c"
      "api_addr_validate D (map (\<lambda>b. char_of (unat b)) a1) = Inr p"
      "api_addr_validate D (map (\<lambda>b. char_of (unat b)) a2) = Inr y"
  shows "\<exists>v1 v2 v3 m1 m2.
    reply_vault D env v \<lparr>reply_id = 0, reply_result = Inr (Some (encode_instantiate_response a0 None))\<rparr>
      = Ok (v1, [m1])
    \<and> reply_vault D env v1 \<lparr>reply_id = sub_id m1, reply_result = Inr (Some (encode_instantiate_response a1 None))\<rparr>
      = Ok (v2, [m2])
    \<and> reply_vault D env v2 \<lparr>reply_id = sub_id m2, reply_result = Inr (Some (encode_instantiate_response a2 None))\<rparr>
      = Ok (v3, [])
    \<and> reply_mode m1 = ReplyOnSuccess \<and> reply_mode m2 = ReplyOnSuccess
    \<and> v3 = v\<lparr>CONFIG := (CONFIG v)\<lparr>cluna_contract := c, pluna_contract := p, yluna_contract := y\<rparr>\<rparr>"
proof -
  have parse: "parse_reply_instantiate_data
      \<lparr>reply_id = n, reply_result = Inr (Some (encode_instantiate_response a None))\<rparr>
    = Ok \<lparr>instantiated_address = map (\<lambda>b. char_of (unat b)) a, instantiate_data = None\<rparr>"
    if "utf8_valid (map unat a)" "length a < USIZE" for a n
    using parse_response_encoded [of a None n] that by simp
  show ?thesis
    by (simp add: reply_vault_def set_token_address_def Let_def addr_validate_def instantiate_token_def
        parse utf8 len valid)
qed

text \<open>
  The query for the withdrawable amount does not give the amount a withdrawal pays: it values the
  requests at the rate of the closing of the batch, before the arrived Luna fixes the rate.
\<close>

lemma query_withdrawable_differs:
  "query_withdrawable_unbonded cosmwasm_0_16 vault_chain (env_at 500) vault_example ''alice'' = Ok 600"
  "\<exists>v'. execute_withdraw_unbonded cosmwasm_0_16 vault_chain (env_at 500) vault_example (from_user ''alice'')
    = Ok (v', [new_sub_msg (BankSend ''alice'' [\<lparr>denom = ''uluna'', coin_amount = 569\<rparr>])])"
  by (simp_all add: query_withdrawable_unbonded_def query_get_finished_amount_def vault_eval)

end
