(* ===== verification/Exchange.thy ===== *)
theory Exchange
  imports Prismswap_Messages Collector Vault_Contract Gov_Contract
begin

text \<open>
  The contracts as clients of the token and exchange interfaces of \<open>Prismswap_Messages\<close>: the tokens that the vault
  and the governance contract instantiate against the checks of a token, and the swap operations that the collector
  sends to the router.
\<close>


section \<open>Definitions\<close>

text \<open>A token that passes the checks of \<open>token.rs\<close>, has no cap, and which only one contract may mint.\<close>

definition token_ok :: "addr \<Rightarrow> token_instantiate_msg \<Rightarrow> bool" where
  "token_ok self t \<longleftrightarrow> Prismswap_Messages.validate t = Ok () \<and> get_cap t = None
     \<and> map_option minter (token_mint t) = Some self"

fun instantiated_token :: "cosmos_msg \<Rightarrow> token_instantiate_msg option" where
  "instantiated_token (WasmInstantiate code t admin) = Some t"
| "instantiated_token _ = None"

definition tokens_of :: "response \<Rightarrow> token_instantiate_msg list" where
  "tokens_of r = List.map_filter (\<lambda>m. instantiated_token (sub_body m)) r"

text \<open>The operations that a message hands to the router, with the asset it offers.\<close>

fun router_ops :: "cosmos_msg \<Rightarrow> (asset_info \<times> swap_operation list) option" where
  "router_ops (WasmExecute t (Cw20Send c n (RouterExecuteSwapOperations ops mn to))) = Some (Cw20 t, ops)"
| "router_ops (WasmExecuteFunds c (RouterExecuteSwapOperations ops mn to) [coin]) = Some (Native (denom coin), ops)"
| "router_ops _ = None"

fun offered :: "swap_operation \<Rightarrow> asset_info" where
  "offered (NativeSwap offer_denom ask_denom) = Native offer_denom"
| "offered (PrismSwap offer_asset_info ask_asset_info) = offer_asset_info"

text \<open>Where a sequence of operations leads: each one has to offer what the one before it delivers.\<close>

fun follow :: "asset_info \<Rightarrow> swap_operation list \<Rightarrow> asset_info option" where
  "follow i [] = Some i"
| "follow i (op # ops) = (if offered op = i then follow (get_target_asset_info op) ops else None)"

definition has_pair :: "deps \<Rightarrow> Collector.config \<Rightarrow> asset_info \<Rightarrow> asset_info \<Rightarrow> bool" where
  "has_pair D cfg i j \<longleftrightarrow> query_prismswap_pair D cfg (i, j) \<noteq> None \<or> query_prismswap_pair D cfg (j, i) \<noteq> None"

text \<open>The operations lead from the offered asset to the destination, over existing pairs and within the router's limit.\<close>

definition routed_to :: "deps \<Rightarrow> Collector.config \<Rightarrow> asset_info \<Rightarrow> cosmos_msg \<Rightarrow> bool" where
  "routed_to D cfg dest m = (case router_ops m of
       None \<Rightarrow> True
     | Some (i, ops) \<Rightarrow> i \<noteq> dest \<and> follow i ops = Some dest \<and> length ops \<le> MAX_SWAP_OPERATIONS
         \<and> list_all (\<lambda>op. has_pair D cfg (offered op) (get_target_asset_info op)) ops)"

fun destination :: "Collector.config \<Rightarrow> Collector.execute_msg \<Rightarrow> asset_info" where
  "destination cfg (Distribute infos) = Cw20 (Collector.prism_token cfg)"
| "destination cfg (ConvertAndSend assets receiver dest) = dest"
| "destination cfg (BaseSwapHook receiver prev dest) = dest"


section \<open>Lemmas\<close>

lemma tokens_of_simps [simp]:
  "tokens_of [] = []"
  "tokens_of (m # r) = (case instantiated_token (sub_body m) of None \<Rightarrow> tokens_of r | Some t \<Rightarrow> t # tokens_of r)"
  by (simp_all add: tokens_of_def List.map_filter_simps split: option.splits)

lemma protocol_names [simp]:
  "token_ok self \<lparr>token_name = ''Prism cLuna Token'', token_symbol = ''cLuna'', token_decimals = 6, initial_balances = b,
     token_mint = Some \<lparr>minter = self, minter_cap = None\<rparr>\<rparr>"
  "token_ok self \<lparr>token_name = ''Prism pLuna Token'', token_symbol = ''pLuna'', token_decimals = 6, initial_balances = b,
     token_mint = Some \<lparr>minter = self, minter_cap = None\<rparr>\<rparr>"
  "token_ok self \<lparr>token_name = ''Prism yLuna Token'', token_symbol = ''yLuna'', token_decimals = 6, initial_balances = b,
     token_mint = Some \<lparr>minter = self, minter_cap = None\<rparr>\<rparr>"
  "token_ok self \<lparr>token_name = ''Prism Governance Token'', token_symbol = ''xPRISM'', token_decimals = 6, initial_balances = b,
     token_mint = Some \<lparr>minter = self, minter_cap = None\<rparr>\<rparr>"
  by (simp_all add: token_ok_def validate_Ok_iff get_cap_def symbol_byte)

context cosmwasm_std
begin

lemma router_msg_ops:
  assumes "get_prism_router_swap_msg S cfg a dest base to = Inr m"
  shows "router_ops m = Some (asset_of a, [PrismSwap (asset_of a) base, PrismSwap base dest])"
  using assms
  by (cases a; cases "asset_of a") (auto simp: get_prism_router_swap_msg_def send_msg_with_native_funds_def asset_send_law
      map_err_Ok_iff from_answer_Ok_iff Let_def)

lemma other_msg_ops:
  "get_prism_direct_swap_msg S pair a to = Inr m \<Longrightarrow> router_ops m = None"
  "get_astro_direct_swap_msg S pair a to = Inr m \<Longrightarrow> router_ops m = None"
  "asset_transfer_msg S a to = Inr m \<Longrightarrow> router_ops m = None"
  by (cases a; cases "asset_of a"; auto simp: get_prism_direct_swap_msg_def get_astro_direct_swap_msg_def send_msg_with_native_funds_def
      asset_send_law asset_transfer_law native_transfer_law map_err_Ok_iff from_answer_Ok_iff elim!: andThen_OkE)+

lemma swap_one_routed:
  assumes "swap_one S D env cfg to dest a (ms, h) = Inr (ms', h')" and "\<forall>m\<in>set ms. routed_to D cfg dest m"
  shows "\<forall>m\<in>set ms'. routed_to D cfg dest m"
proof -
  let ?prism = "Cw20 (Collector.prism_token cfg)"
  have router: "routed_to D cfg dest m" if m: "get_prism_router_swap_msg S cfg a dest ?prism to = Inr m"
    and route: "get_swap_route D cfg (asset_of a) dest = Some (PrismSwapRouter p q)" and ne: "asset_of a \<noteq> dest" for m p q
  proof -
    have "query_prismswap_pair D cfg (asset_of a, ?prism) \<noteq> None" "query_prismswap_pair D cfg (dest, ?prism) \<noteq> None"
      using route by (auto simp: get_swap_route_def Let_def split: option.splits)
    then show ?thesis using ne by (simp add: routed_to_def router_msg_ops [OF m] MAX_SWAP_OPERATIONS_def has_pair_def)
  qed
  have none: "routed_to D cfg d m" if "router_ops m = None" for d m using that by (simp add: routed_to_def)
  show ?thesis using assms
    by (auto simp: swap_one_def map_err_Ok_iff from_answer_Ok_iff elim!: andThen_OkE
        intro: none [OF other_msg_ops(1)] none [OF other_msg_ops(2)] none [OF other_msg_ops(3)] router
        split: if_splits option.splits swap_route.splits)
qed

lemma get_swap_msgs_routed:
  assumes "get_swap_msgs S D env cfg as to dest = Inr (ms, h)"
  shows "\<forall>m\<in>set ms. routed_to D cfg dest m"
proof -
  have fold: "foldM (swap_one S D env cfg to dest) as ([], False) = Inr (ms, h)"
    using assms by (simp add: get_swap_msgs_def split: if_splits)
  have "(\<lambda>(ms, h). \<forall>m\<in>set ms. routed_to D cfg dest m) (ms, h)"
    by (rule foldM_invariant [OF fold]) (use swap_one_routed in \<open>auto split: prod.splits\<close>)
  then show ?thesis by simp
qed

lemma collect_one_routed:
  assumes "collect_one S env cfg info a (ms, b) = Inr (ms', b')" and "\<forall>m\<in>set ms. routed_to D cfg dest m"
  shows "\<forall>m\<in>set ms'. routed_to D cfg dest m"
proof (cases "asset_of a")
  case (Cw20 t)
  obtain n where a: "a = \<lparr>asset_of = Cw20 t, asset_amount = n\<rparr>" using Cw20 by (cases a) simp
  have "ms' = ms \<or> ms' = ms @ [WasmExecute t (Cw20TransferFrom (sender info) (contract_address env) n)]"
    using assms(1) by (auto simp: collect_one_def a asset_transfer_from_law split: if_splits)
  then show ?thesis using assms(2) by (auto simp: routed_to_def)
next
  case (Native d)
  then have "ms' = ms" using assms(1) by (auto simp: collect_one_def elim!: andThen_OkE split: if_splits)
  then show ?thesis using assms(2) by simp
qed

lemma collect_fold_routed:
  assumes "foldM (collect_one S env cfg info) as ([], 0) = Inr (ms, b)"
  shows "\<forall>m\<in>set ms. routed_to D cfg dest m"
proof -
  have "(\<lambda>(ms, b). \<forall>m\<in>set ms. routed_to D cfg dest m) (ms, b)"
    by (rule foldM_invariant [OF assms]) (use collect_one_routed in \<open>auto split: prod.splits\<close>)
  then show ?thesis by simp
qed

end


section \<open>Properties\<close>

text \<open>
  C37: every token of the protocol passes the checks of a token, has no cap and can only be minted by the contract that
  instantiates it. Instantiating the vault creates one token, whose initial balance is the Luna that the vault has
  bonded and belongs to the vault; the replies for the first two tokens create one more token each, which is empty, and the third
  none; instantiating governance creates one token, which is empty.
\<close>

theorem protocol_tokens_valid:
  "(instantiate_vault S D env info vmsg = Ok (v, r) \<longrightarrow>
      (\<exists>t. tokens_of r = [t] \<and> token_ok (contract_address env) t
        \<and> initial_balances t = [(contract_address env, Vault_State.total_bond_amount (Vault_State.STATE v))]))
    \<and> (reply_vault D env v1 rep = Ok (v2, r2) \<longrightarrow>
      (if reply_id rep < 2 then \<exists>t. tokens_of r2 = [t] \<and> token_ok (contract_address env) t \<and> initial_balances t = []
       else reply_id rep = 2 \<and> tokens_of r2 = []))
    \<and> (instantiate_gov D env info gmsg = Ok (g, r3) \<longrightarrow>
      (\<exists>t. tokens_of r3 = [t] \<and> token_ok (contract_address env) t \<and> initial_balances t = []))"
proof (intro conjI impI)
  assume "instantiate_vault S D env info vmsg = Ok (v, r)"
  then show "\<exists>t. tokens_of r = [t] \<and> token_ok (contract_address env) t
      \<and> initial_balances t = [(contract_address env, Vault_State.total_bond_amount (Vault_State.STATE v))]"
    by (auto simp: instantiate_vault_def instantiate_token_def new_sub_msg_def Let_def result_simps split: sum.splits)
next
  assume "reply_vault D env v1 rep = Ok (v2, r2)"
  then show "if reply_id rep < 2 then \<exists>t. tokens_of r2 = [t] \<and> token_ok (contract_address env) t \<and> initial_balances t = []
      else reply_id rep = 2 \<and> tokens_of r2 = []"
    by (auto simp: reply_vault_def set_token_address_def instantiate_token_def Let_def result_simps split: if_splits)
next
  assume "instantiate_gov D env info gmsg = Ok (g, r3)"
  then show "\<exists>t. tokens_of r3 = [t] \<and> token_ok (contract_address env) t \<and> initial_balances t = []"
    by (auto simp: instantiate_gov_def result_simps)
qed

theorem protocol_tokens_valid_witness:
  "\<exists>v r t. instantiate_vault cosmwasm_0_16 vault_chain (env_at 100) bond_payment instantiate_example = Ok (v, r)
    \<and> tokens_of r = [t] \<and> token_ok ''self'' t \<and> initial_balances t = [(''self'', 1000)]"
proof -
  obtain v r where run: "instantiate_vault cosmwasm_0_16 vault_chain (env_at 100) bond_payment instantiate_example = Ok (v, r)"
    and bonded: "Vault_State.total_bond_amount (Vault_State.STATE v) = 1000"
    by (simp add: instantiate_vault_def validate_rate_def instantiate_example_def bond_payment_def default_state_def vault_chain_def
        Let_def cw_eval)
  have "contract_address (env_at 100) = ''self''" by (simp add: env_at_def)
  then obtain t where "tokens_of r = [t]" "token_ok ''self'' t"
    "initial_balances t = [(''self'', Vault_State.total_bond_amount (Vault_State.STATE v))]"
    using protocol_tokens_valid [THEN conjunct1, THEN mp, OF run] by auto
  then show ?thesis using run bonded by auto
qed

text \<open>
  C23: the operations that the collector sends to the router form a path. In whatever message of the collector they
  occur, they start with the asset that is offered, each operation offers what the one before it delivers, the last one
  delivers the asset asked for, every operation has a pair on the exchange, and there are no more of them than the
  router accepts.
\<close>

theorem collector_routes_connect:
  assumes std: "cosmwasm_std S" and run: "Collector.execute S D env cfg info m = Ok r" and x: "x \<in> set r"
  shows "routed_to D cfg (destination cfg m) (sub_body x)"
proof -
  have hook: "routed_to D cfg d (WasmExecute self (CollectorBaseSwapHook to prev dest))" for d self to prev dest
    by (simp add: routed_to_def)
  note swaps = cosmwasm_std.get_swap_msgs_routed [OF std]
  show ?thesis
  proof (cases m)
    case (Distribute infos)
    then show ?thesis using run x hook
      by (auto simp: distribute_def add_messages_def new_sub_msg_def Let_def elim!: andThen_OkE dest!: swaps split: if_splits)
  next
    case (ConvertAndSend assets receiver dest)
    then show ?thesis using run x hook cosmwasm_std.collect_fold_routed [OF std, of env cfg info assets _ _ D dest]
      by (auto simp: convert_and_send_def add_messages_def new_sub_msg_def elim!: andThen_OkE dest!: swaps split: if_splits)
  next
    case (BaseSwapHook to prev dest)
    then show ?thesis using run x
      by (auto simp: base_swap_hook_def add_messages_def new_sub_msg_def elim!: andThen_OkE dest!: swaps split: if_splits)
  qed
qed

theorem collector_routes_connect_witness:
  "\<exists>r x. Collector.execute cosmwasm_0_16 collector_chain (env_at 1) collector_example \<lparr>sender = ''alice'', funds = []\<rparr>
      (ConvertAndSend [\<lparr>asset_of = Cw20 ''cluna'', asset_amount = 9\<rparr>] None (Cw20 ''xprism'')) = Ok r
    \<and> x \<in> set r \<and> router_ops (sub_body x) = Some (Cw20 ''cluna'',
      [PrismSwap (Cw20 ''cluna'') (Cw20 ''prism''), PrismSwap (Cw20 ''prism'') (Cw20 ''xprism'')])
    \<and> routed_to collector_chain collector_example (Cw20 ''xprism'') (sub_body x)"
proof -
  let ?x = "new_sub_msg (WasmExecute ''cluna'' (Cw20Send ''router'' 9 (RouterExecuteSwapOperations
      [PrismSwap (Cw20 ''cluna'') (Cw20 ''prism''), PrismSwap (Cw20 ''prism'') (Cw20 ''xprism'')] None (Some ''alice''))))"
  obtain r where run: "Collector.execute cosmwasm_0_16 collector_chain (env_at 1) collector_example \<lparr>sender = ''alice'', funds = []\<rparr>
      (ConvertAndSend [\<lparr>asset_of = Cw20 ''cluna'', asset_amount = 9\<rparr>] None (Cw20 ''xprism'')) = Ok r" and x: "?x \<in> set r"
    by (simp add: convert_and_send_def collector_eval)
  from collector_routes_connect [OF cosmwasm_0_16 run x] have "routed_to collector_chain collector_example (Cw20 ''xprism'') (sub_body ?x)"
    by simp
  with run x show ?thesis by (intro exI [of _ r] exI [of _ ?x]) (simp add: new_sub_msg_def)
qed

end
