(* ===== verification/Launch_Pool.thy ===== *)
theory Launch_Pool
  imports Prismswap
begin

text \<open>
  \<open>contracts/prism-launch-pool\<close>: PRISM for staked yLUNA. A distribution schedule is shared between a base pool,
  weighted by the bonds, and a boost pool, weighted by the square root of bond times boost; rewards that are
  withdrawn vest before they can be claimed. Models \<open>state.rs\<close>, \<open>contract.rs\<close>, \<open>vest.rs\<close>,
  \<open>querier.rs\<close>, \<open>error.rs\<close> and the messages in \<open>packages/prism_protocol/src/launch_pool.rs\<close>.
\<close>


section \<open>Definitions\<close>

subsection \<open>Data\<close>

datatype contract_error =
    Std std_error
  | OverflowError
  | Unauthorized
  | InvalidDistributionSchedule
  | InvalidBond string
  | InvalidUnbond string
  | InvalidClaimWithdrawnRewards string
  | InvalidActivateBoost string
  | InvalidBasePoolRatio

record distribution_status =
  total_distributed :: nat
  total_weight :: nat
  dist_pending :: nat
  reward_index :: decimal

definition default_status :: distribution_status where
  "default_status = \<lparr>total_distributed = 0, total_weight = 0, dist_pending = 0, reward_index = 0\<rparr>"

record config =
  owner :: addr
  operator :: addr
  prism_token :: addr
  xprism_token :: addr
  gov_addr :: addr
  yluna_staking :: addr
  yluna_token :: addr
  vesting_period :: nat
  boost_contract :: addr
  distribution_schedule :: "nat \<times> nat \<times> nat"
  base_pool_ratio :: decimal
  min_bond_amount :: nat

record reward_info =
  base_index :: decimal
  boost_index :: decimal
  active_boost :: nat
  boost_weight :: nat
  pending_reward :: nat

text \<open>Keys: account; (account, time of vesting).\<close>

record lpool =
  CONFIG :: config
  BASE_DISTRIBUTION_STATUS :: distribution_status
  BOOST_DISTRIBUTION_STATUS :: distribution_status
  BOND_AMOUNTS :: "(addr, nat) store"
  REWARD_INFO :: "(addr, reward_info) store"
  SCHEDULED_VEST :: "(addr \<times> nat, nat) store"
  PENDING_WITHDRAW :: "(addr, nat) store"

type_synonym lpool_result = "(contract_error, lpool \<times> response) result"

definition query_boost_amount :: "deps \<Rightarrow> addr \<Rightarrow> addr \<Rightarrow> (std_error, nat) result" where
  "query_boost_amount D boost address = from_answer (q_boost_amount D boost address)"

text \<open>A stored amount, zero if there is none.\<close>

definition amount_of :: "('k, nat) store \<Rightarrow> 'k \<Rightarrow> nat" where
  "amount_of s k = (case get s k of Some n \<Rightarrow> n | None \<Rightarrow> 0)"

subsection \<open>Reward indices\<close>

definition update_reward_index ::
  "cosmwasm \<Rightarrow> env \<Rightarrow> distribution_status \<Rightarrow> nat \<times> nat \<times> nat \<Rightarrow> decimal \<Rightarrow> (std_error, distribution_status) result" where
  "update_reward_index S env status schedule ratio =
     (case schedule of (start, end_at, amount) \<Rightarrow>
       if now_seconds S env < start then Ok status
       else
         andThen (u64_sub end_at start) (\<lambda>denominator.
         andThen (u64_sub (now_seconds S env) start) (\<lambda>elapsed.
         andThen (umul_ratio S amount (min elapsed denominator) denominator) (\<lambda>part.
         andThen (umul_dec S part ratio) (\<lambda>total_distribute.
         andThen (usub S total_distribute (total_distributed status)) (\<lambda>distribute_here.
         let status = status\<lparr>total_distributed := total_distribute\<rparr> in
         if total_weight status = 0 then
           andThen (uadd S (dist_pending status) distribute_here) (\<lambda>p. Ok (status\<lparr>dist_pending := p\<rparr>))
         else
           andThen (uadd S distribute_here (dist_pending status)) (\<lambda>distribute_here.
           andThen (from_ratio S distribute_here (total_weight status)) (\<lambda>normal_reward_per_bond.
           andThen (dec_add S (reward_index status) normal_reward_per_bond) (\<lambda>i.
           Ok (status\<lparr>reward_index := i, dist_pending := 0\<rparr>))))))))))"

definition update_reward_indexes :: "cosmwasm \<Rightarrow> env \<Rightarrow> lpool \<Rightarrow> config \<Rightarrow> (std_error, lpool) result" where
  "update_reward_indexes S env l cfg =
     andThen (update_reward_index S env (BASE_DISTRIBUTION_STATUS l) (distribution_schedule cfg) (base_pool_ratio cfg))
       (\<lambda>base.
     andThen (dec_sub S DEC_ONE (base_pool_ratio cfg)) (\<lambda>boost_ratio.
     andThen (update_reward_index S env (BOOST_DISTRIBUTION_STATUS l) (distribution_schedule cfg) boost_ratio) (\<lambda>boost.
     Ok (l\<lparr>BASE_DISTRIBUTION_STATUS := base, BOOST_DISTRIBUTION_STATUS := boost\<rparr>))))"

definition pull_pending_rewards :: "cosmwasm \<Rightarrow> lpool \<Rightarrow> addr \<Rightarrow> (std_error, reward_info) result" where
  "pull_pending_rewards S l address =
     (let base = BASE_DISTRIBUTION_STATUS l; boost = BOOST_DISTRIBUTION_STATUS l;
          bond_amount = amount_of (BOND_AMOUNTS l) address;
          info = (case get (REWARD_INFO l) address of Some i \<Rightarrow> i
            | None \<Rightarrow> \<lparr>base_index = reward_index base, boost_index = reward_index boost,
                active_boost = 0, boost_weight = 0, pending_reward = 0\<rparr>)
     in andThen (umul_dec S bond_amount (reward_index base)) (\<lambda>a.
     andThen (umul_dec S bond_amount (base_index info)) (\<lambda>b.
     andThen (uchecked_sub S OverflowErr a b) (\<lambda>base_pending_reward.
     andThen (umul_dec S (boost_weight info) (reward_index boost)) (\<lambda>c.
     andThen (umul_dec S (boost_weight info) (boost_index info)) (\<lambda>d.
     andThen (uchecked_sub S OverflowErr c d) (\<lambda>boost_pending_reward.
     andThen (uadd S base_pending_reward boost_pending_reward) (\<lambda>n.
     andThen (uadd S (pending_reward info) n) (\<lambda>p.
     Ok (info\<lparr>pending_reward := p, base_index := reward_index base, boost_index := reward_index boost\<rparr>))))))))))"

definition update_and_save_boost_weight_and_reward_info ::
  "cosmwasm \<Rightarrow> deps \<Rightarrow> lpool \<Rightarrow> config \<Rightarrow> addr \<Rightarrow> nat \<Rightarrow> reward_info \<Rightarrow> (contract_error, lpool \<times> nat) result" where
  "update_and_save_boost_weight_and_reward_info S D l cfg account bond_amount info =
     andThen (map_err Std (query_boost_amount D (boost_contract cfg) account)) (\<lambda>boost_amount.
     andThen (u128_mul bond_amount boost_amount) (\<lambda>product.
     let new_boost_weight = u128_integer_sqrt S product; status = BOOST_DISTRIBUTION_STATUS l in
     andThen (usub S (total_weight status) (boost_weight info)) (\<lambda>w.
     andThen (uadd S w new_boost_weight) (\<lambda>w.
     let l = l\<lparr>BOOST_DISTRIBUTION_STATUS := status\<lparr>total_weight := w\<rparr>\<rparr> in
     if bond_amount = 0 \<and> pending_reward info = 0
     then Ok (l\<lparr>REWARD_INFO := del account (REWARD_INFO l)\<rparr>, boost_amount)
     else Ok (l\<lparr>REWARD_INFO := put account
         (info\<lparr>boost_weight := new_boost_weight, active_boost := boost_amount\<rparr>) (REWARD_INFO l)\<rparr>, boost_amount)))))"

subsection \<open>Bonds\<close>

definition bond :: "cosmwasm \<Rightarrow> deps \<Rightarrow> env \<Rightarrow> lpool \<Rightarrow> addr \<Rightarrow> nat \<Rightarrow> lpool_result" where
  "bond S D env l sender_addr amount =
     (let cfg = CONFIG l in
     if amount < min_bond_amount cfg
     then Fail (InvalidBond (''bond amount too low; must be at least '' @ show_nat (min_bond_amount cfg)))
     else
       andThen (map_err Std (update_reward_indexes S env l cfg)) (\<lambda>l.
       andThen (map_err Std (pull_pending_rewards S l sender_addr)) (\<lambda>info.
       andThen (uadd S (amount_of (BOND_AMOUNTS l) sender_addr) amount) (\<lambda>new_bond_amount.
       andThen (uadd S (total_weight (BASE_DISTRIBUTION_STATUS l)) amount) (\<lambda>w.
       andThen (update_and_save_boost_weight_and_reward_info S D
           (l\<lparr>BOND_AMOUNTS := put sender_addr new_bond_amount (BOND_AMOUNTS l),
              BASE_DISTRIBUTION_STATUS := (BASE_DISTRIBUTION_STATUS l)\<lparr>total_weight := w\<rparr>\<rparr>)
           cfg sender_addr new_bond_amount info) (\<lambda>(l, _).
       Ok (l, add_messages [WasmExecute (yluna_token cfg) (Cw20Send (yluna_staking cfg) amount StakingBond)])))))))"

definition unbond :: "cosmwasm \<Rightarrow> deps \<Rightarrow> env \<Rightarrow> lpool \<Rightarrow> message_info \<Rightarrow> nat option \<Rightarrow> lpool_result" where
  "unbond S D env l info amount =
     (let cfg = CONFIG l; account = sender info in
     andThen (map_err Std (update_reward_indexes S env l cfg)) (\<lambda>l.
     andThen (map_err Std (pull_pending_rewards S l account)) (\<lambda>ri.
     andThen (or_err (InvalidUnbond ''no tokens bonded'') (get (BOND_AMOUNTS l) account)) (\<lambda>current_bond.
     andThen (case amount of
         Some a \<Rightarrow> if a > current_bond
           then Fail (InvalidUnbond ''can not unbond more than the bonded amount'') else Ok a
       | None \<Rightarrow> Ok current_bond) (\<lambda>unbond_amt.
     andThen (usub S current_bond unbond_amt) (\<lambda>new_bond_amount.
     if new_bond_amount > 0 \<and> new_bond_amount < min_bond_amount cfg
     then Fail (InvalidUnbond (''invalid unbond, remaining amount: '' @ show_nat new_bond_amount
       @ '', min_bond_amount: '' @ show_nat (min_bond_amount cfg)))
     else
       andThen (usub S (total_weight (BASE_DISTRIBUTION_STATUS l)) unbond_amt) (\<lambda>w.
       andThen (update_and_save_boost_weight_and_reward_info S D
           (l\<lparr>BASE_DISTRIBUTION_STATUS := (BASE_DISTRIBUTION_STATUS l)\<lparr>total_weight := w\<rparr>,
              BOND_AMOUNTS := (if new_bond_amount = 0 then del account (BOND_AMOUNTS l)
                else put account new_bond_amount (BOND_AMOUNTS l))\<rparr>)
           cfg account new_bond_amount ri) (\<lambda>(l, _).
       Ok (l, add_messages [WasmExecute (yluna_staking cfg) (StakingUnbond (Some unbond_amt)),
         WasmExecute (yluna_token cfg) (Cw20Transfer account unbond_amt)])))))))))"

definition refresh_boost :: "cosmwasm \<Rightarrow> deps \<Rightarrow> env \<Rightarrow> lpool \<Rightarrow> addr \<Rightarrow> (contract_error, lpool \<times> nat \<times> nat) result" where
  "refresh_boost S D env l account =
     (let cfg = CONFIG l in
     andThen (map_err Std (update_reward_indexes S env l cfg)) (\<lambda>l.
     andThen (map_err Std (pull_pending_rewards S l account)) (\<lambda>info.
     let current_bond = amount_of (BOND_AMOUNTS l) account in
     andThen (update_and_save_boost_weight_and_reward_info S D l cfg account current_bond info) (\<lambda>(l, boost_amount).
     Ok (l, current_bond, boost_amount)))))"

definition privileged_refresh_boost :: "cosmwasm \<Rightarrow> deps \<Rightarrow> env \<Rightarrow> lpool \<Rightarrow> message_info \<Rightarrow> addr \<Rightarrow> lpool_result" where
  "privileged_refresh_boost S D env l info human =
     (if sender info \<noteq> boost_contract (CONFIG l) then Fail Unauthorized
      else andThen (refresh_boost S D env l human) (\<lambda>(l, _, _). Ok (l, [])))"

definition activate_boost :: "cosmwasm \<Rightarrow> deps \<Rightarrow> env \<Rightarrow> lpool \<Rightarrow> message_info \<Rightarrow> lpool_result" where
  "activate_boost S D env l info =
     andThen (refresh_boost S D env l (sender info)) (\<lambda>(l, current_bond, _).
     if current_bond = 0 then Fail (InvalidActivateBoost ''Nothing bonded'') else Ok (l, []))"

subsection \<open>Vesting\<close>

definition TIME_UNIT :: nat where
  "TIME_UNIT = 60 * 60 * 24"

definition MAX_UPDATE_VEST_PER_TX :: nat where
  "MAX_UPDATE_VEST_PER_TX = 50"

text \<open>The loop stops at the first entry that is not due; entries come in ascending order of time.\<close>

definition due_vests :: "lpool \<Rightarrow> nat \<Rightarrow> addr \<Rightarrow> (nat, nat) store" where
  "due_vests l current_time address =
     takeWhile (\<lambda>(end_time, _). \<not> current_time < end_time)
       (take MAX_UPDATE_VEST_PER_TX (sub_range address (SCHEDULED_VEST l)))"

definition update_vest :: "cosmwasm \<Rightarrow> lpool \<Rightarrow> nat \<Rightarrow> addr \<Rightarrow> (std_error, lpool) result" where
  "update_vest S l current_time address =
     (let due = due_vests l current_time address in
     andThen (foldM (\<lambda>(_, unlocked) can_withdraw. uadd S can_withdraw unlocked) due
         (amount_of (PENDING_WITHDRAW l) address)) (\<lambda>can_withdraw.
     let l = l\<lparr>SCHEDULED_VEST := fold (\<lambda>t. del (address, t)) (map fst due) (SCHEDULED_VEST l)\<rparr> in
     if can_withdraw = 0 then Ok (l\<lparr>PENDING_WITHDRAW := del address (PENDING_WITHDRAW l)\<rparr>)
     else Ok (l\<lparr>PENDING_WITHDRAW := put address can_withdraw (PENDING_WITHDRAW l)\<rparr>)))"

definition vest_end_time :: "nat \<Rightarrow> nat \<Rightarrow> ('e, nat) result" where
  "vest_end_time current_time period =
     andThen (u64_add current_time period) (\<lambda>end_time. u64_sub end_time (end_time mod TIME_UNIT))"

definition withdraw_rewards_single :: "cosmwasm \<Rightarrow> env \<Rightarrow> config \<Rightarrow> addr \<Rightarrow> lpool \<Rightarrow> (contract_error, lpool) result" where
  "withdraw_rewards_single S env cfg account l =
     andThen (map_err Std (pull_pending_rewards S l account)) (\<lambda>info.
     let to_withdraw = pending_reward info; info = info\<lparr>pending_reward := 0\<rparr>;
         l = (case get (BOND_AMOUNTS l) account of
             None \<Rightarrow> l\<lparr>REWARD_INFO := del account (REWARD_INFO l)\<rparr>
           | Some b \<Rightarrow> if b = 0 then l\<lparr>REWARD_INFO := del account (REWARD_INFO l)\<rparr>
               else l\<lparr>REWARD_INFO := put account info (REWARD_INFO l)\<rparr>)
     in andThen (map_err Std (update_vest S l (now_seconds S env) account)) (\<lambda>l.
     if to_withdraw = 0 then Ok l
     else
       andThen (vest_end_time (now_seconds S env) (vesting_period cfg)) (\<lambda>end_time.
       andThen (uadd S (amount_of (SCHEDULED_VEST l) (account, end_time)) to_withdraw) (\<lambda>n.
       Ok (l\<lparr>SCHEDULED_VEST := put (account, end_time) n (SCHEDULED_VEST l)\<rparr>)))))"

definition withdraw_rewards :: "cosmwasm \<Rightarrow> env \<Rightarrow> lpool \<Rightarrow> message_info \<Rightarrow> lpool_result" where
  "withdraw_rewards S env l info =
     (let cfg = CONFIG l in
     andThen (map_err Std (update_reward_indexes S env l cfg)) (\<lambda>l.
     andThen (withdraw_rewards_single S env cfg (sender info) l) (\<lambda>l. Ok (l, []))))"

definition withdraw_rewards_bulk ::
  "cosmwasm \<Rightarrow> deps \<Rightarrow> env \<Rightarrow> lpool \<Rightarrow> message_info \<Rightarrow> nat \<Rightarrow> string option \<Rightarrow> lpool_result" where
  "withdraw_rewards_bulk S D env l info limit start_after_address =
     (let cfg = CONFIG l in
     if sender info \<noteq> operator cfg then Fail Unauthorized
     else
       andThen (map_err Std (update_reward_indexes S env l cfg)) (\<lambda>l.
       andThen (case start_after_address of
           Some a \<Rightarrow> andThen (map_err Std (addr_validate D a)) (\<lambda>_. Ok ())
         | None \<Rightarrow> Ok ()) (\<lambda>_.
       let addresses = map fst (take limit (range_from start_after_address (REWARD_INFO l))) in
       andThen (foldM (withdraw_rewards_single S env cfg) addresses l) (\<lambda>l. Ok (l, [])))))"

datatype claim_type = Prism | Xprism | Amps

definition claim_withdrawn_rewards ::
  "cosmwasm \<Rightarrow> deps \<Rightarrow> env \<Rightarrow> lpool \<Rightarrow> message_info \<Rightarrow> claim_type \<Rightarrow> lpool_result" where
  "claim_withdrawn_rewards S D env l info claim =
     (let cfg = CONFIG l; account = sender info; self = contract_address env in
     andThen (map_err Std (update_vest S l (now_seconds S env) account)) (\<lambda>l.
     let amount = amount_of (PENDING_WITHDRAW l) account in
     if amount = 0 then Fail (InvalidClaimWithdrawnRewards ''There are no claimable rewards'')
     else
       andThen (case claim of
           Prism \<Rightarrow> andThen (map_err Std (from_answer (asset_transfer_msg S
               \<lparr>asset_of = Cw20 (prism_token cfg), asset_amount = amount\<rparr> account))) (\<lambda>m. Ok [m])
         | Xprism \<Rightarrow> Ok [WasmExecute (prism_token cfg) (Cw20Send (gov_addr cfg) amount (GovMintXprism (Some account)))]
         | Amps \<Rightarrow> andThen (map_err Std (query_token_balance D (xprism_token cfg) self)) (\<lambda>xprism_balance.
             Ok [WasmExecute (prism_token cfg) (Cw20Send (gov_addr cfg) amount (GovMintXprism (Some self))),
                 WasmExecute self (LaunchPoolBondWithBoostContractHook account xprism_balance)])) (\<lambda>msgs.
       Ok (l\<lparr>PENDING_WITHDRAW := del account (PENDING_WITHDRAW l)\<rparr>, add_messages msgs))))"

definition bond_with_boost_contract_hook ::
  "cosmwasm \<Rightarrow> deps \<Rightarrow> lpool \<Rightarrow> message_info \<Rightarrow> env \<Rightarrow> addr \<Rightarrow> nat \<Rightarrow> lpool_result" where
  "bond_with_boost_contract_hook S D l info env receiver prev_xprism_balance =
     (let cfg = CONFIG l in
     if sender info \<noteq> contract_address env then Fail Unauthorized
     else
       andThen (map_err Std (query_token_balance D (xprism_token cfg) (contract_address env))) (\<lambda>balance.
       andThen (uchecked_sub S (Std OverflowErr) balance prev_xprism_balance) (\<lambda>xprism_reward.
       Ok (l, add_messages (if xprism_reward \<noteq> 0
         then [WasmExecute (xprism_token cfg) (Cw20Send (boost_contract cfg) xprism_reward (BoostBond (Some receiver)))]
         else [])))))"

subsection \<open>Administration\<close>

definition to_asset_balance :: "deps \<Rightarrow> addr \<Rightarrow> asset_info \<Rightarrow> (std_error, asset) result" where
  "to_asset_balance D address a =
     andThen (from_answer (q_asset_balance D a address)) (\<lambda>n. Ok \<lparr>asset_of = a, asset_amount = n\<rparr>)"

definition admin_withdraw_rewards :: "deps \<Rightarrow> env \<Rightarrow> lpool \<Rightarrow> message_info \<Rightarrow> lpool_result" where
  "admin_withdraw_rewards D env l info =
     (let cfg = CONFIG l in
     if sender info \<noteq> owner cfg then Fail Unauthorized
     else
       andThen (map_err Std (from_answer (q_reward_whitelist D (yluna_staking cfg)))) (\<lambda>assets.
       andThen (map_err Std (mapM (to_asset_balance D (contract_address env)) assets)) (\<lambda>balances.
       Ok (l, add_messages [WasmExecute (yluna_staking cfg) StakingClaimRewards,
         WasmExecute (contract_address env) (LaunchPoolAdminSendWithdrawnRewards balances)]))))"

definition admin_send_withdrawn_rewards ::
  "cosmwasm \<Rightarrow> deps \<Rightarrow> env \<Rightarrow> lpool \<Rightarrow> message_info \<Rightarrow> asset list \<Rightarrow> lpool_result" where
  "admin_send_withdrawn_rewards S D env l info original_balances =
     (let cfg = CONFIG l in
     if sender info \<noteq> contract_address env then Fail Unauthorized
     else
       andThen (foldM (\<lambda>prev messages.
           andThen (map_err Std (to_asset_balance D (contract_address env) (asset_of prev))) (\<lambda>current.
           andThen (usub S (asset_amount current) (asset_amount prev)) (\<lambda>n.
           if n = 0 then Ok messages
           else andThen (map_err Std (from_answer (asset_transfer_msg S
               \<lparr>asset_of = asset_of prev, asset_amount = n\<rparr> (owner cfg)))) (\<lambda>m. Ok (messages @ [m])))))
         original_balances []) (\<lambda>messages.
       Ok (l, add_messages messages)))"

text \<open>A running schedule is restarted with what is left of it; before its start and after its end it is kept.\<close>

definition change_ratio ::
  "cosmwasm \<Rightarrow> env \<Rightarrow> lpool \<Rightarrow> config \<Rightarrow> decimal \<Rightarrow> (contract_error, lpool \<times> config) result" where
  "change_ratio S env l cfg ratio =
     (if ratio > DEC_ONE then Fail InvalidBasePoolRatio
      else
        andThen (map_err Std (update_reward_indexes S env l cfg)) (\<lambda>l.
        case distribution_schedule cfg of (start, end_at, total_distribution_amount) \<Rightarrow>
        if start < now_seconds S env \<and> now_seconds S env < end_at then
          let base = BASE_DISTRIBUTION_STATUS l; boost = BOOST_DISTRIBUTION_STATUS l in
          andThen (uadd S (total_distributed base) (total_distributed boost)) (\<lambda>distributed.
          andThen (uchecked_sub S OverflowError total_distribution_amount distributed) (\<lambda>remaining_distribution.
          Ok (l\<lparr>BASE_DISTRIBUTION_STATUS := base\<lparr>total_distributed := 0\<rparr>,
                BOOST_DISTRIBUTION_STATUS := boost\<lparr>total_distributed := 0\<rparr>\<rparr>,
              cfg\<lparr>distribution_schedule := (now_seconds S env, end_at, remaining_distribution),
                base_pool_ratio := ratio\<rparr>)))
        else Ok (l, cfg\<lparr>base_pool_ratio := ratio\<rparr>)))"

definition update_config ::
  "cosmwasm \<Rightarrow> env \<Rightarrow> lpool \<Rightarrow> message_info \<Rightarrow> nat option \<Rightarrow> decimal option \<Rightarrow> lpool_result" where
  "update_config S env l info new_min_bond_amount new_ratio =
     (let cfg = CONFIG l in
     if sender info \<noteq> owner cfg then Fail Unauthorized
     else
       let cfg = (case new_min_bond_amount of None \<Rightarrow> cfg | Some n \<Rightarrow> cfg\<lparr>min_bond_amount := n\<rparr>) in
       andThen (case new_ratio of None \<Rightarrow> Ok (l, cfg) | Some ratio \<Rightarrow> change_ratio S env l cfg ratio) (\<lambda>(l, cfg).
       Ok (l\<lparr>CONFIG := cfg\<rparr>, [])))"

subsection \<open>Entry points\<close>

record instantiate_msg =
  im_owner :: string
  im_operator :: string
  im_prism_token :: string
  im_xprism_token :: string
  im_yluna_staking :: string
  im_yluna_token :: string
  im_gov :: string
  im_vesting_period :: nat
  im_boost_contract :: string
  im_distribution_schedule :: "nat \<times> nat \<times> nat"
  im_base_pool_ratio :: decimal
  im_min_bond_amount :: nat

definition instantiate_lpool :: "deps \<Rightarrow> instantiate_msg \<Rightarrow> lpool_result" where
  "instantiate_lpool D msg =
     andThen (map_err Std (addr_validate D (im_owner msg))) (\<lambda>ow.
     andThen (map_err Std (addr_validate D (im_operator msg))) (\<lambda>op.
     andThen (map_err Std (addr_validate D (im_prism_token msg))) (\<lambda>pr.
     andThen (map_err Std (addr_validate D (im_xprism_token msg))) (\<lambda>xp.
     andThen (map_err Std (addr_validate D (im_gov msg))) (\<lambda>go.
     andThen (map_err Std (addr_validate D (im_yluna_staking msg))) (\<lambda>ys.
     andThen (map_err Std (addr_validate D (im_yluna_token msg))) (\<lambda>yl.
     andThen (map_err Std (addr_validate D (im_boost_contract msg))) (\<lambda>bo.
     if fst (im_distribution_schedule msg) > fst (snd (im_distribution_schedule msg)) then Fail InvalidDistributionSchedule
     else if im_base_pool_ratio msg > DEC_ONE then Fail InvalidBasePoolRatio
     else Ok (\<lparr>CONFIG = \<lparr>owner = ow, operator = op, prism_token = pr, xprism_token = xp, gov_addr = go,
             yluna_staking = ys, yluna_token = yl, vesting_period = im_vesting_period msg, boost_contract = bo,
             distribution_schedule = im_distribution_schedule msg, base_pool_ratio = im_base_pool_ratio msg,
             min_bond_amount = im_min_bond_amount msg\<rparr>,
           BASE_DISTRIBUTION_STATUS = default_status, BOOST_DISTRIBUTION_STATUS = default_status,
           BOND_AMOUNTS = [], REWARD_INFO = [], SCHEDULED_VEST = [], PENDING_WITHDRAW = []\<rparr>, [])))))))))"

datatype execute_msg =
    Receive cw20_receive_msg
  | Unbond "nat option"
  | ActivateBoost
  | PrivilegedRefreshBoost string
  | WithdrawRewards
  | WithdrawRewardsBulk nat "string option"
  | ClaimWithdrawnRewards claim_type
  | AdminWithdrawRewards
  | AdminSendWithdrawnRewards "asset list"
  | UpdateConfig "nat option" "decimal option"
  | BondWithBoostContractHook addr nat

datatype cw20_hook_msg = Bond

definition receive_cw20 ::
  "cosmwasm \<Rightarrow> deps \<Rightarrow> (binary \<Rightarrow> std_error + cw20_hook_msg) \<Rightarrow> env \<Rightarrow> lpool \<Rightarrow> message_info
    \<Rightarrow> cw20_receive_msg \<Rightarrow> lpool_result" where
  "receive_cw20 S D from_binary env l info m =
     andThen (map_err Std (addr_validate D (cw20_sender m))) (\<lambda>from.
     andThen (map_err Std (from_answer (from_binary (cw20_msg m)))) (\<lambda>hook.
     case hook of Bond \<Rightarrow>
       if yluna_token (CONFIG l) \<noteq> sender info then Fail Unauthorized
       else bond S D env l from (cw20_amount m)))"

fun execute ::
  "cosmwasm \<Rightarrow> deps \<Rightarrow> (binary \<Rightarrow> std_error + cw20_hook_msg) \<Rightarrow> env \<Rightarrow> lpool \<Rightarrow> message_info
    \<Rightarrow> execute_msg \<Rightarrow> lpool_result" where
  "execute S D fb env l info (Receive m) = receive_cw20 S D fb env l info m"
| "execute S D fb env l info (Unbond amount) = unbond S D env l info amount"
| "execute S D fb env l info ActivateBoost = activate_boost S D env l info"
| "execute S D fb env l info WithdrawRewards = withdraw_rewards S env l info"
| "execute S D fb env l info (ClaimWithdrawnRewards claim) = claim_withdrawn_rewards S D env l info claim"
| "execute S D fb env l info AdminWithdrawRewards = admin_withdraw_rewards D env l info"
| "execute S D fb env l info (AdminSendWithdrawnRewards bs) = admin_send_withdrawn_rewards S D env l info bs"
| "execute S D fb env l info (WithdrawRewardsBulk limit start) = withdraw_rewards_bulk S D env l info limit start"
| "execute S D fb env l info (UpdateConfig m ratio) = update_config S env l info m ratio"
| "execute S D fb env l info (PrivilegedRefreshBoost account) =
     andThen (map_err Std (addr_validate D account)) (\<lambda>a. privileged_refresh_boost S D env l info a)"
| "execute S D fb env l info (BondWithBoostContractHook receiver prev) =
     bond_with_boost_contract_hook S D l info env receiver prev"

subsection \<open>Queries\<close>

definition query_distribution_status ::
  "cosmwasm \<Rightarrow> env \<Rightarrow> lpool \<Rightarrow> (std_error, distribution_status \<times> distribution_status) result" where
  "query_distribution_status S env l =
     (let cfg = CONFIG l in
     andThen (update_reward_index S env (BASE_DISTRIBUTION_STATUS l) (distribution_schedule cfg) (base_pool_ratio cfg))
       (\<lambda>base.
     andThen (dec_sub S DEC_ONE (base_pool_ratio cfg)) (\<lambda>boost_ratio.
     andThen (update_reward_index S env (BOOST_DISTRIBUTION_STATUS l) (distribution_schedule cfg) boost_ratio) (\<lambda>boost.
     Ok (base, boost)))))"

definition query_reward_info :: "cosmwasm \<Rightarrow> deps \<Rightarrow> lpool \<Rightarrow> string \<Rightarrow> (std_error, nat \<times> reward_info) result" where
  "query_reward_info S D l staker_addr =
     andThen (addr_validate D staker_addr) (\<lambda>a.
     andThen (pull_pending_rewards S l a) (\<lambda>info. Ok (amount_of (BOND_AMOUNTS l) a, info)))"

definition query_vesting_status ::
  "cosmwasm \<Rightarrow> env \<Rightarrow> lpool \<Rightarrow> addr \<Rightarrow> (std_error, (nat, nat) store \<times> nat) result" where
  "query_vesting_status S env l staker_addr =
     foldM (\<lambda>(end_time, unlocked) (scheduled_vests, can_withdraw).
         if now_seconds S env < end_time then Ok (scheduled_vests @ [(end_time, unlocked)], can_withdraw)
         else andThen (uadd S can_withdraw unlocked) (\<lambda>n. Ok (scheduled_vests @ [(end_time, unlocked)], n)))
       (sub_range staker_addr (SCHEDULED_VEST l)) ([], amount_of (PENDING_WITHDRAW l) staker_addr)"

datatype query_msg =
    QueryConfig
  | QueryDistributionStatus
  | QueryRewardInfo string
  | QueryVestingStatus string

text \<open>Configuration, statuses and reward entries are answered field by field as they are computed.\<close>

datatype query_response =
    ConfigResponse config
  | DistributionStatusResponse distribution_status distribution_status
  | RewardInfoResponse nat reward_info
  | VestingStatusResponse "(nat, nat) store" nat

fun query :: "cosmwasm \<Rightarrow> deps \<Rightarrow> env \<Rightarrow> lpool \<Rightarrow> query_msg \<Rightarrow> (std_error, query_response) result" where
  "query S D env l QueryConfig = Ok (ConfigResponse (CONFIG l))"
| "query S D env l QueryDistributionStatus =
     andThen (query_distribution_status S env l) (\<lambda>(base, boost). Ok (DistributionStatusResponse base boost))"
| "query S D env l (QueryRewardInfo staker) =
     andThen (query_reward_info S D l staker) (\<lambda>(b, info). Ok (RewardInfoResponse b info))"
| "query S D env l (QueryVestingStatus staker) =
     andThen (query_vesting_status S env l staker) (\<lambda>(vs, n). Ok (VestingStatusResponse vs n))"

end
