(* ===== verification/Launch_Accounting.thy ===== *)
theory Launch_Accounting
  imports Launch_Pool
begin

text \<open>
  The books of the launch pool: the invariant of its weights and indices, what each operation does to
  them, and the way of a reward through vesting to the claim.
\<close>


section \<open>The invariant\<close>

definition bond_total :: "lpool \<Rightarrow> nat" where
  "bond_total l = (\<Sum>(a, n)\<leftarrow>BOND_AMOUNTS l. n)"

definition weight_total :: "lpool \<Rightarrow> nat" where
  "weight_total l = (\<Sum>(a, i)\<leftarrow>REWARD_INFO l. boost_weight i)"

definition weight_of :: "lpool \<Rightarrow> addr \<Rightarrow> nat" where
  "weight_of l a = (case get (REWARD_INFO l) a of Some i \<Rightarrow> boost_weight i | None \<Rightarrow> 0)"

abbreviation schedule_amount :: "config \<Rightarrow> nat" where
  "schedule_amount c \<equiv> snd (snd (distribution_schedule c))"

text \<open>What an account has vesting.\<close>

definition vesting :: "lpool \<Rightarrow> addr \<Rightarrow> nat" where
  "vesting l a = (\<Sum>(k, n)\<leftarrow>SCHEDULED_VEST l. if fst k = a then n else 0)"

text \<open>The entry of an account: its indices are not ahead, and without a bond it has no boost weight.\<close>

definition entry_ok :: "lpool \<Rightarrow> addr \<Rightarrow> reward_info \<Rightarrow> bool" where
  "entry_ok l a i \<longleftrightarrow> base_index i \<le> reward_index (BASE_DISTRIBUTION_STATUS l)
     \<and> boost_index i \<le> reward_index (BOOST_DISTRIBUTION_STATUS l)
     \<and> (amount_of (BOND_AMOUNTS l) a = 0 \<longrightarrow> boost_weight i = 0)"

definition lpool_inv :: "lpool \<Rightarrow> bool" where
  "lpool_inv l \<longleftrightarrow> wf_store (BOND_AMOUNTS l) \<and> wf_store (REWARD_INFO l) \<and> wf_store (SCHEDULED_VEST l)
     \<and> wf_store (PENDING_WITHDRAW l)
     \<and> total_weight (BASE_DISTRIBUTION_STATUS l) = bond_total l
     \<and> total_weight (BOOST_DISTRIBUTION_STATUS l) = weight_total l
     \<and> (\<forall>a i. get (REWARD_INFO l) a = Some i \<longrightarrow> entry_ok l a i)
     \<and> (\<forall>a. amount_of (BOND_AMOUNTS l) a \<noteq> 0 \<longrightarrow> get (REWARD_INFO l) a \<noteq> None)
     \<and> total_distributed (BASE_DISTRIBUTION_STATUS l) + total_distributed (BOOST_DISTRIBUTION_STATUS l)
        \<le> schedule_amount (CONFIG l)
     \<and> base_pool_ratio (CONFIG l) \<le> DEC_ONE"

lemma lpool_inv_stores:
  assumes "lpool_inv l"
  shows "wf_store (BOND_AMOUNTS l)" and "wf_store (REWARD_INFO l)" and "wf_store (SCHEDULED_VEST l)"
    and "wf_store (PENDING_WITHDRAW l)"
  using assms by (simp_all add: lpool_inv_def)


lemma amount_of_put: "wf_store s \<Longrightarrow> amount_of (put a n s) k = (if k = a then n else amount_of s k)"
  by (simp add: amount_of_def get_put)

lemma amount_of_del: "amount_of (del a s) k = (if k = a then 0 else amount_of s k)"
  by (simp add: amount_of_def get_del)


section \<open>Indices\<close>

text \<open>What a schedule has distributed to a pool of the given ratio by a time.\<close>

definition distributed_by :: "nat \<times> nat \<times> nat \<Rightarrow> decimal \<Rightarrow> nat \<Rightarrow> nat" where
  "distributed_by schedule ratio now = (case schedule of (start, end_at, amount) \<Rightarrow>
     amount * min (now - start) (end_at - start) div (end_at - start) * ratio div DEC_ONE)"

lemma distributed_split:
  assumes "ratio \<le> DEC_ONE"
  shows "distributed_by sched ratio now + distributed_by sched (DEC_ONE - ratio) now \<le> snd (snd sched)"
proof -
  obtain start end_at amount where sched: "sched = (start, end_at, amount)" by (cases sched)
  define part where "part = amount * min (now - start) (end_at - start) div (end_at - start)"
  have "part \<le> amount * (end_at - start) div (end_at - start)" unfolding part_def by (intro div_le_mono mult_le_mono2) simp
  also have "\<dots> \<le> amount" by (cases "end_at - start = 0") simp_all
  finally have le: "part \<le> amount" .
  have "part * ratio div DEC_ONE + part * (DEC_ONE - ratio) div DEC_ONE \<le> (part * ratio + part * (DEC_ONE - ratio)) div DEC_ONE"
    by (simp add: less_eq_div_iff_mult_less_eq DEC_ONE_def distrib_right add_mono)
  also have "part * ratio + part * (DEC_ONE - ratio) = part * DEC_ONE" using assms by (simp add: distrib_left [symmetric])
  finally show ?thesis using le by (simp add: distributed_by_def sched part_def [symmetric] DEC_ONE_def)
qed

context cosmwasm_std
begin

lemma update_reward_index_run:
  assumes "update_reward_index S env s sched ratio = Inr s'" and late: "\<not> now_seconds S env < fst sched"
    and tot: "tot = distributed_by sched ratio (now_seconds S env)"
  shows "total_distributed s \<le> tot \<and> total_distributed s' = tot \<and> total_weight s' = total_weight s \<and>
    (if total_weight s = 0 then dist_pending s' = dist_pending s + (tot - total_distributed s) \<and> reward_index s' = reward_index s
     else dist_pending s' = 0 \<and>
       reward_index s' = reward_index s + (tot - total_distributed s + dist_pending s) * DEC_ONE div total_weight s)"
proof -
  obtain start end_at amount where sched: "sched = (start, end_at, amount)" by (cases sched)
  have eq: "amount * min (now_seconds S env - start) (end_at - start) div (end_at - start) * ratio div DEC_ONE = tot"
    by (simp add: distributed_by_def sched tot)
  show ?thesis
  proof (cases "total_weight s = 0")
    case True
    then show ?thesis using assms(1) late
      by (auto simp: update_reward_index_def sched Let_def cw_laws u64_sub_Ok_iff eq elim!: andThen_OkE)
  next
    case False
    then show ?thesis using assms(1) late
      by (auto simp: update_reward_index_def sched Let_def cw_laws u64_sub_Ok_iff eq elim!: andThen_OkE)
  qed
qed

lemma update_reward_index_Ok:
  assumes run: "update_reward_index S env s sched ratio = Inr s'"
  shows "total_weight s' = total_weight s" and "reward_index s \<le> reward_index s'"
    and "total_distributed s \<le> total_distributed s'"
    and "now_seconds S env < fst sched \<Longrightarrow> s' = s"
    and "\<not> now_seconds S env < fst sched \<Longrightarrow> total_distributed s' = distributed_by sched ratio (now_seconds S env)"
    and "(reward_index s' - reward_index s) * total_weight s + dist_pending s' * DEC_ONE
      \<le> (dist_pending s + (total_distributed s' - total_distributed s)) * DEC_ONE"
proof -
  show early: "now_seconds S env < fst sched \<Longrightarrow> s' = s"
    using run by (auto simp: update_reward_index_def split: prod.splits)
  note late = update_reward_index_run [OF run _ refl]
  show "\<not> now_seconds S env < fst sched \<Longrightarrow> total_distributed s' = distributed_by sched ratio (now_seconds S env)"
    using late by blast
  show "total_weight s' = total_weight s" "reward_index s \<le> reward_index s'" "total_distributed s \<le> total_distributed s'"
    by (cases "now_seconds S env < fst sched"; use early late in \<open>auto split: if_splits\<close>)+
  show "(reward_index s' - reward_index s) * total_weight s + dist_pending s' * DEC_ONE
      \<le> (dist_pending s + (total_distributed s' - total_distributed s)) * DEC_ONE"
  proof (cases "now_seconds S env < fst sched")
    case False
    define n where "n = (total_distributed s' - total_distributed s + dist_pending s) * DEC_ONE"
    have "n div total_weight s * total_weight s \<le> n" by simp
    then show ?thesis using late [OF False] by (auto simp: n_def add.commute split: if_splits)
  qed (use early in simp)
qed

text \<open>The effect of \<open>update_reward_indexes\<close>: both statuses move, nothing else.\<close>

lemma update_reward_indexes_Ok:
  assumes "update_reward_indexes S env l cfg = Inr l'"
  obtains base boost where "l' = l\<lparr>BASE_DISTRIBUTION_STATUS := base, BOOST_DISTRIBUTION_STATUS := boost\<rparr>"
    and "update_reward_index S env (BASE_DISTRIBUTION_STATUS l) (distribution_schedule cfg) (base_pool_ratio cfg) = Inr base"
    and "update_reward_index S env (BOOST_DISTRIBUTION_STATUS l) (distribution_schedule cfg)
      (DEC_ONE - base_pool_ratio cfg) = Inr boost"
  using assms by (auto simp: update_reward_indexes_def dec_sub_Ok_iff elim!: andThen_OkE)

lemma update_reward_indexes_inv:
  assumes run: "update_reward_indexes S env l cfg = Inr l'" and inv: "lpool_inv l"
    and cfg: "distribution_schedule cfg = distribution_schedule (CONFIG l)" "base_pool_ratio cfg = base_pool_ratio (CONFIG l)"
  shows "lpool_inv l'" and "CONFIG l' = CONFIG l" and "BOND_AMOUNTS l' = BOND_AMOUNTS l" and "REWARD_INFO l' = REWARD_INFO l"
    and "SCHEDULED_VEST l' = SCHEDULED_VEST l" and "PENDING_WITHDRAW l' = PENDING_WITHDRAW l"
proof -
  from update_reward_indexes_Ok [OF run] obtain base boost where
    l': "l' = l\<lparr>BASE_DISTRIBUTION_STATUS := base, BOOST_DISTRIBUTION_STATUS := boost\<rparr>"
    and base: "update_reward_index S env (BASE_DISTRIBUTION_STATUS l) (distribution_schedule cfg) (base_pool_ratio cfg) = Inr base"
    and boost: "update_reward_index S env (BOOST_DISTRIBUTION_STATUS l) (distribution_schedule cfg)
      (DEC_ONE - base_pool_ratio cfg) = Inr boost" by blast
  note b = update_reward_index_Ok [OF base] and c = update_reward_index_Ok [OF boost]
  show same: "CONFIG l' = CONFIG l" "BOND_AMOUNTS l' = BOND_AMOUNTS l" "REWARD_INFO l' = REWARD_INFO l"
    "SCHEDULED_VEST l' = SCHEDULED_VEST l" "PENDING_WITHDRAW l' = PENDING_WITHDRAW l" by (simp_all add: l')
  have ratio: "base_pool_ratio (CONFIG l) \<le> DEC_ONE" using inv by (simp add: lpool_inv_def)
  have "total_distributed base + total_distributed boost \<le> schedule_amount (CONFIG l)"
  proof (cases "now_seconds S env < fst (distribution_schedule cfg)")
    case True
    then show ?thesis using b(4) c(4) inv by (simp add: lpool_inv_def)
  next
    case False
    then show ?thesis using b(5) c(5) distributed_split [OF ratio] by (simp add: cfg)
  qed
  moreover have "entry_ok l' a i" if "entry_ok l a i" for a i
    using that b(2) c(2) by (simp add: entry_ok_def l')
  ultimately show "lpool_inv l'"
    using inv b(1) c(1) unfolding lpool_inv_def same
    by (simp add: l' bond_total_def weight_total_def)
qed

lemma pull_pending_rewards_Ok:
  assumes "pull_pending_rewards S l a = Inr i"
  shows "boost_weight i = weight_of l a" and "base_index i = reward_index (BASE_DISTRIBUTION_STATUS l)"
    and "boost_index i = reward_index (BOOST_DISTRIBUTION_STATUS l)"
    and "pending_reward i = (case get (REWARD_INFO l) a of None \<Rightarrow> 0 | Some j \<Rightarrow> pending_reward j
      + (amount_of (BOND_AMOUNTS l) a * base_index i div DEC_ONE - amount_of (BOND_AMOUNTS l) a * base_index j div DEC_ONE)
      + (boost_weight j * boost_index i div DEC_ONE - boost_weight j * boost_index j div DEC_ONE))"
  using assms
  by (auto simp: pull_pending_rewards_def Let_def result_simps cw_laws weight_of_def split: option.splits)

text \<open>On right books only an overflow of \<open>Uint128\<close> can stop the computation of a reward.\<close>

lemma pull_pending_rewards_no_err:
  assumes inv: "lpool_inv l" and run: "pull_pending_rewards S l a = Inl e"
  shows "e = Panic"
proof -
  define j where "j = (case get (REWARD_INFO l) a of Some i \<Rightarrow> i
            | None \<Rightarrow> \<lparr>base_index = reward_index (BASE_DISTRIBUTION_STATUS l), boost_index = reward_index (BOOST_DISTRIBUTION_STATUS l),
                active_boost = 0, boost_weight = 0, pending_reward = 0\<rparr>)"
  have "base_index j \<le> reward_index (BASE_DISTRIBUTION_STATUS l)" "boost_index j \<le> reward_index (BOOST_DISTRIBUTION_STATUS l)"
    using inv by (auto simp: j_def lpool_inv_def entry_ok_def split: option.splits)
  then have "n * base_index j div DEC_ONE \<le> n * reward_index (BASE_DISTRIBUTION_STATUS l) div DEC_ONE"
    "n * boost_index j div DEC_ONE \<le> n * reward_index (BOOST_DISTRIBUTION_STATUS l) div DEC_ONE" for n
    by (intro div_le_mono mult_le_mono2; simp)+
  then show ?thesis
    using run unfolding pull_pending_rewards_def Let_def j_def [symmetric]
    by (auto simp: andThen_Inl_iff umul_dec_def uadd_def uchecked_sub_def mul_decimal_law add_law checked_sub_law split: if_splits)
qed

text \<open>Writing one account's bond and entry.\<close>

lemma save_entry_inv:
  assumes inv: "lpool_inv l" and info: "boost_weight i = weight_of l a" "base_index i = reward_index (BASE_DISTRIBUTION_STATUS l)"
      "boost_index i = reward_index (BOOST_DISTRIBUTION_STATUS l)"
    and B: "wf_store B" "\<And>k. k \<noteq> a \<Longrightarrow> get B k = get (BOND_AMOUNTS l) k" "amount_of B a = b" "w = (\<Sum>(k, n)\<leftarrow>B. n)"
    and run: "update_and_save_boost_weight_and_reward_info S D
        (l\<lparr>BOND_AMOUNTS := B, BASE_DISTRIBUTION_STATUS := (BASE_DISTRIBUTION_STATUS l)\<lparr>total_weight := w\<rparr>\<rparr>) cfg a b i = Inr (l', boost)"
  shows "lpool_inv l' \<and> CONFIG l' = CONFIG l \<and> BOND_AMOUNTS l' = B
    \<and> query_boost_amount D (boost_contract cfg) a = Inr boost \<and> weight_of l' a = u128_integer_sqrt S (b * boost)
    \<and> SCHEDULED_VEST l' = SCHEDULED_VEST l \<and> PENDING_WITHDRAW l' = PENDING_WITHDRAW l
    \<and> (\<forall>k. k \<noteq> a \<longrightarrow> get (REWARD_INFO l') k = get (REWARD_INFO l) k)
    \<and> get (REWARD_INFO l') a = (if b = 0 \<and> pending_reward i = 0 then None
        else Some (i\<lparr>boost_weight := u128_integer_sqrt S (b * boost), active_boost := boost\<rparr>))"
proof -
  let ?new = "u128_integer_sqrt S (b * boost)"
  let ?l1 = "l\<lparr>BOND_AMOUNTS := B, BASE_DISTRIBUTION_STATUS := (BASE_DISTRIBUTION_STATUS l)\<lparr>total_weight := w\<rparr>\<rparr>"
  let ?R = "if b = 0 \<and> pending_reward i = 0 then del a (REWARD_INFO l)
      else put a (i\<lparr>boost_weight := ?new, active_boost := boost\<rparr>) (REWARD_INFO l)"
  let ?tw = "total_weight (BOOST_DISTRIBUTION_STATUS l)"
  note wf = lpool_inv_stores [OF inv]
  have q: "query_boost_amount D (boost_contract cfg) a = Inr boost" and le: "weight_of l a \<le> ?tw"
    and l': "l' = ?l1\<lparr>BOOST_DISTRIBUTION_STATUS := (BOOST_DISTRIBUTION_STATUS l)\<lparr>total_weight := ?tw - weight_of l a + ?new\<rparr>,
      REWARD_INFO := ?R\<rparr>"
    using run
    by (auto simp: update_and_save_boost_weight_and_reward_info_def Let_def info map_err_Ok_iff u128_mul_Ok_iff
        usub_Ok_iff uadd_Ok_iff elim!: andThen_OkE split: if_splits)
  have g: "get ?R k = (if k = a then if b = 0 \<and> pending_reward i = 0 then None
        else Some (i\<lparr>boost_weight := ?new, active_boost := boost\<rparr>) else get (REWARD_INFO l) k)" for k
    by (simp add: get_del get_put [OF wf(2)])
  have R: "REWARD_INFO l' = ?R" by (simp add: l')
  have old: "(case get (REWARD_INFO l) a of None \<Rightarrow> 0 | Some i \<Rightarrow> boost_weight i) = weight_of l a"
    by (simp add: weight_of_def split: option.splits)
  have "weight_total l' + weight_of l a = weight_total l + ?new"
    using st.sum_save [OF wf(2), of "\<lambda>k i. boost_weight i" a "i\<lparr>boost_weight := ?new, active_boost := boost\<rparr>"]
      st.sum_remove [OF wf(2), of "\<lambda>k i. boost_weight i" a]
    by (auto simp: weight_total_def R old)
  then have "total_weight (BOOST_DISTRIBUTION_STATUS l') = weight_total l'"
    using le inv by (simp add: l' lpool_inv_def)
  moreover have "entry_ok l' k j" if k: "get (REWARD_INFO l') k = Some j" for k j
  proof (cases "k = a")
    case True
    with k g [of a] have "j = i\<lparr>boost_weight := ?new, active_boost := boost\<rparr>" by (simp add: R split: if_splits)
    then show ?thesis using True B(3) by (simp add: entry_ok_def l' info)
  next
    case False
    then have "entry_ok l k j" using k g [of k] inv by (simp add: R lpool_inv_def)
    then show ?thesis using B(2) [OF False] by (simp add: entry_ok_def l' amount_of_def)
  qed
  moreover have "get (REWARD_INFO l') k \<noteq> None" if "amount_of (BOND_AMOUNTS l') k \<noteq> 0" for k
  proof (cases "k = a")
    case False
    then have "amount_of (BOND_AMOUNTS l) k \<noteq> 0" using that B(2) [OF False] by (simp add: l' amount_of_def)
    then show ?thesis using False inv unfolding R g by (simp add: lpool_inv_def)
  qed (use that B(3) in \<open>simp add: R l' get_put [OF wf(2)]\<close>)
  moreover have "wf_store (REWARD_INFO l')" by (simp add: R wf_del wf_put wf(2))
  ultimately have "lpool_inv l'"
    unfolding lpool_inv_def using inv B(1,4) by (simp add: lpool_inv_def) (simp add: l' bond_total_def)
  moreover have "weight_of l' a = ?new" unfolding weight_of_def R g by simp
  ultimately show ?thesis using q g by (auto simp: R) (simp_all add: l')
qed

lemma lpool_bond_Ok:
  assumes run: "bond S D env l a n = Inr (l', r)" and inv: "lpool_inv l"
  shows "lpool_inv l' \<and> CONFIG l' = CONFIG l \<and> amount_of (BOND_AMOUNTS l') a = amount_of (BOND_AMOUNTS l) a + n
    \<and> bond_total l' = bond_total l + n
    \<and> (\<forall>k. k \<noteq> a \<longrightarrow> amount_of (BOND_AMOUNTS l') k = amount_of (BOND_AMOUNTS l) k)
    \<and> SCHEDULED_VEST l' = SCHEDULED_VEST l \<and> PENDING_WITHDRAW l' = PENDING_WITHDRAW l
    \<and> r = add_messages [WasmExecute (yluna_token (CONFIG l)) (Cw20Send (yluna_staking (CONFIG l)) n StakingBond)]"
proof -
  from run obtain l1 i boost where up: "update_reward_indexes S env l (CONFIG l) = Inr l1"
    and i: "pull_pending_rewards S l1 a = Inr i"
    and save: "update_and_save_boost_weight_and_reward_info S D
        (l1\<lparr>BOND_AMOUNTS := put a (amount_of (BOND_AMOUNTS l1) a + n) (BOND_AMOUNTS l1),
            BASE_DISTRIBUTION_STATUS := (BASE_DISTRIBUTION_STATUS l1)\<lparr>total_weight := total_weight (BASE_DISTRIBUTION_STATUS l1) + n\<rparr>\<rparr>)
        (CONFIG l) a (amount_of (BOND_AMOUNTS l1) a + n) i = Inr (l', boost)"
    and r: "r = add_messages [WasmExecute (yluna_token (CONFIG l)) (Cw20Send (yluna_staking (CONFIG l)) n StakingBond)]"
    by (auto simp: bond_def Let_def map_err_Ok_iff uadd_Ok_iff elim!: andThen_OkE split: if_splits)
  note u = update_reward_indexes_inv [OF up inv refl refl]
  let ?B = "put a (amount_of (BOND_AMOUNTS l1) a + n) (BOND_AMOUNTS l1)"
  have wf: "wf_store (BOND_AMOUNTS l1)" by (rule lpool_inv_stores [OF u(1)])
  have old: "(case get (BOND_AMOUNTS l1) a of None \<Rightarrow> 0 | Some v \<Rightarrow> v) = amount_of (BOND_AMOUNTS l1) a"
    by (simp add: amount_of_def split: option.splits)
  have sum: "(\<Sum>(k, m)\<leftarrow>?B. m) = bond_total l1 + n"
    using st.sum_save [OF wf, of "\<lambda>k n. n" a "amount_of (BOND_AMOUNTS l1) a + n"] by (simp add: bond_total_def old)
  have g: "get ?B k = (if k = a then Some (amount_of (BOND_AMOUNTS l1) a + n) else get (BOND_AMOUNTS l1) k)" for k
    by (simp add: get_put [OF wf])
  have w: "total_weight (BASE_DISTRIBUTION_STATUS l1) = bond_total l1" using u(1) by (simp add: lpool_inv_def)
  have h1: "\<And>k. k \<noteq> a \<Longrightarrow> get ?B k = get (BOND_AMOUNTS l1) k" using g by simp
  have h2: "amount_of ?B a = amount_of (BOND_AMOUNTS l1) a + n" by (simp add: amount_of_put [OF wf])
  have "lpool_inv l' \<and> CONFIG l' = CONFIG l1 \<and> BOND_AMOUNTS l' = ?B \<and> SCHEDULED_VEST l' = SCHEDULED_VEST l1
      \<and> PENDING_WITHDRAW l' = PENDING_WITHDRAW l1"
    using save_entry_inv [OF u(1) pull_pending_rewards_Ok(1-3) [OF i] wf_put [OF wf] h1 h2 sum [symmetric] save [unfolded w]]
    by blast
  moreover have "amount_of ?B k = (if k = a then amount_of (BOND_AMOUNTS l) a + n else amount_of (BOND_AMOUNTS l) k)" for k
    by (simp add: amount_of_put [OF wf]) (simp add: u(3))
  moreover have "bond_total l = bond_total l1" by (simp add: bond_total_def u)
  ultimately show ?thesis using u r sum by (simp add: bond_total_def)
qed

lemma lpool_unbond_Ok:
  assumes run: "unbond S D env l info amount = Inr (l', r)" and inv: "lpool_inv l"
  obtains n where "n = (case amount of Some a \<Rightarrow> a | None \<Rightarrow> amount_of (BOND_AMOUNTS l) (sender info))"
    and "lpool_inv l'" and "CONFIG l' = CONFIG l"
    and "amount_of (BOND_AMOUNTS l') (sender info) + n = amount_of (BOND_AMOUNTS l) (sender info)"
    and "bond_total l' + n = bond_total l"
    and "\<And>k. k \<noteq> sender info \<Longrightarrow> amount_of (BOND_AMOUNTS l') k = amount_of (BOND_AMOUNTS l) k"
    and "SCHEDULED_VEST l' = SCHEDULED_VEST l" and "PENDING_WITHDRAW l' = PENDING_WITHDRAW l"
    and "r = add_messages [WasmExecute (yluna_staking (CONFIG l)) (StakingUnbond (Some n)),
         WasmExecute (yluna_token (CONFIG l)) (Cw20Transfer (sender info) n)]"
proof -
  let ?a = "sender info"
  from run obtain l1 i cur n boost where up: "update_reward_indexes S env l (CONFIG l) = Inr l1"
    and i: "pull_pending_rewards S l1 ?a = Inr i" and cur: "get (BOND_AMOUNTS l1) ?a = Some cur"
    and n: "n = (case amount of Some a \<Rightarrow> a | None \<Rightarrow> cur)" "n \<le> cur"
    and save: "update_and_save_boost_weight_and_reward_info S D
        (l1\<lparr>BASE_DISTRIBUTION_STATUS := (BASE_DISTRIBUTION_STATUS l1)\<lparr>total_weight := total_weight (BASE_DISTRIBUTION_STATUS l1) - n\<rparr>,
            BOND_AMOUNTS := (if cur - n = 0 then del ?a (BOND_AMOUNTS l1) else put ?a (cur - n) (BOND_AMOUNTS l1))\<rparr>)
        (CONFIG l) ?a (cur - n) i = Inr (l', boost)"
    and r: "r = add_messages [WasmExecute (yluna_staking (CONFIG l)) (StakingUnbond (Some n)),
         WasmExecute (yluna_token (CONFIG l)) (Cw20Transfer ?a n)]"
    by (auto simp: unbond_def Let_def map_err_Ok_iff or_err_Ok_iff usub_Ok_iff elim!: andThen_OkE split: option.splits if_splits)
  note u = update_reward_indexes_inv [OF up inv refl refl]
  let ?B = "if cur - n = 0 then del ?a (BOND_AMOUNTS l1) else put ?a (cur - n) (BOND_AMOUNTS l1)"
  have wf: "wf_store (BOND_AMOUNTS l1)" by (rule lpool_inv_stores [OF u(1)])
  have wfB: "wf_store ?B" by (simp add: wf_del wf_put wf)
  have sum: "(\<Sum>(k, m)\<leftarrow>?B. m) + n = bond_total l1"
    using st.sum_save [OF wf, of "\<lambda>k n. n" ?a "cur - n"] st.sum_remove [OF wf, of "\<lambda>k n. n" ?a] cur n(2)
    by (auto simp: bond_total_def)
  have g: "get ?B k = (if k = ?a then if cur - n = 0 then None else Some (cur - n) else get (BOND_AMOUNTS l1) k)" for k
    by (simp add: get_put [OF wf] get_del)
  have am: "amount_of ?B k = (if k = ?a then cur - n else amount_of (BOND_AMOUNTS l) k)" for k
    by (simp add: amount_of_put [OF wf] amount_of_del) (simp add: u(3))
  have w: "total_weight (BASE_DISTRIBUTION_STATUS l1) - n = (\<Sum>(k, m)\<leftarrow>?B. m)"
    using u(1) sum by (simp add: lpool_inv_def)
  have h1: "\<And>k. k \<noteq> ?a \<Longrightarrow> get ?B k = get (BOND_AMOUNTS l1) k" using g by simp
  have h2: "amount_of ?B ?a = cur - n" using am [of ?a] by simp
  have swap: "l1\<lparr>BASE_DISTRIBUTION_STATUS := x, BOND_AMOUNTS := y\<rparr> = l1\<lparr>BOND_AMOUNTS := y, BASE_DISTRIBUTION_STATUS := x\<rparr>" for x y
    by simp
  have e: "lpool_inv l'" "CONFIG l' = CONFIG l1" "BOND_AMOUNTS l' = ?B" "SCHEDULED_VEST l' = SCHEDULED_VEST l1"
      "PENDING_WITHDRAW l' = PENDING_WITHDRAW l1"
    using save_entry_inv [OF u(1) pull_pending_rewards_Ok(1-3) [OF i] wfB h1 h2 w save [unfolded swap]] by blast+
  have c: "cur = amount_of (BOND_AMOUNTS l) ?a" using cur by (simp add: amount_of_def u(3) [symmetric])
  show thesis
  proof (rule that [OF n(1) [unfolded c] e(1)])
    show "CONFIG l' = CONFIG l" "SCHEDULED_VEST l' = SCHEDULED_VEST l" "PENDING_WITHDRAW l' = PENDING_WITHDRAW l"
      using e u by simp_all
    show "amount_of (BOND_AMOUNTS l') ?a + n = amount_of (BOND_AMOUNTS l) ?a" unfolding e(3) h2 using n(2) c by simp
    show "bond_total l' + n = bond_total l" unfolding bond_total_def [of l'] e(3) sum by (simp add: bond_total_def u)
    show "\<And>k. k \<noteq> ?a \<Longrightarrow> amount_of (BOND_AMOUNTS l') k = amount_of (BOND_AMOUNTS l) k" unfolding e(3) am by simp
  qed (rule r)
qed

lemma refresh_boost_Ok:
  assumes run: "refresh_boost S D env l a = Inr (l', cur, boost)" and inv: "lpool_inv l"
  shows "lpool_inv l' \<and> CONFIG l' = CONFIG l \<and> BOND_AMOUNTS l' = BOND_AMOUNTS l
    \<and> query_boost_amount D (boost_contract (CONFIG l)) a = Inr boost
    \<and> weight_of l' a = u128_integer_sqrt S (amount_of (BOND_AMOUNTS l) a * boost)
    \<and> SCHEDULED_VEST l' = SCHEDULED_VEST l \<and> PENDING_WITHDRAW l' = PENDING_WITHDRAW l"
proof -
  from run obtain l1 i where up: "update_reward_indexes S env l (CONFIG l) = Inr l1"
    and i: "pull_pending_rewards S l1 a = Inr i"
    and save: "update_and_save_boost_weight_and_reward_info S D l1 (CONFIG l) a (amount_of (BOND_AMOUNTS l1) a) i = Inr (l', boost)"
    by (auto simp: refresh_boost_def Let_def map_err_Ok_iff elim!: andThen_OkE)
  note u = update_reward_indexes_inv [OF up inv refl refl]
  have w: "total_weight (BASE_DISTRIBUTION_STATUS l1) = (\<Sum>(k, n)\<leftarrow>BOND_AMOUNTS l1. n)"
    using u(1) by (simp add: lpool_inv_def bond_total_def)
  have same: "l1\<lparr>BOND_AMOUNTS := BOND_AMOUNTS l1, BASE_DISTRIBUTION_STATUS :=
      (BASE_DISTRIBUTION_STATUS l1)\<lparr>total_weight := total_weight (BASE_DISTRIBUTION_STATUS l1)\<rparr>\<rparr> = l1" by simp
  from save_entry_inv [OF u(1) pull_pending_rewards_Ok(1-3) [OF i] lpool_inv_stores(1) [OF u(1)] refl refl w, unfolded same, OF save]
  show ?thesis using u by simp
qed

text \<open>Vesting.\<close>

lemma foldM_uadd_Ok:
  assumes "foldM (\<lambda>(_, u) c. uadd S c u) xs n = (Inr m :: ('e, nat) result)"
  shows "m = n + (\<Sum>(k, u)\<leftarrow>xs. u)"
  using assms
proof (induction xs arbitrary: n)
  case (Cons x xs)
  then have "foldM (\<lambda>(_, u) c. uadd S c u) xs (n + snd x) = (Inr m :: ('e, nat) result)"
    by (auto simp: uadd_Ok_iff case_prod_unfold elim!: andThen_OkE)
  from Cons.IH [OF this] show ?case by (simp add: case_prod_unfold)
qed simp

lemma due_vests_entries:
  assumes wf: "wf_store (SCHEDULED_VEST l)" and k: "(k, n) \<in> set (due_vests l now a)"
  shows "k \<le> now" and "get (SCHEDULED_VEST l) (a, k) = Some n"
proof -
  show "k \<le> now" using k set_takeWhileD by (fastforce simp: due_vests_def)
  have "(k, n) \<in> set (sub_range a (SCHEDULED_VEST l))"
    using k by (auto simp: due_vests_def dest!: set_takeWhileD in_set_takeD)
  then show "get (SCHEDULED_VEST l) (a, k) = Some n" by (simp add: set_sub_range [OF wf])
qed

lemma update_vest_Ok:
  assumes run: "update_vest S l now a = Inr l'" and inv: "lpool_inv l"
  obtains due where "due = (\<Sum>(k, n)\<leftarrow>due_vests l now a. n)" and "lpool_inv l'" and "CONFIG l' = CONFIG l"
    and "BOND_AMOUNTS l' = BOND_AMOUNTS l" and "REWARD_INFO l' = REWARD_INFO l"
    and "BASE_DISTRIBUTION_STATUS l' = BASE_DISTRIBUTION_STATUS l" and "BOOST_DISTRIBUTION_STATUS l' = BOOST_DISTRIBUTION_STATUS l"
    and "\<And>k. amount_of (PENDING_WITHDRAW l') k = amount_of (PENDING_WITHDRAW l) k + (if k = a then due else 0)"
    and "\<And>k. vesting l' k + (if k = a then due else 0) = vesting l k"
    and "\<And>b t. get (SCHEDULED_VEST l') (b, t) =
      (if b = a \<and> t \<in> fst ` set (due_vests l now a) then None else get (SCHEDULED_VEST l) (b, t))"
proof -
  let ?d = "due_vests l now a"
  let ?ks = "map (\<lambda>(k, n). (a, k)) ?d"
  define due where "due = (\<Sum>(k, n)\<leftarrow>?d. n)"
  note wf = lpool_inv_stores [OF inv]
  let ?n = "amount_of (PENDING_WITHDRAW l) a + due"
  have fold: "fold (\<lambda>t. del (a, t)) (map fst xs) v = fold del (map (\<lambda>(k, n). (a, k)) xs) v"
    for xs :: "(nat, nat) store" and v :: "(addr \<times> nat, nat) store" by (induction xs arbitrary: v) auto
  from run have l': "l' = l\<lparr>SCHEDULED_VEST := fold del ?ks (SCHEDULED_VEST l),
      PENDING_WITHDRAW := (if ?n = 0 then del a (PENDING_WITHDRAW l) else put a ?n (PENDING_WITHDRAW l))\<rparr>"
    by (auto simp: update_vest_def Let_def due_def fold dest!: foldM_uadd_Ok elim!: andThen_OkE split: if_splits)
  have "distinct (map fst (sub_range a (SCHEDULED_VEST l)))" by (rule st.distinct_keys [OF wf_sub_range [OF wf(3)]])
  moreover obtain m where "?d = take m (sub_range a (SCHEDULED_VEST l))"
    unfolding due_vests_def by (metis takeWhile_eq_take take_take)
  ultimately have "distinct (map fst ?d)" by (simp add: take_map [symmetric])
  then have dist: "distinct ?ks" by (simp add: distinct_map inj_on_def case_prod_unfold)
  have val: "\<forall>k\<in>set ?ks. get (SCHEDULED_VEST l) k = Some (the (get (SCHEDULED_VEST l) k))"
    using due_vests_entries(2) [OF wf(3)] by fastforce
  have "(\<Sum>k\<leftarrow>?ks. the (get (SCHEDULED_VEST l) k)) = due"
    unfolding due_def by (simp add: o_def case_prod_unfold, intro arg_cong [of _ _ sum_list] map_cong)
      (use due_vests_entries(2) [OF wf(3)] in fastforce)+
  then have "(\<Sum>k\<leftarrow>?ks. if fst k = b then the (get (SCHEDULED_VEST l) k) else 0) = (if b = a then due else 0)" for b
    by (cases "b = a") (simp_all add: o_def case_prod_unfold)
  with sum_dels [OF wf(3) dist val, of "\<lambda>k n. if fst k = b then n else 0" for b]
  have v: "vesting l' b + (if b = a then due else 0) = vesting l b" for b by (simp add: vesting_def l')
  have "amount_of (PENDING_WITHDRAW l') k = amount_of (PENDING_WITHDRAW l) k + (if k = a then due else 0)" for k
    by (simp add: l' amount_of_put [OF wf(4)] amount_of_del)
  moreover have "get (SCHEDULED_VEST l') (b, t) = (if b = a \<and> t \<in> fst ` set ?d then None else get (SCHEDULED_VEST l) (b, t))" for b t
    by (auto simp: l' get_dels image_iff)
  moreover have "lpool_inv l'"
    using inv by (simp add: lpool_inv_def l' wf_dels wf_del wf_put bond_total_def weight_total_def entry_ok_def)
  ultimately show thesis using v by (intro that [of due]) (simp_all add: due_def, simp_all add: l')
qed

lemma vest_end_time_Ok:
  assumes "vest_end_time now period = (Inr t :: ('e, nat) result)"
  shows "t \<le> now + period" and "now + period < t + TIME_UNIT" and "t mod TIME_UNIT = 0"
proof -
  have t: "t = now + period - (now + period) mod TIME_UNIT" using assms by (auto simp: vest_end_time_def result_simps)
  have "(now + period) mod TIME_UNIT < TIME_UNIT" by (simp add: TIME_UNIT_def)
  then show "t \<le> now + period" and "now + period < t + TIME_UNIT" unfolding t by linarith+
  show "t mod TIME_UNIT = 0" unfolding t by (simp add: minus_mod_eq_mult_div)
qed

lemma withdraw_single_Ok:
  assumes run: "withdraw_rewards_single S env cfg a l = Inr l'" and inv: "lpool_inv l"
  obtains i where "pull_pending_rewards S l a = Inr i" and "lpool_inv l'" and "CONFIG l' = CONFIG l"
    and "BOND_AMOUNTS l' = BOND_AMOUNTS l"
    and "\<And>k. vesting l' k + amount_of (PENDING_WITHDRAW l') k = vesting l k + amount_of (PENDING_WITHDRAW l) k
      + (if k = a then pending_reward i else 0)"
    and "pending_reward i = 0 \<or> (\<exists>t n. vest_end_time (now_seconds S env) (vesting_period cfg) = (Inr t :: (contract_error, nat) result)
      \<and> get (SCHEDULED_VEST l') (a, t) = Some n \<and> pending_reward i \<le> n)"
    and "\<And>j. get (REWARD_INFO l') a = Some j \<Longrightarrow> pending_reward j = 0"
proof -
  let ?R = "\<lambda>i. if amount_of (BOND_AMOUNTS l) a = 0 then del a (REWARD_INFO l)
      else put a (i\<lparr>pending_reward := 0\<rparr>) (REWARD_INFO l)"
  have R: "(case get (BOND_AMOUNTS l) a of None \<Rightarrow> l\<lparr>REWARD_INFO := del a (REWARD_INFO l)\<rparr>
      | Some b \<Rightarrow> if b = 0 then l\<lparr>REWARD_INFO := del a (REWARD_INFO l)\<rparr>
          else l\<lparr>REWARD_INFO := put a (i\<lparr>pending_reward := 0\<rparr>) (REWARD_INFO l)\<rparr>) = l\<lparr>REWARD_INFO := ?R i\<rparr>" for i
    by (simp add: amount_of_def split: option.splits)
  from run obtain i l2 where i: "pull_pending_rewards S l a = Inr i"
    and vest: "update_vest S (l\<lparr>REWARD_INFO := ?R i\<rparr>) (now_seconds S env) a = Inr l2"
    and rest: "(if pending_reward i = 0 then Ok l2 else andThen (vest_end_time (now_seconds S env) (vesting_period cfg)) (\<lambda>t.
        andThen (uadd S (amount_of (SCHEDULED_VEST l2) (a, t)) (pending_reward i)) (\<lambda>n.
        Ok (l2\<lparr>SCHEDULED_VEST := put (a, t) n (SCHEDULED_VEST l2)\<rparr>)))) = (Inr l' :: (contract_error, lpool) result)"
    unfolding withdraw_rewards_single_def Let_def R by (auto simp: map_err_Ok_iff elim!: andThen_OkE)
  note pull = pull_pending_rewards_Ok [OF i] and wf = lpool_inv_stores [OF inv]
  let ?l1 = "l\<lparr>REWARD_INFO := ?R i\<rparr>"
  have g: "get (?R i) k = (if k = a then if amount_of (BOND_AMOUNTS l) a = 0 then None else Some (i\<lparr>pending_reward := 0\<rparr>)
      else get (REWARD_INFO l) k)" for k by (simp add: get_del get_put [OF wf(2)])
  have old: "(case get (REWARD_INFO l) a of None \<Rightarrow> 0 | Some i \<Rightarrow> boost_weight i) = weight_of l a"
    by (simp add: weight_of_def split: option.splits)
  have "weight_of l a = 0" if "amount_of (BOND_AMOUNTS l) a = 0"
    using inv that by (auto simp: weight_of_def lpool_inv_def entry_ok_def split: option.splits)
  then have "weight_total ?l1 = weight_total l"
    using st.sum_save [OF wf(2), of "\<lambda>k i. boost_weight i" a "i\<lparr>pending_reward := 0\<rparr>"]
      st.sum_remove [OF wf(2), of "\<lambda>k i. boost_weight i" a] pull(1) old
    by (auto simp: weight_total_def)
  moreover have "entry_ok ?l1 k j" if "get (?R i) k = Some j" for k j
    using that inv pull(2,3) unfolding g by (auto simp: lpool_inv_def entry_ok_def split: if_splits)
  moreover have "get (?R i) k \<noteq> None" if "amount_of (BOND_AMOUNTS l) k \<noteq> 0" for k
    using that inv unfolding g by (auto simp: lpool_inv_def)
  ultimately have inv1: "lpool_inv ?l1" using inv by (simp add: lpool_inv_def bond_total_def wf_put wf_del)
  show thesis
  proof (rule update_vest_Ok [OF vest inv1])
    fix due
    assume inv2: "lpool_inv l2" and same: "CONFIG l2 = CONFIG ?l1" "BOND_AMOUNTS l2 = BOND_AMOUNTS ?l1" "REWARD_INFO l2 = REWARD_INFO ?l1"
      and pw: "\<And>k. amount_of (PENDING_WITHDRAW l2) k = amount_of (PENDING_WITHDRAW ?l1) k + (if k = a then due else 0)"
      and v: "\<And>k. vesting l2 k + (if k = a then due else 0) = vesting ?l1 k"
    have vl: "vesting ?l1 = vesting l" by (simp add: fun_eq_iff vesting_def)
    have zero: "\<And>j. get (REWARD_INFO l2) a = Some j \<Longrightarrow> pending_reward j = 0" using g [of a] by (auto simp: same split: if_splits)
    show thesis
    proof (cases "pending_reward i = 0")
      case True
      then have l': "l' = l2" using rest by simp
      have sum: "vesting l' k + amount_of (PENDING_WITHDRAW l') k = vesting l k + amount_of (PENDING_WITHDRAW l) k
          + (if k = a then pending_reward i else 0)" for k
        using pw [of k] v [of k] True by (simp add: vl l')
      show thesis by (rule that [OF i _ _ _ sum]) (use inv2 same zero True in \<open>simp_all add: l'\<close>)
    next
      case False
      then obtain t where t: "vest_end_time (now_seconds S env) (vesting_period cfg) = (Inr t :: (contract_error, nat) result)"
        and l': "l' = l2\<lparr>SCHEDULED_VEST := put (a, t) (amount_of (SCHEDULED_VEST l2) (a, t) + pending_reward i) (SCHEDULED_VEST l2)\<rparr>"
        using rest by (auto simp: uadd_Ok_iff elim!: andThen_OkE)
      have wf3: "wf_store (SCHEDULED_VEST l2)" by (rule lpool_inv_stores(3) [OF inv2])
      have cur: "(case get (SCHEDULED_VEST l2) (a, t) of None \<Rightarrow> 0 | Some v \<Rightarrow> if fst (a, t) = k then v else 0)
          = (if a = k then amount_of (SCHEDULED_VEST l2) (a, t) else 0)" for k
        by (simp add: amount_of_def split: option.splits)
      have "vesting l' k = vesting l2 k + (if k = a then pending_reward i else 0)" for k
        using st.sum_save [OF wf3, of "\<lambda>j n. if fst j = k then n else 0" "(a, t)"
            "amount_of (SCHEDULED_VEST l2) (a, t) + pending_reward i", unfolded cur]
        by (auto simp: vesting_def l' split: if_splits)
      then have sum: "vesting l' k + amount_of (PENDING_WITHDRAW l') k = vesting l k + amount_of (PENDING_WITHDRAW l) k
          + (if k = a then pending_reward i else 0)" for k
        using pw [of k] v [of k] by (simp add: vl) (simp add: l')
      have "lpool_inv l'"
        using inv2 by (simp add: lpool_inv_def l' wf_put bond_total_def weight_total_def entry_ok_def)
      then show thesis
        by (rule that [OF i _ _ _ sum])
          (use same t zero in \<open>simp_all add: l' get_put [OF wf3]\<close>)
    qed
  qed
qed

lemma withdraw_fold_Ok:
  assumes "foldM (withdraw_rewards_single S env cfg) as l = Inr l'" and "lpool_inv l"
  shows "lpool_inv l' \<and> CONFIG l' = CONFIG l \<and> BOND_AMOUNTS l' = BOND_AMOUNTS l"
  using assms(1)
proof (rule foldM_invariant)
  fix a z z'
  assume z: "lpool_inv z \<and> CONFIG z = CONFIG l \<and> BOND_AMOUNTS z = BOND_AMOUNTS l"
    and step: "withdraw_rewards_single S env cfg a z = Inr z'"
  show "lpool_inv z' \<and> CONFIG z' = CONFIG l \<and> BOND_AMOUNTS z' = BOND_AMOUNTS l"
    by (rule withdraw_single_Ok [OF step]) (use z in simp_all)
qed (use assms(2) in simp)

text \<open>Administration, claims and the dispatch.\<close>

lemma change_ratio_Ok:
  assumes run: "change_ratio S env l cfg ratio = Inr (l', cfg')" and inv: "lpool_inv l"
    and cfg: "distribution_schedule cfg = distribution_schedule (CONFIG l)" "base_pool_ratio cfg = base_pool_ratio (CONFIG l)"
  shows "lpool_inv (l'\<lparr>CONFIG := cfg'\<rparr>) \<and> SCHEDULED_VEST l' = SCHEDULED_VEST l \<and> PENDING_WITHDRAW l' = PENDING_WITHDRAW l
    \<and> BOND_AMOUNTS l' = BOND_AMOUNTS l"
proof -
  obtain start end_at amount where sched: "distribution_schedule cfg = (start, end_at, amount)" by (cases "distribution_schedule cfg")
  from run obtain l1 where le: "ratio \<le> DEC_ONE" and up: "update_reward_indexes S env l cfg = Inr l1"
    and rest: "(if start < now_seconds S env \<and> now_seconds S env < end_at then
          andThen (uadd S (total_distributed (BASE_DISTRIBUTION_STATUS l1)) (total_distributed (BOOST_DISTRIBUTION_STATUS l1))) (\<lambda>distributed.
          andThen (uchecked_sub S OverflowError amount distributed) (\<lambda>remaining.
          Ok (l1\<lparr>BASE_DISTRIBUTION_STATUS := (BASE_DISTRIBUTION_STATUS l1)\<lparr>total_distributed := 0\<rparr>,
                BOOST_DISTRIBUTION_STATUS := (BOOST_DISTRIBUTION_STATUS l1)\<lparr>total_distributed := 0\<rparr>\<rparr>,
              cfg\<lparr>distribution_schedule := (now_seconds S env, end_at, remaining), base_pool_ratio := ratio\<rparr>)))
        else Ok (l1, cfg\<lparr>base_pool_ratio := ratio\<rparr>)) = Inr (l', cfg')"
    by (auto simp: change_ratio_def sched Let_def map_err_Ok_iff elim!: andThen_OkE split: if_splits)
  note u = update_reward_indexes_inv [OF up inv cfg]
  have i1: "lpool_inv l1" by (rule u(1))
  have amount: "amount = schedule_amount (CONFIG l1)" using sched cfg(1) u(2) by simp
  show ?thesis
  proof (cases "start < now_seconds S env \<and> now_seconds S env < end_at")
    case True
    with rest obtain n where l': "l' = l1\<lparr>BASE_DISTRIBUTION_STATUS := (BASE_DISTRIBUTION_STATUS l1)\<lparr>total_distributed := 0\<rparr>,
          BOOST_DISTRIBUTION_STATUS := (BOOST_DISTRIBUTION_STATUS l1)\<lparr>total_distributed := 0\<rparr>\<rparr>"
      and c': "cfg' = cfg\<lparr>distribution_schedule := (now_seconds S env, end_at, n), base_pool_ratio := ratio\<rparr>"
      by (auto elim!: andThen_OkE)
    show ?thesis using i1 le u by (simp add: l' c' lpool_inv_def bond_total_def weight_total_def entry_ok_def)
  next
    case False
    with rest have "l' = l1" "cfg' = cfg\<lparr>base_pool_ratio := ratio\<rparr>" by auto
    then show ?thesis using i1 le u amount sched
      by (simp add: lpool_inv_def bond_total_def weight_total_def entry_ok_def)
  qed
qed

lemma lpool_update_config_Ok:
  assumes run: "update_config S env l info m ratio = Inr (l', r)" and inv: "lpool_inv l"
  shows "lpool_inv l' \<and> r = [] \<and> sender info = owner (CONFIG l)"
proof -
  let ?c = "case m of None \<Rightarrow> CONFIG l | Some n \<Rightarrow> (CONFIG l)\<lparr>min_bond_amount := n\<rparr>"
  have c: "distribution_schedule ?c = distribution_schedule (CONFIG l)" "base_pool_ratio ?c = base_pool_ratio (CONFIG l)"
    by (simp_all split: option.splits)
  from run obtain l1 c1 where own: "sender info = owner (CONFIG l)" and r: "r = []"
    and step: "(case ratio of None \<Rightarrow> Ok (l, ?c) | Some x \<Rightarrow> change_ratio S env l ?c x) = Inr (l1, c1)"
    and l': "l' = l1\<lparr>CONFIG := c1\<rparr>"
    by (auto simp: update_config_def Let_def elim!: andThen_OkE split: if_splits)
  have "lpool_inv l'"
  proof (cases ratio)
    case None
    then have "l' = l\<lparr>CONFIG := ?c\<rparr>" using step l' by simp
    then show ?thesis using inv c by (simp add: lpool_inv_def bond_total_def weight_total_def entry_ok_def)
  next
    case (Some x)
    then show ?thesis using step change_ratio_Ok [OF _ inv c, of env x l1 c1] by (simp add: l')
  qed
  then show ?thesis using own r by simp
qed

lemma claim_withdrawn_Ok:
  assumes run: "claim_withdrawn_rewards S D env l info claim = Inr (l', r)" and inv: "lpool_inv l"
  obtains amount where "amount = amount_of (PENDING_WITHDRAW l) (sender info)
      + (\<Sum>(k, n)\<leftarrow>due_vests l (now_seconds S env) (sender info). n)" and "amount \<noteq> 0" and "lpool_inv l'"
    and "amount_of (PENDING_WITHDRAW l') (sender info) = 0"
    and "\<And>k. vesting l' k + amount_of (PENDING_WITHDRAW l') k + (if k = sender info then amount else 0)
      = vesting l k + amount_of (PENDING_WITHDRAW l) k"
    and "\<And>t. get (SCHEDULED_VEST l') (sender info, t) =
      (if t \<in> fst ` set (due_vests l (now_seconds S env) (sender info)) then None else get (SCHEDULED_VEST l) (sender info, t))"
    and "CONFIG l' = CONFIG l" and "BOND_AMOUNTS l' = BOND_AMOUNTS l"
    and "claim = Prism \<Longrightarrow> r = add_messages [WasmExecute (prism_token (CONFIG l)) (Cw20Transfer (sender info) amount)]"
    and "claim = Xprism \<Longrightarrow> r = add_messages [WasmExecute (prism_token (CONFIG l))
      (Cw20Send (gov_addr (CONFIG l)) amount (GovMintXprism (Some (sender info))))]"
    and "claim = Amps \<Longrightarrow> \<exists>b. query_token_balance D (xprism_token (CONFIG l)) (contract_address env)
          = (Ok b :: (std_error, nat) result)
      \<and> r = add_messages [WasmExecute (prism_token (CONFIG l))
        (Cw20Send (gov_addr (CONFIG l)) amount (GovMintXprism (Some (contract_address env)))),
      WasmExecute (contract_address env) (LaunchPoolBondWithBoostContractHook (sender info) b)]"
proof -
  let ?a = "sender info"
  from run obtain l1 where vest: "update_vest S l (now_seconds S env) ?a = Inr l1"
    and nz: "amount_of (PENDING_WITHDRAW l1) ?a \<noteq> 0"
    and l': "l' = l1\<lparr>PENDING_WITHDRAW := del ?a (PENDING_WITHDRAW l1)\<rparr>"
    by (auto simp: claim_withdrawn_rewards_def Let_def map_err_Ok_iff elim!: andThen_OkE split: if_splits)
  let ?n = "amount_of (PENDING_WITHDRAW l1) ?a"
  have p: "claim = Prism \<Longrightarrow> r = add_messages [WasmExecute (prism_token (CONFIG l)) (Cw20Transfer ?a ?n)]"
    and x: "claim = Xprism \<Longrightarrow> r = add_messages [WasmExecute (prism_token (CONFIG l))
      (Cw20Send (gov_addr (CONFIG l)) ?n (GovMintXprism (Some ?a)))]"
    and am: "claim = Amps \<Longrightarrow> \<exists>b. query_token_balance D (xprism_token (CONFIG l)) (contract_address env)
          = (Ok b :: (std_error, nat) result)
      \<and> r = add_messages [WasmExecute (prism_token (CONFIG l))
        (Cw20Send (gov_addr (CONFIG l)) ?n (GovMintXprism (Some (contract_address env)))),
      WasmExecute (contract_address env) (LaunchPoolBondWithBoostContractHook ?a b)]"
    using run nz
    by (auto simp: claim_withdrawn_rewards_def Let_def vest asset_transfer_law map_err_Ok_iff elim!: andThen_OkE)
  show thesis
  proof (rule update_vest_Ok [OF vest inv])
    fix due
    assume due: "due = (\<Sum>(k, n)\<leftarrow>due_vests l (now_seconds S env) ?a. n)" and inv1: "lpool_inv l1"
      and same: "CONFIG l1 = CONFIG l" "BOND_AMOUNTS l1 = BOND_AMOUNTS l"
      and pw: "\<And>k. amount_of (PENDING_WITHDRAW l1) k = amount_of (PENDING_WITHDRAW l) k + (if k = ?a then due else 0)"
      and v: "\<And>k. vesting l1 k + (if k = ?a then due else 0) = vesting l k"
      and g: "\<And>b t. get (SCHEDULED_VEST l1) (b, t) =
        (if b = ?a \<and> t \<in> fst ` set (due_vests l (now_seconds S env) ?a) then None else get (SCHEDULED_VEST l) (b, t))"
    have amount: "amount_of (PENDING_WITHDRAW l1) ?a = amount_of (PENDING_WITHDRAW l) ?a
      + (\<Sum>(k, n)\<leftarrow>due_vests l (now_seconds S env) ?a. n)" using pw [of ?a] due by simp
    have "lpool_inv l'"
      using inv1 by (simp add: lpool_inv_def l' wf_del bond_total_def weight_total_def entry_ok_def)
    moreover have "vesting l' = vesting l1" by (simp add: fun_eq_iff vesting_def l')
    then have "vesting l' k + amount_of (PENDING_WITHDRAW l') k + (if k = ?a then amount_of (PENDING_WITHDRAW l1) ?a else 0)
        = vesting l k + amount_of (PENDING_WITHDRAW l) k" for k
      using pw [of k] v [of k] by (auto simp: l' amount_of_del split: if_splits)
    moreover have "get (SCHEDULED_VEST l') (?a, t) = (if t \<in> fst ` set (due_vests l (now_seconds S env) ?a) then None
        else get (SCHEDULED_VEST l) (?a, t))" for t using g by (simp add: l')
    moreover have "amount_of (PENDING_WITHDRAW l') ?a = 0" "CONFIG l' = CONFIG l" "BOND_AMOUNTS l' = BOND_AMOUNTS l"
      by (simp_all add: l' amount_of_del same)
    ultimately show thesis by (intro that [OF amount nz]) (use p x am in simp_all)
  qed
qed

lemma lpool_receive_Ok:
  assumes "receive_cw20 S D fb env l info c = Inr (l', r)"
  obtains a where "bond S D env l a (cw20_amount c) = Inr (l', r)" and "sender info = yluna_token (CONFIG l)"
    and "addr_validate D (cw20_sender c) = Inr a"
  using assms by (auto simp: receive_cw20_def map_err_Ok_iff elim!: andThen_OkE split: cw20_hook_msg.splits if_splits)

lemma lpool_hooks_Ok:
  "bond_with_boost_contract_hook S D l info env a n = Inr (l', r) \<Longrightarrow> l' = l"
  "admin_withdraw_rewards D env l info = Inr (l', r) \<Longrightarrow> l' = l"
  "admin_send_withdrawn_rewards S D env l info bs = Inr (l', r) \<Longrightarrow> l' = l"
  by (auto simp: bond_with_boost_contract_hook_def admin_withdraw_rewards_def admin_send_withdrawn_rewards_def Let_def
      elim!: andThen_OkE split: if_splits)

lemma withdraw_rewards_inv:
  assumes run: "withdraw_rewards S env l info = Inr (l', r)" and inv: "lpool_inv l"
  shows "lpool_inv l'"
proof -
  from run obtain l1 where up: "update_reward_indexes S env l (CONFIG l) = Inr l1"
    and s: "withdraw_rewards_single S env (CONFIG l) (sender info) l1 = Inr l'"
    by (auto simp: withdraw_rewards_def Let_def map_err_Ok_iff elim!: andThen_OkE)
  show ?thesis by (rule withdraw_single_Ok [OF s update_reward_indexes_inv(1) [OF up inv refl refl]])
qed

lemma withdraw_rewards_bulk_inv:
  assumes run: "withdraw_rewards_bulk S D env l info lim start = Inr (l', r)" and inv: "lpool_inv l"
  shows "lpool_inv l'"
proof -
  from run obtain l1 as where up: "update_reward_indexes S env l (CONFIG l) = Inr l1"
    and s: "foldM (withdraw_rewards_single S env (CONFIG l)) as l1 = Inr l'"
    by (auto simp: withdraw_rewards_bulk_def Let_def map_err_Ok_iff elim!: andThen_OkE split: if_splits)
  show ?thesis using withdraw_fold_Ok [OF s update_reward_indexes_inv(1) [OF up inv refl refl]] by simp
qed

lemma lpool_execute_inv:
  assumes run: "execute S D fb env l info m = Inr (l', r)" and inv: "lpool_inv l"
  shows "lpool_inv l'"
proof (cases m)
  case (Receive c)
  then have c: "receive_cw20 S D fb env l info c = Inr (l', r)" using run by simp
  show ?thesis by (rule lpool_receive_Ok [OF c]) (use lpool_bond_Ok [OF _ inv] in blast)
next
  case (Unbond a)
  then have u: "unbond S D env l info a = Inr (l', r)" using run by simp
  show ?thesis by (rule lpool_unbond_Ok [OF u inv])
next
  case (ClaimWithdrawnRewards c)
  then have c: "claim_withdrawn_rewards S D env l info c = Inr (l', r)" using run by simp
  show ?thesis by (rule claim_withdrawn_Ok [OF c inv])
qed (use run inv in \<open>auto simp: activate_boost_def privileged_refresh_boost_def elim!: andThen_OkE split: if_splits
    dest: lpool_hooks_Ok refresh_boost_Ok withdraw_rewards_inv withdraw_rewards_bulk_inv lpool_update_config_Ok\<close>)

end

lemma instantiate_lpool_inv: "instantiate_lpool D msg = Inr (l, r) \<Longrightarrow> lpool_inv l"
  by (auto simp: instantiate_lpool_def lpool_inv_def bond_total_def weight_total_def default_status_def amount_of_def
      elim!: andThen_OkE split: if_splits)

end
