(* ===== verification/Launch_Properties.thy ===== *)
theory Launch_Properties
  imports Launch_Accounting
begin

text \<open>
  The properties of the launch pool: its weights and indices over every reachable state, the bound on
  what is distributed, rewards on their way through vesting to the claim, and a change of the pool
  ratio that locks the contract.
\<close>


section \<open>Support\<close>

subsection \<open>Failures\<close>

context cosmwasm_std
begin

text \<open>The index arithmetic fails only by a panic.\<close>

lemma update_reward_index_no_err:
  assumes "update_reward_index S env s sched ratio = Inl e"
  shows "e = Panic"
proof -
  obtain start end_at amount where sched: "sched = (start, end_at, amount)" by (cases sched)
  show ?thesis using assms
    by (auto simp: update_reward_index_def sched Let_def andThen_Inl_iff uadd_def usub_def umul_dec_def umul_ratio_def
        from_ratio_def dec_add_def u64_sub_def or_panic_Inl_iff split: if_splits)
qed

lemma update_reward_indexes_no_err:
  assumes "update_reward_indexes S env l cfg = Inl e"
  shows "e = Panic"
  using assms
  by (auto simp: update_reward_indexes_def andThen_Inl_iff dec_sub_def or_panic_Inl_iff
      dest!: update_reward_index_no_err)

end

subsection \<open>A pool whose ended schedule gives it less than it has distributed\<close>

definition overdrawn :: "nat \<Rightarrow> lpool \<Rightarrow> bool" where
  "overdrawn t l \<longleftrightarrow> (case distribution_schedule (CONFIG l) of (start, end_at, amount) \<Rightarrow> start < end_at \<and> end_at \<le> t
     \<and> (amount * base_pool_ratio (CONFIG l) div DEC_ONE < total_distributed (BASE_DISTRIBUTION_STATUS l)
       \<or> amount * (DEC_ONE - base_pool_ratio (CONFIG l)) div DEC_ONE < total_distributed (BOOST_DISTRIBUTION_STATUS l)))"

lemma distributed_by_end:
  assumes "start < end_at" and "end_at \<le> now"
  shows "distributed_by (start, end_at, amount) ratio now = amount * ratio div DEC_ONE"
  using assms by (simp add: distributed_by_def min_absorb2)

context cosmwasm_std
begin

lemma overdrawn_panics:
  assumes "overdrawn t l" and t: "t \<le> now_seconds S env"
    and cfg: "distribution_schedule cfg = distribution_schedule (CONFIG l)" "base_pool_ratio cfg = base_pool_ratio (CONFIG l)"
  shows "update_reward_indexes S env l cfg = Inl Panic"
proof (cases "update_reward_indexes S env l cfg")
  case (Inl e)
  then show ?thesis using update_reward_indexes_no_err by blast
next
  case (Inr l')
  obtain start end_at amount where sched: "distribution_schedule (CONFIG l) = (start, end_at, amount)"
    by (cases "distribution_schedule (CONFIG l)")
  have se: "start < end_at" "end_at \<le> now_seconds S env" using assms(1) t by (auto simp: overdrawn_def sched)
  then have late: "\<not> now_seconds S env < fst (distribution_schedule cfg)" by (simp add: cfg sched)
  from update_reward_indexes_Ok [OF Inr] obtain base boost where
    b: "update_reward_index S env (BASE_DISTRIBUTION_STATUS l) (distribution_schedule cfg) (base_pool_ratio cfg) = Inr base"
    and c: "update_reward_index S env (BOOST_DISTRIBUTION_STATUS l) (distribution_schedule cfg)
      (DEC_ONE - base_pool_ratio cfg) = Inr boost" by blast
  from update_reward_index_run [OF b late refl] update_reward_index_run [OF c late refl] assms(1)
  have False by (simp add: overdrawn_def cfg sched distributed_by_end [OF se])
  then show ?thesis ..
qed

text \<open>Then everything that needs the indices panics, and the rest leaves bonds and indices as they are.\<close>

lemma overdrawn_unbond:
  assumes "overdrawn t l" and "t \<le> now_seconds S env"
  shows "unbond S D env l info a = Inl Panic" and "withdraw_rewards S env l info = Inl Panic"
  using overdrawn_panics [OF assms refl refl] by (simp_all add: unbond_def withdraw_rewards_def Let_def)

lemma overdrawn_execute:
  assumes o: "overdrawn t l" and t: "t \<le> now_seconds S env" and run: "execute S D fb env l info m = Inr (l', r)"
  shows "overdrawn t l' \<and> BOND_AMOUNTS l' = BOND_AMOUNTS l \<and> boost_contract (CONFIG l') = boost_contract (CONFIG l)"
proof (cases m)
  case (ClaimWithdrawnRewards c)
  then obtain l1 where "update_vest S l (now_seconds S env) (sender info) = Inr l1"
    and l': "l' = l1\<lparr>PENDING_WITHDRAW := del (sender info) (PENDING_WITHDRAW l1)\<rparr>"
    using run by (auto simp: claim_withdrawn_rewards_def Let_def map_err_Ok_iff elim!: andThen_OkE split: if_splits)
  then show ?thesis using o by (auto simp: overdrawn_def update_vest_def Let_def elim!: andThen_OkE split: if_splits)
next
  case (UpdateConfig n ratio)
  let ?c = "case n of None \<Rightarrow> CONFIG l | Some n \<Rightarrow> (CONFIG l)\<lparr>min_bond_amount := n\<rparr>"
  have c: "distribution_schedule ?c = distribution_schedule (CONFIG l)" "base_pool_ratio ?c = base_pool_ratio (CONFIG l)"
    "boost_contract ?c = boost_contract (CONFIG l)" by (simp_all split: option.splits)
  have "ratio = None"
    using run overdrawn_panics [OF o t c(1,2)] UpdateConfig
    by (cases ratio) (auto simp: update_config_def change_ratio_def Let_def elim!: andThen_OkE split: if_splits)
  then have "l' = l\<lparr>CONFIG := ?c\<rparr>" using run UpdateConfig by (auto simp: update_config_def Let_def split: if_splits)
  then show ?thesis using o c by (simp add: overdrawn_def)
qed (use run o overdrawn_panics [OF o t refl refl] in \<open>auto simp: receive_cw20_def bond_def unbond_def activate_boost_def
    privileged_refresh_boost_def refresh_boost_def withdraw_rewards_def withdraw_rewards_bulk_def Let_def
    elim!: andThen_OkE split: if_splits cw20_hook_msg.splits dest: lpool_hooks_Ok\<close>)

lemma change_ratio_overdraws:
  assumes run: "update_config S env l info n (Some ratio) = Inr (l', r)"
    and sched: "distribution_schedule (CONFIG l) = (start, end_at, amount)" "start < end_at" "end_at \<le> now_seconds S env"
    and share: "amount * ratio div DEC_ONE < amount * base_pool_ratio (CONFIG l) div DEC_ONE
      \<or> amount * (DEC_ONE - ratio) div DEC_ONE < amount * (DEC_ONE - base_pool_ratio (CONFIG l)) div DEC_ONE"
  shows "overdrawn (now_seconds S env) l' \<and> BOND_AMOUNTS l' = BOND_AMOUNTS l
    \<and> boost_contract (CONFIG l') = boost_contract (CONFIG l)"
proof -
  let ?c = "case n of None \<Rightarrow> CONFIG l | Some n \<Rightarrow> (CONFIG l)\<lparr>min_bond_amount := n\<rparr>"
  have c: "distribution_schedule ?c = (start, end_at, amount)" "base_pool_ratio ?c = base_pool_ratio (CONFIG l)"
    "boost_contract ?c = boost_contract (CONFIG l)" by (simp_all add: sched(1) split: option.splits)
  have nt: "\<not> (start < now_seconds S env \<and> now_seconds S env < end_at)" using sched by simp
  from run obtain l1 c1 where "change_ratio S env l ?c ratio = Inr (l1, c1)" and l': "l' = l1\<lparr>CONFIG := c1\<rparr>"
    by (auto simp: update_config_def Let_def elim!: andThen_OkE split: if_splits)
  then have up: "update_reward_indexes S env l ?c = Inr l1" and c1: "c1 = ?c\<lparr>base_pool_ratio := ratio\<rparr>"
    unfolding change_ratio_def c(1) Let_def using nt by (auto simp: map_err_Ok_iff elim!: andThen_OkE split: if_splits)
  from update_reward_indexes_Ok [OF up] obtain base boost where
    l1: "l1 = l\<lparr>BASE_DISTRIBUTION_STATUS := base, BOOST_DISTRIBUTION_STATUS := boost\<rparr>"
    and b: "update_reward_index S env (BASE_DISTRIBUTION_STATUS l) (distribution_schedule ?c) (base_pool_ratio ?c) = Inr base"
    and d: "update_reward_index S env (BOOST_DISTRIBUTION_STATUS l) (distribution_schedule ?c)
      (DEC_ONE - base_pool_ratio ?c) = Inr boost" by blast
  have "total_distributed base = amount * base_pool_ratio (CONFIG l) div DEC_ONE"
    "total_distributed boost = amount * (DEC_ONE - base_pool_ratio (CONFIG l)) div DEC_ONE"
    using update_reward_index_Ok(5) [OF b] update_reward_index_Ok(5) [OF d] sched(2,3)
    by (simp_all add: c distributed_by_end)
  then show ?thesis using share sched(2,3) by (simp add: overdrawn_def l' c1 c l1)
qed

text \<open>The vesting query adds up every entry that is due.\<close>

lemma query_vesting_status_Ok:
  assumes "query_vesting_status S env l a = Inr (vs, n)"
  shows "vs = sub_range a (SCHEDULED_VEST l)
    \<and> n = amount_of (PENDING_WITHDRAW l) a
        + (\<Sum>(k, u)\<leftarrow>filter (\<lambda>(k, _). \<not> now_seconds S env < k) (sub_range a (SCHEDULED_VEST l)). u)"
proof -
  let ?f = "\<lambda>(end_time, unlocked) (scheduled_vests, can_withdraw).
         if now_seconds S env < end_time then Ok (scheduled_vests @ [(end_time, unlocked)], can_withdraw)
         else andThen (uadd S can_withdraw unlocked) (\<lambda>n. Ok (scheduled_vests @ [(end_time, unlocked)], n))"
  have "vs = acc @ xs \<and> n = m + (\<Sum>(k, u)\<leftarrow>filter (\<lambda>(k, _). \<not> now_seconds S env < k) xs. u)"
    if "foldM ?f xs (acc, m) = (Inr (vs, n) :: (std_error, _) result)" for xs acc m
    using that
  proof (induction xs arbitrary: acc m)
    case (Cons x xs)
    obtain k u where x: "x = (k, u)" by (cases x)
    show ?case
    proof (cases "now_seconds S env < k")
      case True
      then have "foldM ?f xs (acc @ [(k, u)], m) = (Inr (vs, n) :: (std_error, _) result)" using Cons.prems by (simp add: x)
      from Cons.IH [OF this] show ?thesis by (simp add: x True)
    next
      case False
      then have "foldM ?f xs (acc @ [(k, u)], m + u) = (Inr (vs, n) :: (std_error, _) result)"
        using Cons.prems by (auto simp: x uadd_Ok_iff elim!: andThen_OkE)
      from Cons.IH [OF this] show ?thesis by (simp add: x False)
    qed
  qed simp
  from this [OF assms [unfolded query_vesting_status_def]] show ?thesis by simp
qed

end

lemma takeWhile_sorted_store:
  fixes s :: "(nat, 'v) store"
  assumes "wf_store s"
  shows "takeWhile (\<lambda>(k, _). \<not> t < k) s = filter (\<lambda>(k, _). \<not> t < k) s"
  using assms
proof (induction s)
  case (Cons e s)
  then have less: "\<forall>f\<in>set s. fst e < fst f" and "wf_store s" by (auto simp: wf_store_def)
  moreover have "filter (\<lambda>a. \<not> t < fst a) s = []" if "t < fst e" using less that by (fastforce simp: filter_empty_conv)
  ultimately show ?case using Cons.IH by (simp add: case_prod_unfold)
qed simp

lemma due_vests_all:
  assumes "wf_store (SCHEDULED_VEST l)" and "length (sub_range a (SCHEDULED_VEST l)) \<le> MAX_UPDATE_VEST_PER_TX"
  shows "due_vests l t a = filter (\<lambda>(k, _). \<not> t < k) (sub_range a (SCHEDULED_VEST l))"
  using assms by (simp add: due_vests_def takeWhile_sorted_store wf_sub_range)


lemma due_vests_iff:
  assumes wf: "wf_store (SCHEDULED_VEST l)"
  shows "t \<in> fst ` set (due_vests l now a) \<longleftrightarrow> get (SCHEDULED_VEST l) (a, t) \<noteq> None \<and> t \<le> now
    \<and> card {j. j < t \<and> get (SCHEDULED_VEST l) (a, j) \<noteq> None} < MAX_UPDATE_VEST_PER_TX"
proof -
  let ?s = "sub_range a (SCHEDULED_VEST l)" and ?n = MAX_UPDATE_VEST_PER_TX
  have keys: "j \<in> set (map fst ?s) \<longleftrightarrow> get (SCHEDULED_VEST l) (a, j) \<noteq> None" for j
    using set_sub_range [OF wf, of j _ a] by (force simp: image_iff)
  have sorted: "sorted_wrt (<) (map fst ?s)" using wf_sub_range [OF wf, of a] by (simp add: wf_store_def)
  then have "wf_store (take ?n ?s)" by (simp add: wf_store_def take_map [symmetric] sorted_wrt_take)
  then have "t \<in> fst ` set (due_vests l now a) \<longleftrightarrow> t \<in> set (take ?n (map fst ?s)) \<and> t \<le> now"
    by (force simp: due_vests_def takeWhile_sorted_store take_map image_iff)
  also have "t \<in> set (take ?n (map fst ?s)) \<longleftrightarrow> t \<in> set (map fst ?s) \<and> card {j \<in> set (map fst ?s). j < t} < ?n"
    using sorted by (rule set_take_sorted)
  also have "{j \<in> set (map fst ?s). j < t} = {j. j < t \<and> get (SCHEDULED_VEST l) (a, j) \<noteq> None}"
    by (auto simp only: keys)
  finally show ?thesis by (simp only: keys) blast
qed


section \<open>A concrete pool\<close>

text \<open>
  The schedule gives 1000 PRISM between the seconds 100 and 200, six tenths to the base pool. Alice has bonded
  60 yLUNA with boost weight 30, Bob 40 without boost; 12 PRISM of Alice vest at the end of the first day.
\<close>

definition lpool_example :: lpool where
  "lpool_example = \<lparr>
     CONFIG = \<lparr>owner = ''owner'', operator = ''operator'', prism_token = ''prism'', xprism_token = ''xprism'',
       gov_addr = ''gov'', yluna_staking = ''staking'', yluna_token = ''yluna'', vesting_period = 86400,
       boost_contract = ''boost'', distribution_schedule = (100, 200, 1000), base_pool_ratio = 6 * 10 ^ 17,
       min_bond_amount = 5\<rparr>,
     BASE_DISTRIBUTION_STATUS = \<lparr>total_distributed = 60, total_weight = 100, dist_pending = 0, reward_index = 6 * 10 ^ 17\<rparr>,
     BOOST_DISTRIBUTION_STATUS = \<lparr>total_distributed = 40, total_weight = 30, dist_pending = 10, reward_index = 10 ^ 18\<rparr>,
     BOND_AMOUNTS = [(''alice'', 60), (''bob'', 40)],
     REWARD_INFO = [(''alice'', \<lparr>base_index = 0, boost_index = 10 ^ 18, active_boost = 15, boost_weight = 30, pending_reward = 0\<rparr>),
       (''bob'', \<lparr>base_index = 6 * 10 ^ 17, boost_index = 0, active_boost = 0, boost_weight = 0, pending_reward = 24\<rparr>)],
     SCHEDULED_VEST = [((''alice'', 86400), 12)],
     PENDING_WITHDRAW = [(''alice'', 3)]\<rparr>"

definition lpool_chain :: deps where
  "lpool_chain = empty_deps\<lparr>q_boost_amount := (\<lambda>_ a. Inr (if a = ''alice'' then 15 else 0))\<rparr>"

lemma lpool_example_inv: "lpool_inv lpool_example"
proof -
  have "entry_ok lpool_example a i" if "get (REWARD_INFO lpool_example) a = Some i" for a i
    using that by (auto simp: lpool_example_def get_def entry_ok_def amount_of_def split: if_splits)
  moreover have "get (REWARD_INFO lpool_example) a \<noteq> None" if "amount_of (BOND_AMOUNTS lpool_example) a \<noteq> 0" for a
    using that by (auto simp: lpool_example_def get_def amount_of_def split: if_splits)
  ultimately show ?thesis
    unfolding lpool_inv_def
    by (simp add: lpool_example_def bond_total_def weight_total_def wf_store_def DEC_ONE_def)
qed

lemmas lpool_eval = lpool_example_def lpool_chain_def get_def amount_of_def Let_def cw_eval int_sqrt.simps
  update_reward_indexes_def update_reward_index_def pull_pending_rewards_def query_boost_amount_def
  update_and_save_boost_weight_and_reward_info_def update_vest_def due_vests_def vest_end_time_def
  withdraw_rewards_single_def sub_range_def MAX_UPDATE_VEST_PER_TX_def TIME_UNIT_def


section \<open>Books\<close>

inductive lpool_reach :: "cosmwasm \<Rightarrow> lpool \<Rightarrow> bool" for S where
  instantiated: "instantiate_lpool D msg = Ok (l, r) \<Longrightarrow> lpool_reach S l"
| executed: "lpool_reach S l \<Longrightarrow> execute S D fb env l info m = Ok (l', r) \<Longrightarrow> lpool_reach S l'"

text \<open>
  C10: the books of the launch pool are right in every reachable state: the weight of the base pool is the sum
  of the bonds, the weight of the boost pool the sum of the accounts' boost weights, no account's index is ahead
  of its pool's, an account without a bond has no boost weight, and the two pools together have
  distributed at most the amount of the schedule. In such a state the reward of an account can always be
  computed: the only possible failure is an overflow of the 128-bit amounts.
\<close>

theorem lpool_reachable_inv:
  assumes "cosmwasm_std S" and "lpool_reach S l"
  shows "lpool_inv l \<and> (\<forall>a e. pull_pending_rewards S l a = Inl e \<longrightarrow> e = Panic)"
proof -
  have "lpool_inv l"
    using assms(2)
  proof induction
    case (instantiated D msg l r)
    then show ?case by (rule instantiate_lpool_inv)
  next
    case (executed l D fb env info m l' r)
    then show ?case using cosmwasm_std.lpool_execute_inv [OF assms(1)] by blast
  qed
  then show ?thesis using cosmwasm_std.pull_pending_rewards_no_err [OF assms(1)] by blast
qed

definition lpool_msg_example :: instantiate_msg where
  "lpool_msg_example = \<lparr>im_owner = ''owner'', im_operator = ''operator'', im_prism_token = ''prism'',
     im_xprism_token = ''xprism'', im_yluna_staking = ''staking'', im_yluna_token = ''yluna'', im_gov = ''gov'',
     im_vesting_period = 86400, im_boost_contract = ''boost'', im_distribution_schedule = (100, 200, 1000),
     im_base_pool_ratio = 6 * 10 ^ 17, im_min_bond_amount = 5\<rparr>"

theorem lpool_reachable_inv_witness:
  "\<exists>l0 r0 l1 r1. instantiate_lpool lpool_chain lpool_msg_example = Ok (l0, r0)
    \<and> execute cosmwasm_0_16 lpool_chain (\<lambda>_. Inr Bond) (env_at 150) l0 (from_user ''yluna'')
        (Receive \<lparr>cw20_sender = ''alice'', cw20_amount = 60, cw20_msg = []\<rparr>) = Ok (l1, r1)
    \<and> total_weight (BOOST_DISTRIBUTION_STATUS l1) = 30 \<and> lpool_inv l1"
proof -
  obtain l0 r0 l1 r1 where run0: "instantiate_lpool lpool_chain lpool_msg_example = Ok (l0, r0)"
    and run1: "execute cosmwasm_0_16 lpool_chain (\<lambda>_. Inr Bond) (env_at 150) l0 (from_user ''yluna'')
        (Receive \<lparr>cw20_sender = ''alice'', cw20_amount = 60, cw20_msg = []\<rparr>) = Ok (l1, r1)"
    and w: "total_weight (BOOST_DISTRIBUTION_STATUS l1) = 30"
    by (simp add: instantiate_lpool_def lpool_msg_example_def default_status_def receive_cw20_def bond_def lpool_eval)
  have "lpool_reach cosmwasm_0_16 l1" by (rule lpool_reach.executed [OF lpool_reach.instantiated [OF run0] run1])
  from lpool_reachable_inv [OF cosmwasm_0_16 this] run0 run1 w show ?thesis by blast
qed

text \<open>
  The distribution never exceeds the schedule. An update of the indices brings each pool, once the schedule
  has started, to exactly its ratio of the linear release; the two pools together stay within the amount
  of the schedule; and what the rise of an index gives to the whole weight of its pool, plus
  what stays pending, is covered by what was pending and what is newly distributed.
\<close>

lemma lpool_distribution_bound:
  assumes std: "cosmwasm_std S" and inv: "lpool_inv l" and run: "update_reward_indexes S env l (CONFIG l) = Ok l'"
  shows "total_distributed (BASE_DISTRIBUTION_STATUS l') + total_distributed (BOOST_DISTRIBUTION_STATUS l')
        \<le> snd (snd (distribution_schedule (CONFIG l)))
    \<and> (fst (distribution_schedule (CONFIG l)) \<le> now_seconds S env \<longrightarrow>
        total_distributed (BASE_DISTRIBUTION_STATUS l')
          = distributed_by (distribution_schedule (CONFIG l)) (base_pool_ratio (CONFIG l)) (now_seconds S env)
        \<and> total_distributed (BOOST_DISTRIBUTION_STATUS l')
          = distributed_by (distribution_schedule (CONFIG l)) (DEC_ONE - base_pool_ratio (CONFIG l)) (now_seconds S env))
    \<and> (\<forall>pool \<in> {BASE_DISTRIBUTION_STATUS, BOOST_DISTRIBUTION_STATUS}.
        (reward_index (pool l') - reward_index (pool l)) * total_weight (pool l) + dist_pending (pool l') * DEC_ONE
          \<le> (dist_pending (pool l) + (total_distributed (pool l') - total_distributed (pool l))) * DEC_ONE)"
proof -
  from cosmwasm_std.update_reward_indexes_Ok [OF std run] obtain base boost where
    l': "l' = l\<lparr>BASE_DISTRIBUTION_STATUS := base, BOOST_DISTRIBUTION_STATUS := boost\<rparr>"
    and b: "update_reward_index S env (BASE_DISTRIBUTION_STATUS l) (distribution_schedule (CONFIG l))
      (base_pool_ratio (CONFIG l)) = Inr base"
    and c: "update_reward_index S env (BOOST_DISTRIBUTION_STATUS l) (distribution_schedule (CONFIG l))
      (DEC_ONE - base_pool_ratio (CONFIG l)) = Inr boost" by blast
  have "lpool_inv l'" by (rule cosmwasm_std.update_reward_indexes_inv(1) [OF std run inv refl refl])
  then show ?thesis
    using cosmwasm_std.update_reward_index_Ok(5,6) [OF std b] cosmwasm_std.update_reward_index_Ok(5,6) [OF std c]
    by (simp add: lpool_inv_def l')
qed

lemma lpool_distribution_bound_witness:
  "\<exists>l'. update_reward_indexes cosmwasm_0_16 (env_at 150) lpool_example (CONFIG lpool_example) = Ok l'
    \<and> total_distributed (BASE_DISTRIBUTION_STATUS l') = 300 \<and> total_distributed (BOOST_DISTRIBUTION_STATUS l') = 200"
proof -
  obtain l' where run: "update_reward_indexes cosmwasm_0_16 (env_at 150) lpool_example (CONFIG lpool_example) = Ok l'"
    by (simp add: lpool_eval)
  have n: "now_seconds cosmwasm_0_16 (env_at 150) = 150" by (simp add: cw_eval)
  from lpool_distribution_bound [OF cosmwasm_0_16 lpool_example_inv run] run show ?thesis
    unfolding n by (auto simp: lpool_example_def distributed_by_def DEC_ONE_def)
qed


section \<open>From reward to claim\<close>

text \<open>
  Withdrawing moves exactly the reward of the caller into vesting. With the indices brought up to
  date, what the account has vesting and ready to claim grows by its pending reward and by nothing else, no other
  account's vesting changes, and the pending reward is zero afterwards. A reward that is not zero is entered at the
  last full day of UTC that is not after the end of the vesting period; no message is sent and no
  bond changes.
\<close>

lemma lpool_withdraw_vests:
  assumes std: "cosmwasm_std S" and inv: "lpool_inv l" and run: "withdraw_rewards S env l info = Ok (l', r)"
  shows "r = [] \<and> lpool_inv l' \<and> BOND_AMOUNTS l' = BOND_AMOUNTS l
    \<and> (\<exists>l1 i. update_reward_indexes S env l (CONFIG l) = Ok l1 \<and> pull_pending_rewards S l1 (sender info) = Ok i
      \<and> (\<forall>k. vesting l' k + amount_of (PENDING_WITHDRAW l') k = vesting l k + amount_of (PENDING_WITHDRAW l) k
          + (if k = sender info then pending_reward i else 0))
      \<and> (\<forall>j. get (REWARD_INFO l') (sender info) = Some j \<longrightarrow> pending_reward j = 0)
      \<and> (pending_reward i \<noteq> 0 \<longrightarrow> (\<exists>t n. get (SCHEDULED_VEST l') (sender info, t) = Some n \<and> pending_reward i \<le> n
          \<and> t mod TIME_UNIT = 0 \<and> t \<le> now_seconds S env + vesting_period (CONFIG l)
          \<and> now_seconds S env + vesting_period (CONFIG l) < t + TIME_UNIT)))"
proof -
  let ?a = "sender info" and ?now = "now_seconds S env"
  from run obtain l1 where up: "update_reward_indexes S env l (CONFIG l) = Inr l1" and r: "r = []"
    and s: "withdraw_rewards_single S env (CONFIG l) ?a l1 = Inr l'"
    by (auto simp: withdraw_rewards_def Let_def map_err_Ok_iff elim!: andThen_OkE)
  note u = cosmwasm_std.update_reward_indexes_inv [OF std up inv refl refl]
  have v: "vesting l1 = vesting l" by (simp add: fun_eq_iff vesting_def u)
  show ?thesis
  proof (rule cosmwasm_std.withdraw_single_Ok [OF std s u(1)])
    fix i
    assume i: "pull_pending_rewards S l1 ?a = Inr i" and inv': "lpool_inv l'" and b: "BOND_AMOUNTS l' = BOND_AMOUNTS l1"
      and sum: "\<And>k. vesting l' k + amount_of (PENDING_WITHDRAW l') k = vesting l1 k + amount_of (PENDING_WITHDRAW l1) k
        + (if k = ?a then pending_reward i else 0)"
      and t: "pending_reward i = 0 \<or> (\<exists>t n. vest_end_time ?now (vesting_period (CONFIG l)) = (Inr t :: (contract_error, nat) result)
        \<and> get (SCHEDULED_VEST l') (?a, t) = Some n \<and> pending_reward i \<le> n)"
      and z: "\<And>j. get (REWARD_INFO l') ?a = Some j \<Longrightarrow> pending_reward j = 0"
    note e = cosmwasm_std.vest_end_time_Ok [OF std, where ?'e = contract_error]
    from t have "pending_reward i \<noteq> 0 \<longrightarrow> (\<exists>t n. get (SCHEDULED_VEST l') (?a, t) = Some n \<and> pending_reward i \<le> n
          \<and> t mod TIME_UNIT = 0 \<and> t \<le> ?now + vesting_period (CONFIG l) \<and> ?now + vesting_period (CONFIG l) < t + TIME_UNIT)"
      by (auto dest: e)
    then show ?thesis using up i r inv' b sum z by (simp add: u v)
  qed
qed

lemma lpool_withdraw_vests_witness:
  "\<exists>l' r. withdraw_rewards cosmwasm_0_16 (env_at 150) lpool_example (from_user ''alice'') = Ok (l', r)
    \<and> vesting l' ''alice'' + amount_of (PENDING_WITHDRAW l') ''alice'' = 15 + 349
    \<and> get (SCHEDULED_VEST l') (''alice'', 86400) = Some 361"
proof -
  obtain l' r where run: "withdraw_rewards cosmwasm_0_16 (env_at 150) lpool_example (from_user ''alice'') = Ok (l', r)"
    and g: "get (SCHEDULED_VEST l') (''alice'', 86400) = Some 361"
    by (simp add: withdraw_rewards_def lpool_eval)
  have own: "vesting lpool_example ''alice'' + amount_of (PENDING_WITHDRAW lpool_example) ''alice'' = 15"
    by (simp add: vesting_def lpool_example_def amount_of_def get_def)
  have s: "sender (from_user ''alice'') = ''alice''" by (simp add: from_user_def)
  from lpool_withdraw_vests [OF cosmwasm_0_16 lpool_example_inv run, unfolded s] obtain l1 i where
    up: "update_reward_indexes cosmwasm_0_16 (env_at 150) lpool_example (CONFIG lpool_example) = Ok l1"
    and i: "pull_pending_rewards cosmwasm_0_16 l1 ''alice'' = Ok i"
    and sum: "vesting l' ''alice'' + amount_of (PENDING_WITHDRAW l') ''alice'' = 15 + pending_reward i"
    using own by auto
  have "pending_reward i = 349" using up i by (auto simp: lpool_eval)
  then show ?thesis using run sum g by auto
qed

text \<open>
  C19: a claim pays exactly what is ready, to whom it belongs. The amount is what was set aside for the caller plus the
  caller's vesting entries that are due and among the first fifty by time; it leaves the caller's vesting and nobody
  else's, the entries paid are gone so they cannot be claimed twice, and every other entry stays. The messages are: for
  PRISM a transfer of the amount to the caller; for xPRISM a transfer to governance that mints for the caller;
  for the boost a transfer to governance that mints for the pool and then the hook that bonds, for the caller, what
  the xPRISM balance of the pool has gained since the call. With at most fifty entries the amount is the one the query announces.
\<close>

theorem lpool_claim_exact:
  assumes std: "cosmwasm_std S" and inv: "lpool_inv l" and run: "claim_withdrawn_rewards S D env l info claim = Ok (l', r)"
    and a: "a = sender info" and self: "self = contract_address env" and prism: "prism = prism_token (CONFIG l)"
  shows "\<exists>amount. amount = amount_of (PENDING_WITHDRAW l) a
        + (\<Sum>(k, n)\<leftarrow>due_vests l (now_seconds S env) a. n) \<and> amount \<noteq> 0 \<and> lpool_inv l'
    \<and> (\<forall>t. t \<in> fst ` set (due_vests l (now_seconds S env) a) \<longleftrightarrow> get (SCHEDULED_VEST l) (a, t) \<noteq> None
        \<and> t \<le> now_seconds S env \<and> card {j. j < t \<and> get (SCHEDULED_VEST l) (a, j) \<noteq> None} < 50)
    \<and> (\<forall>k. vesting l' k + amount_of (PENDING_WITHDRAW l') k + (if k = a then amount else 0)
        = vesting l k + amount_of (PENDING_WITHDRAW l) k)
    \<and> amount_of (PENDING_WITHDRAW l') a = 0
    \<and> (\<forall>t. get (SCHEDULED_VEST l') (a, t) =
        (if t \<in> fst ` set (due_vests l (now_seconds S env) a) then None else get (SCHEDULED_VEST l) (a, t)))
    \<and> (case claim of
        Prism \<Rightarrow> r = add_messages [WasmExecute prism (Cw20Transfer a amount)]
      | Xprism \<Rightarrow> r = add_messages [WasmExecute prism (Cw20Send (gov_addr (CONFIG l)) amount (GovMintXprism (Some a)))]
      | Amps \<Rightarrow> \<exists>b. query_token_balance D (xprism_token (CONFIG l)) self = (Ok b :: (std_error, nat) result)
          \<and> r = add_messages [WasmExecute prism (Cw20Send (gov_addr (CONFIG l)) amount (GovMintXprism (Some self))),
              WasmExecute self (LaunchPoolBondWithBoostContractHook a b)])
    \<and> (\<forall>vs n. query_vesting_status S env l a = Ok (vs, n) \<longrightarrow> length vs \<le> MAX_UPDATE_VEST_PER_TX \<longrightarrow> amount = n)"
proof (rule cosmwasm_std.claim_withdrawn_Ok [OF std run inv])
  let ?now = "now_seconds S env"
  fix amount
  assume amount: "amount = amount_of (PENDING_WITHDRAW l) (sender info)
      + (\<Sum>(k, n)\<leftarrow>due_vests l ?now (sender info). n)" "amount \<noteq> 0"
    and inv': "lpool_inv l'" and zero: "amount_of (PENDING_WITHDRAW l') (sender info) = 0"
    and sum: "\<And>k. vesting l' k + amount_of (PENDING_WITHDRAW l') k + (if k = sender info then amount else 0)
      = vesting l k + amount_of (PENDING_WITHDRAW l) k"
    and g: "\<And>t. get (SCHEDULED_VEST l') (sender info, t) =
      (if t \<in> fst ` set (due_vests l ?now (sender info)) then None else get (SCHEDULED_VEST l) (sender info, t))"
    and msgs: "claim = Prism \<Longrightarrow> r = add_messages [WasmExecute (prism_token (CONFIG l)) (Cw20Transfer (sender info) amount)]"
      "claim = Xprism \<Longrightarrow> r = add_messages [WasmExecute (prism_token (CONFIG l))
        (Cw20Send (gov_addr (CONFIG l)) amount (GovMintXprism (Some (sender info))))]"
      "claim = Amps \<Longrightarrow> \<exists>b. query_token_balance D (xprism_token (CONFIG l)) (contract_address env)
          = (Ok b :: (std_error, nat) result)
        \<and> r = add_messages [WasmExecute (prism_token (CONFIG l))
          (Cw20Send (gov_addr (CONFIG l)) amount (GovMintXprism (Some (contract_address env)))),
        WasmExecute (contract_address env) (LaunchPoolBondWithBoostContractHook (sender info) b)]"
  note wf = lpool_inv_stores [OF inv]
  have q: "amount = n" if "query_vesting_status S env l a = Ok (vs, n)" "length vs \<le> MAX_UPDATE_VEST_PER_TX" for vs n
    using cosmwasm_std.query_vesting_status_Ok [OF std that(1)] due_vests_all [OF wf(3)] that(2) amount(1) by (auto simp: a)
  have due: "t \<in> fst ` set (due_vests l ?now a) \<longleftrightarrow> get (SCHEDULED_VEST l) (a, t) \<noteq> None \<and> t \<le> ?now
      \<and> card {j. j < t \<and> get (SCHEDULED_VEST l) (a, j) \<noteq> None} < 50" for t
    using due_vests_iff [OF wf(3)] by (simp add: MAX_UPDATE_VEST_PER_TX_def)
  show ?thesis
  proof (rule exI [of _ amount], intro conjI allI impI)
    show "case claim of
        Prism \<Rightarrow> r = add_messages [WasmExecute prism (Cw20Transfer a amount)]
      | Xprism \<Rightarrow> r = add_messages [WasmExecute prism (Cw20Send (gov_addr (CONFIG l)) amount (GovMintXprism (Some a)))]
      | Amps \<Rightarrow> \<exists>b. query_token_balance D (xprism_token (CONFIG l)) self = (Ok b :: (std_error, nat) result)
          \<and> r = add_messages [WasmExecute prism (Cw20Send (gov_addr (CONFIG l)) amount (GovMintXprism (Some self))),
              WasmExecute self (LaunchPoolBondWithBoostContractHook a b)]"
      using msgs by (cases claim) (simp_all add: a self prism)
  qed (fact amount [folded a] inv' zero [folded a] sum [folded a] g [folded a] due | erule q, assumption)+
qed

theorem lpool_claim_exact_witness:
  "\<exists>l' r. claim_withdrawn_rewards cosmwasm_0_16 lpool_chain (env_at 90000) lpool_example (from_user ''alice'') Xprism = Ok (l', r)
    \<and> r = add_messages [WasmExecute ''prism'' (Cw20Send ''gov'' 15 (GovMintXprism (Some ''alice'')))]
    \<and> vesting l' ''alice'' = 0"
proof -
  obtain l' r where run: "claim_withdrawn_rewards cosmwasm_0_16 lpool_chain (env_at 90000) lpool_example
      (from_user ''alice'') Xprism = Ok (l', r)"
    by (simp add: claim_withdrawn_rewards_def lpool_eval)
  have own: "vesting lpool_example ''alice'' + amount_of (PENDING_WITHDRAW lpool_example) ''alice'' = 15"
    "prism_token (CONFIG lpool_example) = ''prism''" "gov_addr (CONFIG lpool_example) = ''gov''" "sender (from_user ''alice'') = ''alice''"
    "amount_of (PENDING_WITHDRAW lpool_example) ''alice'' + (\<Sum>(k, n)\<leftarrow>due_vests lpool_example
      (now_seconds cosmwasm_0_16 (env_at 90000)) ''alice''. n) = 15"
    by (simp_all add: vesting_def lpool_eval)
  from lpool_claim_exact [OF cosmwasm_0_16 lpool_example_inv run refl refl refl, unfolded own claim_type.case] obtain amount where
    "amount = 15" and r: "r = add_messages [WasmExecute ''prism'' (Cw20Send ''gov'' amount (GovMintXprism (Some ''alice'')))]"
    and zero: "amount_of (PENDING_WITHDRAW l') ''alice'' = 0"
    and sum: "\<And>k. vesting l' k + amount_of (PENDING_WITHDRAW l') k + (if k = ''alice'' then amount else 0)
        = vesting lpool_example k + amount_of (PENDING_WITHDRAW lpool_example) k" by blast
  then show ?thesis using run sum [of "''alice''"] own(1) by auto
qed


section \<open>A change of the ratio after the end of the schedule\<close>

text \<open>Calls to the contract from a time on.\<close>

inductive lpool_calls :: "cosmwasm \<Rightarrow> nat \<Rightarrow> lpool \<Rightarrow> lpool \<Rightarrow> bool" for S t l where
  none: "lpool_calls S t l l"
| call: "lpool_calls S t l l1 \<Longrightarrow> t \<le> now_seconds S env \<Longrightarrow> execute S D fb env l1 info m = Ok (l2, r)
    \<Longrightarrow> lpool_calls S t l l2"

lemma lpool_ratio_change_overdraws:
  assumes std: "cosmwasm_std S" and run: "update_config S env l info n (Some ratio) = Ok (l', r)"
    and sched: "distribution_schedule (CONFIG l) = (start, end_at, amount)" "start < end_at" "end_at \<le> now_seconds S env"
    and share: "amount * ratio div DEC_ONE < amount * base_pool_ratio (CONFIG l) div DEC_ONE
      \<or> amount * (DEC_ONE - ratio) div DEC_ONE < amount * (DEC_ONE - base_pool_ratio (CONFIG l)) div DEC_ONE"
    and calls: "lpool_calls S (now_seconds S env) l' l''"
  shows "overdrawn (now_seconds S env) l'' \<and> BOND_AMOUNTS l'' = BOND_AMOUNTS l
    \<and> boost_contract (CONFIG l'') = boost_contract (CONFIG l)"
  using calls
proof induction
  case none
  then show ?case by (rule cosmwasm_std.change_ratio_overdraws [OF std run sched share])
next
  case (call l1 env1 D fb info m l2 r)
  then show ?case using cosmwasm_std.overdrawn_execute [OF std, of _ l1] by metis
qed

text \<open>
  A change of the ratio after the end of the schedule locks the bonds for ever. The schedule is
  restarted for a new ratio only while it runs; afterwards the ratio alone is replaced. When that makes the share of
  one of the pools smaller, the difference between the share and what was distributed cannot be computed any more:
  whatever is called from then on (a further change of the ratio included), no bond changes, and
  every attempt to unbond or to withdraw rewards panics.
\<close>

lemma lpool_ratio_change_freezes:
  assumes std: "cosmwasm_std S" and run: "update_config S env l info n (Some ratio) = Ok (l', r)"
    and sched: "distribution_schedule (CONFIG l) = (start, end_at, amount)" "start < end_at" "end_at \<le> now_seconds S env"
    and share: "amount * ratio div DEC_ONE < amount * base_pool_ratio (CONFIG l) div DEC_ONE
      \<or> amount * (DEC_ONE - ratio) div DEC_ONE < amount * (DEC_ONE - base_pool_ratio (CONFIG l)) div DEC_ONE"
    and calls: "lpool_calls S (now_seconds S env) l' l''" and later: "now_seconds S env \<le> now_seconds S env'"
  shows "BOND_AMOUNTS l'' = BOND_AMOUNTS l \<and> unbond S D env' l'' info' a = Inl Panic
    \<and> withdraw_rewards S env' l'' info' = Inl Panic"
  using lpool_ratio_change_overdraws [OF std run sched share calls] cosmwasm_std.overdrawn_unbond [OF std _ later] by blast

lemma lpool_ratio_change_freezes_witness:
  "\<exists>l' r. update_config cosmwasm_0_16 (env_at 200) lpool_example (from_user ''owner'') None (Some (5 * 10 ^ 17)) = Ok (l', r)
    \<and> amount_of (BOND_AMOUNTS l') ''alice'' = 60
    \<and> unbond cosmwasm_0_16 lpool_chain (env_at 300) l' (from_user ''alice'') None = Inl Panic"
proof -
  let ?n = "now_seconds cosmwasm_0_16 (env_at 200)"
  obtain l' r where run: "update_config cosmwasm_0_16 (env_at 200) lpool_example (from_user ''owner'') None
      (Some (5 * 10 ^ 17)) = Ok (l', r)" by (simp add: update_config_def change_ratio_def lpool_eval)
  have sched: "distribution_schedule (CONFIG lpool_example) = (100, 200, 1000)" "(100::nat) < 200" "200 \<le> ?n"
    and later: "?n \<le> now_seconds cosmwasm_0_16 (env_at 300)" by (simp_all add: lpool_example_def cw_eval)
  have share: "1000 * (5 * 10 ^ 17) div DEC_ONE < 1000 * base_pool_ratio (CONFIG lpool_example) div DEC_ONE
    \<or> 1000 * (DEC_ONE - 5 * 10 ^ 17) div DEC_ONE < 1000 * (DEC_ONE - base_pool_ratio (CONFIG lpool_example)) div DEC_ONE"
    by (simp add: lpool_example_def DEC_ONE_def)
  have b: "amount_of (BOND_AMOUNTS lpool_example) ''alice'' = 60" by (simp add: lpool_eval)
  from lpool_ratio_change_freezes [OF cosmwasm_0_16 run sched share lpool_calls.none later, of lpool_chain "from_user ''alice''" None]
    run b show ?thesis by simp
qed

text \<open>A schedule that ends when it starts is accepted by \<open>instantiate_lpool\<close>; from then on the indices cannot be updated.\<close>

lemma lpool_empty_schedule_panics:
  assumes std: "cosmwasm_std S" and "distribution_schedule cfg = (start, start, amount)" and "start \<le> now_seconds S env"
  shows "update_reward_indexes S env l cfg = Inl Panic"
proof (cases "update_reward_indexes S env l cfg")
  case (Inl e)
  then show ?thesis using cosmwasm_std.update_reward_indexes_no_err [OF std] by blast
next
  case (Inr l')
  then show ?thesis
    using assms(2,3) by (auto simp: update_reward_indexes_def update_reward_index_def cosmwasm_std.umul_ratio_Ok_iff [OF std] u64_sub_Ok_iff
        elim!: andThen_OkE split: if_splits)
qed

end
