(* ===== verification/Yasset_Staking.thy ===== *)
theory Yasset_Staking
  imports Prismswap
begin

text \<open>
  \<open>contracts/prism-yasset-staking\<close>: staking of yLUNA for the rewards of the delegations. Deposited
  reward assets raise an index per asset; a staker's share is the bond times the rise of the index.
  Models \<open>state.rs\<close>, \<open>staking.rs\<close>, \<open>rewards.rs\<close>, \<open>swaps.rs\<close>, \<open>querier.rs\<close>, \<open>contract.rs\<close> and the
  messages in \<open>packages/prism_protocol/src/yasset_staking.rs\<close>.
\<close>


section \<open>Definitions\<close>

subsection \<open>Data\<close>

record config =
  owner :: addr
  vault_addr :: addr
  gov_addr :: addr
  collector :: addr
  protocol_fee :: decimal
  cluna_token :: addr
  yluna_token :: addr
  pluna_token :: addr
  prism_token :: addr
  xprism_token :: addr

record bond_info =
  bond_amount :: nat

definition default_bond_info :: bond_info where
  "default_bond_info = \<lparr>bond_amount = 0\<rparr>"

record pool_info =
  reward_index :: decimal

definition default_pool_info :: pool_info where
  "default_pool_info = \<lparr>reward_index = 0\<rparr>"

record reward_info =
  index :: decimal
  pending_reward :: nat

definition default_reward_info :: reward_info where
  "default_reward_info = \<lparr>index = 0, pending_reward = 0\<rparr>"

text \<open>Keys: bytes of the asset; (staker, bytes of the asset); staker.\<close>

record yasset =
  CONFIG :: config
  WHITELISTED_ASSETS :: "asset_info list"
  TOTAL_BOND_AMOUNT :: nat
  POOL_INFO :: "(string, pool_info) store"
  REWARDS :: "(addr \<times> string, reward_info) store"
  BOND_AMOUNTS :: "(addr, bond_info) store"

type_synonym yasset_result = "(std_error, yasset \<times> response) result"

abbreviation generic_err :: "string \<Rightarrow> (std_error, 'a) result" where
  "generic_err m \<equiv> Fail (GenericErr m)"

definition query_vault_bond_amount :: "deps \<Rightarrow> addr \<Rightarrow> (std_error, nat) result" where
  "query_vault_bond_amount D v = from_answer (q_vault_total_bond D v)"

subsection \<open>Rewards\<close>

definition pool_of :: "yasset \<Rightarrow> asset_info \<Rightarrow> pool_info" where
  "pool_of y a = (case get (POOL_INFO y) (as_bytes a) of Some p \<Rightarrow> p | None \<Rightarrow> default_pool_info)"

definition compute_asset_rewards ::
  "cosmwasm \<Rightarrow> yasset \<Rightarrow> addr \<Rightarrow> nat \<Rightarrow> asset_info \<Rightarrow> (std_error, reward_info) result" where
  "compute_asset_rewards S y staker amount a =
     (let pool = pool_of y a in
     andThen (case get (REWARDS y) (staker, as_bytes a) of
         Some info \<Rightarrow>
           andThen (umul_dec S amount (reward_index pool)) (\<lambda>upto.
           andThen (umul_dec S amount (index info)) (\<lambda>since.
           andThen (uchecked_sub S OverflowErr upto since) (\<lambda>n.
           andThen (uadd S (pending_reward info) n) (\<lambda>p. Ok (info\<lparr>pending_reward := p\<rparr>)))))
       | None \<Rightarrow> Ok default_reward_info) (\<lambda>info.
     Ok (info\<lparr>index := reward_index pool\<rparr>)))"

definition compute_all_rewards ::
  "cosmwasm \<Rightarrow> yasset \<Rightarrow> addr \<Rightarrow> nat \<Rightarrow> asset_info list \<Rightarrow> (std_error, yasset) result" where
  "compute_all_rewards S y staker amount assets =
     foldM (\<lambda>a y. andThen (compute_asset_rewards S y staker amount a) (\<lambda>info.
       Ok (y\<lparr>REWARDS := put (staker, as_bytes a) info (REWARDS y)\<rparr>))) assets y"

definition deposit_step ::
  "cosmwasm \<Rightarrow> env \<Rightarrow> message_info \<Rightarrow> config \<Rightarrow> nat \<Rightarrow> asset_info list \<Rightarrow> decimal \<Rightarrow> asset
    \<Rightarrow> yasset \<times> cosmos_msg list \<Rightarrow> (std_error, yasset \<times> cosmos_msg list) result" where
  "deposit_step S env info cfg total_bond_amount whitelisted stakers_portion a acc =
     (case acc of (y, messages) \<Rightarrow>
       if asset_of a \<notin> set whitelisted
       then generic_err (''asset '' @ asset_info_display S (asset_of a) @ '' is not whitelisted'')
       else case asset_of a of
         Native _ \<Rightarrow> Ok (y, messages)
       | Cw20 token_addr \<Rightarrow>
           let messages = messages @ (if contract_address env \<noteq> sender info
                 then [WasmExecute token_addr (Cw20TransferFrom (sender info) (contract_address env) (asset_amount a))]
                 else []);
               pool = pool_of y (asset_of a)
           in andThen (umul_dec S (asset_amount a) stakers_portion) (\<lambda>stakers_portion_amount.
           andThen (umul_dec S stakers_portion_amount (protocol_fee cfg)) (\<lambda>protocol_fee_amount.
           andThen (uchecked_sub S OverflowErr stakers_portion_amount protocol_fee_amount) (\<lambda>reward_amount.
           andThen (uchecked_sub S OverflowErr (asset_amount a) reward_amount) (\<lambda>rest.
           let messages = messages @ [WasmExecute token_addr (Cw20Transfer (collector cfg) rest)] in
           if total_bond_amount \<noteq> 0 then
             andThen (from_ratio S reward_amount total_bond_amount) (\<lambda>normal_reward_per_bond.
             andThen (dec_add S (reward_index pool) normal_reward_per_bond) (\<lambda>i.
             Ok (y\<lparr>POOL_INFO := put (as_bytes (asset_of a)) (pool\<lparr>reward_index := i\<rparr>) (POOL_INFO y)\<rparr>, messages)))
           else Ok (y, messages))))))"

definition stakers_portion_of :: "cosmwasm \<Rightarrow> nat \<Rightarrow> nat \<Rightarrow> (std_error, decimal) result" where
  "stakers_portion_of S total_bond_amount vault_bond_amount =
     (if total_bond_amount = 0 then Ok 0
      else andThen (from_ratio S total_bond_amount vault_bond_amount) (\<lambda>d. Ok (min d DEC_ONE)))"

definition deposit_rewards ::
  "cosmwasm \<Rightarrow> deps \<Rightarrow> env \<Rightarrow> yasset \<Rightarrow> message_info \<Rightarrow> asset list \<Rightarrow> yasset_result" where
  "deposit_rewards S D env y info assets =
     (let cfg = CONFIG y; total_bond_amount = TOTAL_BOND_AMOUNT y; whitelisted = WHITELISTED_ASSETS y in
     andThen (query_vault_bond_amount D (vault_addr cfg)) (\<lambda>vault_bond_amount.
     andThen (stakers_portion_of S total_bond_amount vault_bond_amount) (\<lambda>stakers_portion.
     andThen (foldM (deposit_step S env info cfg total_bond_amount whitelisted stakers_portion) assets (y, []))
       (\<lambda>(y, messages). Ok (y, add_messages messages)))))"

definition claim_step ::
  "cosmwasm \<Rightarrow> addr \<Rightarrow> nat \<Rightarrow> asset_info \<Rightarrow> yasset \<times> cosmos_msg list
    \<Rightarrow> (std_error, yasset \<times> cosmos_msg list) result" where
  "claim_step S staker amount a acc =
     (case acc of (y, messages) \<Rightarrow>
       andThen (compute_asset_rewards S y staker amount a) (\<lambda>info.
       let claim_amount = pending_reward info;
           y = y\<lparr>REWARDS := put (staker, as_bytes a) (info\<lparr>pending_reward := 0\<rparr>) (REWARDS y)\<rparr>
       in if claim_amount = 0 then Ok (y, messages)
       else case a of
         Cw20 contract_addr \<Rightarrow> Ok (y, messages @ [WasmExecute contract_addr (Cw20Transfer staker claim_amount)])
       | Native _ \<Rightarrow> generic_err ''Native reward assets not supported''))"

definition claim_rewards :: "cosmwasm \<Rightarrow> yasset \<Rightarrow> message_info \<Rightarrow> yasset_result" where
  "claim_rewards S y info =
     andThen (or_err (GenericErr ''no tokens bonded'') (get (BOND_AMOUNTS y) (sender info))) (\<lambda>bi.
     andThen (foldM (claim_step S (sender info) (bond_amount bi)) (WHITELISTED_ASSETS y) (y, []))
       (\<lambda>(y, messages). Ok (y, add_messages messages)))"

definition verify_claim_asset :: "config \<Rightarrow> asset_info \<Rightarrow> (std_error, addr) result" where
  "verify_claim_asset cfg claim_asset_info =
     (case claim_asset_info of
       Cw20 a \<Rightarrow> if a = prism_token cfg \<or> a = xprism_token cfg \<or> a = cluna_token cfg
           \<or> a = yluna_token cfg \<or> a = pluna_token cfg
         then Ok a else generic_err ''Claim asset not supported''
     | Native _ \<Rightarrow> generic_err ''Native claim assets not supported'')"

definition convert_step ::
  "cosmwasm \<Rightarrow> config \<Rightarrow> addr \<Rightarrow> nat \<Rightarrow> asset_info \<Rightarrow> addr \<Rightarrow> asset_info \<Rightarrow> asset_info
    \<Rightarrow> yasset \<times> cosmos_msg list \<times> asset list \<Rightarrow> (std_error, yasset \<times> cosmos_msg list \<times> asset list) result" where
  "convert_step S cfg staker amount claim_asset_info claim_token swap_dest a acc =
     (case acc of (y, messages, swap_assets) \<Rightarrow>
       andThen (compute_asset_rewards S y staker amount a) (\<lambda>info.
       if pending_reward info = 0 then Ok (y, messages, swap_assets)
       else
         let n = pending_reward info;
             y = y\<lparr>REWARDS := put (staker, as_bytes a) (info\<lparr>pending_reward := 0\<rparr>) (REWARDS y)\<rparr>
         in if a = claim_asset_info
         then Ok (y, messages @ [WasmExecute claim_token (Cw20Transfer staker n)], swap_assets)
         else if a = swap_dest then Ok (y, messages, swap_assets)
         else case a of
           Cw20 contract_addr \<Rightarrow> Ok (y, messages @ [WasmExecute contract_addr (Cw20IncreaseAllowance (collector cfg) n)],
             swap_assets @ [\<lparr>asset_of = a, asset_amount = n\<rparr>])
         | Native _ \<Rightarrow> generic_err ''Native reward assets not supported''))"

definition convert_and_claim_rewards ::
  "cosmwasm \<Rightarrow> deps \<Rightarrow> env \<Rightarrow> yasset \<Rightarrow> message_info \<Rightarrow> asset_info \<Rightarrow> yasset_result" where
  "convert_and_claim_rewards S D env y info claim_asset_info =
     (let cfg = CONFIG y; self = contract_address env in
     andThen (or_err (GenericErr ''no tokens bonded'') (get (BOND_AMOUNTS y) (sender info))) (\<lambda>bi.
     andThen (verify_claim_asset cfg claim_asset_info) (\<lambda>claim_token.
     let (swap_dest, swap_receiver) =
           (if claim_token = xprism_token cfg then (Cw20 (prism_token cfg), self)
            else (Cw20 claim_token, sender info))
     in andThen (foldM (convert_step S cfg (sender info) (bond_amount bi) claim_asset_info claim_token swap_dest)
         (WHITELISTED_ASSETS y) (y, [], [])) (\<lambda>(y, messages, swap_assets).
     if swap_assets = [] then Ok (y, add_messages messages)
     else
       let messages = messages @ [WasmExecute (collector cfg)
             (CollectorConvertAndSend swap_assets (Some swap_receiver) swap_dest)]
       in if swap_receiver = self then
         andThen (query_token_balance D (prism_token cfg) self) (\<lambda>prism_balance.
         Ok (y, add_messages (messages @ [WasmExecute self (StakingMintXprismClaimHook (sender info) prism_balance)])))
       else Ok (y, add_messages messages)))))"

definition mint_xprism_claim_hook ::
  "cosmwasm \<Rightarrow> deps \<Rightarrow> yasset \<Rightarrow> message_info \<Rightarrow> env \<Rightarrow> addr \<Rightarrow> nat \<Rightarrow> yasset_result" where
  "mint_xprism_claim_hook S D y info env receiver prev_balance =
     (let cfg = CONFIG y in
     if sender info \<noteq> contract_address env then generic_err ''unauthorized''
     else
       andThen (query_token_balance D (prism_token cfg) (contract_address env)) (\<lambda>prism_balance.
       andThen (uchecked_sub S OverflowErr prism_balance prev_balance) (\<lambda>mint_amount.
       Ok (y, add_messages [WasmExecute (prism_token cfg)
         (Cw20Send (gov_addr cfg) mint_amount (GovMintXprism (Some receiver)))]))))"

definition whitelist_reward_asset :: "yasset \<Rightarrow> message_info \<Rightarrow> asset_info \<Rightarrow> yasset_result" where
  "whitelist_reward_asset y info a =
     (if sender info \<noteq> owner (CONFIG y) then generic_err ''unauthorized''
      else if is_native_token a then generic_err ''only token assets can be whitelisted''
      else Ok (y\<lparr>WHITELISTED_ASSETS := WHITELISTED_ASSETS y @ [a]\<rparr>, []))"

definition remove_whitelisted_reward_asset :: "yasset \<Rightarrow> message_info \<Rightarrow> asset_info \<Rightarrow> yasset_result" where
  "remove_whitelisted_reward_asset y info a =
     (if sender info \<noteq> owner (CONFIG y) then generic_err ''unauthorized''
      else if a \<notin> set (WHITELISTED_ASSETS y) then generic_err ''this asset is not whitelisted''
      else Ok (y\<lparr>WHITELISTED_ASSETS := remove1 a (WHITELISTED_ASSETS y)\<rparr>, []))"

record reward_info_response =
  rr_staker_addr :: string
  rr_staked_amount :: nat
  rr_rewards :: "asset list"

definition query_reward_info :: "cosmwasm \<Rightarrow> yasset \<Rightarrow> string \<Rightarrow> (std_error, reward_info_response) result" where
  "query_reward_info S y staker_addr =
     andThen (or_err (GenericErr ''there is no reward info for this address'') (get (BOND_AMOUNTS y) staker_addr)) (\<lambda>bi.
     andThen (mapM (\<lambda>a. andThen (compute_asset_rewards S y staker_addr (bond_amount bi) a) (\<lambda>info.
         Ok \<lparr>asset_of = a, asset_amount = pending_reward info\<rparr>)) (WHITELISTED_ASSETS y)) (\<lambda>rewards.
     Ok \<lparr>rr_staker_addr = staker_addr, rr_staked_amount = bond_amount bi, rr_rewards = rewards\<rparr>))"

subsection \<open>Staking\<close>

definition bond :: "cosmwasm \<Rightarrow> yasset \<Rightarrow> addr \<Rightarrow> nat \<Rightarrow> yasset_result" where
  "bond S y staker_addr amount =
     (let bond_total = TOTAL_BOND_AMOUNT y;
          bi = (case get (BOND_AMOUNTS y) staker_addr of Some b \<Rightarrow> b | None \<Rightarrow> default_bond_info)
     in andThen (compute_all_rewards S y staker_addr (bond_amount bi) (WHITELISTED_ASSETS y)) (\<lambda>y.
     andThen (uadd S (bond_amount bi) amount) (\<lambda>mine.
     andThen (uadd S bond_total amount) (\<lambda>total.
     Ok (y\<lparr>TOTAL_BOND_AMOUNT := total,
           BOND_AMOUNTS := put staker_addr (bi\<lparr>bond_amount := mine\<rparr>) (BOND_AMOUNTS y)\<rparr>, [])))))"

definition unbond :: "cosmwasm \<Rightarrow> yasset \<Rightarrow> message_info \<Rightarrow> nat option \<Rightarrow> yasset_result" where
  "unbond S y info amount =
     (let staker_addr = sender info; cfg = CONFIG y; bond_total = TOTAL_BOND_AMOUNT y in
     andThen (or_err (GenericErr ''no tokens bonded'') (get (BOND_AMOUNTS y) staker_addr)) (\<lambda>bi.
     andThen (compute_all_rewards S y staker_addr (bond_amount bi) (WHITELISTED_ASSETS y)) (\<lambda>y.
     andThen (case amount of
         Some a \<Rightarrow> if a > bond_amount bi then generic_err ''can not unbond more than the bonded amount'' else Ok a
       | None \<Rightarrow> Ok (bond_amount bi)) (\<lambda>unbonded_amt.
     if unbonded_amt > bond_total then generic_err ''can not unbond more than total bonded amount''
     else
       andThen (usub S (bond_amount bi) unbonded_amt) (\<lambda>mine.
       andThen (usub S bond_total unbonded_amt) (\<lambda>total.
       Ok (y\<lparr>TOTAL_BOND_AMOUNT := total,
             BOND_AMOUNTS := put staker_addr (bi\<lparr>bond_amount := mine\<rparr>) (BOND_AMOUNTS y)\<rparr>,
         add_messages [WasmExecute (yluna_token cfg) (Cw20Transfer staker_addr unbonded_amt)])))))))"

subsection \<open>Delegator rewards\<close>

definition REWARD_DENOM :: string where
  "REWARD_DENOM = ''uluna''"

definition query_exchange_rates ::
  "deps \<Rightarrow> string \<Rightarrow> string list \<Rightarrow> (std_error, (string \<times> decimal) list) result" where
  "query_exchange_rates D base_denom quote_denoms = from_answer (q_exchange_rates D base_denom quote_denoms)"

definition process_delegator_rewards :: "deps \<Rightarrow> env \<Rightarrow> yasset \<Rightarrow> yasset_result" where
  "process_delegator_rewards D env y =
     andThen (from_answer (q_all_balances D (contract_address env))) (\<lambda>balances.
     andThen (query_exchange_rates D REWARD_DENOM (map denom balances)) (\<lambda>exchange_rates.
     let swaps = filter (\<lambda>c. denom c \<noteq> REWARD_DENOM \<and> denom c \<in> fst ` set exchange_rates) balances
     in Ok (y, add_messages (map (\<lambda>c. TerraSwap c REWARD_DENOM) swaps
       @ [WasmExecute (contract_address env) StakingLunaToPylunaHook]))))"

definition luna_to_pyluna_hook :: "deps \<Rightarrow> env \<Rightarrow> yasset \<Rightarrow> yasset_result" where
  "luna_to_pyluna_hook D env y =
     (let cfg = CONFIG y; self = contract_address env in
     andThen (query_balance D self REWARD_DENOM) (\<lambda>luna_amt.
     andThen (query_token_balance D (pluna_token cfg) self) (\<lambda>prev_pluna_balance.
     andThen (query_token_balance D (yluna_token cfg) self) (\<lambda>prev_yluna_balance.
     Ok (y, add_messages
       [WasmExecuteFunds (vault_addr cfg) (VaultBondSplit None) [\<lparr>denom = REWARD_DENOM, coin_amount = luna_amt\<rparr>],
        WasmExecute self (StakingDepositMintedPylunaHook prev_pluna_balance prev_yluna_balance)])))))"

definition deposit_minted_pyluna_hook ::
  "cosmwasm \<Rightarrow> deps \<Rightarrow> yasset \<Rightarrow> message_info \<Rightarrow> env \<Rightarrow> nat \<Rightarrow> nat \<Rightarrow> yasset_result" where
  "deposit_minted_pyluna_hook S D y info env prev_pluna_balance prev_yluna_balance =
     (let cfg = CONFIG y; self = contract_address env in
     if sender info \<noteq> self then generic_err ''unauthorized''
     else
       andThen (query_token_balance D (pluna_token cfg) self) (\<lambda>curr_pluna_balance.
       andThen (query_token_balance D (yluna_token cfg) self) (\<lambda>curr_yluna_balance.
       andThen (uchecked_sub S OverflowErr curr_pluna_balance prev_pluna_balance) (\<lambda>reward_pluna.
       andThen (uchecked_sub S OverflowErr curr_yluna_balance prev_yluna_balance) (\<lambda>reward_yluna.
       Ok (y, add_messages [WasmExecute self (StakingDepositRewards
         [\<lparr>asset_of = Cw20 (yluna_token cfg), asset_amount = reward_yluna\<rparr>,
          \<lparr>asset_of = Cw20 (pluna_token cfg), asset_amount = reward_pluna\<rparr>])]))))))"

subsection \<open>Entry points\<close>

definition MAX_PROTOCOL_FEE :: decimal where
  "MAX_PROTOCOL_FEE = 5 * 10 ^ 17"

definition validate_protocol_fee :: "decimal \<Rightarrow> (std_error, decimal) result" where
  "validate_protocol_fee fee =
     (if fee > MAX_PROTOCOL_FEE then generic_err ''fee can not be greater than 0.5'' else Ok fee)"

record instantiate_msg =
  im_owner :: string
  im_vault :: string
  im_gov :: string
  im_collector :: string
  im_protocol_fee :: decimal
  im_cluna_token :: string
  im_yluna_token :: string
  im_pluna_token :: string
  im_prism_token :: string
  im_xprism_token :: string

definition instantiate_yasset :: "deps \<Rightarrow> instantiate_msg \<Rightarrow> yasset_result" where
  "instantiate_yasset D msg =
     andThen (validate_protocol_fee (im_protocol_fee msg)) (\<lambda>_.
     andThen (addr_validate D (im_owner msg)) (\<lambda>ow.
     andThen (addr_validate D (im_vault msg)) (\<lambda>va.
     andThen (addr_validate D (im_gov msg)) (\<lambda>go.
     andThen (addr_validate D (im_collector msg)) (\<lambda>co.
     andThen (addr_validate D (im_cluna_token msg)) (\<lambda>cl.
     andThen (addr_validate D (im_yluna_token msg)) (\<lambda>yl.
     andThen (addr_validate D (im_pluna_token msg)) (\<lambda>pl.
     andThen (addr_validate D (im_prism_token msg)) (\<lambda>pr.
     andThen (addr_validate D (im_xprism_token msg)) (\<lambda>xp.
     Ok (\<lparr>CONFIG = \<lparr>owner = ow, vault_addr = va, gov_addr = go, collector = co,
             protocol_fee = im_protocol_fee msg, cluna_token = cl, yluna_token = yl, pluna_token = pl,
             prism_token = pr, xprism_token = xp\<rparr>,
           WHITELISTED_ASSETS = [Cw20 pl, Cw20 yl], TOTAL_BOND_AMOUNT = 0,
           POOL_INFO = [], REWARDS = [], BOND_AMOUNTS = []\<rparr>, [])))))))))))"

datatype execute_msg =
    Receive cw20_receive_msg
  | Unbond "nat option"
  | ClaimRewards
  | ConvertAndClaimRewards asset_info
  | MintXprismClaimHook addr nat
  | ProcessDelegatorRewards
  | LunaToPylunaHook
  | DepositMintedPylunaHook nat nat
  | DepositRewards "asset list"
  | UpdateConfig "string option" "string option" "decimal option"
  | WhitelistRewardAsset asset_info
  | RemoveRewardAsset asset_info

datatype cw20_hook_msg = Bond

definition receive_cw20 ::
  "cosmwasm \<Rightarrow> (binary \<Rightarrow> std_error + cw20_hook_msg) \<Rightarrow> yasset \<Rightarrow> message_info \<Rightarrow> cw20_receive_msg \<Rightarrow> yasset_result" where
  "receive_cw20 S from_binary y info m =
     andThen (from_answer (from_binary (cw20_msg m))) (\<lambda>hook.
     case hook of Bond \<Rightarrow>
       if yluna_token (CONFIG y) \<noteq> sender info then generic_err ''unauthorized''
       else bond S y (cw20_sender m) (cw20_amount m))"

definition update_config ::
  "deps \<Rightarrow> yasset \<Rightarrow> message_info \<Rightarrow> string option \<Rightarrow> string option \<Rightarrow> decimal option \<Rightarrow> yasset_result" where
  "update_config D y info new_owner new_collector fee =
     (let cfg = CONFIG y in
     if sender info \<noteq> owner cfg then generic_err ''unauthorized''
     else
       andThen (case new_owner of None \<Rightarrow> Ok cfg
         | Some a \<Rightarrow> andThen (addr_validate D a) (\<lambda>a. Ok (cfg\<lparr>owner := a\<rparr>))) (\<lambda>cfg.
       andThen (case new_collector of None \<Rightarrow> Ok cfg
         | Some a \<Rightarrow> andThen (addr_validate D a) (\<lambda>a. Ok (cfg\<lparr>collector := a\<rparr>))) (\<lambda>cfg.
       andThen (case fee of None \<Rightarrow> Ok cfg
         | Some f \<Rightarrow> andThen (validate_protocol_fee f) (\<lambda>_. Ok (cfg\<lparr>protocol_fee := f\<rparr>))) (\<lambda>cfg.
       Ok (y\<lparr>CONFIG := cfg\<rparr>, [])))))"

fun execute ::
  "cosmwasm \<Rightarrow> deps \<Rightarrow> (binary \<Rightarrow> std_error + cw20_hook_msg) \<Rightarrow> env \<Rightarrow> yasset \<Rightarrow> message_info
    \<Rightarrow> execute_msg \<Rightarrow> yasset_result" where
  "execute S D fb env y info (Receive m) = receive_cw20 S fb y info m"
| "execute S D fb env y info (Unbond amount) = unbond S y info amount"
| "execute S D fb env y info ClaimRewards = claim_rewards S y info"
| "execute S D fb env y info (ConvertAndClaimRewards a) =
     andThen (check D a) (\<lambda>_. convert_and_claim_rewards S D env y info a)"
| "execute S D fb env y info (MintXprismClaimHook receiver prev) =
     mint_xprism_claim_hook S D y info env receiver prev"
| "execute S D fb env y info (DepositRewards assets) =
     andThen (mapM (\<lambda>a. check D (asset_of a)) assets) (\<lambda>_. deposit_rewards S D env y info assets)"
| "execute S D fb env y info ProcessDelegatorRewards = process_delegator_rewards D env y"
| "execute S D fb env y info LunaToPylunaHook = luna_to_pyluna_hook D env y"
| "execute S D fb env y info (DepositMintedPylunaHook p q) = deposit_minted_pyluna_hook S D y info env p q"
| "execute S D fb env y info (WhitelistRewardAsset a) =
     andThen (check D a) (\<lambda>_. whitelist_reward_asset y info a)"
| "execute S D fb env y info (RemoveRewardAsset a) =
     andThen (check D a) (\<lambda>_. remove_whitelisted_reward_asset y info a)"
| "execute S D fb env y info (UpdateConfig ow co fee) = update_config D y info ow co fee"

datatype query_msg =
    QueryConfig
  | QueryPoolInfo string
  | QueryRewardInfo string
  | QueryRewardAssetWhitelist
  | QueryBondAmount

text \<open>The configuration is answered field by field as it is stored.\<close>

datatype query_response =
    ConfigResponse config
  | PoolInfoResponse string decimal
  | RewardInfoResponse reward_info_response
  | RewardAssetWhitelistResponse "asset_info list"
  | BondAmountResponse nat

fun query :: "cosmwasm \<Rightarrow> yasset \<Rightarrow> query_msg \<Rightarrow> (std_error, query_response) result" where
  "query S y QueryConfig = Ok (ConfigResponse (CONFIG y))"
| "query S y (QueryPoolInfo asset_token) =
     andThen (or_err NotFound (get (POOL_INFO y) asset_token)) (\<lambda>p.
     Ok (PoolInfoResponse asset_token (reward_index p)))"
| "query S y QueryRewardAssetWhitelist = Ok (RewardAssetWhitelistResponse (WHITELISTED_ASSETS y))"
| "query S y (QueryRewardInfo staker) = andThen (query_reward_info S y staker) (\<lambda>r. Ok (RewardInfoResponse r))"
| "query S y QueryBondAmount = Ok (BondAmountResponse (TOTAL_BOND_AMOUNT y))"

end
