(* ===== verification/Yasset_Properties.thy ===== *)
theory Yasset_Properties
  imports Yasset_Staking
begin

text \<open>
  The properties of the yLUNA staking contract: the books over every reachable state, how bonds
  move, how deposited rewards are shared with the collector and what a claim pays.
\<close>


section \<open>The invariant\<close>

definition bond_sum :: "yasset \<Rightarrow> nat" where
  "bond_sum y = (\<Sum>(s, b)\<leftarrow>BOND_AMOUNTS y. bond_amount b)"

definition bond_of :: "yasset \<Rightarrow> addr \<Rightarrow> nat" where
  "bond_of y s = (case get (BOND_AMOUNTS y) s of Some b \<Rightarrow> bond_amount b | None \<Rightarrow> 0)"

definition pool_index :: "yasset \<Rightarrow> string \<Rightarrow> decimal" where
  "pool_index y k = (case get (POOL_INFO y) k of Some p \<Rightarrow> reward_index p | None \<Rightarrow> 0)"

definition rewards_inv :: "yasset \<Rightarrow> bool" where
  "rewards_inv y \<longleftrightarrow> wf_store (POOL_INFO y) \<and> wf_store (REWARDS y)
     \<and> (\<forall>s k i. get (REWARDS y) (s, k) = Some i \<longrightarrow> index i \<le> pool_index y k)"

definition yasset_inv :: "yasset \<Rightarrow> bool" where
  "yasset_inv y \<longleftrightarrow> rewards_inv y \<and> wf_store (BOND_AMOUNTS y) \<and> TOTAL_BOND_AMOUNT y = bond_sum y
     \<and> (\<forall>a\<in>set (WHITELISTED_ASSETS y). \<not> is_native_token a) \<and> protocol_fee (CONFIG y) \<le> MAX_PROTOCOL_FEE"

text \<open>
  What the stakers get of a deposited amount: the stakers' portion of it less the protocol fee.
  What a list of assets leaves for the stakers of a token, and the messages of a deposit: every
  amount is pulled from the sender, unless the contract itself deposits, and what the stakers do
  not get goes to the collector.
\<close>

definition stakers_get :: "decimal \<Rightarrow> decimal \<Rightarrow> nat \<Rightarrow> nat" where
  "stakers_get portion fee n = n * portion div DEC_ONE - n * portion div DEC_ONE * fee div DEC_ONE"

definition kept_for :: "decimal \<Rightarrow> decimal \<Rightarrow> addr \<Rightarrow> asset list \<Rightarrow> nat" where
  "kept_for portion fee t as =
     (\<Sum>a\<leftarrow>as. if asset_of a = Cw20 t then stakers_get portion fee (asset_amount a) else 0)"

definition deposit_messages :: "addr \<Rightarrow> addr \<Rightarrow> addr \<Rightarrow> decimal \<Rightarrow> decimal \<Rightarrow> asset list \<Rightarrow> cosmos_msg list" where
  "deposit_messages depositor self coll portion fee as = concat (map (\<lambda>a.
     (if depositor = self then []
      else [WasmExecute (as_bytes (asset_of a)) (Cw20TransferFrom depositor self (asset_amount a))])
     @ [WasmExecute (as_bytes (asset_of a))
          (Cw20Transfer coll (asset_amount a - stakers_get portion fee (asset_amount a)))]) as)"

lemma pool_of_index: "reward_index (pool_of y a) = pool_index y (as_bytes a)"
  by (simp add: pool_of_def pool_index_def default_pool_info_def split: option.splits)

lemma rewards_inv_put:
  assumes "rewards_inv y" and "index i \<le> pool_index y k"
  shows "rewards_inv (y\<lparr>REWARDS := put (s, k) i (REWARDS y)\<rparr>)"
  using assms by (auto simp: rewards_inv_def wf_put get_put pool_index_def)

text \<open>What a handler that only touches reward entries leaves alone.\<close>

definition only_rewards :: "yasset \<Rightarrow> yasset \<Rightarrow> bool" where
  "only_rewards y y' \<longleftrightarrow> y' = y\<lparr>REWARDS := REWARDS y'\<rparr>"

lemma only_rewards_refl: "only_rewards y y"
  by (simp add: only_rewards_def)

lemma only_rewards_put: "only_rewards y y' \<Longrightarrow> only_rewards y (y'\<lparr>REWARDS := R\<rparr>)"
  by (simp add: only_rewards_def) (metis yasset.surjective yasset.update_convs(5))

lemma only_rewards_same:
  assumes "only_rewards y y'"
  shows "CONFIG y' = CONFIG y" and "WHITELISTED_ASSETS y' = WHITELISTED_ASSETS y"
    and "TOTAL_BOND_AMOUNT y' = TOTAL_BOND_AMOUNT y" and "POOL_INFO y' = POOL_INFO y" and "BOND_AMOUNTS y' = BOND_AMOUNTS y"
  using assms by (simp_all add: only_rewards_def) (metis yasset.select_convs yasset.surjective yasset.update_convs(5))+

lemma only_rewards_inv:
  assumes "only_rewards y y'" and "yasset_inv y" and "rewards_inv y'"
  shows "yasset_inv y'"
  using assms(2,3) by (simp add: yasset_inv_def bond_sum_def only_rewards_same [OF assms(1)])

context cosmwasm_std
begin

lemma compute_asset_rewards_Ok:
  assumes "compute_asset_rewards S y s b a = Inr i"
  shows "index i = pool_index y (as_bytes a)"
    and "pending_reward i = (case get (REWARDS y) (s, as_bytes a) of None \<Rightarrow> 0
      | Some j \<Rightarrow> pending_reward j + (b * pool_index y (as_bytes a) div DEC_ONE - b * index j div DEC_ONE))"
  using assms
  by (auto simp: compute_asset_rewards_def Let_def result_simps cw_laws pool_of_index default_reward_info_def
      split: option.splits)

text \<open>On right books the subtraction never fails: the only failures are overflows of \<open>Uint128\<close>.\<close>

lemma compute_asset_rewards_no_err:
  assumes "rewards_inv y" and "compute_asset_rewards S y s b a = Inl e"
  shows "e = Panic"
proof (cases "get (REWARDS y) (s, as_bytes a)")
  case (Some j)
  then have "index j \<le> pool_index y (as_bytes a)" using assms(1) by (auto simp: rewards_inv_def)
  then have "b * index j div DEC_ONE \<le> b * pool_index y (as_bytes a) div DEC_ONE"
    by (intro div_le_mono mult_le_mono2)
  then show ?thesis using assms(2) Some
    by (auto simp: compute_asset_rewards_def Let_def andThen_Inl_iff umul_dec_def uadd_def uchecked_sub_def
        mul_decimal_law add_law checked_sub_law pool_of_index split: if_splits)
qed (use assms(2) in \<open>simp add: compute_asset_rewards_def Let_def\<close>)

lemma compute_all_rewards_Ok:
  assumes "compute_all_rewards S y s b as = Inr y'" and "rewards_inv y"
  shows "only_rewards y y' \<and> rewards_inv y'"
  using assms(1) unfolding compute_all_rewards_def
proof (rule foldM_invariant)
  show "only_rewards y y \<and> rewards_inv y" using assms(2) by (simp add: only_rewards_refl)
next
  fix a z z'
  assume z: "only_rewards y z \<and> rewards_inv z"
    and step: "andThen (compute_asset_rewards S z s b a) (\<lambda>info. Inr (z\<lparr>REWARDS := put (s, as_bytes a) info (REWARDS z)\<rparr>)) = Inr z'"
  from step obtain i where i: "compute_asset_rewards S z s b a = Inr i"
    and z': "z' = z\<lparr>REWARDS := put (s, as_bytes a) i (REWARDS z)\<rparr>" by (auto elim!: andThen_OkE)
  show "only_rewards y z' \<and> rewards_inv z'"
    using z rewards_inv_put [of z i "as_bytes a" s] compute_asset_rewards_Ok(1) [OF i]
    by (simp add: z' only_rewards_put)
qed

lemma yasset_bond_Ok:
  assumes run: "bond S y s n = Inr (y', r)" and inv: "yasset_inv y"
  shows "yasset_inv y' \<and> r = [] \<and> CONFIG y' = CONFIG y \<and> TOTAL_BOND_AMOUNT y' = TOTAL_BOND_AMOUNT y + n
    \<and> (\<forall>u. bond_of y' u = (if u = s then bond_of y s + n else bond_of y u))"
proof -
  have wf: "wf_store (BOND_AMOUNTS y)" using inv by (simp add: yasset_inv_def)
  let ?bi = "case get (BOND_AMOUNTS y) s of Some b \<Rightarrow> b | None \<Rightarrow> default_bond_info"
  have bi: "bond_amount ?bi = bond_of y s" by (simp add: bond_of_def default_bond_info_def split: option.splits)
  from run obtain z where z: "compute_all_rewards S y s (bond_amount ?bi) (WHITELISTED_ASSETS y) = Inr z"
    and y': "y' = z\<lparr>TOTAL_BOND_AMOUNT := TOTAL_BOND_AMOUNT y + n,
        BOND_AMOUNTS := put s (?bi\<lparr>bond_amount := bond_amount ?bi + n\<rparr>) (BOND_AMOUNTS z)\<rparr>" and r: "r = []"
    by (auto simp: bond_def Let_def uadd_Ok_iff elim!: andThen_OkE)
  have o: "only_rewards y z" and zi: "rewards_inv z" using compute_all_rewards_Ok [OF z] inv by (auto simp: yasset_inv_def)
  note same = only_rewards_same [OF o]
  have B: "BOND_AMOUNTS y' = put s (?bi\<lparr>bond_amount := bond_amount ?bi + n\<rparr>) (BOND_AMOUNTS y)"
    by (simp add: y' same)
  have "bond_sum y' = bond_sum y + n"
    using st.sum_save [OF wf, of "\<lambda>k b. bond_amount b" s "?bi\<lparr>bond_amount := bond_amount ?bi + n\<rparr>"] bi
    by (simp add: bond_sum_def B bond_of_def split: option.splits)
  then have "yasset_inv y'"
    using inv zi by (simp add: yasset_inv_def B wf_put) (simp add: y' same rewards_inv_def pool_index_def)
  moreover have "bond_of y' u = (if u = s then bond_of y s + n else bond_of y u)" for u
    by (simp add: bond_of_def [of y'] B get_put [OF wf] bi) (simp add: bond_of_def)
  moreover have "CONFIG y' = CONFIG y" "TOTAL_BOND_AMOUNT y' = TOTAL_BOND_AMOUNT y + n" by (simp_all add: y' same)
  ultimately show ?thesis using r by simp
qed

lemma yasset_unbond_Ok:
  assumes run: "unbond S y info amount = Inr (y', r)" and inv: "yasset_inv y"
  obtains n where "n = (case amount of Some a \<Rightarrow> a | None \<Rightarrow> bond_of y (sender info))"
    and "n \<le> bond_of y (sender info)"
    and "yasset_inv y'" and "CONFIG y' = CONFIG y" and "TOTAL_BOND_AMOUNT y' + n = TOTAL_BOND_AMOUNT y"
    and "\<And>u. bond_of y' u = (if u = sender info then bond_of y u - n else bond_of y u)"
    and "r = [new_sub_msg (WasmExecute (yluna_token (CONFIG y)) (Cw20Transfer (sender info) n))]"
proof -
  have wf: "wf_store (BOND_AMOUNTS y)" using inv by (simp add: yasset_inv_def)
  let ?s = "sender info"
  from run obtain bi z n where bi: "get (BOND_AMOUNTS y) ?s = Some bi"
    and z: "compute_all_rewards S y ?s (bond_amount bi) (WHITELISTED_ASSETS y) = Inr z"
    and n: "n = (case amount of Some a \<Rightarrow> a | None \<Rightarrow> bond_amount bi)" "n \<le> bond_amount bi" "n \<le> TOTAL_BOND_AMOUNT y"
    and y': "y' = z\<lparr>TOTAL_BOND_AMOUNT := TOTAL_BOND_AMOUNT y - n,
        BOND_AMOUNTS := put ?s (bi\<lparr>bond_amount := bond_amount bi - n\<rparr>) (BOND_AMOUNTS z)\<rparr>"
    and r: "r = add_messages [WasmExecute (yluna_token (CONFIG y)) (Cw20Transfer ?s n)]"
    by (auto simp: unbond_def Let_def usub_Ok_iff or_err_Ok_iff elim!: andThen_OkE split: option.splits if_splits)
  have b: "bond_of y ?s = bond_amount bi" by (simp add: bond_of_def bi)
  have o: "only_rewards y z" and zi: "rewards_inv z" using compute_all_rewards_Ok [OF z] inv by (auto simp: yasset_inv_def)
  note same = only_rewards_same [OF o]
  have B: "BOND_AMOUNTS y' = put ?s (bi\<lparr>bond_amount := bond_amount bi - n\<rparr>) (BOND_AMOUNTS y)" by (simp add: y' same)
  have "bond_sum y' + n = bond_sum y"
    using st.sum_save [OF wf, of "\<lambda>k b. bond_amount b" ?s "bi\<lparr>bond_amount := bond_amount bi - n\<rparr>"] bi n(2)
    by (simp add: bond_sum_def B)
  then have "yasset_inv y'"
    using inv zi by (simp add: yasset_inv_def B wf_put) (simp add: y' same rewards_inv_def pool_index_def)
  moreover have "bond_of y' u = (if u = ?s then bond_of y u - n else bond_of y u)" for u
    by (simp add: bond_of_def [of y'] B get_put [OF wf] b) (simp add: bond_of_def)
  moreover have "CONFIG y' = CONFIG y" "TOTAL_BOND_AMOUNT y' = TOTAL_BOND_AMOUNT y - n" by (simp_all add: y' same)
  moreover have "n = (case amount of Some a \<Rightarrow> a | None \<Rightarrow> bond_of y ?s)" unfolding b by (rule n(1))
  ultimately show thesis
    using n(2,3) r by (intro that [of n]) (simp_all add: b add_messages_def)
qed

text \<open>Claims.\<close>

lemma yasset_claim_step_Ok:
  assumes "claim_step S s b a (y, ms) = Inr (y', ms')" and "rewards_inv y"
  obtains i where "compute_asset_rewards S y s b a = Inr i"
    and "y' = y\<lparr>REWARDS := put (s, as_bytes a) (i\<lparr>pending_reward := 0\<rparr>) (REWARDS y)\<rparr>" and "rewards_inv y'"
    and "ms' = ms @ (if pending_reward i = 0 then [] else [WasmExecute (as_bytes a) (Cw20Transfer s (pending_reward i))])"
    and "is_native_token a \<Longrightarrow> pending_reward i = 0"
proof -
  from assms(1) obtain i where i: "compute_asset_rewards S y s b a = Inr i"
    and y': "y' = y\<lparr>REWARDS := put (s, as_bytes a) (i\<lparr>pending_reward := 0\<rparr>) (REWARDS y)\<rparr>"
    and ms: "ms' = ms @ (if pending_reward i = 0 then [] else [WasmExecute (as_bytes a) (Cw20Transfer s (pending_reward i))])"
    and nat: "is_native_token a \<Longrightarrow> pending_reward i = 0"
    by (auto simp: claim_step_def Let_def elim!: andThen_OkE split: if_splits asset_info.splits)
  have "rewards_inv y'"
    using rewards_inv_put [OF assms(2), of "i\<lparr>pending_reward := 0\<rparr>" "as_bytes a" s] compute_asset_rewards_Ok(1) [OF i]
    by (simp add: y')
  from that [OF i y' this ms nat] show thesis .
qed

lemma yasset_claim_fold_Ok:
  assumes "foldM (claim_step S s b) as (y, ms) = Inr (y', ms')" and "rewards_inv y"
  shows "only_rewards y y' \<and> rewards_inv y'"
proof -
  have "only_rewards y (fst (y', ms')) \<and> rewards_inv (fst (y', ms'))"
    using assms(1)
  proof (rule foldM_invariant)
    fix a z z'
    assume z: "only_rewards y (fst z) \<and> rewards_inv (fst z)" and step: "claim_step S s b a z = Inr z'"
    obtain x m x' m' where zs: "z = (x, m)" "z' = (x', m')" by (cases z, cases z')
    have "rewards_inv x" using z by (simp add: zs)
    then show "only_rewards y (fst z') \<and> rewards_inv (fst z')"
      by (rule yasset_claim_step_Ok [OF step [unfolded zs]]) (use z in \<open>simp add: zs only_rewards_put\<close>)
  qed (use assms(2) in \<open>simp add: only_rewards_refl\<close>)
  then show ?thesis by simp
qed

lemma yasset_claim_rewards_Ok:
  assumes "claim_rewards S y info = Inr (y', r)" and "yasset_inv y"
  shows "only_rewards y y'" and "yasset_inv y'"
proof -
  from assms(1) obtain b ms where "foldM (claim_step S (sender info) b) (WHITELISTED_ASSETS y) (y, []) = Inr (y', ms)"
    by (auto simp: claim_rewards_def elim!: andThen_OkE)
  from yasset_claim_fold_Ok [OF this] assms(2) show "only_rewards y y'" and "yasset_inv y'"
    by (auto simp: yasset_inv_def [of y] intro: only_rewards_inv [OF _ assms(2)])
qed

lemma convert_step_Ok:
  assumes "convert_step S c s b ca ct d a (y, ms, sw) = Inr (y', ms', sw')" and "rewards_inv y"
  obtains i where "compute_asset_rewards S y s b a = Inr i" and "rewards_inv y'"
    and "y' = (if pending_reward i = 0 then y
      else y\<lparr>REWARDS := put (s, as_bytes a) (i\<lparr>pending_reward := 0\<rparr>) (REWARDS y)\<rparr>)"
    and "ms' = ms @ (if pending_reward i = 0 \<or> a \<noteq> ca \<and> a = d then []
      else if a = ca then [WasmExecute ct (Cw20Transfer s (pending_reward i))]
      else [WasmExecute (as_bytes a) (Cw20IncreaseAllowance (collector c) (pending_reward i))])"
    and "sw' = sw @ (if pending_reward i = 0 \<or> a = ca \<or> a = d then []
      else [\<lparr>asset_of = a, asset_amount = pending_reward i\<rparr>])"
proof -
  from assms(1) obtain i where i: "compute_asset_rewards S y s b a = Inr i"
    and y': "y' = (if pending_reward i = 0 then y
      else y\<lparr>REWARDS := put (s, as_bytes a) (i\<lparr>pending_reward := 0\<rparr>) (REWARDS y)\<rparr>)"
    and ms: "ms' = ms @ (if pending_reward i = 0 \<or> a \<noteq> ca \<and> a = d then []
      else if a = ca then [WasmExecute ct (Cw20Transfer s (pending_reward i))]
      else [WasmExecute (as_bytes a) (Cw20IncreaseAllowance (collector c) (pending_reward i))])"
    and sw: "sw' = sw @ (if pending_reward i = 0 \<or> a = ca \<or> a = d then []
      else [\<lparr>asset_of = a, asset_amount = pending_reward i\<rparr>])"
    by (auto simp: convert_step_def Let_def elim!: andThen_OkE split: if_splits asset_info.splits)
  have "rewards_inv y'"
    using assms(2) rewards_inv_put [OF assms(2), of "i\<lparr>pending_reward := 0\<rparr>" "as_bytes a" s] compute_asset_rewards_Ok(1) [OF i]
    by (simp add: y')
  from that [OF i this y' ms sw] show thesis .
qed

lemma convert_fold_Ok:
  assumes "foldM (convert_step S c s b ca ct d) as (y, ms, sw) = Inr (y', ms', sw')" and "rewards_inv y"
  shows "only_rewards y y' \<and> rewards_inv y'"
proof -
  have "only_rewards y (fst (y', ms', sw')) \<and> rewards_inv (fst (y', ms', sw'))"
    using assms(1)
  proof (rule foldM_invariant)
    fix a z z'
    assume z: "only_rewards y (fst z) \<and> rewards_inv (fst z)" and step: "convert_step S c s b ca ct d a z = Inr z'"
    obtain x m w x' m' w' where zs: "z = (x, m, w)" "z' = (x', m', w')" by (cases z, cases z')
    have "rewards_inv x" using z by (simp add: zs)
    then show "only_rewards y (fst z') \<and> rewards_inv (fst z')"
      by (rule convert_step_Ok [OF step [unfolded zs]]) (use z in \<open>simp add: zs only_rewards_put\<close>)
  qed (use assms(2) in \<open>simp add: only_rewards_refl\<close>)
  then show ?thesis by simp
qed

lemma convert_and_claim_rewards_Ok:
  assumes "convert_and_claim_rewards S D env y info a = Inr (y', r)" and "yasset_inv y"
  shows "only_rewards y y'" and "yasset_inv y'"
proof -
  from assms(1) obtain c b ct d ms sw where
    "foldM (convert_step S c (sender info) b a ct d) (WHITELISTED_ASSETS y) (y, [], []) = Inr (y', ms, sw)"
    by (auto simp: convert_and_claim_rewards_def Let_def elim!: andThen_OkE split: if_splits)
  from convert_fold_Ok [OF this] assms(2) show "only_rewards y y'" and "yasset_inv y'"
    by (auto simp: yasset_inv_def [of y] intro: only_rewards_inv [OF _ assms(2)])
qed

text \<open>Deposits.\<close>

lemma deposit_step_Ok:
  assumes "deposit_step S env info c tot wl portion a (y, ms) = Inr (y', ms')"
    and inv: "rewards_inv y" and wl: "\<forall>a\<in>set wl. \<not> is_native_token a" and fee: "protocol_fee c \<le> DEC_ONE"
    and portion: "portion \<le> DEC_ONE"
  obtains t n reward where "asset_of a = Cw20 t" and "Cw20 t \<in> set wl" and "n = asset_amount a" and "reward \<le> n"
    and "ms' = ms @ (if contract_address env \<noteq> sender info
        then [WasmExecute t (Cw20TransferFrom (sender info) (contract_address env) n)] else [])
      @ [WasmExecute t (Cw20Transfer (collector c) (n - reward))]"
    and "y' = (if tot = 0 then y else
        y\<lparr>POOL_INFO := put t \<lparr>reward_index = pool_index y t + reward * DEC_ONE div tot\<rparr> (POOL_INFO y)\<rparr>)"
    and "reward = n * portion div DEC_ONE - n * portion div DEC_ONE * protocol_fee c div DEC_ONE"
    and "rewards_inv y'"
proof -
  from assms(1) wl obtain t where t: "asset_of a = Cw20 t" "Cw20 t \<in> set wl"
    by (cases "asset_of a") (auto simp: deposit_step_def split: if_splits)
  define n where "n = asset_amount a"
  define p where "p = n * portion div DEC_ONE"
  define reward where "reward = p - p * protocol_fee c div DEC_ONE"
  have pool: "pool_of y (Cw20 t)\<lparr>reward_index := x\<rparr> = \<lparr>reward_index = x\<rparr>" for x by simp
  have "reward_index (pool_of y (Cw20 t)) = pool_index y t" by (simp add: pool_of_index)
  then have y': "y' = (if tot = 0 then y else
        y\<lparr>POOL_INFO := put t \<lparr>reward_index = pool_index y t + reward * DEC_ONE div tot\<rparr> (POOL_INFO y)\<rparr>)"
    and ms: "ms' = ms @ (if contract_address env \<noteq> sender info
        then [WasmExecute t (Cw20TransferFrom (sender info) (contract_address env) n)] else [])
      @ [WasmExecute t (Cw20Transfer (collector c) (n - reward))]" and le: "reward \<le> n"
    using assms(1) t
    by (auto simp: deposit_step_def Let_def cw_laws pool n_def p_def reward_def elim!: andThen_OkE split: if_splits)
  have "rewards_inv y'"
    using inv by (force simp: y' rewards_inv_def wf_put get_put pool_index_def split: option.splits)
  from that [OF t n_def le ms y' _ this] show thesis by (simp add: reward_def p_def)
qed

text \<open>
  Over a whole deposit: the messages are those of the assets in order, and the index of a token
  rises by no more than what is kept of it.
\<close>

lemma deposit_fold_Ok:
  assumes "foldM (deposit_step S env info c tot wl portion) as (y, ms) = Inr (y', ms')"
    and "rewards_inv y" and wl: "\<forall>a\<in>set wl. \<not> is_native_token a" and fee: "protocol_fee c \<le> DEC_ONE"
    and portion: "portion \<le> DEC_ONE"
  shows "rewards_inv y' \<and> y' = y\<lparr>POOL_INFO := POOL_INFO y'\<rparr>
    \<and> (\<forall>a\<in>set as. asset_of a \<in> set wl \<and> stakers_get portion (protocol_fee c) (asset_amount a) \<le> asset_amount a)
    \<and> ms' = ms @ deposit_messages (sender info) (contract_address env) (collector c) portion (protocol_fee c) as
    \<and> (\<forall>t. pool_index y t \<le> pool_index y' t
      \<and> (pool_index y' t - pool_index y t) * tot \<le> kept_for portion (protocol_fee c) t as * DEC_ONE)"
  using assms(1,2)
proof (induction as arbitrary: y ms)
  case (Cons a as)
  from Cons.prems(1) obtain y1 ms1 where step: "deposit_step S env info c tot wl portion a (y, ms) = Inr (y1, ms1)"
    and rest: "foldM (deposit_step S env info c tot wl portion) as (y1, ms1) = Inr (y', ms')" by (auto elim!: andThen_OkE)
  show ?case
  proof (rule deposit_step_Ok [OF step Cons.prems(2) wl fee portion])
    fix t n reward
    assume t: "asset_of a = Cw20 t" "Cw20 t \<in> set wl" and n: "n = asset_amount a" and le: "reward \<le> n"
      and ms1: "ms1 = ms @ (if contract_address env \<noteq> sender info
          then [WasmExecute t (Cw20TransferFrom (sender info) (contract_address env) n)] else [])
        @ [WasmExecute t (Cw20Transfer (collector c) (n - reward))]"
      and y1: "y1 = (if tot = 0 then y else
          y\<lparr>POOL_INFO := put t \<lparr>reward_index = pool_index y t + reward * DEC_ONE div tot\<rparr> (POOL_INFO y)\<rparr>)"
      and reward: "reward = n * portion div DEC_ONE - n * portion div DEC_ONE * protocol_fee c div DEC_ONE"
      and inv1: "rewards_inv y1"
    note ih = Cons.IH [OF rest inv1]
    have get: "stakers_get portion (protocol_fee c) (asset_amount a) = reward" by (simp add: stakers_get_def reward n)
    have wf: "wf_store (POOL_INFO y)" using Cons.prems(2) by (simp add: rewards_inv_def)
    have i1: "pool_index y1 u = pool_index y u + (if u = t \<and> tot \<noteq> 0 then reward * DEC_ONE div tot else 0)" for u
      by (simp add: y1 pool_index_def [of "y\<lparr>POOL_INFO := _\<rparr>"] get_put [OF wf]) (simp add: pool_index_def)
    have "pool_index y u \<le> pool_index y' u
      \<and> (pool_index y' u - pool_index y u) * tot \<le> kept_for portion (protocol_fee c) u (a # as) * DEC_ONE" for u
    proof -
      from ih have k: "pool_index y1 u \<le> pool_index y' u"
        "(pool_index y' u - pool_index y1 u) * tot \<le> kept_for portion (protocol_fee c) u as * DEC_ONE" by blast+
      have d: "kept_for portion (protocol_fee c) u (a # as) =
          (if u = t then reward else 0) + kept_for portion (protocol_fee c) u as"
        using t get by (auto simp: kept_for_def)
      show ?thesis
      proof (cases "u = t \<and> tot \<noteq> 0")
        case True
        define step where "step = reward * DEC_ONE div tot"
        have "step * tot \<le> reward * DEC_ONE" using floor_div_bounds(1) [of tot "reward * DEC_ONE"] True
          by (simp add: step_def mult.commute)
        moreover have "pool_index y' u - pool_index y u = (pool_index y' u - pool_index y1 u) + step"
          using i1 [of u] k(1) True by (simp add: step_def)
        ultimately have "(pool_index y' u - pool_index y u) * tot
            \<le> (reward + kept_for portion (protocol_fee c) u as) * DEC_ONE"
          using k(2) by (simp add: distrib_right)
        then show ?thesis using k(1) i1 [of u] True unfolding d by simp
      next
        case False
        then have same: "pool_index y1 u = pool_index y u" by (auto simp: i1)
        from k show ?thesis unfolding same d by (auto simp: distrib_right)
      qed
    qed
    moreover have "y' = y\<lparr>POOL_INFO := POOL_INFO y'\<rparr>" using ih by (simp add: y1 split: if_splits)
    moreover have "ms' = ms @ deposit_messages (sender info) (contract_address env) (collector c) portion
        (protocol_fee c) (a # as)"
      using ih t get n by (auto simp: deposit_messages_def ms1)
    ultimately show ?thesis using ih t le get n by simp
  qed
qed (simp add: kept_for_def deposit_messages_def)

lemma stakers_portion_value:
  "stakers_portion_of S n v = Inr p \<Longrightarrow> p = (if n = 0 then 0 else min (n * DEC_ONE div v) DEC_ONE)"
  by (auto simp: stakers_portion_of_def cw_laws elim!: andThen_OkE split: if_splits)

lemma stakers_portion_le: "stakers_portion_of S n v = Inr p \<Longrightarrow> p \<le> DEC_ONE"
  by (auto dest!: stakers_portion_value split: if_splits)

lemma fee_le_one: "yasset_inv y \<Longrightarrow> protocol_fee (CONFIG y) \<le> DEC_ONE"
  by (simp add: yasset_inv_def MAX_PROTOCOL_FEE_def DEC_ONE_def)

lemma deposit_rewards_Ok:
  assumes "deposit_rewards S D env y info as = Inr (y', r)" and inv: "yasset_inv y"
  shows "yasset_inv y' \<and> y' = y\<lparr>POOL_INFO := POOL_INFO y'\<rparr> \<and> (\<exists>vault_bond portion fee.
      query_vault_bond_amount D (vault_addr (CONFIG y)) = Ok vault_bond \<and> fee = protocol_fee (CONFIG y)
      \<and> portion = (if TOTAL_BOND_AMOUNT y = 0 then 0 else min (TOTAL_BOND_AMOUNT y * DEC_ONE div vault_bond) DEC_ONE)
      \<and> (\<forall>a\<in>set as. asset_of a \<in> set (WHITELISTED_ASSETS y) \<and> stakers_get portion fee (asset_amount a) \<le> asset_amount a)
      \<and> r = add_messages (deposit_messages (sender info) (contract_address env) (collector (CONFIG y)) portion fee as)
      \<and> (\<forall>t. pool_index y t \<le> pool_index y' t
        \<and> (pool_index y' t - pool_index y t) * TOTAL_BOND_AMOUNT y \<le> kept_for portion fee t as * DEC_ONE))"
proof -
  from assms(1) obtain v portion ms where v: "query_vault_bond_amount D (vault_addr (CONFIG y)) = Inr v"
    and portion: "stakers_portion_of S (TOTAL_BOND_AMOUNT y) v = Inr portion"
    and fold: "foldM (deposit_step S env info (CONFIG y) (TOTAL_BOND_AMOUNT y) (WHITELISTED_ASSETS y) portion) as (y, [])
      = Inr (y', ms)" and r: "r = add_messages ms"
    by (auto simp: deposit_rewards_def Let_def elim!: andThen_OkE)
  have wl: "\<forall>a\<in>set (WHITELISTED_ASSETS y). \<not> is_native_token a" and ri: "rewards_inv y" using inv by (simp_all add: yasset_inv_def)
  note f = deposit_fold_Ok [OF fold ri wl fee_le_one [OF inv] stakers_portion_le [OF portion]]
  then have "y' = y\<lparr>POOL_INFO := POOL_INFO y'\<rparr>" by simp
  then have "CONFIG y' = CONFIG y" "WHITELISTED_ASSETS y' = WHITELISTED_ASSETS y" "TOTAL_BOND_AMOUNT y' = TOTAL_BOND_AMOUNT y"
    "BOND_AMOUNTS y' = BOND_AMOUNTS y"
    by (metis yasset.select_convs yasset.surjective yasset.update_convs(4))+
  then have "yasset_inv y'" using inv f by (simp add: yasset_inv_def bond_sum_def)
  then show ?thesis
    by (intro conjI exI [of _ v] exI [of _ portion] exI [of _ "protocol_fee (CONFIG y)"])
      (use f v r stakers_portion_value [OF portion] in simp_all)
qed

text \<open>Every message.\<close>

lemma yasset_update_config_Ok:
  assumes "update_config D y info ow co fee = Inr (y', r)" and "yasset_inv y"
  shows "yasset_inv y' \<and> r = [] \<and> sender info = owner (CONFIG y) \<and> y' = y\<lparr>CONFIG := CONFIG y'\<rparr>"
proof -
  have c: "y' = y\<lparr>CONFIG := CONFIG y'\<rparr>" "protocol_fee (CONFIG y') \<le> MAX_PROTOCOL_FEE"
    and r: "r = []" "sender info = owner (CONFIG y)"
    using assms by (auto simp: update_config_def Let_def yasset_inv_def validate_protocol_fee_def
        elim!: andThen_OkE split: if_splits option.splits)
  have "yasset_inv (y\<lparr>CONFIG := CONFIG y'\<rparr>)"
    using assms(2) c(2) by (simp add: yasset_inv_def rewards_inv_def pool_index_def bond_sum_def)
  with c r show ?thesis by simp
qed

lemma hooks_Ok:
  "mint_xprism_claim_hook S D y info env a n = Inr (y', r) \<Longrightarrow> y' = y"
  "process_delegator_rewards D env y = Inr (y', r) \<Longrightarrow> y' = y"
  "luna_to_pyluna_hook D env y = Inr (y', r) \<Longrightarrow> y' = y"
  "deposit_minted_pyluna_hook S D y info env n m = Inr (y', r) \<Longrightarrow> y' = y"
  by (auto simp: mint_xprism_claim_hook_def process_delegator_rewards_def luna_to_pyluna_hook_def
      deposit_minted_pyluna_hook_def Let_def elim!: andThen_OkE split: if_splits)

lemma whitelist_Ok:
  assumes "whitelist_reward_asset y info a = Inr (y', r) \<or> remove_whitelisted_reward_asset y info a = Inr (y', r)"
    and "yasset_inv y"
  shows "yasset_inv y' \<and> r = [] \<and> sender info = owner (CONFIG y) \<and> y' = y\<lparr>WHITELISTED_ASSETS := WHITELISTED_ASSETS y'\<rparr>"
  using assms set_remove1_subset [of a "WHITELISTED_ASSETS y"]
  by (auto simp: whitelist_reward_asset_def remove_whitelisted_reward_asset_def yasset_inv_def rewards_inv_def
      pool_index_def bond_sum_def split: if_splits)

lemma receive_yasset_Ok:
  assumes "receive_cw20 S fb y info m = Inr (y', r)"
  shows "bond S y (cw20_sender m) (cw20_amount m) = Inr (y', r)" and "sender info = yluna_token (CONFIG y)"
  using assms by (auto simp: receive_cw20_def elim!: andThen_OkE split: cw20_hook_msg.splits if_splits)

lemma yasset_execute_inv:
  assumes run: "execute S D fb env y info m = Inr (y', r)" and inv: "yasset_inv y"
  shows "yasset_inv y'"
proof (cases m)
  case (Receive c)
  then show ?thesis using run yasset_bond_Ok [OF receive_yasset_Ok(1) inv] by simp
next
  case (Unbond a)
  then have u: "unbond S y info a = Inr (y', r)" using run by simp
  show ?thesis by (rule yasset_unbond_Ok [OF u inv])
qed (use run inv in \<open>auto elim!: andThen_OkE dest: hooks_Ok whitelist_Ok [OF disjI1] whitelist_Ok [OF disjI2] yasset_update_config_Ok
    yasset_claim_rewards_Ok(2) convert_and_claim_rewards_Ok(2) deposit_rewards_Ok\<close>)

end

lemma instantiate_yasset_inv: "instantiate_yasset D msg = Inr (y, r) \<Longrightarrow> yasset_inv y"
  by (auto simp: instantiate_yasset_def yasset_inv_def rewards_inv_def bond_sum_def validate_protocol_fee_def
      elim!: andThen_OkE split: if_splits)


section \<open>A concrete contract\<close>

text \<open>
  Alice has bonded 60 and Bob 40 of the 100 yLUNA; pLUNA rewards of half a token per yLUNA have
  accrued since they bonded, and a third asset was whitelisted later.
\<close>

definition yasset_example :: yasset where
  "yasset_example = \<lparr>
     CONFIG = \<lparr>owner = ''owner'', vault_addr = ''vault'', gov_addr = ''gov'', collector = ''collector'',
       protocol_fee = 10 ^ 17, cluna_token = ''cluna'', yluna_token = ''yluna'', pluna_token = ''pluna'',
       prism_token = ''prism'', xprism_token = ''xprism''\<rparr>,
     WHITELISTED_ASSETS = [Cw20 ''pluna'', Cw20 ''yluna'', Cw20 ''prism''],
     TOTAL_BOND_AMOUNT = 100,
     POOL_INFO = [(''pluna'', \<lparr>reward_index = 5 * 10 ^ 17\<rparr>), (''prism'', \<lparr>reward_index = 10 ^ 18\<rparr>)],
     REWARDS = [((''alice'', ''pluna''), \<lparr>index = 0, pending_reward = 3\<rparr>),
       ((''alice'', ''yluna''), \<lparr>index = 0, pending_reward = 0\<rparr>),
       ((''bob'', ''pluna''), \<lparr>index = 0, pending_reward = 0\<rparr>),
       ((''bob'', ''prism''), \<lparr>index = 0, pending_reward = 0\<rparr>)],
     BOND_AMOUNTS = [(''alice'', \<lparr>bond_amount = 60\<rparr>), (''bob'', \<lparr>bond_amount = 40\<rparr>)]\<rparr>"

definition yasset_chain :: deps where
  "yasset_chain = empty_deps\<lparr>q_vault_total_bond := (\<lambda>_. Inr 200)\<rparr>"

lemma yasset_example_inv: "yasset_inv yasset_example"
proof -
  have "rewards_inv yasset_example"
    unfolding rewards_inv_def
  proof (intro conjI allI impI)
    fix s k i assume "get (REWARDS yasset_example) (s, k) = Some i"
    then have "index i = 0" by (auto simp: yasset_example_def get_def split: if_splits)
    then show "index i \<le> pool_index yasset_example k" by simp
  qed (simp_all add: yasset_example_def wf_store_def)
  then show ?thesis
    by (simp add: yasset_inv_def yasset_example_def bond_sum_def wf_store_def MAX_PROTOCOL_FEE_def)
qed

lemmas yasset_eval = yasset_example_def yasset_chain_def get_def Let_def cw_eval compute_all_rewards_def
  compute_asset_rewards_def pool_of_def default_pool_info_def default_reward_info_def default_bond_info_def


section \<open>Books\<close>

inductive yasset_reach :: "cosmwasm \<Rightarrow> yasset \<Rightarrow> bool" for S where
  instantiated: "instantiate_yasset D msg = Ok (y, r) \<Longrightarrow> yasset_reach S y"
| executed: "yasset_reach S y \<Longrightarrow> execute S D fb env y info m = Ok (y', r) \<Longrightarrow> yasset_reach S y'"

lemma yasset_reach_inv:
  assumes "cosmwasm_std S" and "yasset_reach S y"
  shows "yasset_inv y"
  using assms(2)
proof induction
  case (instantiated D msg y r)
  then show ?case by (rule instantiate_yasset_inv)
next
  case (executed y D fb env info m y' r)
  then show ?case using cosmwasm_std.yasset_execute_inv [OF assms(1)] by blast
qed

text \<open>
  C8: the books of yLUNA staking are right in every reachable state: the bonded total is the sum of
  the stakers' bonds, a staker's index of an asset is never ahead of the asset's, only tokens are
  whitelisted, and the protocol fee is at most one half. In such a state the rewards of a staker
  can always be computed: the only possible failure is an overflow of the 128-bit amounts.
\<close>

theorem yasset_reachable_inv:
  assumes "cosmwasm_std S" and "yasset_reach S y"
  shows "yasset_inv y \<and> (\<forall>s b a e. compute_asset_rewards S y s b a = Inl e \<longrightarrow> e = Panic)"
  using yasset_reach_inv [OF assms] cosmwasm_std.compute_asset_rewards_no_err [OF assms(1)] by (auto simp: yasset_inv_def)

definition yasset_msg_example :: instantiate_msg where
  "yasset_msg_example = \<lparr>im_owner = ''owner'', im_vault = ''vault'', im_gov = ''gov'', im_collector = ''collector'',
     im_protocol_fee = 10 ^ 17, im_cluna_token = ''cluna'', im_yluna_token = ''yluna'', im_pluna_token = ''pluna'',
     im_prism_token = ''prism'', im_xprism_token = ''xprism''\<rparr>"

theorem yasset_reachable_inv_witness:
  "\<exists>y0 r0 y1 r1. instantiate_yasset yasset_chain yasset_msg_example = Ok (y0, r0)
    \<and> execute cosmwasm_0_16 yasset_chain (\<lambda>_. Inr Bond) (env_at 10) y0 (from_user ''yluna'')
        (Receive \<lparr>cw20_sender = ''alice'', cw20_amount = 60, cw20_msg = []\<rparr>) = Ok (y1, r1)
    \<and> TOTAL_BOND_AMOUNT y1 = 60 \<and> yasset_inv y1"
proof -
  obtain y0 r0 y1 r1 where run0: "instantiate_yasset yasset_chain yasset_msg_example = Ok (y0, r0)"
    and run1: "execute cosmwasm_0_16 yasset_chain (\<lambda>_. Inr Bond) (env_at 10) y0 (from_user ''yluna'')
        (Receive \<lparr>cw20_sender = ''alice'', cw20_amount = 60, cw20_msg = []\<rparr>) = Ok (y1, r1)"
    and t: "TOTAL_BOND_AMOUNT y1 = 60"
    by (simp add: instantiate_yasset_def yasset_msg_example_def validate_protocol_fee_def MAX_PROTOCOL_FEE_def
        receive_cw20_def bond_def yasset_eval)
  have "yasset_reach cosmwasm_0_16 y1" by (rule yasset_reach.executed [OF yasset_reach.instantiated [OF run0] run1])
  from yasset_reachable_inv [OF cosmwasm_0_16 this] run0 run1 t show ?thesis by blast
qed

text \<open>
  Bonds move only with the tokens. The bonded total after a call, plus the yLUNA an unbonding sends
  out, is the total before plus the yLUNA that a bonding brings in. A staker's bond grows only by a
  transfer in the staker's name reported by the yLUNA token, and shrinks only by the staker's own
  unbonding, which pays the difference to the staker and never exceeds the bond.
\<close>

lemma yasset_execute_bonds:
  assumes std: "cosmwasm_std S" and inv: "yasset_inv y" and run: "execute S D fb env y info m = Ok (y', r)"
  shows "TOTAL_BOND_AMOUNT y' + (case m of Unbond _ \<Rightarrow> outflow (yluna_token (CONFIG y)) r | _ \<Rightarrow> 0)
      = TOTAL_BOND_AMOUNT y + (case m of Receive c \<Rightarrow> cw20_amount c | _ \<Rightarrow> 0)
    \<and> (\<forall>u. bond_of y u < bond_of y' u \<longrightarrow> sender info = yluna_token (CONFIG y)
      \<and> (\<exists>c. m = Receive c \<and> cw20_sender c = u \<and> bond_of y' u = bond_of y u + cw20_amount c))
    \<and> (\<forall>u. bond_of y' u < bond_of y u \<longrightarrow> u = sender info \<and> (\<exists>a. m = Unbond a)
      \<and> r = [new_sub_msg (WasmExecute (yluna_token (CONFIG y)) (Cw20Transfer u (bond_of y u - bond_of y' u)))])"
proof (cases m)
  case (Receive c)
  with run have b: "receive_cw20 S fb y info c = Inr (y', r)" by simp
  from cosmwasm_std.yasset_bond_Ok [OF std cosmwasm_std.receive_yasset_Ok(1) [OF std b] inv] cosmwasm_std.receive_yasset_Ok(2) [OF std b] show ?thesis
    by (auto simp: Receive)
next
  case (Unbond a)
  with run have u: "unbond S y info a = Inr (y', r)" by simp
  show ?thesis
    by (rule cosmwasm_std.yasset_unbond_Ok [OF std u inv]) (auto simp: Unbond new_sub_msg_def split: if_splits)
next
  case ClaimRewards
  with run have "only_rewards y y'" using cosmwasm_std.yasset_claim_rewards_Ok(1) [OF std _ inv] by simp
  from only_rewards_same [OF this] show ?thesis by (simp add: ClaimRewards bond_of_def)
next
  case (ConvertAndClaimRewards a)
  with run have "only_rewards y y'"
    using cosmwasm_std.convert_and_claim_rewards_Ok(1) [OF std _ inv] by (auto elim!: andThen_OkE)
  from only_rewards_same [OF this] show ?thesis by (simp add: ConvertAndClaimRewards bond_of_def)
next
  case (DepositRewards as)
  with run have "y' = y\<lparr>POOL_INFO := POOL_INFO y'\<rparr>"
    using cosmwasm_std.deposit_rewards_Ok [OF std _ inv] by (auto elim!: andThen_OkE)
  then have "TOTAL_BOND_AMOUNT y' = TOTAL_BOND_AMOUNT y" "BOND_AMOUNTS y' = BOND_AMOUNTS y"
    by (metis yasset.select_convs yasset.surjective yasset.update_convs(4))+
  then show ?thesis by (simp add: DepositRewards bond_of_def)
next
  case (UpdateConfig ow co fee)
  with run have "y' = y\<lparr>CONFIG := CONFIG y'\<rparr>" using cosmwasm_std.yasset_update_config_Ok [OF std _ inv] by simp
  then have "TOTAL_BOND_AMOUNT y' = TOTAL_BOND_AMOUNT y" "BOND_AMOUNTS y' = BOND_AMOUNTS y"
    by (metis yasset.select_convs yasset.surjective yasset.update_convs(1))+
  then show ?thesis by (simp add: UpdateConfig bond_of_def)
qed (use run in \<open>auto simp: whitelist_reward_asset_def remove_whitelisted_reward_asset_def bond_of_def
    elim!: andThen_OkE dest: cosmwasm_std.hooks_Ok [OF std] split: if_splits\<close>)

lemma yasset_execute_token:
  assumes std: "cosmwasm_std S" and inv: "yasset_inv y" and run: "execute S D fb env y info m = Ok (y', r)"
  shows "yluna_token (CONFIG y') = yluna_token (CONFIG y)"
proof (cases m)
  case (Receive c)
  with run have b: "receive_cw20 S fb y info c = Inr (y', r)" by simp
  from cosmwasm_std.yasset_bond_Ok [OF std cosmwasm_std.receive_yasset_Ok(1) [OF std b] inv] show ?thesis by simp
next
  case (Unbond a)
  with run have u: "unbond S y info a = Inr (y', r)" by simp
  show ?thesis by (rule cosmwasm_std.yasset_unbond_Ok [OF std u inv]) simp
next
  case ClaimRewards
  with run show ?thesis using only_rewards_same(1) [OF cosmwasm_std.yasset_claim_rewards_Ok(1) [OF std _ inv]] by simp
next
  case (ConvertAndClaimRewards a)
  with run show ?thesis
    using only_rewards_same(1) [OF cosmwasm_std.convert_and_claim_rewards_Ok(1) [OF std _ inv]] by (auto elim!: andThen_OkE)
next
  case (DepositRewards as)
  with run have "y' = y\<lparr>POOL_INFO := POOL_INFO y'\<rparr>"
    using cosmwasm_std.deposit_rewards_Ok [OF std _ inv] by (auto elim!: andThen_OkE)
  then have "CONFIG y' = CONFIG y" by (metis yasset.select_convs(1) yasset.surjective yasset.update_convs(4))
  then show ?thesis by simp
next
  case (UpdateConfig ow co fee)
  with run have "update_config D y info ow co fee = Inr (y', r)" by simp
  then show ?thesis by (auto simp: update_config_def Let_def elim!: andThen_OkE split: if_splits option.splits)
qed (use run in \<open>auto simp: whitelist_reward_asset_def remove_whitelisted_reward_asset_def
    elim!: andThen_OkE dest: cosmwasm_std.hooks_Ok [OF std] split: if_splits\<close>)

lemma yasset_execute_bonds_witness:
  "\<exists>y' r. execute cosmwasm_0_16 yasset_chain (\<lambda>_. Inr Bond) (env_at 10) yasset_example (from_user ''alice'')
      (Unbond (Some 25)) = Ok (y', r)
    \<and> TOTAL_BOND_AMOUNT y' = 75 \<and> r = [new_sub_msg (WasmExecute ''yluna'' (Cw20Transfer ''alice'' 25))]"
proof -
  obtain y' r where run: "execute cosmwasm_0_16 yasset_chain (\<lambda>_. Inr Bond) (env_at 10) yasset_example (from_user ''alice'')
      (Unbond (Some 25)) = Ok (y', r)" and r: "r = [new_sub_msg (WasmExecute ''yluna'' (Cw20Transfer ''alice'' 25))]"
    by (simp add: unbond_def yasset_eval)
  from yasset_execute_bonds [OF cosmwasm_0_16 yasset_example_inv run]
  have "TOTAL_BOND_AMOUNT y' + 25 = 100" by (simp add: r yasset_example_def new_sub_msg_def)
  with run r show ?thesis by simp
qed


section \<open>Rewards\<close>

text \<open>
  C9: a deposit never credits the stakers with more than it brings in and leaves in the contract. Only
  whitelisted assets are taken. The messages are, asset by asset: the whole amount is pulled from
  the depositor into the contract, except when the contract deposits what it already has, and what
  the stakers do not get is sent on to the collector. The stakers get the bonded share of the vault's
  bond, at most all, less the protocol fee; the rise of a token's index times the bonded total is
  at most what is kept of it. The index never falls, and nothing but the indices changes.
\<close>

theorem yasset_deposit_backed:
  assumes std: "cosmwasm_std S" and inv: "yasset_inv y" and run: "deposit_rewards S D env y info assets = Ok (y', r)"
  shows "y' = y\<lparr>POOL_INFO := POOL_INFO y'\<rparr> \<and> (\<exists>vault_bond portion fee kept.
      query_vault_bond_amount D (vault_addr (CONFIG y)) = Ok vault_bond \<and> fee = protocol_fee (CONFIG y)
      \<and> portion = (if TOTAL_BOND_AMOUNT y = 0 then 0 else min (TOTAL_BOND_AMOUNT y * DEC_ONE div vault_bond) DEC_ONE)
      \<and> kept = (\<lambda>n. n * portion div DEC_ONE - n * portion div DEC_ONE * fee div DEC_ONE)
      \<and> (\<forall>a\<in>set assets. asset_of a \<in> set (WHITELISTED_ASSETS y) \<and> kept (asset_amount a) \<le> asset_amount a)
      \<and> r = add_messages (concat (map (\<lambda>a.
          (if sender info = contract_address env then []
           else [WasmExecute (as_bytes (asset_of a))
             (Cw20TransferFrom (sender info) (contract_address env) (asset_amount a))])
          @ [WasmExecute (as_bytes (asset_of a))
              (Cw20Transfer (collector (CONFIG y)) (asset_amount a - kept (asset_amount a)))]) assets))
      \<and> (\<forall>t. pool_index y t \<le> pool_index y' t \<and> (pool_index y' t - pool_index y t) * TOTAL_BOND_AMOUNT y
          \<le> (\<Sum>a\<leftarrow>assets. if asset_of a = Cw20 t then kept (asset_amount a) else 0) * DEC_ONE))"
  using cosmwasm_std.deposit_rewards_Ok [OF std run inv]
  unfolding deposit_messages_def kept_for_def stakers_get_def by blast

theorem yasset_deposit_backed_witness:
  "\<exists>y' r. deposit_rewards cosmwasm_0_16 yasset_chain (env_at 10) yasset_example (from_user ''donor'')
      [\<lparr>asset_of = Cw20 ''pluna'', asset_amount = 1000\<rparr>] = Ok (y', r)
    \<and> r = add_messages [WasmExecute ''pluna'' (Cw20TransferFrom ''donor'' ''self'' 1000),
        WasmExecute ''pluna'' (Cw20Transfer ''collector'' 550)]
    \<and> (pool_index y' ''pluna'' - 5 * 10 ^ 17) * 100 \<le> 450 * DEC_ONE"
proof -
  obtain y' r where run: "deposit_rewards cosmwasm_0_16 yasset_chain (env_at 10) yasset_example (from_user ''donor'')
      [\<lparr>asset_of = Cw20 ''pluna'', asset_amount = 1000\<rparr>] = Ok (y', r)"
    and r: "r = add_messages [WasmExecute ''pluna'' (Cw20TransferFrom ''donor'' ''self'' 1000),
        WasmExecute ''pluna'' (Cw20Transfer ''collector'' 550)]"
    by (simp add: deposit_rewards_def query_vault_bond_amount_def stakers_portion_of_def deposit_step_def yasset_eval)
  have ctx: "sender (from_user ''donor'') = ''donor''" "contract_address (env_at 10) = ''self''"
    "collector (CONFIG yasset_example) = ''collector''" "as_bytes (Cw20 ''pluna'') = ''pluna''"
    by (simp_all add: from_user_def env_at_def yasset_example_def)
  from yasset_deposit_backed [OF cosmwasm_0_16 yasset_example_inv run, unfolded ctx] obtain kept :: "nat \<Rightarrow> nat" where
    msgs: "r = add_messages [WasmExecute ''pluna'' (Cw20TransferFrom ''donor'' ''self'' 1000),
        WasmExecute ''pluna'' (Cw20Transfer ''collector'' (1000 - kept 1000))]" and le: "kept 1000 \<le> (1000 :: nat)"
    and idx: "(pool_index y' ''pluna'' - pool_index yasset_example ''pluna'') * TOTAL_BOND_AMOUNT yasset_example
        \<le> kept 1000 * DEC_ONE"
    by (elim conjE exE) (drule spec [where x = "''pluna''"], simp)
  have "kept 1000 = 450" using msgs r le by (simp add: add_messages_def new_sub_msg_def)
  moreover have "pool_index yasset_example ''pluna'' = 5 * 10 ^ 17" "TOTAL_BOND_AMOUNT yasset_example = 100"
    by (simp_all add: pool_index_def yasset_example_def get_def)
  ultimately show ?thesis using run r idx by auto
qed

text \<open>A staker's rewards depend on the pool of the asset and the staker's entry for it.\<close>

lemma compute_asset_rewards_same:
  assumes "POOL_INFO z = POOL_INFO y" and "get (REWARDS z) (s, as_bytes a) = get (REWARDS y) (s, as_bytes a)"
  shows "compute_asset_rewards S z s b a = compute_asset_rewards S y s b a"
  using assms by (simp add: compute_asset_rewards_def pool_of_def)

text \<open>The transfers that pay a list of rewards.\<close>

definition payouts :: "addr \<Rightarrow> asset list \<Rightarrow> cosmos_msg list" where
  "payouts s as = map (\<lambda>a. WasmExecute (as_bytes (asset_of a)) (Cw20Transfer s (asset_amount a)))
     (filter (\<lambda>a. asset_amount a \<noteq> 0) as)"

context cosmwasm_std
begin

lemma yasset_claim_fold_query:
  assumes "foldM (claim_step S s b) as (z, ms) = Inr (z', ms')" and "rewards_inv z"
    and "distinct (map as_bytes as)" and "POOL_INFO z = POOL_INFO y"
    and "\<forall>a\<in>set as. get (REWARDS z) (s, as_bytes a) = get (REWARDS y) (s, as_bytes a)"
  shows "(\<exists>items. mapM (\<lambda>a. andThen (compute_asset_rewards S y s b a) (\<lambda>info.
        Ok \<lparr>asset_of = a, asset_amount = pending_reward info\<rparr>)) as = (Inr items :: (std_error, _) result)
      \<and> ms' = ms @ payouts s items)
    \<and> (\<forall>k. k \<notin> as_bytes ` set as \<longrightarrow> get (REWARDS z') (s, k) = get (REWARDS z) (s, k))
    \<and> (\<forall>a\<in>set as. get (REWARDS z') (s, as_bytes a) = Some \<lparr>index = pool_index y (as_bytes a), pending_reward = 0\<rparr>)"
  using assms
proof (induction as arbitrary: z ms)
  case (Cons a as)
  from Cons.prems(1) obtain z1 ms1 where step: "claim_step S s b a (z, ms) = Inr (z1, ms1)"
    and rest: "foldM (claim_step S s b) as (z1, ms1) = Inr (z', ms')" by (auto elim!: andThen_OkE)
  show ?case
  proof (rule yasset_claim_step_Ok [OF step Cons.prems(2)])
    fix i
    assume i: "compute_asset_rewards S z s b a = Inr i"
      and z1: "z1 = z\<lparr>REWARDS := put (s, as_bytes a) (i\<lparr>pending_reward := 0\<rparr>) (REWARDS z)\<rparr>" and inv1: "rewards_inv z1"
      and ms1: "ms1 = ms @ (if pending_reward i = 0 then [] else [WasmExecute (as_bytes a) (Cw20Transfer s (pending_reward i))])"
    have wf: "wf_store (REWARDS z)" using Cons.prems(2) by (simp add: rewards_inv_def)
    have g: "get (REWARDS z1) (s, k) = (if k = as_bytes a then Some (i\<lparr>pending_reward := 0\<rparr>) else get (REWARDS z) (s, k))" for k
      by (simp add: z1 get_put [OF wf])
    have yi: "compute_asset_rewards S y s b a = Inr i"
      using i compute_asset_rewards_same [OF Cons.prems(4), of s a] Cons.prems(5) by simp
    have fresh: "as_bytes a \<notin> as_bytes ` set as" using Cons.prems(3) by simp
    have ih: "(\<exists>items. mapM (\<lambda>a. andThen (compute_asset_rewards S y s b a) (\<lambda>info.
        Ok \<lparr>asset_of = a, asset_amount = pending_reward info\<rparr>)) as = (Inr items :: (std_error, _) result)
      \<and> ms' = ms1 @ payouts s items)
    \<and> (\<forall>k. k \<notin> as_bytes ` set as \<longrightarrow> get (REWARDS z') (s, k) = get (REWARDS z1) (s, k))
    \<and> (\<forall>a\<in>set as. get (REWARDS z') (s, as_bytes a) = Some \<lparr>index = pool_index y (as_bytes a), pending_reward = 0\<rparr>)"
    proof (rule Cons.IH [OF rest inv1])
      show "\<forall>x\<in>set as. get (REWARDS z1) (s, as_bytes x) = get (REWARDS y) (s, as_bytes x)"
        using Cons.prems(5) fresh g by (metis image_eqI list.set_intros(2))
    qed (use Cons.prems(3,4) in \<open>simp_all add: z1\<close>)
    then obtain items where "mapM (\<lambda>a. andThen (compute_asset_rewards S y s b a) (\<lambda>info.
        Ok \<lparr>asset_of = a, asset_amount = pending_reward info\<rparr>)) as = (Inr items :: (std_error, _) result)"
      "ms' = ms1 @ payouts s items" by blast
    moreover have "i\<lparr>pending_reward := 0\<rparr> = \<lparr>index = pool_index y (as_bytes a), pending_reward = 0\<rparr>"
      using compute_asset_rewards_Ok(1) [OF yi] by simp
    then have "get (REWARDS z') (s, as_bytes a) = Some \<lparr>index = pool_index y (as_bytes a), pending_reward = 0\<rparr>"
      using ih fresh g by simp
    ultimately show ?thesis using ih g yi by (simp add: ms1 payouts_def)
  qed
qed (simp add: payouts_def)

text \<open>An entry that is up to date and empty stays worth nothing.\<close>

lemma empty_entry_worthless:
  assumes "compute_asset_rewards S y s b a = Inr i"
    and "get (REWARDS y) (s, as_bytes a) = None \<or>
      get (REWARDS y) (s, as_bytes a) = Some \<lparr>index = pool_index y (as_bytes a), pending_reward = 0\<rparr>"
  shows "i = \<lparr>index = pool_index y (as_bytes a), pending_reward = 0\<rparr>"
  using compute_asset_rewards_Ok [OF assms(1)] assms(2) by auto

end

text \<open>
  C28: a claim pays what the query shows, once. With no asset listed twice, a successful \<open>claim_rewards\<close>
  means that \<open>query_reward_info\<close> succeeds on the state before it, and the response transfers to the
  sender exactly the amounts it lists, one message per asset with a reward; a query after the claim
  shows no reward in any asset.
\<close>

theorem yasset_claim_matches_query:
  assumes std: "cosmwasm_std S" and inv: "yasset_inv y" and dist: "distinct (WHITELISTED_ASSETS y)"
    and run: "claim_rewards S y info = Ok (y', r)"
  shows "\<exists>q. query_reward_info S y (sender info) = Ok q \<and> map asset_of (rr_rewards q) = WHITELISTED_ASSETS y
    \<and> r = add_messages (payouts (sender info) (rr_rewards q))
    \<and> (\<forall>q'. query_reward_info S y' (sender info) = Ok q' \<longrightarrow> (\<forall>a\<in>set (rr_rewards q'). asset_amount a = 0))"
proof -
  let ?s = "sender info"
  from run obtain bi ms where bi: "get (BOND_AMOUNTS y) ?s = Some bi"
    and fold: "foldM (claim_step S ?s (bond_amount bi)) (WHITELISTED_ASSETS y) (y, []) = Inr (y', ms)"
    and r: "r = add_messages ms"
    by (auto simp: claim_rewards_def or_err_Ok_iff elim!: andThen_OkE)
  have "inj_on as_bytes (set (WHITELISTED_ASSETS y))" using inv by (auto simp: inj_on_def yasset_inv_def)
  then have "distinct (map as_bytes (WHITELISTED_ASSETS y))" using dist by (simp add: distinct_map)
  with cosmwasm_std.yasset_claim_fold_query [OF std fold, of y] inv obtain items where
    items: "mapM (\<lambda>a. andThen (compute_asset_rewards S y ?s (bond_amount bi) a) (\<lambda>info.
        Ok \<lparr>asset_of = a, asset_amount = pending_reward info\<rparr>)) (WHITELISTED_ASSETS y) = (Inr items :: (std_error, _) result)"
    and ms: "ms = payouts ?s items"
    and after: "\<forall>a\<in>set (WHITELISTED_ASSETS y).
      get (REWARDS y') (?s, as_bytes a) = Some \<lparr>index = pool_index y (as_bytes a), pending_reward = 0\<rparr>"
    by (auto simp: yasset_inv_def)
  have same: "POOL_INFO y' = POOL_INFO y" "WHITELISTED_ASSETS y' = WHITELISTED_ASSETS y"
    using only_rewards_same [OF cosmwasm_std.yasset_claim_rewards_Ok(1) [OF std run inv]] by simp_all
  have names: "map asset_of items = WHITELISTED_ASSETS y"
    using items unfolding mapM_Ok_iff
    by (induction rule: list_all2_induct) (auto elim!: andThen_OkE)
  have "asset_amount x = 0" if q': "query_reward_info S y' ?s = Inr q'" and x: "x \<in> set (rr_rewards q')" for q' x
  proof -
    from q' obtain b' rs where rs: "rr_rewards q' = rs"
      and l: "list_all2 (\<lambda>a x. andThen (compute_asset_rewards S y' ?s b' a) (\<lambda>info.
        Ok \<lparr>asset_of = a, asset_amount = pending_reward info\<rparr>) = (Inr x :: (std_error, _) result)) (WHITELISTED_ASSETS y) rs"
      by (auto simp: query_reward_info_def mapM_Ok_iff same elim!: andThen_OkE)
    from x obtain n where n: "n < length rs" "x = rs ! n" unfolding rs by (auto simp: in_set_conv_nth)
    define a where "a = WHITELISTED_ASSETS y ! n"
    have a: "a \<in> set (WHITELISTED_ASSETS y)" using list_all2_lengthD [OF l] n(1) by (simp add: a_def)
    from list_all2_nthD2 [OF l n(1)] obtain i where i: "compute_asset_rewards S y' ?s b' a = Inr i"
      and xa: "asset_amount x = pending_reward i" by (auto simp: a_def n(2) elim!: andThen_OkE) (metis asset.select_convs(2))
    have "pool_index y' (as_bytes a) = pool_index y (as_bytes a)" by (simp add: pool_index_def same)
    then have "i = \<lparr>index = pool_index y' (as_bytes a), pending_reward = 0\<rparr>"
      using cosmwasm_std.empty_entry_worthless [OF std i] after a by simp
    then show ?thesis by (simp add: xa)
  qed
  then show ?thesis
    by (intro exI [of _ "\<lparr>rr_staker_addr = ?s, rr_staked_amount = bond_amount bi, rr_rewards = items\<rparr>"])
      (auto simp: query_reward_info_def bi items r ms names)
qed

theorem yasset_claim_matches_query_witness:
  "\<exists>y' r q. claim_rewards cosmwasm_0_16 yasset_example (from_user ''alice'') = Ok (y', r)
    \<and> query_reward_info cosmwasm_0_16 yasset_example ''alice'' = Ok q
    \<and> r = add_messages (payouts ''alice'' (rr_rewards q))
    \<and> r = [new_sub_msg (WasmExecute ''pluna'' (Cw20Transfer ''alice'' 33))]"
proof -
  obtain y' r where run: "claim_rewards cosmwasm_0_16 yasset_example (from_user ''alice'') = Ok (y', r)"
    and r: "r = [new_sub_msg (WasmExecute ''pluna'' (Cw20Transfer ''alice'' 33))]"
    by (simp add: claim_rewards_def claim_step_def yasset_eval)
  have "distinct (WHITELISTED_ASSETS yasset_example)" by (simp add: yasset_example_def)
  from yasset_claim_matches_query [OF cosmwasm_0_16 yasset_example_inv this run] obtain q where
    "query_reward_info cosmwasm_0_16 yasset_example ''alice'' = Ok q" "r = add_messages (payouts ''alice'' (rr_rewards q))"
    by (auto simp: from_user_def)
  with run r show ?thesis by blast
qed

text \<open>
  An asset that is whitelisted after a staker bonded pays that staker nothing for the time before
  the staker's next call. As long as the staker has no reward entry for a token, a claim sends none of it, whatever the
  bond and however far the index of the token has risen; the claim then sets the staker's index to
  the current one.
\<close>

lemma yasset_late_asset_pays_nothing:
  assumes std: "cosmwasm_std S" and inv: "yasset_inv y" and none: "get (REWARDS y) (sender info, t) = None"
    and run: "claim_rewards S y info = Ok (y', r)" and t: "Cw20 t \<in> set (WHITELISTED_ASSETS y)"
  shows "outflow t r = 0 \<and> get (REWARDS y') (sender info, t) = Some \<lparr>index = pool_index y t, pending_reward = 0\<rparr>"
proof -
  let ?s = "sender info"
  let ?e = "\<lparr>index = pool_index y t, pending_reward = 0\<rparr>"
  let ?P = "\<lambda>(z, ms). rewards_inv z \<and> POOL_INFO z = POOL_INFO y \<and> get (REWARDS z) (?s, t) \<in> {None, Some ?e}
    \<and> (\<Sum>m\<leftarrow>ms. token_out t m) = 0"
  from run obtain b ms where fold: "foldM (claim_step S ?s b) (WHITELISTED_ASSETS y) (y, []) = Inr (y', ms)"
    and r: "r = add_messages ms"
    by (auto simp: claim_rewards_def elim!: andThen_OkE)
  have step: "?P (z', ms') \<and> (as_bytes a = t \<longrightarrow> get (REWARDS z') (?s, t) = Some ?e)
      \<and> (get (REWARDS z) (?s, t) = Some ?e \<longrightarrow> get (REWARDS z') (?s, t) = Some ?e)"
    if P: "?P (z, ms)" and s: "claim_step S ?s b a (z, ms) = Inr (z', ms')" for a z ms z' ms'
  proof (rule cosmwasm_std.yasset_claim_step_Ok [OF std s])
    show "rewards_inv z" using P by simp
    fix i
    assume i: "compute_asset_rewards S z ?s b a = Inr i"
      and z': "z' = z\<lparr>REWARDS := put (?s, as_bytes a) (i\<lparr>pending_reward := 0\<rparr>) (REWARDS z)\<rparr>" and ri: "rewards_inv z'"
      and ms': "ms' = ms @ (if pending_reward i = 0 then [] else [WasmExecute (as_bytes a) (Cw20Transfer ?s (pending_reward i))])"
    have wf: "wf_store (REWARDS z)" using P by (simp add: rewards_inv_def)
    have g: "get (REWARDS z') (?s, t) = (if as_bytes a = t then Some (i\<lparr>pending_reward := 0\<rparr>) else get (REWARDS z) (?s, t))"
      by (auto simp: z' get_put [OF wf])
    have "pool_index z t = pool_index y t" using P by (simp add: pool_index_def)
    then have "i = ?e" if "as_bytes a = t" using cosmwasm_std.empty_entry_worthless [OF std i] P that by auto
    then show ?thesis using P ri g ms' by (auto simp: z')
  qed
  have all: "?P (z', ms') \<and> (\<forall>a\<in>set as. as_bytes a = t \<longrightarrow> get (REWARDS z') (?s, t) = Some ?e)
      \<and> (get (REWARDS z) (?s, t) = Some ?e \<longrightarrow> get (REWARDS z') (?s, t) = Some ?e)"
    if "foldM (claim_step S ?s b) as (z, ms) = Inr (z', ms')" and "?P (z, ms)" for as z ms z' ms'
    using that
  proof (induction as arbitrary: z ms)
    case (Cons a as)
    then obtain z1 ms1 where s: "claim_step S ?s b a (z, ms) = Inr (z1, ms1)"
      and rest: "foldM (claim_step S ?s b) as (z1, ms1) = Inr (z', ms')" by (auto elim!: andThen_OkE)
    from step [OF Cons.prems(2) s] Cons.IH [OF rest] show ?case by auto
  qed simp
  have "?P (y, [])" using inv none by (simp add: yasset_inv_def)
  from all [OF fold this] t show ?thesis by (force simp: r)
qed

lemma yasset_late_asset_pays_nothing_witness:
  "\<exists>y' r. claim_rewards cosmwasm_0_16 yasset_example (from_user ''alice'') = Ok (y', r)
    \<and> pool_index yasset_example ''prism'' * bond_of yasset_example ''alice'' = 60 * DEC_ONE \<and> outflow ''prism'' r = 0"
proof -
  obtain y' r where run: "claim_rewards cosmwasm_0_16 yasset_example (from_user ''alice'') = Ok (y', r)"
    by (simp add: claim_rewards_def claim_step_def yasset_eval)
  have none: "get (REWARDS yasset_example) (sender (from_user ''alice''), ''prism'') = None"
    and t: "Cw20 ''prism'' \<in> set (WHITELISTED_ASSETS yasset_example)"
    and n: "pool_index yasset_example ''prism'' * bond_of yasset_example ''alice'' = 60 * DEC_ONE"
    by (simp_all add: yasset_example_def get_def from_user_def pool_index_def bond_of_def DEC_ONE_def)
  from yasset_late_asset_pays_nothing [OF cosmwasm_0_16 yasset_example_inv none run t] run n show ?thesis by blast
qed

text \<open>What a conversion does with the rewards of one asset: a transfer, an allowance and a swap, or nothing.\<close>

definition convert_msgs :: "config \<Rightarrow> addr \<Rightarrow> asset_info \<Rightarrow> addr \<Rightarrow> asset_info \<Rightarrow> asset \<Rightarrow> cosmos_msg list" where
  "convert_msgs c s ca ct d x =
     (if asset_amount x = 0 \<or> asset_of x \<noteq> ca \<and> asset_of x = d then []
      else if asset_of x = ca then [WasmExecute ct (Cw20Transfer s (asset_amount x))]
      else [WasmExecute (as_bytes (asset_of x)) (Cw20IncreaseAllowance (collector c) (asset_amount x))])"

definition to_swap :: "asset_info \<Rightarrow> asset_info \<Rightarrow> asset \<Rightarrow> bool" where
  "to_swap ca d x \<longleftrightarrow> asset_amount x \<noteq> 0 \<and> asset_of x \<noteq> ca \<and> asset_of x \<noteq> d"

context cosmwasm_std
begin

lemma convert_fold_query:
  assumes "foldM (convert_step S c s b ca ct d) as (z, ms, sw) = Inr (z', ms', sw')" and "rewards_inv z"
    and "distinct (map as_bytes as)" and "POOL_INFO z = POOL_INFO y"
    and "\<forall>a\<in>set as. get (REWARDS z) (s, as_bytes a) = get (REWARDS y) (s, as_bytes a)"
  shows "(\<exists>items. mapM (\<lambda>a. andThen (compute_asset_rewards S y s b a) (\<lambda>info.
        Ok \<lparr>asset_of = a, asset_amount = pending_reward info\<rparr>)) as = (Inr items :: (std_error, _) result)
      \<and> ms' = ms @ concat (map (convert_msgs c s ca ct d) items) \<and> sw' = sw @ filter (to_swap ca d) items)
    \<and> (\<forall>k. k \<notin> as_bytes ` set as \<longrightarrow> get (REWARDS z') (s, k) = get (REWARDS z) (s, k))
    \<and> (\<forall>a\<in>set as. \<forall>i. compute_asset_rewards S y s b a = Inr i \<longrightarrow> get (REWARDS z') (s, as_bytes a) =
        (if pending_reward i = 0 then get (REWARDS y) (s, as_bytes a)
         else Some \<lparr>index = pool_index y (as_bytes a), pending_reward = 0\<rparr>))"
  using assms
proof (induction as arbitrary: z ms sw)
  case (Cons a as)
  from Cons.prems(1) obtain z1 ms1 sw1 where step: "convert_step S c s b ca ct d a (z, ms, sw) = Inr (z1, ms1, sw1)"
    and rest: "foldM (convert_step S c s b ca ct d) as (z1, ms1, sw1) = Inr (z', ms', sw')" by (auto elim!: andThen_OkE)
  show ?case
  proof (rule convert_step_Ok [OF step Cons.prems(2)])
    fix i :: reward_info
    let ?x = "\<lparr>asset_of = a, asset_amount = pending_reward i\<rparr>"
    assume i: "compute_asset_rewards S z s b a = Inr i" and inv1: "rewards_inv z1"
      and z1: "z1 = (if pending_reward i = 0 then z
        else z\<lparr>REWARDS := put (s, as_bytes a) (i\<lparr>pending_reward := 0\<rparr>) (REWARDS z)\<rparr>)"
      and ms1: "ms1 = ms @ (if pending_reward i = 0 \<or> a \<noteq> ca \<and> a = d then []
        else if a = ca then [WasmExecute ct (Cw20Transfer s (pending_reward i))]
        else [WasmExecute (as_bytes a) (Cw20IncreaseAllowance (collector c) (pending_reward i))])"
      and sw1: "sw1 = sw @ (if pending_reward i = 0 \<or> a = ca \<or> a = d then []
        else [\<lparr>asset_of = a, asset_amount = pending_reward i\<rparr>])"
    have wf: "wf_store (REWARDS z)" using Cons.prems(2) by (simp add: rewards_inv_def)
    have g: "get (REWARDS z1) (s, k) = (if k = as_bytes a \<and> pending_reward i \<noteq> 0 then Some (i\<lparr>pending_reward := 0\<rparr>)
        else get (REWARDS z) (s, k))" for k by (simp add: z1 get_put [OF wf])
    have yi: "compute_asset_rewards S y s b a = Inr i"
      using i compute_asset_rewards_same [OF Cons.prems(4), of s a] Cons.prems(5) by simp
    have fresh: "as_bytes a \<notin> as_bytes ` set as" using Cons.prems(3) by simp
    have ih: "(\<exists>items. mapM (\<lambda>a. andThen (compute_asset_rewards S y s b a) (\<lambda>info.
        Ok \<lparr>asset_of = a, asset_amount = pending_reward info\<rparr>)) as = (Inr items :: (std_error, _) result)
      \<and> ms' = ms1 @ concat (map (convert_msgs c s ca ct d) items) \<and> sw' = sw1 @ filter (to_swap ca d) items)
    \<and> (\<forall>k. k \<notin> as_bytes ` set as \<longrightarrow> get (REWARDS z') (s, k) = get (REWARDS z1) (s, k))
    \<and> (\<forall>a\<in>set as. \<forall>i. compute_asset_rewards S y s b a = Inr i \<longrightarrow> get (REWARDS z') (s, as_bytes a) =
        (if pending_reward i = 0 then get (REWARDS y) (s, as_bytes a)
         else Some \<lparr>index = pool_index y (as_bytes a), pending_reward = 0\<rparr>))"
    proof (rule Cons.IH [OF rest inv1])
      show "\<forall>x\<in>set as. get (REWARDS z1) (s, as_bytes x) = get (REWARDS y) (s, as_bytes x)"
        using Cons.prems(5) fresh g by (metis image_eqI list.set_intros(2))
    qed (use Cons.prems(3,4) in \<open>simp_all add: z1\<close>)
    then obtain items where it: "mapM (\<lambda>a. andThen (compute_asset_rewards S y s b a) (\<lambda>info.
        Ok \<lparr>asset_of = a, asset_amount = pending_reward info\<rparr>)) as = (Inr items :: (std_error, _) result)"
      "ms' = ms1 @ concat (map (convert_msgs c s ca ct d) items)" "sw' = sw1 @ filter (to_swap ca d) items" by blast
    have "i\<lparr>pending_reward := 0\<rparr> = \<lparr>index = pool_index y (as_bytes a), pending_reward = 0\<rparr>"
      using compute_asset_rewards_Ok(1) [OF yi] by simp
    then have "get (REWARDS z') (s, as_bytes a) = (if pending_reward i = 0 then get (REWARDS y) (s, as_bytes a)
         else Some \<lparr>index = pool_index y (as_bytes a), pending_reward = 0\<rparr>)"
      using ih fresh g Cons.prems(5) by simp
    moreover have "\<exists>items. mapM (\<lambda>a. andThen (compute_asset_rewards S y s b a) (\<lambda>info.
        Ok \<lparr>asset_of = a, asset_amount = pending_reward info\<rparr>)) (a # as) = (Inr items :: (std_error, _) result)
      \<and> ms' = ms @ concat (map (convert_msgs c s ca ct d) items) \<and> sw' = sw @ filter (to_swap ca d) items"
      by (intro exI [of _ "?x # items"]) (simp add: it yi ms1 sw1 convert_msgs_def to_swap_def)
    ultimately show ?thesis using ih g yi by simp
  qed
qed simp

end

text \<open>
  What \<open>convert_and_claim_rewards\<close> does with the rewards that the query shows (no asset listed
  twice). Rewards in the claim asset are sent to the sender. The others are handed to the collector
  in one \<open>ConvertAndSend\<close>, except those in the asset that is swapped to: that asset is PRISM when the
  claim asset is xPRISM, and then the PRISM rewards are neither sent, nor swapped, nor minted, but the staker's entry is
  reset like all others.
\<close>

lemma yasset_convert_outcome:
  assumes std: "cosmwasm_std S" and inv: "yasset_inv y" and distinct: "distinct (WHITELISTED_ASSETS y)"
    and run: "convert_and_claim_rewards S D env y info (Cw20 c) = Ok (y', r)"
  shows "\<exists>q dest swaps. query_reward_info S y (sender info) = Ok q
    \<and> dest = (if c = xprism_token (CONFIG y) then prism_token (CONFIG y) else c)
    \<and> swaps = filter (\<lambda>x. asset_amount x \<noteq> 0 \<and> asset_of x \<noteq> Cw20 c \<and> asset_of x \<noteq> Cw20 dest) (rr_rewards q)
    \<and> (\<forall>t. outflow t r = (\<Sum>x\<leftarrow>rr_rewards q. if t = c \<and> asset_of x = Cw20 c then asset_amount x else 0))
    \<and> (swaps \<noteq> [] \<longrightarrow> new_sub_msg (WasmExecute (collector (CONFIG y)) (CollectorConvertAndSend swaps
        (Some (if c = xprism_token (CONFIG y) then contract_address env else sender info)) (Cw20 dest))) \<in> set r)
    \<and> (\<forall>x\<in>set (rr_rewards q). asset_amount x \<noteq> 0 \<longrightarrow> get (REWARDS y') (sender info, as_bytes (asset_of x))
        = Some \<lparr>index = pool_index y (as_bytes (asset_of x)), pending_reward = 0\<rparr>)"
proof -
  let ?s = "sender info"
  let ?cf = "CONFIG y"
  define dest where "dest = (if c = xprism_token ?cf then prism_token ?cf else c)"
  define recv where "recv = (if c = xprism_token ?cf then contract_address env else ?s)"
  from run obtain bi where bi: "get (BOND_AMOUNTS y) ?s = Some bi" and vc: "verify_claim_asset ?cf (Cw20 c) = Inr c"
    by (auto simp: convert_and_claim_rewards_def verify_claim_asset_def Let_def or_err_Ok_iff elim!: andThen_OkE split: if_splits)
  have choice: "(if c = xprism_token ?cf then (Cw20 (prism_token ?cf), contract_address env) else (Cw20 c, ?s)) = (Cw20 dest, recv)"
    by (simp add: dest_def recv_def)
  from run obtain ms sw where fold: "foldM (convert_step S ?cf ?s (bond_amount bi) (Cw20 c) c (Cw20 dest)) (WHITELISTED_ASSETS y) (y, [], [])
        = Inr (y', ms, sw)"
    and r: "if sw = [] then r = add_messages ms
      else if recv = contract_address env then \<exists>n. r = add_messages (ms
        @ [WasmExecute (collector ?cf) (CollectorConvertAndSend sw (Some recv) (Cw20 dest)),
           WasmExecute (contract_address env) (StakingMintXprismClaimHook ?s n)])
      else r = add_messages (ms @ [WasmExecute (collector ?cf) (CollectorConvertAndSend sw (Some recv) (Cw20 dest))])"
    unfolding convert_and_claim_rewards_def bi vc Let_def or_err.simps andThen.simps choice case_prod_conv
    by (elim andThen_OkE) (clarsimp split: if_splits elim!: andThen_OkE, blast)+
  have "inj_on as_bytes (set (WHITELISTED_ASSETS y))" using inv by (auto simp: inj_on_def yasset_inv_def)
  then have "distinct (map as_bytes (WHITELISTED_ASSETS y))" using distinct by (simp add: distinct_map)
  with cosmwasm_std.convert_fold_query [OF std fold, of y] inv obtain items where
    items: "mapM (\<lambda>a. andThen (compute_asset_rewards S y ?s (bond_amount bi) a) (\<lambda>info.
        Ok \<lparr>asset_of = a, asset_amount = pending_reward info\<rparr>)) (WHITELISTED_ASSETS y) = (Inr items :: (std_error, _) result)"
    and ms: "ms = concat (map (convert_msgs ?cf ?s (Cw20 c) c (Cw20 dest)) items)"
    and sw: "sw = filter (to_swap (Cw20 c) (Cw20 dest)) items"
    and after: "\<forall>a\<in>set (WHITELISTED_ASSETS y). \<forall>i. compute_asset_rewards S y ?s (bond_amount bi) a = Inr i \<longrightarrow>
        get (REWARDS y') (?s, as_bytes a) = (if pending_reward i = 0 then get (REWARDS y) (?s, as_bytes a)
         else Some \<lparr>index = pool_index y (as_bytes a), pending_reward = 0\<rparr>)"
    by (auto simp: yasset_inv_def)
  have out: "(\<Sum>m\<leftarrow>concat (map (convert_msgs ?cf ?s (Cw20 c) c (Cw20 dest)) xs). token_out t m)
      = (\<Sum>x\<leftarrow>xs. if t = c \<and> asset_of x = Cw20 c then asset_amount x else 0)" for t xs
    by (induction xs) (auto simp: convert_msgs_def)
  have "get (REWARDS y') (?s, as_bytes (asset_of x)) = Some \<lparr>index = pool_index y (as_bytes (asset_of x)), pending_reward = 0\<rparr>"
    if x: "x \<in> set items" "asset_amount x \<noteq> 0" for x
  proof -
    from x(1) obtain n where n: "n < length items" "x = items ! n" by (auto simp: in_set_conv_nth)
    note l = items [unfolded mapM_Ok_iff]
    have a: "WHITELISTED_ASSETS y ! n \<in> set (WHITELISTED_ASSETS y)" using list_all2_lengthD [OF l] n(1) by simp
    from list_all2_nthD2 [OF l n(1)] obtain i where
      "compute_asset_rewards S y ?s (bond_amount bi) (WHITELISTED_ASSETS y ! n) = Inr i"
      "x = \<lparr>asset_of = WHITELISTED_ASSETS y ! n, asset_amount = pending_reward i\<rparr>"
      by (auto simp: n(2) elim!: andThen_OkE)
    with after a x(2) show ?thesis by auto
  qed
  moreover have "outflow t r = (\<Sum>x\<leftarrow>items. if t = c \<and> asset_of x = Cw20 c then asset_amount x else 0)" for t
    using r by (auto simp: out [symmetric] ms split: if_splits)
  moreover have "sw \<noteq> [] \<Longrightarrow> new_sub_msg (WasmExecute (collector ?cf) (CollectorConvertAndSend sw (Some recv) (Cw20 dest))) \<in> set r"
    using r by (auto simp: add_messages_def split: if_splits)
  ultimately show ?thesis
    by (intro exI [of _ "\<lparr>rr_staker_addr = ?s, rr_staked_amount = bond_amount bi, rr_rewards = items\<rparr>"]
        exI [of _ dest] exI [of _ sw])
      (simp add: query_reward_info_def bi items dest_def recv_def sw to_swap_def [abs_def])
qed

lemma yasset_convert_outcome_witness:
  "\<exists>y' r. convert_and_claim_rewards cosmwasm_0_16 yasset_chain (env_at 10) yasset_example (from_user ''bob'') (Cw20 ''xprism'')
      = Ok (y', r)
    \<and> query_reward_info cosmwasm_0_16 yasset_example ''bob'' = Ok \<lparr>rr_staker_addr = ''bob'', rr_staked_amount = 40,
        rr_rewards = [\<lparr>asset_of = Cw20 ''pluna'', asset_amount = 20\<rparr>, \<lparr>asset_of = Cw20 ''yluna'', asset_amount = 0\<rparr>,
          \<lparr>asset_of = Cw20 ''prism'', asset_amount = 40\<rparr>]\<rparr>
    \<and> outflow ''prism'' r = 0
    \<and> get (REWARDS y') (''bob'', ''prism'') = Some \<lparr>index = 10 ^ 18, pending_reward = 0\<rparr>"
proof -
  obtain y' r where run: "convert_and_claim_rewards cosmwasm_0_16 yasset_chain (env_at 10) yasset_example (from_user ''bob'')
      (Cw20 ''xprism'') = Ok (y', r)"
    by (simp add: convert_and_claim_rewards_def verify_claim_asset_def convert_step_def yasset_eval)
  have q: "query_reward_info cosmwasm_0_16 yasset_example ''bob'' = Ok \<lparr>rr_staker_addr = ''bob'', rr_staked_amount = 40,
        rr_rewards = [\<lparr>asset_of = Cw20 ''pluna'', asset_amount = 20\<rparr>, \<lparr>asset_of = Cw20 ''yluna'', asset_amount = 0\<rparr>,
          \<lparr>asset_of = Cw20 ''prism'', asset_amount = 40\<rparr>]\<rparr>"
    by (simp add: query_reward_info_def yasset_eval)
  have p: "sender (from_user ''bob'') = ''bob''" "pool_index yasset_example ''prism'' = 10 ^ 18"
    by (simp_all add: from_user_def pool_index_def yasset_example_def get_def)
  have "distinct (WHITELISTED_ASSETS yasset_example)" by (simp add: yasset_example_def)
  from yasset_convert_outcome [OF cosmwasm_0_16 yasset_example_inv this run]
  have "outflow ''prism'' r = 0 \<and> get (REWARDS y') (''bob'', ''prism'') = Some \<lparr>index = 10 ^ 18, pending_reward = 0\<rparr>"
    unfolding p q by (elim exE conjE) (auto simp: p)
  with run q show ?thesis by blast
qed

end
