(* ===== verification/Farming.thy ===== *)
theory Farming
  imports Launch_Properties Yasset_Properties
begin

text \<open>
  The launch pool (\<open>contracts/prism-launch-pool\<close>) and yLUNA staking (\<open>contracts/prism-yasset-staking\<close>) together. The pool keeps no
  yLUNA: it stakes what farmers bond and takes it back when they unbond. A transaction on the pool executes the
  messages of its response on the staking contract and is undone as a whole when one of them fails. Other accounts use
  the staking contract at any time.
\<close>


section \<open>Definitions\<close>

record farm =
  farm_pool :: lpool
  farm_staking :: yasset

text \<open>
  What a message of the pool at address \<open>pa\<close> does to the staking contract at address \<open>sa\<close>. A \<open>Cw20Send\<close> moves the tokens and
  makes the token call the hook of the receiver, with \<open>hook\<close> as the encoded \<open>Bond\<close>.
\<close>

definition deliver_to_staking ::
  "cosmwasm \<Rightarrow> deps \<Rightarrow> (binary \<Rightarrow> std_error + Yasset_Staking.cw20_hook_msg) \<Rightarrow> env \<Rightarrow> addr \<Rightarrow> addr \<Rightarrow> binary \<Rightarrow> sub_msg \<Rightarrow> yasset
    \<Rightarrow> (unit, yasset) result" where
  "deliver_to_staking S D fb env pa sa hook m y =
     (let call = (\<lambda>who msg. andThen (map_err (\<lambda>_. ()) (Yasset_Staking.execute S D fb (env\<lparr>contract_address := sa\<rparr>) y
            \<lparr>sender = who, funds = []\<rparr> msg)) (\<lambda>(y, _). Ok y))
     in case sub_body m of
       WasmExecute t (Cw20Send c n StakingBond) \<Rightarrow>
         if c = sa then call t (Yasset_Staking.Receive \<lparr>cw20_sender = pa, cw20_amount = n, cw20_msg = hook\<rparr>) else Ok y
     | WasmExecute c (StakingUnbond a) \<Rightarrow> if c = sa then call pa (Yasset_Staking.Unbond a) else Ok y
     | WasmExecute c StakingClaimRewards \<Rightarrow> if c = sa then call pa Yasset_Staking.ClaimRewards else Ok y
     | _ \<Rightarrow> Ok y)"

definition pool_tx ::
  "cosmwasm \<Rightarrow> deps \<Rightarrow> (binary \<Rightarrow> std_error + Launch_Pool.cw20_hook_msg) \<Rightarrow> (binary \<Rightarrow> std_error + Yasset_Staking.cw20_hook_msg)
    \<Rightarrow> env \<Rightarrow> addr \<Rightarrow> addr \<Rightarrow> binary \<Rightarrow> message_info \<Rightarrow> Launch_Pool.execute_msg \<Rightarrow> farm \<Rightarrow> (unit, farm) result" where
  "pool_tx S D fbp fbs env pa sa hook info m f =
     andThen (map_err (\<lambda>_. ()) (Launch_Pool.execute S D fbp (env\<lparr>contract_address := pa\<rparr>) (farm_pool f) info m)) (\<lambda>(l, r).
     andThen (foldM (deliver_to_staking S D fbs env pa sa hook) r (farm_staking f)) (\<lambda>y. Ok \<lparr>farm_pool = l, farm_staking = y\<rparr>))"

text \<open>
  The states of the two contracts. The pool is instantiated with the address of a staking contract for the same token, in
  which nothing is staked in its name yet. Calls on the staking contract by others neither come from the pool nor are
  transfers in its name.
\<close>

inductive farm_reach :: "cosmwasm \<Rightarrow> addr \<Rightarrow> addr \<Rightarrow> farm \<Rightarrow> bool" for S pa sa where
  started: "instantiate_lpool D msg = Ok (l, r) \<Longrightarrow> yasset_reach S y \<Longrightarrow> bond_of y pa = 0
    \<Longrightarrow> Launch_Pool.yluna_staking (Launch_Pool.CONFIG l) = sa
    \<Longrightarrow> Launch_Pool.yluna_token (Launch_Pool.CONFIG l) = Yasset_Staking.yluna_token (Yasset_Staking.CONFIG y)
    \<Longrightarrow> farm_reach S pa sa \<lparr>farm_pool = l, farm_staking = y\<rparr>"
| pool_called: "farm_reach S pa sa f \<Longrightarrow> pool_tx S D fbp fbs env pa sa hook info m f = Ok f'
    \<Longrightarrow> farm_reach S pa sa f'"
| staking_called: "farm_reach S pa sa f \<Longrightarrow> Yasset_Staking.execute S D fbs env (farm_staking f) info m = Ok (y, r)
    \<Longrightarrow> sender info \<noteq> pa \<Longrightarrow> (\<And>c. m = Yasset_Staking.Receive c \<Longrightarrow> cw20_sender c \<noteq> pa)
    \<Longrightarrow> farm_reach S pa sa (f\<lparr>farm_staking := y\<rparr>)"

text \<open>What is true of the two contracts: everything bonded in the pool is staked in its name.\<close>

definition farm_inv :: "addr \<Rightarrow> addr \<Rightarrow> farm \<Rightarrow> bool" where
  "farm_inv pa sa f \<longleftrightarrow> lpool_inv (farm_pool f) \<and> yasset_inv (farm_staking f) \<and> bond_of (farm_staking f) pa = bond_total (farm_pool f)
     \<and> Launch_Pool.yluna_staking (Launch_Pool.CONFIG (farm_pool f)) = sa
     \<and> Launch_Pool.yluna_token (Launch_Pool.CONFIG (farm_pool f)) = Yasset_Staking.yluna_token (Yasset_Staking.CONFIG (farm_staking f))"

fun moves_stake :: "cosmos_msg \<Rightarrow> bool" where
  "moves_stake (WasmExecute t (Cw20Send c n StakingBond)) = True"
| "moves_stake (WasmExecute c (StakingUnbond a)) = True"
| "moves_stake _ = False"


section \<open>Messages that move no stake\<close>

context cosmwasm_std
begin

lemma transfer_moves_no_stake: "asset_transfer_msg S a to = Inr m \<Longrightarrow> \<not> moves_stake m"
  by (cases a; cases "asset_of a") (auto simp: asset_transfer_law native_transfer_law)

lemma admin_send_moves_no_stake:
  assumes "admin_send_withdrawn_rewards S D env l info bs = Inr (l', r)" and "x \<in> set r"
  shows "\<not> moves_stake (sub_body x)"
proof -
  let ?f = "\<lambda>prev messages. andThen (map_err Launch_Pool.Std (to_asset_balance D (contract_address env) (asset_of prev))) (\<lambda>current.
           andThen (usub S (asset_amount current) (asset_amount prev)) (\<lambda>n.
           if n = 0 then Ok messages
           else andThen (map_err Launch_Pool.Std (from_answer (asset_transfer_msg S
               \<lparr>asset_of = asset_of prev, asset_amount = n\<rparr> (Launch_Pool.owner (Launch_Pool.CONFIG l))))) (\<lambda>m. Ok (messages @ [m]))))"
  from assms(1) obtain ms where fold: "foldM ?f bs [] = Inr ms" and r: "r = add_messages ms"
    by (auto simp: admin_send_withdrawn_rewards_def Let_def elim!: andThen_OkE split: if_splits)
  have "\<forall>m\<in>set ms. \<not> moves_stake m"
    by (rule foldM_invariant [OF fold])
      (auto simp: map_err_Ok_iff from_answer_Ok_iff elim!: andThen_OkE dest!: transfer_moves_no_stake split: if_splits)
  then show ?thesis using assms(2) by (auto simp: r add_messages_def new_sub_msg_def)
qed

lemma update_config_still:
  assumes run: "Launch_Pool.update_config S env l info n ratio = Inr (l', r)" and inv: "lpool_inv l"
  shows "Launch_Pool.BOND_AMOUNTS l' = Launch_Pool.BOND_AMOUNTS l
    \<and> Launch_Pool.yluna_staking (Launch_Pool.CONFIG l') = Launch_Pool.yluna_staking (Launch_Pool.CONFIG l)
    \<and> Launch_Pool.yluna_token (Launch_Pool.CONFIG l') = Launch_Pool.yluna_token (Launch_Pool.CONFIG l)"
proof -
  let ?c = "case n of None \<Rightarrow> Launch_Pool.CONFIG l | Some n \<Rightarrow> (Launch_Pool.CONFIG l)\<lparr>min_bond_amount := n\<rparr>"
  have c: "Launch_Pool.distribution_schedule ?c = Launch_Pool.distribution_schedule (Launch_Pool.CONFIG l)"
    "base_pool_ratio ?c = base_pool_ratio (Launch_Pool.CONFIG l)"
    "Launch_Pool.yluna_staking ?c = Launch_Pool.yluna_staking (Launch_Pool.CONFIG l)"
    "Launch_Pool.yluna_token ?c = Launch_Pool.yluna_token (Launch_Pool.CONFIG l)"
    by (simp_all split: option.splits)
  from run obtain l1 c1 where step: "(case ratio of None \<Rightarrow> Ok (l, ?c) | Some x \<Rightarrow> change_ratio S env l ?c x) = Inr (l1, c1)"
    and l': "l' = l1\<lparr>Launch_Pool.CONFIG := c1\<rparr>"
    by (auto simp: Launch_Pool.update_config_def Let_def elim!: andThen_OkE split: if_splits)
  show ?thesis
  proof (cases ratio)
    case None
    then show ?thesis using step c by (simp add: l')
  next
    case (Some x)
    then have ch: "change_ratio S env l ?c x = Inr (l1, c1)" using step by simp
    have "Launch_Pool.yluna_staking c1 = Launch_Pool.yluna_staking ?c \<and> Launch_Pool.yluna_token c1 = Launch_Pool.yluna_token ?c"
      using ch by (auto simp: change_ratio_def Let_def elim!: andThen_OkE split: if_splits prod.splits)
    then show ?thesis using change_ratio_Ok [OF ch inv c(1,2)] c(3,4) by (simp add: l')
  qed
qed

text \<open>Every call but a bonding and an unbonding leaves the bonds and the wiring alone and moves no stake.\<close>

lemma lpool_execute_still:
  assumes run: "Launch_Pool.execute S D fb env l info m = Inr (l', r)" and inv: "lpool_inv l"
    and m: "\<And>c. m \<noteq> Launch_Pool.Receive c" "\<And>a. m \<noteq> Launch_Pool.Unbond a"
  shows "Launch_Pool.BOND_AMOUNTS l' = Launch_Pool.BOND_AMOUNTS l
    \<and> Launch_Pool.yluna_staking (Launch_Pool.CONFIG l') = Launch_Pool.yluna_staking (Launch_Pool.CONFIG l)
    \<and> Launch_Pool.yluna_token (Launch_Pool.CONFIG l') = Launch_Pool.yluna_token (Launch_Pool.CONFIG l)
    \<and> (\<forall>x\<in>set r. \<not> moves_stake (sub_body x))"
proof (cases m)
  case (ClaimWithdrawnRewards claim)
  with run have c: "claim_withdrawn_rewards S D env l info claim = Inr (l', r)" by simp
  show ?thesis
    by (rule claim_withdrawn_Ok [OF c inv]; cases claim) (auto simp: add_messages_def new_sub_msg_def)
next
  case WithdrawRewards
  with run obtain l1 where "update_reward_indexes S env l (Launch_Pool.CONFIG l) = Inr l1"
    and s: "withdraw_rewards_single S env (Launch_Pool.CONFIG l) (sender info) l1 = Inr l'" and r: "r = []"
    by (auto simp: withdraw_rewards_def Let_def map_err_Ok_iff elim!: andThen_OkE)
  note u = update_reward_indexes_inv [OF this(1) inv refl refl]
  show ?thesis by (rule withdraw_single_Ok [OF s]) (use u r in auto)
next
  case (WithdrawRewardsBulk lim start)
  with run obtain l1 as where "update_reward_indexes S env l (Launch_Pool.CONFIG l) = Inr l1"
    and s: "foldM (withdraw_rewards_single S env (Launch_Pool.CONFIG l)) as l1 = Inr l'" and r: "r = []"
    by (auto simp: withdraw_rewards_bulk_def Let_def map_err_Ok_iff elim!: andThen_OkE split: if_splits)
  note u = update_reward_indexes_inv [OF this(1) inv refl refl]
  show ?thesis using withdraw_fold_Ok [OF s] u r by auto
next
  case (AdminSendWithdrawnRewards bs)
  with run have a: "admin_send_withdrawn_rewards S D env l info bs = Inr (l', r)" by simp
  show ?thesis using lpool_hooks_Ok(3) [OF a] admin_send_moves_no_stake [OF a] by auto
next
  case AdminWithdrawRewards
  with run show ?thesis
    by (auto simp: admin_withdraw_rewards_def Let_def add_messages_def new_sub_msg_def elim!: andThen_OkE split: if_splits)
next
  case (BondWithBoostContractHook a n)
  with run show ?thesis
    by (auto simp: bond_with_boost_contract_hook_def Let_def add_messages_def new_sub_msg_def elim!: andThen_OkE split: if_splits)
next
  case (UpdateConfig n ratio)
  with run have "Launch_Pool.update_config S env l info n ratio = Inr (l', r)" by simp
  from update_config_still [OF this inv] lpool_update_config_Ok [OF this inv] show ?thesis by simp
next
  case ActivateBoost
  with run show ?thesis using refresh_boost_Ok [OF _ inv]
    by (auto simp: activate_boost_def elim!: andThen_OkE split: if_splits)
next
  case (PrivilegedRefreshBoost a)
  with run show ?thesis using refresh_boost_Ok [OF _ inv]
    by (auto simp: privileged_refresh_boost_def elim!: andThen_OkE split: if_splits)
qed (use m in auto)

end


section \<open>Delivery\<close>

lemma andThen_last: "(\<And>z. g z = Inr z) \<Longrightarrow> andThen m g = m"
  by (cases m) simp_all

lemma deliver_cases:
  assumes "\<not> moves_stake (sub_body m)"
  shows "deliver_to_staking S D fb env pa sa hook m y = Ok y \<or>
    deliver_to_staking S D fb env pa sa hook m y = andThen (map_err (\<lambda>_. ()) (Yasset_Staking.claim_rewards S y
      \<lparr>sender = pa, funds = []\<rparr>)) (\<lambda>(y, _). Ok y)"
proof (cases "sub_body m")
  case (WasmExecute c x)
  with assms show ?thesis
    by (cases x) (auto simp: deliver_to_staking_def Let_def split: exec_msg.splits)
qed (simp_all add: deliver_to_staking_def)

lemma deliver_still:
  assumes std: "cosmwasm_std S" and run: "deliver_to_staking S D fb env pa sa hook m y = Inr y'"
    and still: "\<not> moves_stake (sub_body m)" and inv: "yasset_inv y"
  shows "yasset_inv y' \<and> Yasset_Staking.CONFIG y' = Yasset_Staking.CONFIG y \<and> Yasset_Staking.BOND_AMOUNTS y' = Yasset_Staking.BOND_AMOUNTS y"
proof -
  consider "y' = y" | r where "Yasset_Staking.claim_rewards S y \<lparr>sender = pa, funds = []\<rparr> = Inr (y', r)"
  proof -
    have "y' = y \<or> andThen (map_err (\<lambda>_. ()) (Yasset_Staking.claim_rewards S y \<lparr>sender = pa, funds = []\<rparr>)) (\<lambda>(y, _). Ok y)
        = (Inr y' :: (unit, yasset) result)"
      using deliver_cases [OF still, of S D fb env pa sa hook y] run by auto
    then show thesis using that by (auto simp: map_err_Ok_iff elim!: andThen_OkE)
  qed
  then show ?thesis
  proof cases
    case 2
    from cosmwasm_std.yasset_claim_rewards_Ok [OF std this inv] show ?thesis using only_rewards_same by blast
  qed (simp add: inv)
qed

lemma deliver_all_still:
  assumes std: "cosmwasm_std S" and run: "foldM (deliver_to_staking S D fb env pa sa hook) r y = Inr y'"
    and still: "\<forall>x\<in>set r. \<not> moves_stake (sub_body x)" and inv: "yasset_inv y"
  shows "yasset_inv y' \<and> Yasset_Staking.CONFIG y' = Yasset_Staking.CONFIG y \<and> Yasset_Staking.BOND_AMOUNTS y' = Yasset_Staking.BOND_AMOUNTS y"
  by (rule foldM_invariant [OF run]) (use inv deliver_still [OF std] still in auto)

text \<open>The response of a bonding and of an unbonding, delivered.\<close>

lemma deliver_bond:
  "foldM (deliver_to_staking S D fb env pa sa hook) (add_messages [WasmExecute t (Cw20Send sa n StakingBond)]) y
    = andThen (map_err (\<lambda>_. ()) (Yasset_Staking.receive_cw20 S fb y \<lparr>sender = t, funds = []\<rparr>
        \<lparr>cw20_sender = pa, cw20_amount = n, cw20_msg = hook\<rparr>)) (\<lambda>(y, _). Ok y)"
  using andThen_last [of "foldM (deliver_to_staking S D fb env pa sa hook) []"]
  by (simp add: deliver_to_staking_def add_messages_def new_sub_msg_def)

lemma deliver_unbond:
  "foldM (deliver_to_staking S D fb env pa sa hook) (add_messages [WasmExecute sa (StakingUnbond a), WasmExecute t (Cw20Transfer u n)]) y
    = andThen (map_err (\<lambda>_. ()) (Yasset_Staking.unbond S y \<lparr>sender = pa, funds = []\<rparr> a)) (\<lambda>(y, _). Ok y)"
proof -
  let ?m = "new_sub_msg (WasmExecute t (Cw20Transfer u n))"
  have "foldM (deliver_to_staking S D fb env pa sa hook) [?m] z = Inr z" for z
    by (simp add: deliver_to_staking_def new_sub_msg_def)
  from andThen_last [OF this] show ?thesis
    by (simp add: deliver_to_staking_def add_messages_def new_sub_msg_def del: foldM.simps(2) add: foldM.simps(2) [of _ _ "[_]"])
qed


section \<open>Unbonding is not refused\<close>

text \<open>A loop whose body keeps a property and, under it, only panics.\<close>

lemma foldM_only_panics:
  assumes "foldM f xs a = Inl e" and "P a"
    and "\<And>x a a'. P a \<Longrightarrow> f x a = Inr a' \<Longrightarrow> P a'" and "\<And>x a e. P a \<Longrightarrow> f x a = Inl e \<Longrightarrow> e = Panic"
  shows "e = Panic"
  using assms(1,2)
proof (induction xs arbitrary: a)
  case (Cons x xs)
  then show ?case using assms(3,4) by (cases "f x a") auto
qed simp

context cosmwasm_std
begin

lemma compute_all_rewards_only_panics:
  assumes "compute_all_rewards S y s b as = Inl e" and "rewards_inv y"
  shows "e = Panic"
  using assms(1) unfolding compute_all_rewards_def
proof (rule foldM_only_panics [where P = rewards_inv])
  fix a z z'
  assume z: "rewards_inv z"
    and "andThen (compute_asset_rewards S z s b a) (\<lambda>info. Inr (z\<lparr>REWARDS := put (s, as_bytes a) info (REWARDS z)\<rparr>)) = Inr z'"
  then obtain i where i: "compute_asset_rewards S z s b a = Inr i" and z': "z' = z\<lparr>REWARDS := put (s, as_bytes a) i (REWARDS z)\<rparr>"
    by (auto elim!: andThen_OkE)
  show "rewards_inv z'" using rewards_inv_put [OF z] compute_asset_rewards_Ok(1) [OF i] by (simp add: z')
next
  fix a z e
  assume z: "rewards_inv z"
    and "andThen (compute_asset_rewards S z s b a) (\<lambda>info. Inr (z\<lparr>REWARDS := put (s, as_bytes a) info (REWARDS z)\<rparr>)) = Inl e"
  then have "compute_asset_rewards S z s b a = Inl e" by (cases "compute_asset_rewards S z s b a") simp_all
  then show "e = Panic" by (rule compute_asset_rewards_no_err [OF z])
qed (rule assms(2))

lemma yasset_unbond_only_panics:
  assumes inv: "yasset_inv y" and pos: "0 < bond_of y (sender info)" and n: "n \<le> bond_of y (sender info)"
    and run: "Yasset_Staking.unbond S y info (Some n) = Inl e"
  shows "e = Panic \<and> compute_all_rewards S y (sender info) (bond_of y (sender info)) (WHITELISTED_ASSETS y) = Abort"
proof -
  have wf: "wf_store (Yasset_Staking.BOND_AMOUNTS y)" "rewards_inv y" "TOTAL_BOND_AMOUNT y = bond_sum y"
    using inv by (simp_all add: yasset_inv_def)
  obtain bi where bi: "get (Yasset_Staking.BOND_AMOUNTS y) (sender info) = Some bi" and b: "bond_amount bi = bond_of y (sender info)"
    using pos by (auto simp: bond_of_def split: option.splits)
  have "bond_amount bi \<le> bond_sum y"
    using st.entry_le_sum [OF wf(1) bi, of "\<lambda>_. bond_amount"] by (simp add: bond_sum_def)
  then have le: "n \<le> bond_amount bi" "n \<le> TOTAL_BOND_AMOUNT y" using n b wf(3) by simp_all
  show ?thesis
  proof (cases "compute_all_rewards S y (sender info) (bond_amount bi) (WHITELISTED_ASSETS y)")
    case (Inl e')
    then have "e' = Panic" by (rule compute_all_rewards_only_panics [OF _ wf(2)])
    then show ?thesis using run b Inl by (simp add: Yasset_Staking.unbond_def Let_def bi)
  next
    case (Inr z)
    then show ?thesis using run le by (simp add: Yasset_Staking.unbond_def Let_def bi usub_def sub_law)
  qed
qed

end


section \<open>The pool and its stake\<close>

lemma pool_tx_OkE:
  assumes "pool_tx S D fbp fbs env pa sa hook info m f = Inr f'"
  obtains l r y where "Launch_Pool.execute S D fbp (env\<lparr>contract_address := pa\<rparr>) (farm_pool f) info m = Inr (l, r)"
    and "foldM (deliver_to_staking S D fbs env pa sa hook) r (farm_staking f) = Inr y" and "f' = \<lparr>farm_pool = l, farm_staking = y\<rparr>"
  using assms by (auto simp: pool_tx_def map_err_Ok_iff elim!: andThen_OkE)

lemma bond_tx_inv:
  assumes std: "cosmwasm_std S" and inv: "farm_inv pa sa f"
    and run: "Launch_Pool.execute S D fbp env (farm_pool f) info (Launch_Pool.Receive c) = Inr (l, r)"
    and del: "foldM (deliver_to_staking S D fbs env' pa sa hook) r (farm_staking f) = Inr y"
  shows "farm_inv pa sa \<lparr>farm_pool = l, farm_staking = y\<rparr>"
proof -
  have i: "lpool_inv (farm_pool f)" "yasset_inv (farm_staking f)" using inv by (simp_all add: farm_inv_def)
  from run have rc: "Launch_Pool.receive_cw20 S D fbp env (farm_pool f) info c = Inr (l, r)" by simp
  obtain a where "Launch_Pool.bond S D env (farm_pool f) a (cw20_amount c) = Inr (l, r)"
    by (rule cosmwasm_std.lpool_receive_Ok [OF std rc]) blast
  note b = cosmwasm_std.lpool_bond_Ok [OF std this i(1)]
  with del inv obtain r' where "Yasset_Staking.receive_cw20 S fbs (farm_staking f)
      \<lparr>sender = Launch_Pool.yluna_token (Launch_Pool.CONFIG (farm_pool f)), funds = []\<rparr>
      \<lparr>cw20_sender = pa, cw20_amount = cw20_amount c, cw20_msg = hook\<rparr> = Inr (y, r')"
    by (auto simp: farm_inv_def deliver_bond map_err_Ok_iff elim!: andThen_OkE)
  from cosmwasm_std.yasset_bond_Ok [OF std cosmwasm_std.receive_yasset_Ok(1) [OF std this] i(2)]
  show ?thesis using b inv by (simp add: farm_inv_def)
qed

lemma unbond_tx_inv:
  assumes std: "cosmwasm_std S" and inv: "farm_inv pa sa f"
    and run: "Launch_Pool.execute S D fbp env (farm_pool f) info (Launch_Pool.Unbond amount) = Inr (l, r)"
    and del: "foldM (deliver_to_staking S D fbs env' pa sa hook) r (farm_staking f) = Inr y"
  shows "farm_inv pa sa \<lparr>farm_pool = l, farm_staking = y\<rparr>"
proof -
  have i: "lpool_inv (farm_pool f)" "yasset_inv (farm_staking f)" using inv by (simp_all add: farm_inv_def)
  from run have u: "Launch_Pool.unbond S D env (farm_pool f) info amount = Inr (l, r)" by simp
  obtain n where n: "lpool_inv l" "Launch_Pool.CONFIG l = Launch_Pool.CONFIG (farm_pool f)" "bond_total l + n = bond_total (farm_pool f)"
    "r = add_messages [WasmExecute sa (StakingUnbond (Some n)),
       WasmExecute (Launch_Pool.yluna_token (Launch_Pool.CONFIG (farm_pool f))) (Cw20Transfer (sender info) n)]"
    by (rule cosmwasm_std.lpool_unbond_Ok [OF std u i(1)]) (use inv in \<open>auto simp: farm_inv_def\<close>)
  from del n(4) obtain r' where yu: "Yasset_Staking.unbond S (farm_staking f) \<lparr>sender = pa, funds = []\<rparr> (Some n) = Inr (y, r')"
    by (auto simp: deliver_unbond map_err_Ok_iff elim!: andThen_OkE)
  show ?thesis
    by (rule cosmwasm_std.yasset_unbond_Ok [OF std yu i(2)]) (use n inv in \<open>simp add: farm_inv_def\<close>)
qed

lemma pool_tx_inv:
  assumes std: "cosmwasm_std S" and inv: "farm_inv pa sa f" and run: "pool_tx S D fbp fbs env pa sa hook info m f = Inr f'"
  shows "farm_inv pa sa f'"
  using run
proof (rule pool_tx_OkE)
  fix l r y
  assume ex: "Launch_Pool.execute S D fbp (env\<lparr>contract_address := pa\<rparr>) (farm_pool f) info m = Inr (l, r)"
    and del: "foldM (deliver_to_staking S D fbs env pa sa hook) r (farm_staking f) = Inr y" and f': "f' = \<lparr>farm_pool = l, farm_staking = y\<rparr>"
  have i: "lpool_inv (farm_pool f)" "yasset_inv (farm_staking f)" using inv by (simp_all add: farm_inv_def)
  consider c where "m = Launch_Pool.Receive c" | a where "m = Launch_Pool.Unbond a"
    | "\<And>c. m \<noteq> Launch_Pool.Receive c" "\<And>a. m \<noteq> Launch_Pool.Unbond a" by blast
  then show ?thesis
  proof cases
    case 1
    then show ?thesis using bond_tx_inv [OF std inv _ del] ex f' by simp
  next
    case 2
    then show ?thesis using unbond_tx_inv [OF std inv _ del] ex f' by simp
  next
    case 3
    note still = cosmwasm_std.lpool_execute_still [OF std ex i(1) 3]
    have "yasset_inv y \<and> Yasset_Staking.CONFIG y = Yasset_Staking.CONFIG (farm_staking f)
        \<and> Yasset_Staking.BOND_AMOUNTS y = Yasset_Staking.BOND_AMOUNTS (farm_staking f)"
      by (rule deliver_all_still [OF std del _ i(2)]) (use still in blast)
    then show ?thesis using still inv cosmwasm_std.lpool_execute_inv [OF std ex i(1)]
      by (simp add: farm_inv_def f' bond_of_def bond_total_def)
  qed
qed


lemma farm_reach_inv:
  assumes std: "cosmwasm_std S" and reach: "farm_reach S pa sa f"
  shows "farm_inv pa sa f"
  using reach
proof induction
  case (started D msg l r y)
  have "Launch_Pool.BOND_AMOUNTS l = []" using started.hyps(1) by (auto simp: instantiate_lpool_def elim!: andThen_OkE split: if_splits)
  then show ?case using started.hyps instantiate_lpool_inv [OF started.hyps(1)] yasset_reach_inv [OF std started.hyps(2)]
    by (simp add: farm_inv_def bond_total_def)
next
  case (pool_called f D fbp fbs env hook info m f')
  then show ?case using pool_tx_inv [OF std] by blast
next
  case (staking_called f D fbs env info m y r)
  have i: "yasset_inv (farm_staking f)" using staking_called.IH by (simp add: farm_inv_def)
  note b = yasset_execute_bonds [OF std i staking_called.hyps(2)] and t = yasset_execute_token [OF std i staking_called.hyps(2)]
  have "bond_of y pa = bond_of (farm_staking f) pa"
    using b staking_called.hyps(3,4) by (metis linorder_neqE_nat)
  then show ?case using staking_called.IH t cosmwasm_std.yasset_execute_inv [OF std staking_called.hyps(2) i]
    by (simp add: farm_inv_def)
qed

lemma farm_inv_bond:
  assumes "farm_inv pa sa f"
  shows "amount_of (Launch_Pool.BOND_AMOUNTS (farm_pool f)) u \<le> bond_of (farm_staking f) pa"
proof -
  have "wf_store (Launch_Pool.BOND_AMOUNTS (farm_pool f))" using assms by (simp add: farm_inv_def lpool_inv_def)
  then have "amount_of (Launch_Pool.BOND_AMOUNTS (farm_pool f)) u \<le> bond_total (farm_pool f)"
    using st.entry_le_sum [of "Launch_Pool.BOND_AMOUNTS (farm_pool f)" u _ "\<lambda>_ n. n"]
    by (auto simp: bond_total_def amount_of_def split: option.splits)
  then show ?thesis using assms by (simp add: farm_inv_def)
qed


section \<open>Properties\<close>

text \<open>
  C12: everything farmers bond in the launch pool is staked. In every state that the two contracts reach, through
  transactions on the pool with their messages to the staking contract and through calls of others on the staking contract, the
  stake of the pool is exactly the sum of the farmers' bonds, which is the weight of the base pool, and so covers the bond
  of each of them.
\<close>

theorem farm_fully_staked:
  assumes std: "cosmwasm_std S" and reach: "farm_reach S pa sa f"
  shows "bond_of (farm_staking f) pa = bond_total (farm_pool f)
    \<and> Launch_Pool.total_weight (BASE_DISTRIBUTION_STATUS (farm_pool f)) = bond_of (farm_staking f) pa
    \<and> amount_of (Launch_Pool.BOND_AMOUNTS (farm_pool f)) u \<le> bond_of (farm_staking f) pa \<and> lpool_inv (farm_pool f) \<and> yasset_inv (farm_staking f)"
  using farm_reach_inv [OF assms] farm_inv_bond [OF farm_reach_inv [OF assms], of u] by (simp add: farm_inv_def lpool_inv_def)

definition farm_fresh :: farm where
  "farm_fresh = \<lparr>
     farm_pool = \<lparr>Launch_Pool.lpool.CONFIG = \<lparr>Launch_Pool.config.owner = ''owner'', operator = ''operator'',
         Launch_Pool.config.prism_token = ''prism'', Launch_Pool.config.xprism_token = ''xprism'', Launch_Pool.config.gov_addr = ''gov'',
         yluna_staking = ''staking'', Launch_Pool.config.yluna_token = ''yluna'', vesting_period = 86400, boost_contract = ''boost'',
         Launch_Pool.config.distribution_schedule = (100, 200, 1000), base_pool_ratio = 6 * 10 ^ 17, min_bond_amount = 5\<rparr>,
       BASE_DISTRIBUTION_STATUS = default_status, BOOST_DISTRIBUTION_STATUS = default_status,
       Launch_Pool.lpool.BOND_AMOUNTS = [], Launch_Pool.lpool.REWARD_INFO = [], SCHEDULED_VEST = [], PENDING_WITHDRAW = []\<rparr>,
     farm_staking = \<lparr>Yasset_Staking.yasset.CONFIG = \<lparr>Yasset_Staking.config.owner = ''owner'', vault_addr = ''vault'',
         Yasset_Staking.config.gov_addr = ''gov'', Yasset_Staking.config.collector = ''collector'', Yasset_Staking.config.protocol_fee = 10 ^ 17,
         Yasset_Staking.config.cluna_token = ''cluna'', Yasset_Staking.config.yluna_token = ''yluna'',
         Yasset_Staking.config.pluna_token = ''pluna'', Yasset_Staking.config.prism_token = ''prism'',
         Yasset_Staking.config.xprism_token = ''xprism''\<rparr>,
       WHITELISTED_ASSETS = [Cw20 ''pluna'', Cw20 ''yluna''], TOTAL_BOND_AMOUNT = 0, POOL_INFO = [], REWARDS = [],
       Yasset_Staking.yasset.BOND_AMOUNTS = []\<rparr>\<rparr>"

lemma farm_fresh_reach: "farm_reach cosmwasm_0_16 ''pool'' ''staking'' farm_fresh"
proof -
  have l: "instantiate_lpool empty_deps lpool_msg_example = Ok (farm_pool farm_fresh, [])"
    by (simp add: instantiate_lpool_def lpool_msg_example_def farm_fresh_def cw_eval)
  have y: "instantiate_yasset empty_deps yasset_msg_example = Ok (farm_staking farm_fresh, [])"
    by (simp add: instantiate_yasset_def yasset_msg_example_def farm_fresh_def validate_protocol_fee_def
        Yasset_Staking.MAX_PROTOCOL_FEE_def cw_eval)
  have "farm_reach cosmwasm_0_16 ''pool'' ''staking'' \<lparr>farm_pool = farm_pool farm_fresh, farm_staking = farm_staking farm_fresh\<rparr>"
    by (rule farm_reach.started [OF l yasset_reach.instantiated [OF y]]) (simp_all add: farm_fresh_def bond_of_def get_def)
  moreover have "\<lparr>farm_pool = farm_pool farm_fresh, farm_staking = farm_staking farm_fresh\<rparr> = farm_fresh" by (simp add: farm_fresh_def)
  ultimately show ?thesis by (simp only:)
qed

abbreviation farm_tx :: "message_info \<Rightarrow> Launch_Pool.execute_msg \<Rightarrow> farm \<Rightarrow> (unit, farm) result" where
  "farm_tx \<equiv> pool_tx cosmwasm_0_16 empty_deps (\<lambda>_. Inr Launch_Pool.Bond) (\<lambda>_. Inr Yasset_Staking.Bond) (env_at 50) ''pool'' ''staking'' []"

lemmas farm_eval = pool_tx_def deliver_to_staking_def farm_fresh_def Launch_Pool.receive_cw20_def Launch_Pool.bond_def
  Launch_Pool.unbond_def Yasset_Staking.receive_cw20_def Yasset_Staking.bond_def Yasset_Staking.unbond_def
  default_status_def lpool_eval yasset_eval

theorem farm_fully_staked_witness:
  "\<exists>f. farm_tx (from_user ''yluna'') (Launch_Pool.Receive \<lparr>cw20_sender = ''alice'', cw20_amount = 40, cw20_msg = []\<rparr>) farm_fresh = Ok f
    \<and> bond_total (farm_pool f) = 40 \<and> bond_of (farm_staking f) ''pool'' = 40"
proof -
  obtain f where run: "farm_tx (from_user ''yluna'') (Launch_Pool.Receive \<lparr>cw20_sender = ''alice'', cw20_amount = 40, cw20_msg = []\<rparr>)
      farm_fresh = Ok f" and b: "bond_total (farm_pool f) = 40"
    by (simp add: bond_total_def farm_eval)
  have "farm_reach cosmwasm_0_16 ''pool'' ''staking'' f" by (rule farm_reach.pool_called [OF farm_fresh_reach run])
  from farm_fully_staked [OF cosmwasm_0_16 this] b run show ?thesis by simp
qed

text \<open>
  C13: a farmer's unbonding is never refused by the staking contract. When the pool accepts the unbonding of a farmer with a bond, its
  messages are a request for the amount to the staking contract and a transfer of the amount of yLUNA to the farmer. The
  staking contract, asked in the same transaction, transfers exactly the amount of yLUNA to the pool, and the
  transaction goes through; the only way to fail is a panic in the computation of the rewards that the pool itself has in the staking
  contract, which undoes the transaction.
\<close>

theorem farm_unbond_paid:
  assumes std: "cosmwasm_std S" and reach: "farm_reach S pa sa f" and bond: "0 < amount_of (Launch_Pool.BOND_AMOUNTS (farm_pool f)) (sender info)"
    and run: "Launch_Pool.execute S D fbp (env\<lparr>contract_address := pa\<rparr>) (farm_pool f) info (Launch_Pool.Unbond amount) = Ok (l, r)"
  shows "\<exists>n. n = (case amount of Some a \<Rightarrow> a | None \<Rightarrow> amount_of (Launch_Pool.BOND_AMOUNTS (farm_pool f)) (sender info))
    \<and> r = add_messages [WasmExecute sa (StakingUnbond (Some n)),
        WasmExecute (Launch_Pool.yluna_token (Launch_Pool.CONFIG (farm_pool f))) (Cw20Transfer (sender info) n)]
    \<and> (case Yasset_Staking.execute S D fbs (env\<lparr>contract_address := sa\<rparr>) (farm_staking f) \<lparr>sender = pa, funds = []\<rparr>
          (Yasset_Staking.Unbond (Some n)) of
        Inl e \<Rightarrow> e = Panic
          \<and> compute_all_rewards S (farm_staking f) pa (bond_of (farm_staking f) pa) (WHITELISTED_ASSETS (farm_staking f)) = Abort
          \<and> pool_tx S D fbp fbs env pa sa hook info (Launch_Pool.Unbond amount) f = Abort
      | Inr (y, r') \<Rightarrow>
          r' = add_messages [WasmExecute (Launch_Pool.yluna_token (Launch_Pool.CONFIG (farm_pool f))) (Cw20Transfer pa n)]
          \<and> pool_tx S D fbp fbs env pa sa hook info (Launch_Pool.Unbond amount) f = Ok \<lparr>farm_pool = l, farm_staking = y\<rparr>)"
proof -
  let ?who = "\<lparr>sender = pa, funds = []\<rparr>" and ?t = "Launch_Pool.yluna_token (Launch_Pool.CONFIG (farm_pool f))"
  have inv: "farm_inv pa sa f" by (rule farm_reach_inv [OF std reach])
  then have i: "lpool_inv (farm_pool f)" "yasset_inv (farm_staking f)" by (simp_all add: farm_inv_def)
  note le = farm_inv_bond [OF inv, of "sender info"]
  from run have u: "Launch_Pool.unbond S D (env\<lparr>contract_address := pa\<rparr>) (farm_pool f) info amount = Inr (l, r)" by simp
  obtain n where n: "n = (case amount of Some a \<Rightarrow> a | None \<Rightarrow> amount_of (Launch_Pool.BOND_AMOUNTS (farm_pool f)) (sender info))"
    "n \<le> amount_of (Launch_Pool.BOND_AMOUNTS (farm_pool f)) (sender info)"
    "r = add_messages [WasmExecute sa (StakingUnbond (Some n)), WasmExecute ?t (Cw20Transfer (sender info) n)]"
    by (rule cosmwasm_std.lpool_unbond_Ok [OF std u i(1)]) (use inv in \<open>auto simp: farm_inv_def intro: le_add2 elim!: order_trans\<close>)
  have tx: "pool_tx S D fbp fbs env pa sa hook info (Launch_Pool.Unbond amount) f
      = andThen (andThen (map_err (\<lambda>_. ()) (Yasset_Staking.unbond S (farm_staking f) ?who (Some n))) (\<lambda>(y, _). Ok y))
          (\<lambda>y. Ok \<lparr>farm_pool = l, farm_staking = y\<rparr>)"
    using u n(3) by (simp add: pool_tx_def deliver_unbond)
  show ?thesis
  proof (cases "Yasset_Staking.unbond S (farm_staking f) ?who (Some n)")
    case (Inl e)
    have "e = Panic \<and> compute_all_rewards S (farm_staking f) (sender ?who) (bond_of (farm_staking f) (sender ?who))
        (WHITELISTED_ASSETS (farm_staking f)) = Abort"
      by (rule cosmwasm_std.yasset_unbond_only_panics [OF std i(2) _ _ Inl]) (use bond le n(2) in simp_all)
    then show ?thesis using n Inl tx by (intro exI [of _ n]) simp
  next
    case (Inr p)
    obtain y r' where p: "p = (y, r')" by (cases p)
    have "r' = add_messages [WasmExecute ?t (Cw20Transfer pa n)]"
      by (rule cosmwasm_std.yasset_unbond_Ok [OF std Inr [unfolded p] i(2)]) (use inv in \<open>simp add: farm_inv_def add_messages_def\<close>)
    then show ?thesis using n Inr p tx by (intro exI [of _ n]) simp
  qed
qed

theorem farm_unbond_paid_witness:
  "\<exists>f f'. farm_tx (from_user ''yluna'') (Launch_Pool.Receive \<lparr>cw20_sender = ''alice'', cw20_amount = 40, cw20_msg = []\<rparr>) farm_fresh = Ok f
    \<and> farm_tx (from_user ''alice'') (Launch_Pool.Unbond (Some 10)) f = Ok f' \<and> bond_of (farm_staking f') ''pool'' = 30"
proof -
  obtain f where run: "farm_tx (from_user ''yluna'') (Launch_Pool.Receive \<lparr>cw20_sender = ''alice'', cw20_amount = 40, cw20_msg = []\<rparr>)
      farm_fresh = Ok f"
    and a: "0 < amount_of (Launch_Pool.BOND_AMOUNTS (farm_pool f)) (sender (from_user ''alice''))"
    and u: "\<exists>l r. Launch_Pool.execute cosmwasm_0_16 empty_deps (\<lambda>_. Inr Launch_Pool.Bond) ((env_at 50)\<lparr>contract_address := ''pool''\<rparr>) (farm_pool f)
      (from_user ''alice'') (Launch_Pool.Unbond (Some 10)) = Ok (l, r)"
    and y: "\<exists>y r. Yasset_Staking.execute cosmwasm_0_16 empty_deps (\<lambda>_. Inr Yasset_Staking.Bond) ((env_at 50)\<lparr>contract_address := ''staking''\<rparr>)
      (farm_staking f) \<lparr>sender = ''pool'', funds = []\<rparr> (Yasset_Staking.Unbond (Some 10)) = Ok (y, r) \<and> bond_of y ''pool'' = 30"
    by (simp add: bond_of_def farm_eval)
  have reach: "farm_reach cosmwasm_0_16 ''pool'' ''staking'' f" by (rule farm_reach.pool_called [OF farm_fresh_reach run])
  from u obtain l r where u: "Launch_Pool.execute cosmwasm_0_16 empty_deps (\<lambda>_. Inr Launch_Pool.Bond) ((env_at 50)\<lparr>contract_address := ''pool''\<rparr>)
      (farm_pool f) (from_user ''alice'') (Launch_Pool.Unbond (Some 10)) = Ok (l, r)" by blast
  from y obtain z s where y: "Yasset_Staking.execute cosmwasm_0_16 empty_deps (\<lambda>_. Inr Yasset_Staking.Bond)
      ((env_at 50)\<lparr>contract_address := ''staking''\<rparr>) (farm_staking f) \<lparr>sender = ''pool'', funds = []\<rparr> (Yasset_Staking.Unbond (Some 10)) = Ok (z, s)"
    and z: "bond_of z ''pool'' = 30" by blast
  from farm_unbond_paid [OF cosmwasm_0_16 reach a u, of "\<lambda>_. Inr Yasset_Staking.Bond" "[]"] y
  have "farm_tx (from_user ''alice'') (Launch_Pool.Unbond (Some 10)) f = Ok \<lparr>farm_pool = l, farm_staking = z\<rparr>" by simp
  with run z show ?thesis by (intro exI [of _ f] exI [of _ "\<lparr>farm_pool = l, farm_staking = z\<rparr>"]) simp
qed

end
