(* ===== verification/Storage_Keys.thy ===== *)
theory Storage_Keys
  imports Gov_State Parse_Reply
begin

text \<open>
  \<open>packages/prism_protocol/src/internal/de.rs\<close> and the byte keys of the storage. The contracts keep numbers in keys as
  eight big-endian bytes and addresses as their characters, and iterate in the order of the bytes. The rest of
  the development keeps keys as the values they stand for. This theory shows that the two are the same: the locale
  \<open>key_encoding\<close> states what an encoding has to do, every operation of the store commutes with it, and it is
  interpreted for numbers and for addresses. The bounds that \<open>contracts/prism-gov/src/state.rs\<close> computes for a
  page of polls are bytes too, and refine the page of \<open>Gov_State\<close>.
\<close>


section \<open>Definitions\<close>

subsection \<open>Bytes\<close>

text \<open>\<open>u64::to_be_bytes\<close> and \<open>u64::from_be_bytes\<close>, for any width.\<close>

fun be_bytes :: "nat \<Rightarrow> nat \<Rightarrow> byte list" where
  "be_bytes 0 n = []"
| "be_bytes (Suc k) n = of_nat (n div 256 ^ k) # be_bytes k (n mod 256 ^ k)"

definition to_be_bytes :: "nat \<Rightarrow> byte list" where
  "to_be_bytes n = be_bytes 8 n"

definition from_be_bytes :: "byte list \<Rightarrow> nat" where
  "from_be_bytes bs = foldl (\<lambda>acc b. acc * 256 + unat b) 0 bs"

definition as_bytes_string :: "string \<Rightarrow> byte list" where
  "as_bytes_string s = map (\<lambda>c. of_nat (of_char c)) s"

subsection \<open>Keys\<close>

definition from_vec_u64 :: "byte list \<Rightarrow> (std_error, nat) result" where
  "from_vec_u64 value = (if length value = 8 then Ok (from_be_bytes value)
     else Fail (GenericErr ''could not convert slice to array''))"

definition from_vec_string :: "byte list \<Rightarrow> (std_error, string) result" where
  "from_vec_string value = map_err (\<lambda>_. OtherErr ''invalid utf8'') (from_utf8 value)"

definition from_vec_addr :: "byte list \<Rightarrow> (std_error, addr) result" where
  "from_vec_addr value = andThen (from_vec_string value) (\<lambda>s. Ok s)"

text \<open>A store with encoded keys.\<close>

definition enc_store :: "('k \<Rightarrow> 'b) \<Rightarrow> ('k, 'v) store \<Rightarrow> ('b, 'v) store" where
  "enc_store enc s = map (\<lambda>(k, v). (enc k, v)) s"

subsection \<open>The bounds of a page of polls\<close>

definition calc_range_start :: "nat option \<Rightarrow> byte list option" where
  "calc_range_start start_after = map_option (\<lambda>pid. to_be_bytes pid @ [1]) start_after"

definition calc_range_end :: "nat option \<Rightarrow> byte list option" where
  "calc_range_end start_after = map_option to_be_bytes start_after"

text \<open>\<open>range(start, end, order)\<close> of a bucket: the start is included, the end is not.\<close>

definition bucket_range :: "'b::linorder option \<Rightarrow> 'b option \<Rightarrow> order_by \<Rightarrow> ('b, 'v) store \<Rightarrow> ('b, 'v) store" where
  "bucket_range start end_at order s =
     (let xs = filter (\<lambda>e. (case start of None \<Rightarrow> True | Some a \<Rightarrow> a \<le> fst e) \<and> (case end_at of None \<Rightarrow> True | Some b \<Rightarrow> fst e < b)) s
      in case order of Asc \<Rightarrow> xs | Desc \<Rightarrow> rev xs)"

definition read_polls_page :: "nat option \<Rightarrow> nat option \<Rightarrow> order_by option \<Rightarrow> (byte list, 'v) store \<Rightarrow> (byte list, 'v) store" where
  "read_polls_page start_after limit order s =
     (case (case order of
         Some Asc \<Rightarrow> (calc_range_start start_after, None, Asc)
       | _ \<Rightarrow> (None, calc_range_end start_after, Desc)) of (start, end_at, ord) \<Rightarrow>
     take (page_limit limit) (bucket_range start end_at ord s))"


section \<open>Encodings that keep the order\<close>

definition valid_keys :: "('k \<Rightarrow> bool) \<Rightarrow> ('k, 'v) store \<Rightarrow> bool" where
  "valid_keys valid s \<longleftrightarrow> (\<forall>e\<in>set s. valid (fst e))"

locale key_encoding =
  fixes enc :: "'k::linorder \<Rightarrow> 'b::linorder" and dec :: "'b \<Rightarrow> 'k option" and valid :: "'k \<Rightarrow> bool"
  assumes enc_less: "valid j \<Longrightarrow> valid k \<Longrightarrow> enc j < enc k \<longleftrightarrow> j < k"
    and dec_enc: "valid k \<Longrightarrow> dec (enc k) = Some k"
begin

lemma enc_eq: "valid j \<Longrightarrow> valid k \<Longrightarrow> enc j = enc k \<longleftrightarrow> j = k"
  using dec_enc by (metis option.inject)

lemma wf_enc_store: "valid_keys valid s \<Longrightarrow> wf_store (enc_store enc s) \<longleftrightarrow> wf_store s"
  unfolding wf_store_def enc_store_def valid_keys_def
  by (induction s) (auto simp: case_prod_unfold enc_less)

lemma get_enc_store: "valid_keys valid s \<Longrightarrow> valid k \<Longrightarrow> get (enc_store enc s) (enc k) = get s k"
  unfolding get_def enc_store_def valid_keys_def by (induction s) (auto simp: enc_eq)

lemma put_enc_store: "valid_keys valid s \<Longrightarrow> valid k \<Longrightarrow> put (enc k) v (enc_store enc s) = enc_store enc (put k v s)"
  unfolding enc_store_def valid_keys_def by (induction s) (auto simp: enc_less [symmetric] enc_eq)

lemma del_enc_store: "valid_keys valid s \<Longrightarrow> valid k \<Longrightarrow> del (enc k) (enc_store enc s) = enc_store enc (del k s)"
  unfolding del_def enc_store_def valid_keys_def by (induction s) (auto simp: enc_eq)

lemma filter_enc_store:
  assumes "\<forall>e\<in>set s. P (enc (fst e)) \<longleftrightarrow> Q (fst e)"
  shows "filter (\<lambda>e. P (fst e)) (enc_store enc s) = enc_store enc (filter (\<lambda>e. Q (fst e)) s)"
  using assms unfolding enc_store_def by (induction s) auto

lemma range_enc_store:
  assumes "valid_keys valid s" and "\<And>k. b = Some k \<Longrightarrow> valid k"
  shows "range_from (map_option enc b) (enc_store enc s) = enc_store enc (range_from b s)"
    and "range_below (map_option enc b) (enc_store enc s) = enc_store enc (range_below b s)"
  using assms by (auto simp: range_from_def range_below_def valid_keys_def enc_less split: option.splits intro!: filter_enc_store)

lemma dec_enc_store: "valid_keys valid s \<Longrightarrow> map (\<lambda>(k, v). (dec k, v)) (enc_store enc s) = map (\<lambda>(k, v). (Some k, v)) s"
  unfolding enc_store_def valid_keys_def by (induction s) (auto simp: dec_enc)

end

lemma enc_store_take: "enc_store enc (take n s) = take n (enc_store enc s)" "enc_store enc (rev s) = rev (enc_store enc s)"
  by (simp_all add: enc_store_def take_map rev_map)


section \<open>Numbers\<close>

lemma length_be_bytes [simp]: "length (be_bytes k n) = k"
  by (induction k arbitrary: n) simp_all

lemma byte_less: "unat (b :: byte) < 256"
  using unsigned_less [of b, where ?'a = nat] by simp

lemma byte_of_nat: "n < 256 \<Longrightarrow> unat (of_nat n :: byte) = n"
  by (simp add: unat_of_nat)

lemma foldl_be_bytes: "n < 256 ^ k \<Longrightarrow> foldl (\<lambda>acc b. acc * 256 + unat b) acc (be_bytes k n) = acc * 256 ^ k + n"
proof (induction k arbitrary: n acc)
  case (Suc k)
  have q: "n div 256 ^ k < 256" using Suc.prems by (simp add: div_less_iff_less_mult mult.commute)
  have "foldl (\<lambda>acc b. acc * 256 + unat b) acc (be_bytes (Suc k) n) = (acc * 256 + n div 256 ^ k) * 256 ^ k + n mod 256 ^ k"
    using Suc.IH [of "n mod 256 ^ k"] by (simp add: byte_of_nat [OF q])
  then show ?case by (simp add: algebra_simps)
qed simp

lemma less_div_mod:
  fixes m n B :: nat
  assumes "0 < B"
  shows "m < n \<longleftrightarrow> m div B < n div B \<or> m div B = n div B \<and> m mod B < n mod B"
proof -
  have lt: "j < k" if "j div B < k div B" for j k
  proof -
    have "Suc (j div B) * B \<le> k div B * B" using that by (intro mult_le_mono1) simp
    also have "\<dots> \<le> k" by simp
    finally have "B + j div B * B \<le> k" by simp
    then show ?thesis using mod_less_divisor [OF assms, of j] div_mult_mod_eq [of j B] by linarith
  qed
  have "m < n \<longleftrightarrow> m mod B < n mod B" if "m div B = n div B"
    using that div_mult_mod_eq [of m B] div_mult_mod_eq [of n B] by (metis nat_add_left_cancel_less)
  then show ?thesis using lt [of m n] lt [of n m] by (cases "m div B" "n div B" rule: linorder_cases) auto
qed

lemma be_bytes_less:
  assumes "m < 256 ^ k" and "n < 256 ^ k"
  shows "be_bytes k m < be_bytes k n \<longleftrightarrow> m < n"
  using assms
proof (induction k arbitrary: m n)
  case (Suc k)
  let ?B = "256 ^ k :: nat"
  have q: "m div ?B < 256" "n div ?B < 256" using Suc.prems by (simp_all add: div_less_iff_less_mult mult.commute)
  have IH: "be_bytes k (m mod ?B) < be_bytes k (n mod ?B) \<longleftrightarrow> m mod ?B < n mod ?B" by (rule Suc.IH) simp_all
  have w: "(of_nat (m div ?B) :: byte) < of_nat (n div ?B) \<longleftrightarrow> m div ?B < n div ?B"
    "(of_nat (m div ?B) :: byte) = of_nat (n div ?B) \<longleftrightarrow> m div ?B = n div ?B"
    using byte_of_nat [OF q(1)] byte_of_nat [OF q(2)] by (metis word_less_nat_alt)+
  have "m < n \<longleftrightarrow> m div ?B < n div ?B \<or> m div ?B = n div ?B \<and> m mod ?B < n mod ?B"
    by (rule less_div_mod) simp
  then show ?case by (simp add: w IH Cons_less_Cons)
qed simp

lemma be_bytes_foldl: "be_bytes (length bs) (from_be_bytes bs) = bs \<and> from_be_bytes bs < 256 ^ length bs"
proof (induction bs rule: rev_induct)
  case (snoc b bs)
  have step: "be_bytes (Suc k) (n * 256 + unat b) = be_bytes k n @ [b]" if "n < 256 ^ k" for k n
    using that
  proof (induction k arbitrary: n)
    case 0
    then show ?case by simp
  next
    case (Suc k)
    have b: "unat b < 256" by (rule byte_less)
    have "(n * 256 + unat b) div 256 ^ Suc k = n div 256 ^ k"
      using b by (simp add: div_mult2_eq)
    moreover have "(n * 256 + unat b) mod 256 ^ Suc k = n mod 256 ^ k * 256 + unat b"
      using b by (simp add: mod_mult2_eq algebra_simps)
    ultimately show ?case using Suc.IH [of "n mod 256 ^ k"] by simp
  qed
  have "from_be_bytes (bs @ [b]) = from_be_bytes bs * 256 + unat b" by (simp add: from_be_bytes_def)
  moreover have "from_be_bytes bs * 256 + unat b < 256 ^ length (bs @ [b])"
    using snoc byte_less [of b] by simp
  ultimately show ?case using step snoc by simp
qed (simp add: from_be_bytes_def)

lemma U64_bytes: "U64 = 256 ^ 8"
  by (simp add: U64_def)

lemma from_vec_u64_bytes: "n < U64 \<Longrightarrow> from_vec_u64 (to_be_bytes n) = Ok n"
  using foldl_be_bytes [of n 8 0] by (simp add: from_vec_u64_def to_be_bytes_def from_be_bytes_def U64_bytes)

interpretation u64_key: key_encoding to_be_bytes "\<lambda>bs. case from_vec_u64 bs of Inr n \<Rightarrow> Some n | Inl _ \<Rightarrow> None" "\<lambda>n. n < U64"
  by unfold_locales (simp_all add: from_vec_u64_bytes, simp add: to_be_bytes_def U64_bytes be_bytes_less)


section \<open>Addresses\<close>

lemma byte_of_char: "unat (of_nat (of_char c) :: byte) = of_char c"
  by (rule byte_of_nat) simp

lemma as_bytes_string_less: "as_bytes_string s < as_bytes_string t \<longleftrightarrow> s < t"
proof (induction s arbitrary: t)
  case Nil
  then show ?case by (cases t) (simp_all add: as_bytes_string_def)
next
  case (Cons c s)
  have c: "(of_nat (of_char c) :: byte) < of_nat (of_char d) \<longleftrightarrow> c < d"
    "(of_nat (of_char c) :: byte) = of_nat (of_char d) \<longleftrightarrow> c = d" for d
    by (simp add: word_less_nat_alt byte_of_char less_char_def, metis byte_of_char char_of_char)
  show ?case using Cons by (cases t) (simp_all add: as_bytes_string_def c)
qed

lemma from_vec_addr_bytes:
  assumes "utf8_valid (map of_char s)"
  shows "from_vec_addr (as_bytes_string s) = Ok s"
proof -
  have "map unat (as_bytes_string s) = map of_char s" "map (\<lambda>b. char_of (unat b)) (as_bytes_string s) = s"
    by (simp_all add: as_bytes_string_def o_def byte_of_char)
  then show ?thesis using assms by (simp add: from_vec_addr_def from_vec_string_def from_utf8_def)
qed

interpretation addr_key: key_encoding as_bytes_string "\<lambda>bs. case from_vec_addr bs of Inr a \<Rightarrow> Some a | Inl _ \<Rightarrow> None"
  "\<lambda>s. utf8_valid (map of_char s)"
  by unfold_locales (simp_all add: as_bytes_string_less from_vec_addr_bytes)


section \<open>Properties\<close>

text \<open>
  C38: decoding a key is the inverse of encoding it. Eight bytes decode to the number they encode and every
  number below \<open>2 ^ 64\<close> comes back from its bytes; any other length is an error; the bytes of an address that is valid
  UTF-8 give the address, and invalid UTF-8 is an error.
\<close>

theorem key_roundtrip:
  "(from_vec_u64 bs = Ok n \<longleftrightarrow> n < U64 \<and> bs = to_be_bytes n)
    \<and> ((\<exists>e. from_vec_u64 bs = Fail e) \<longleftrightarrow> length bs \<noteq> 8)
    \<and> (from_vec_addr bs = Ok a \<longleftrightarrow> utf8_valid (map of_char a) \<and> bs = as_bytes_string a)
    \<and> ((\<exists>e. from_vec_addr bs = Fail e) \<longleftrightarrow> \<not> utf8_valid (map unat bs))"
proof (intro conjI)
  show "from_vec_u64 bs = Ok n \<longleftrightarrow> n < U64 \<and> bs = to_be_bytes n"
    using be_bytes_foldl [of bs] from_vec_u64_bytes [of n]
    by (auto simp: from_vec_u64_def to_be_bytes_def U64_bytes split: if_splits)
  show "(\<exists>e. from_vec_u64 bs = Fail e) \<longleftrightarrow> length bs \<noteq> 8" by (simp add: from_vec_u64_def)
  have inv: "as_bytes_string (map (\<lambda>b. char_of (unat b)) bs) = bs"
    "map of_char (map (\<lambda>b. char_of (unat b)) bs) = map unat bs"
    using byte_less by (auto simp: as_bytes_string_def o_def intro!: map_idI)
  show "from_vec_addr bs = Ok a \<longleftrightarrow> utf8_valid (map of_char a) \<and> bs = as_bytes_string a"
  proof
    assume "from_vec_addr bs = Ok a"
    then have "utf8_valid (map unat bs)" and a: "a = map (\<lambda>b. char_of (unat b)) bs"
      by (simp_all add: from_vec_addr_def from_vec_string_def from_utf8_def split: if_splits)
    then show "utf8_valid (map of_char a) \<and> bs = as_bytes_string a" by (simp only: inv a)
  qed (simp add: from_vec_addr_bytes)
  show "(\<exists>e. from_vec_addr bs = Fail e) \<longleftrightarrow> \<not> utf8_valid (map unat bs)"
    by (simp add: from_vec_addr_def from_vec_string_def from_utf8_def)
qed

text \<open>
  Storage under big-endian keys refines the stores of this development. For numbers that fit in 64 bits, reading,
  saving and removing commute with the encoding of the keys, iterating from or up to a key visits the same
  entries in the same order, because the bytes of two keys compare like the numbers, and decoding the visited keys
  gives the numbers.
\<close>

lemma u64_store_refines:
  assumes "\<forall>e\<in>set s. fst e < U64" and "k < U64"
  shows "get (enc_store to_be_bytes s) (to_be_bytes k) = get s k
    \<and> put (to_be_bytes k) v (enc_store to_be_bytes s) = enc_store to_be_bytes (put k v s)
    \<and> del (to_be_bytes k) (enc_store to_be_bytes s) = enc_store to_be_bytes (del k s)
    \<and> range_from (Some (to_be_bytes k)) (enc_store to_be_bytes s) = enc_store to_be_bytes (range_from (Some k) s)
    \<and> range_below (Some (to_be_bytes k)) (enc_store to_be_bytes s) = enc_store to_be_bytes (range_below (Some k) s)
    \<and> wf_store (enc_store to_be_bytes s) = wf_store s
    \<and> map (\<lambda>(b, v). from_vec_u64 b) (enc_store to_be_bytes s) = map (\<lambda>(k, v). Ok k) s"
proof -
  have valid: "valid_keys (\<lambda>n. n < U64) s" using assms(1) by (simp add: valid_keys_def)
  have "map (\<lambda>(b, v). from_vec_u64 b) (enc_store to_be_bytes s) = map (\<lambda>(k, v). Ok k) s"
    using assms(1) by (auto simp: enc_store_def from_vec_u64_bytes)
  then show ?thesis
    using u64_key.get_enc_store [OF valid assms(2)] u64_key.put_enc_store [OF valid assms(2)]
      u64_key.del_enc_store [OF valid assms(2)] u64_key.range_enc_store [OF valid, of "Some k"] assms(2)
      u64_key.wf_enc_store [OF valid] by simp
qed

lemma u64_store_refines_witness:
  "put (to_be_bytes 256) ''b'' (enc_store to_be_bytes [(2, ''a''), (70000, ''c'')])
    = enc_store to_be_bytes [(2, ''a''), (256, ''b''), (70000, ''c'')]"
  using u64_store_refines [of "[(2, ''a''), (70000, ''c'')]" 256 "''b''"] by (simp add: U64_def)

lemma append_byte_le:
  fixes a b :: "'a::linorder list"
  assumes "length a = length b"
  shows "a @ [x] \<le> b \<longleftrightarrow> a < b"
  using assms by (induction a b rule: list_induct2) auto

text \<open>
  C25: a page of polls read through byte bounds is the page by poll number. The start of an ascending page, the bytes of the
  last number with a byte appended, lets in exactly the larger numbers, and the end of a descending page exactly the
  smaller ones, so the bucket returns the entries that \<open>page\<close> selects, in its order and up to its limit.
\<close>

theorem poll_pages_refine:
  assumes "\<forall>e\<in>set s. fst e < U64" and "\<forall>n. start_after = Some n \<longrightarrow> n < U64"
  shows "read_polls_page start_after limit order (enc_store to_be_bytes s)
    = enc_store to_be_bytes (page start_after limit order s)"
proof -
  have le: "to_be_bytes n @ [1] \<le> to_be_bytes k \<longleftrightarrow> n < k" "to_be_bytes k < to_be_bytes n \<longleftrightarrow> k < n" if "n < U64" "k < U64" for n k
    using that u64_key.enc_less by (simp_all add: append_byte_le to_be_bytes_def)
  have up: "filter (\<lambda>e. case calc_range_start start_after of None \<Rightarrow> True | Some a \<Rightarrow> a \<le> fst e) (enc_store to_be_bytes s)
      = enc_store to_be_bytes (range_from start_after s)"
    using assms by (cases start_after) (auto simp: calc_range_start_def range_from_def le intro!: u64_key.filter_enc_store)
  have down: "filter (\<lambda>e. case calc_range_end start_after of None \<Rightarrow> True | Some b \<Rightarrow> fst e < b) (enc_store to_be_bytes s)
      = enc_store to_be_bytes (range_below start_after s)"
    using assms by (cases start_after) (auto simp: calc_range_end_def range_below_def le intro!: u64_key.filter_enc_store)
  show ?thesis
    by (cases order; cases "the order")
      (simp_all add: read_polls_page_def bucket_range_def page_def up down enc_store_take Let_def)
qed

theorem poll_pages_refine_witness:
  "read_polls_page (Some 255) (Some 2) (Some Asc) (enc_store to_be_bytes [(1, ''a''), (255, ''b''), (256, ''c''), (300, ''d''), (9000, ''e'')])
    = enc_store to_be_bytes [(256, ''c''), (300, ''d'')]"
  using poll_pages_refine [of "[(1, ''a''), (255, ''b''), (256, ''c''), (300, ''d''), (9000, ''e'')]" "Some 255" "Some 2" "Some Asc"]
  by (simp add: U64_def page_def page_limit_def MAX_LIMIT_def DEFAULT_LIMIT_def range_from_def)

end
