(* ===== verification/Airdrop_Registry.thy ===== *)
theory Airdrop_Registry
  imports Cosmwasm
begin

text \<open>
  \<open>contracts/prism-airdrop-registry\<close>: the airdrops the vault can claim. The owner keeps, per airdrop
  token, the contract that pays the airdrop; anybody may have the registry build the claim and pass it to
  the vault. Models \<open>contract.rs\<close>, \<open>state.rs\<close> and \<open>packages/prism_protocol/src/airdrop_registry.rs\<close>;
  the serialisation of the claim is a parameter.
\<close>


section \<open>Definitions\<close>

subsection \<open>Data\<close>

datatype claim_type = Generic

record airdrop_info =
  airdrop_contract :: string
  claim_type_of :: claim_type

record config =
  owner :: addr
  vault_contract :: addr
  airdrop_tokens :: "addr list"

record registry =
  CONFIG :: config
  AIRDROP_INFO :: "(addr, airdrop_info) store"

type_synonym registry_result = "(std_error, registry \<times> response) result"

text \<open>Stage, amount and Merkle proof of a claim.\<close>

datatype generic_airdrop_execute_msg = Claim nat nat "string list"

datatype execute_msg =
    FabricateClaim string nat nat "string list"
  | UpdateConfig "string option" "string option"
  | AddAirdropInfo string airdrop_info
  | RemoveAirdropInfo string
  | UpdateAirdropInfo string airdrop_info

datatype query_msg =
    QueryConfig
  | QueryAirdropInfo "string option" "string option" "nat option"

record airdrop_info_elem =
  airdrop_token :: string
  elem_info :: airdrop_info

datatype query_response =
    ConfigResponse config
  | AirdropInfoResponse "airdrop_info_elem list"

subsection \<open>Storage\<close>

definition store_config :: "config \<Rightarrow> registry \<Rightarrow> registry" where
  "store_config c g = g\<lparr>CONFIG := c\<rparr>"

definition store_airdrop_info :: "addr \<Rightarrow> airdrop_info \<Rightarrow> registry \<Rightarrow> registry" where
  "store_airdrop_info token i g = g\<lparr>AIRDROP_INFO := put token i (AIRDROP_INFO g)\<rparr>"

definition update_airdrop_info :: "addr \<Rightarrow> airdrop_info \<Rightarrow> registry \<Rightarrow> registry" where
  "update_airdrop_info token i g = g\<lparr>AIRDROP_INFO := put token i (AIRDROP_INFO g)\<rparr>"

definition remove_airdrop_info :: "addr \<Rightarrow> registry \<Rightarrow> registry" where
  "remove_airdrop_info token g = g\<lparr>AIRDROP_INFO := del token (AIRDROP_INFO g)\<rparr>"

definition read_airdrop_info :: "registry \<Rightarrow> addr \<Rightarrow> (std_error, airdrop_info) result" where
  "read_airdrop_info g token = or_err NotFound (get (AIRDROP_INFO g) token)"

definition MAX_LIMIT :: nat where
  "MAX_LIMIT = 30"

definition DEFAULT_LIMIT :: nat where
  "DEFAULT_LIMIT = 10"

definition read_all_airdrop_infos :: "registry \<Rightarrow> addr option \<Rightarrow> nat option \<Rightarrow> airdrop_info_elem list" where
  "read_all_airdrop_infos g start_after limit =
     (let n = min (case limit of Some n \<Rightarrow> n | None \<Rightarrow> DEFAULT_LIMIT) MAX_LIMIT in
     map (\<lambda>(k, v). \<lparr>airdrop_token = k, elem_info = v\<rparr>) (take n (range_from start_after (AIRDROP_INFO g))))"

subsection \<open>Operations\<close>

definition instantiate_registry :: "deps \<Rightarrow> message_info \<Rightarrow> string \<Rightarrow> registry_result" where
  "instantiate_registry D info vault =
     andThen (addr_validate D vault) (\<lambda>v.
     Ok (\<lparr>CONFIG = \<lparr>owner = sender info, vault_contract = v, airdrop_tokens = []\<rparr>, AIRDROP_INFO = []\<rparr>, []))"

definition execute_fabricate_claim ::
  "deps \<Rightarrow> (generic_airdrop_execute_msg \<Rightarrow> binary) \<Rightarrow> registry \<Rightarrow> string \<Rightarrow> nat \<Rightarrow> nat \<Rightarrow> string list \<Rightarrow> registry_result" where
  "execute_fabricate_claim D to_binary g token stage amount proof_path =
     andThen (addr_validate D token) (\<lambda>token_addr.
     case read_airdrop_info g token_addr of
       Inl Panic \<Rightarrow> Abort
     | Inl (Err _) \<Rightarrow> Fail (GenericErr ''no info registered for this airdrop token'')
     | Inr i \<Rightarrow>
         let claim_msg = (case claim_type_of i of Generic \<Rightarrow> to_binary (Claim stage amount proof_path)) in
         Ok (g, [new_sub_msg (WasmExecute (vault_contract (CONFIG g))
           (VaultClaimAirdrop token (airdrop_contract i) claim_msg))]))"

definition execute_update_config ::
  "deps \<Rightarrow> registry \<Rightarrow> message_info \<Rightarrow> string option \<Rightarrow> string option \<Rightarrow> registry_result" where
  "execute_update_config D g info new_owner new_vault =
     (if sender info \<noteq> owner (CONFIG g) then Fail (GenericErr ''unauthorized'')
      else
        andThen (case new_owner of None \<Rightarrow> Ok (CONFIG g)
          | Some a \<Rightarrow> andThen (addr_validate D a) (\<lambda>a. Ok ((CONFIG g)\<lparr>owner := a\<rparr>))) (\<lambda>c.
        andThen (case new_vault of None \<Rightarrow> Ok c
          | Some a \<Rightarrow> andThen (addr_validate D a) (\<lambda>a. Ok (c\<lparr>vault_contract := a\<rparr>))) (\<lambda>c.
        Ok (store_config c g, []))))"

definition execute_add_airdrop ::
  "deps \<Rightarrow> registry \<Rightarrow> message_info \<Rightarrow> string \<Rightarrow> airdrop_info \<Rightarrow> registry_result" where
  "execute_add_airdrop D g info token i =
     (if sender info \<noteq> owner (CONFIG g) then Fail (GenericErr ''unauthorized'')
      else
        andThen (addr_validate D token) (\<lambda>token_addr.
        case read_airdrop_info g token_addr of
          Inr _ \<Rightarrow> Fail (GenericErr (''There is a token info with this '' @ token))
        | Inl _ \<Rightarrow>
            andThen (addr_validate D token) (\<lambda>token_addr.
            let c = CONFIG g; g = g\<lparr>CONFIG := c\<lparr>airdrop_tokens := airdrop_tokens c @ [token_addr]\<rparr>\<rparr>
            in Ok (store_airdrop_info token_addr i g, []))))"

definition execute_update_airdrop ::
  "deps \<Rightarrow> registry \<Rightarrow> message_info \<Rightarrow> string \<Rightarrow> airdrop_info \<Rightarrow> registry_result" where
  "execute_update_airdrop D g info token i =
     (if sender info \<noteq> owner (CONFIG g) then Fail (GenericErr ''unauthorized'')
      else
        andThen (addr_validate D token) (\<lambda>token_addr.
        case read_airdrop_info g token_addr of
          Inl _ \<Rightarrow> Fail (GenericErr (''There is no token info with this '' @ token))
        | Inr _ \<Rightarrow> Ok (update_airdrop_info token_addr i g, [])))"

definition execute_remove_airdrop :: "deps \<Rightarrow> registry \<Rightarrow> message_info \<Rightarrow> string \<Rightarrow> registry_result" where
  "execute_remove_airdrop D g info token =
     (if sender info \<noteq> owner (CONFIG g) then Fail (GenericErr ''unauthorized'')
      else
        andThen (addr_validate D token) (\<lambda>token_addr.
        case read_airdrop_info g token_addr of
          Inl _ \<Rightarrow> Fail (GenericErr (''There is no token info with this '' @ token))
        | Inr _ \<Rightarrow>
            let c = CONFIG g; g = g\<lparr>CONFIG := c\<lparr>airdrop_tokens := filter (\<lambda>t. t \<noteq> token_addr) (airdrop_tokens c)\<rparr>\<rparr>
            in Ok (remove_airdrop_info token_addr g, [])))"

fun execute ::
  "deps \<Rightarrow> (generic_airdrop_execute_msg \<Rightarrow> binary) \<Rightarrow> registry \<Rightarrow> message_info \<Rightarrow> execute_msg \<Rightarrow> registry_result" where
  "execute D tb g info (FabricateClaim token stage amount pr) = execute_fabricate_claim D tb g token stage amount pr"
| "execute D tb g info (UpdateConfig ow vault) = execute_update_config D g info ow vault"
| "execute D tb g info (AddAirdropInfo token i) = execute_add_airdrop D g info token i"
| "execute D tb g info (RemoveAirdropInfo token) = execute_remove_airdrop D g info token"
| "execute D tb g info (UpdateAirdropInfo token i) = execute_update_airdrop D g info token i"

subsection \<open>Queries\<close>

definition query_airdrop_infos ::
  "deps \<Rightarrow> registry \<Rightarrow> string option \<Rightarrow> string option \<Rightarrow> nat option \<Rightarrow> (std_error, airdrop_info_elem list) result" where
  "query_airdrop_infos D g token start_after limit =
     (case token of
       Some t \<Rightarrow>
         andThen (addr_validate D t) (\<lambda>a.
         andThen (read_airdrop_info g a) (\<lambda>i. Ok [\<lparr>airdrop_token = t, elem_info = i\<rparr>]))
     | None \<Rightarrow>
         andThen (case start_after of None \<Rightarrow> Ok None
           | Some s \<Rightarrow> (case addr_validate D s of Inr a \<Rightarrow> Ok (Some a) | Inl _ \<Rightarrow> Abort)) (\<lambda>start.
         Ok (read_all_airdrop_infos g start limit)))"

fun query :: "deps \<Rightarrow> registry \<Rightarrow> query_msg \<Rightarrow> (std_error, query_response) result" where
  "query D g QueryConfig = Ok (ConfigResponse (CONFIG g))"
| "query D g (QueryAirdropInfo token start limit) =
     andThen (query_airdrop_infos D g token start limit) (\<lambda>is. Ok (AirdropInfoResponse is))"


section \<open>The registered tokens\<close>

text \<open>The list in the configuration names the registered tokens, each once.\<close>

definition registry_inv :: "registry \<Rightarrow> bool" where
  "registry_inv g \<longleftrightarrow> wf_store (AIRDROP_INFO g) \<and> distinct (airdrop_tokens (CONFIG g))
     \<and> (\<forall>t. t \<in> set (airdrop_tokens (CONFIG g)) \<longleftrightarrow> get (AIRDROP_INFO g) t \<noteq> None)"

lemma read_airdrop_info_simps [simp]:
  "read_airdrop_info g t = Inr i \<longleftrightarrow> get (AIRDROP_INFO g) t = Some i"
  "read_airdrop_info g t = Inl e \<longleftrightarrow> get (AIRDROP_INFO g) t = None \<and> e = Err NotFound"
  by (cases "get (AIRDROP_INFO g) t"; auto simp: read_airdrop_info_def)+

lemma add_airdrop_inv:
  assumes "execute_add_airdrop D g info token i = Inr (g', r)" and inv: "registry_inv g"
  shows "registry_inv g' \<and> owner (CONFIG g) = sender info"
proof -
  from assms(1) obtain t where "get (AIRDROP_INFO g) t = None" and own: "owner (CONFIG g) = sender info"
    and g': "g' = store_airdrop_info t i (g\<lparr>CONFIG := (CONFIG g)\<lparr>airdrop_tokens := airdrop_tokens (CONFIG g) @ [t]\<rparr>\<rparr>)"
    by (auto simp: execute_add_airdrop_def Let_def elim!: andThen_OkE split: if_splits sum.splits)
  then show ?thesis using inv by (auto simp: registry_inv_def store_airdrop_info_def wf_put get_put)
qed

lemma registry_changes_inv:
  assumes inv: "registry_inv g"
  shows "execute_remove_airdrop D g info token = Inr (g', r) \<Longrightarrow> registry_inv g' \<and> owner (CONFIG g) = sender info"
    and "execute_update_airdrop D g info token i = Inr (g', r) \<Longrightarrow> registry_inv g' \<and> owner (CONFIG g) = sender info"
    and "execute_update_config D g info a v = Inr (g', r) \<Longrightarrow> registry_inv g' \<and> owner (CONFIG g) = sender info"
    and "execute_fabricate_claim D tb g token stage n pr = Inr (g', r) \<Longrightarrow> g' = g"
  using inv
  by (auto simp: execute_remove_airdrop_def execute_update_airdrop_def execute_update_config_def execute_fabricate_claim_def
      registry_inv_def remove_airdrop_info_def update_airdrop_info_def store_config_def Let_def wf_put wf_del get_put get_del
      elim!: andThen_OkE split: if_splits sum.splits option.splits failure.splits)

lemma registry_execute_inv:
  assumes "execute D tb g info m = Inr (g', r)" and "registry_inv g"
  shows "registry_inv g' \<and> (g' = g \<or> owner (CONFIG g) = sender info)"
  using assms(1)
  by (cases m) (auto dest: add_airdrop_inv [OF _ assms(2)] registry_changes_inv [OF assms(2)] simp: assms(2))

inductive registry_reach :: "registry \<Rightarrow> bool" where
  instantiated: "instantiate_registry D info vault = Ok (g, r) \<Longrightarrow> registry_reach g"
| executed: "registry_reach g \<Longrightarrow> execute D tb g info m = Ok (g', r) \<Longrightarrow> registry_reach g'"

text \<open>
  C35: in every reachable state of the registry the token list of the configuration holds exactly the tokens that
  have an entry, each of them once, and a call by anybody but the owner leaves the state as it is.
\<close>

theorem registry_reachable_inv:
  assumes "registry_reach g"
  shows "registry_inv g \<and> (\<forall>D tb info m g' r. execute D tb g info m = Ok (g', r) \<longrightarrow> g' = g \<or> sender info = owner (CONFIG g))"
proof -
  have inv: "registry_inv g" using assms
  proof induction
    case (instantiated D info vault g r)
    then show ?case by (auto simp: instantiate_registry_def registry_inv_def elim!: andThen_OkE)
  next
    case (executed g D tb info m g' r)
    then show ?case using registry_execute_inv by blast
  qed
  then show ?thesis using registry_execute_inv [OF _ inv] by metis
qed

theorem registry_reachable_inv_witness:
  "\<exists>g0 g1. instantiate_registry empty_deps (from_user ''owner'') ''vault'' = Ok (g0, [])
    \<and> execute empty_deps (\<lambda>_. []) g0 (from_user ''owner'')
        (AddAirdropInfo ''anc'' \<lparr>airdrop_contract = ''drop'', claim_type_of = Generic\<rparr>) = Ok (g1, [])
    \<and> registry_inv g1 \<and> airdrop_tokens (CONFIG g1) = [''anc'']"
proof -
  obtain g0 g1 where run0: "instantiate_registry empty_deps (from_user ''owner'') ''vault'' = Ok (g0, [])"
    and run1: "execute empty_deps (\<lambda>_. []) g0 (from_user ''owner'')
        (AddAirdropInfo ''anc'' \<lparr>airdrop_contract = ''drop'', claim_type_of = Generic\<rparr>) = Ok (g1, [])"
    and t: "airdrop_tokens (CONFIG g1) = [''anc'']"
    by (simp add: instantiate_registry_def execute_add_airdrop_def read_airdrop_info_def store_airdrop_info_def Let_def cw_eval)
  have "registry_reach g1" by (rule registry_reach.executed [OF registry_reach.instantiated [OF run0] run1])
  from registry_reachable_inv [OF this] run0 run1 t show ?thesis by blast
qed


section \<open>Paging\<close>

text \<open>The client's loop: ask for the page after the last token seen, until a page is empty.\<close>

fun all_pages :: "nat \<Rightarrow> deps \<Rightarrow> registry \<Rightarrow> nat option \<Rightarrow> string option \<Rightarrow> airdrop_info_elem list option" where
  "all_pages 0 D g limit start = None"
| "all_pages (Suc fuel) D g limit start =
     (case query_airdrop_infos D g None start limit of
       Inr [] \<Rightarrow> Some []
     | Inr (e # es) \<Rightarrow> map_option (\<lambda>rest. (e # es) @ rest)
         (all_pages fuel D g limit (Some (airdrop_token (last (e # es)))))
     | Inl _ \<Rightarrow> None)"

lemma all_pages_step:
  assumes "query_airdrop_infos D g None start limit = Inr (es @ [e])"
  shows "all_pages (Suc fuel) D g limit start =
    map_option (\<lambda>rest. es @ e # rest) (all_pages fuel D g limit (Some (airdrop_token e)))"
  using assms by (cases es; cases "all_pages fuel D g limit (Some (airdrop_token e))") simp_all

lemma take_range_from:
  assumes "wf_store s" and n: "take n (range_from b s) = xs @ [(k, v)]"
  shows "range_from b s = xs @ (k, v) # range_from (Some k) s"
proof -
  have wf: "wf_store (range_from b s)" using assms(1) by (auto simp: range_from_def wf_store_def sorted_wrt_map sorted_wrt_filter split: option.splits)
  obtain rest where eq: "range_from b s = xs @ (k, v) # rest"
    using n append_take_drop_id [of n "range_from b s"] by (metis append.assoc append_Cons append_Nil)
  have "(k, v) \<in> set (range_from b s)" by (simp add: eq)
  then have bk: "b = None \<or> the b < k" by (auto simp: range_from_def split: option.splits)
  have "range_from (Some k) s = filter (\<lambda>e. k < fst e) (range_from b s)"
    using bk by (auto simp: range_from_def filter_filter split: option.splits intro!: filter_cong)
  also have "\<dots> = rest"
    using wf unfolding eq wf_store_def
    by (auto simp: sorted_wrt_append filter_empty_conv filter_id_conv)
  finally show ?thesis using eq by simp
qed

text \<open>
  C36: the paged query loses and repeats nothing. With any page size but zero, a client that asks for the page after the
  last token of the previous one gets, after finitely many requests, every registered airdrop exactly once, in the order of the
  tokens; one request more than there are entries is always enough. The api accepts the addresses of the registered tokens, as they
  are stored; it may reject any other string.
\<close>

theorem registry_pages_complete:
  assumes "registry_inv g"
    and "\<And>t v. get (AIRDROP_INFO g) t = Some v \<Longrightarrow> addr_validate D t = (Ok t :: (std_error, addr) result)"
    and "limit \<noteq> Some 0" and "length (AIRDROP_INFO g) < fuel"
  shows "all_pages fuel D g limit None = Some (map (\<lambda>(k, v). \<lparr>airdrop_token = k, elem_info = v\<rparr>) (AIRDROP_INFO g))"
proof -
  let ?e = "\<lambda>(k, v). \<lparr>airdrop_token = k, elem_info = v\<rparr>"
  let ?n = "min (case limit of Some n \<Rightarrow> n | None \<Rightarrow> DEFAULT_LIMIT) MAX_LIMIT"
  have n: "?n \<noteq> 0" using assms(3) by (auto simp: MAX_LIMIT_def DEFAULT_LIMIT_def split: option.splits)
  have wf: "wf_store (AIRDROP_INFO g)" using assms(1) by (simp add: registry_inv_def)
  have "all_pages fuel D g limit b = Some (map ?e (range_from b (AIRDROP_INFO g)))"
    if "length (range_from b (AIRDROP_INFO g)) < fuel"
      and "\<And>t. b = Some t \<Longrightarrow> addr_validate D t = (Ok t :: (std_error, addr) result)" for b
    using that
  proof (induction fuel arbitrary: b)
    case (Suc fuel)
    let ?r = "range_from b (AIRDROP_INFO g)"
    have q: "query_airdrop_infos D g None b limit = Inr (map ?e (take ?n ?r))"
      using Suc.prems(2) by (cases b) (simp_all add: query_airdrop_infos_def read_all_airdrop_infos_def Let_def)
    show ?case
    proof (cases "take ?n ?r" rule: rev_cases)
      case Nil
      then have "?r = []" using n by simp
      then show ?thesis using q by simp
    next
      case (snoc xs e)
      obtain k v where e: "e = (k, v)" by (cases e)
      have r: "?r = xs @ (k, v) # range_from (Some k) (AIRDROP_INFO g)" by (rule take_range_from [OF wf snoc [unfolded e]])
      then have "length (range_from (Some k) (AIRDROP_INFO g)) < fuel" using Suc.prems by simp
      moreover have "(k, v) \<in> set ?r" by (subst r) simp
      then have "(k, v) \<in> set (AIRDROP_INFO g)" by (auto simp: range_from_def split: option.splits)
      then have "addr_validate D k = (Ok k :: (std_error, addr) result)" using assms(2) by (simp add: entries_get [OF wf])
      ultimately have IH: "all_pages fuel D g limit (Some k) = Some (map ?e (range_from (Some k) (AIRDROP_INFO g)))"
        by (intro Suc.IH) simp_all
      have "query_airdrop_infos D g None b limit = Inr (map ?e xs @ [\<lparr>airdrop_token = k, elem_info = v\<rparr>])"
        unfolding q snoc e by simp
      from all_pages_step [OF this] show ?thesis unfolding r by (simp add: IH)
    qed
  qed simp
  from this [of None] show ?thesis using assms(4) by (simp add: range_from_def)
qed

definition registry_example :: registry where
  "registry_example = \<lparr>CONFIG = \<lparr>owner = ''owner'', vault_contract = ''vault'', airdrop_tokens = [''mir'', ''anc'', ''mine'']\<rparr>,
     AIRDROP_INFO = map (\<lambda>(t, c). (t, \<lparr>airdrop_contract = c, claim_type_of = Generic\<rparr>))
       [(''anc'', ''drop1''), (''mine'', ''drop2''), (''mir'', ''drop3'')]\<rparr>"

text \<open>An api that rejects every string but the addresses in use.\<close>

definition strict_deps :: deps where
  "strict_deps = empty_deps\<lparr>api_addr_validate := (\<lambda>a.
     if a \<in> {''anc'', ''mine'', ''mir''} then Inr a else Inl (GenericErr ''invalid address''))\<rparr>"

lemma registry_example_inv: "registry_inv registry_example"
  by (auto simp: registry_inv_def registry_example_def wf_store_def get_def)

theorem registry_pages_complete_witness:
  "api_addr_validate strict_deps ''Anc'' \<noteq> Inr ''Anc''
    \<and> map_option (map airdrop_token) (all_pages 4 strict_deps registry_example (Some 2) None) = Some [''anc'', ''mine'', ''mir'']"
proof -
  have "all_pages 4 strict_deps registry_example (Some 2) None
      = Some (map (\<lambda>(k, v). \<lparr>airdrop_token = k, elem_info = v\<rparr>) (AIRDROP_INFO registry_example))"
    by (rule registry_pages_complete [OF registry_example_inv])
      (auto simp: addr_validate_def strict_deps_def registry_example_def get_def split: if_splits)
  then show ?thesis by (simp add: registry_example_def strict_deps_def)
qed

end
