(* ===== verification/Spec2Isabelle.thy ===== *)
theory Spec2Isabelle
  imports Solvency Exchange Farming Storage_Keys Airdrop_Registry
begin

text \<open>
  \<^bold>\<open>Verification of the Prism Protocol contracts\<close>

  The repository holds the CosmWasm contracts of the Prism Protocol on Terra (\<open>src/contracts\<close>) and the packages they share
  (\<open>src/packages\<close>). Users bond Luna in the vault for cLUNA, which splits into the principal pLUNA and the yield
  yLUNA. yLUNA is staked for rewards, directly or through the launch pool, whose second reward pool is weighted by
  the boost of xPRISM locked in the boost contract. Governance exchanges PRISM for xPRISM and decides polls with xPRISM
  stakes. Liquidity tokens are staked for PRISM. The collector swaps fees and rewards, and the registry
  knows how airdrops are claimed for the vault.

  \<^bold>\<open>Parts and theories\<close>

  \<^item> \<open>Prelude\<close>: results with errors and panics, loops that may fail (\<open>foldM\<close>, \<open>mapM\<close>), integers of a fixed width,
    ordered key-value stores and the interface \<open>kv_store\<close> with its interpretation \<open>st\<close>.
  \<^item> \<open>Cosmwasm\<close>: addresses, coins, messages, environment, the crates and the chain's services as parameters (records
    \<open>cosmwasm\<close> and \<open>deps\<close>), their documented laws (locale \<open>cosmwasm_std\<close>) and a concrete reading of them
    (\<open>cosmwasm_0_16\<close>, interpretation \<open>cw\<close>).
  \<^item> \<open>Custody\<close>: transactions on the balance of a contract and the interfaces \<open>custodian\<close> and \<open>exact_custodian\<close>.
  \<^item> \<open>Prismswap\<close>, \<open>Prismswap_Messages\<close>: \<open>packages/prismswap\<close>, that is assets and pairs (\<open>asset.rs\<close>), queries (\<open>querier.rs\<close>), tokens
    (\<open>token.rs\<close>), fees and messages of factory, router and pair (\<open>factory.rs\<close>, \<open>router.rs\<close>, \<open>pair.rs\<close>).
  \<^item> \<open>Parse_Reply\<close>: the decoder of replies, \<open>packages/prism_protocol/src/internal/parse_reply.rs\<close>, on 8-bit words.
  \<^item> \<open>Storage_Keys\<close>: byte keys, \<open>internal/de.rs\<close> and the byte bounds of pages; the interface \<open>key_encoding\<close> is interpreted for
    numbers (\<open>u64_key\<close>) and addresses (\<open>addr_key\<close>).
  \<^item> \<open>Vault_State\<close>, \<open>Vault_Bond\<close>, \<open>Vault_Unbond\<close>, \<open>Vault_Config\<close>, \<open>Vault_Contract\<close>: \<open>contracts/prism-vault\<close>, file by file (\<open>state.rs\<close> and
    \<open>math.rs\<close>, \<open>bond.rs\<close>, \<open>unbond.rs\<close>, \<open>config.rs\<close>, \<open>contract.rs\<close> and \<open>refract.rs\<close>); \<open>Vault_Accounting\<close> holds the books.
  \<^item> \<open>Gov_State\<close>, \<open>Gov_Xprism\<close>, \<open>Gov_Polls\<close>, \<open>Gov_Contract\<close>: \<open>contracts/prism-gov\<close> (\<open>state.rs\<close>, \<open>xprism.rs\<close>, \<open>voting.rs\<close> and \<open>polls.rs\<close>,
    \<open>contract.rs\<close>); \<open>Gov_Custody\<close> and \<open>Gov_Properties\<close> hold the books and the properties.
  \<^item> \<open>Lp_Staking\<close>, \<open>Lp_Accounting\<close>, \<open>Lp_Properties\<close>: \<open>contracts/prism-lp-staking\<close>.
  \<^item> \<open>Yasset_Staking\<close>, \<open>Yasset_Properties\<close>: \<open>contracts/prism-yasset-staking\<close>.
  \<^item> \<open>Launch_Pool\<close>, \<open>Launch_Accounting\<close>, \<open>Launch_Properties\<close>: \<open>contracts/prism-launch-pool\<close>.
  \<^item> \<open>Xprism_Boost\<close>: \<open>contracts/prism-xprism-boost\<close>.
  \<^item> \<open>Collector\<close>: \<open>contracts/prism-collector\<close>. \<open>Airdrop_Registry\<close>: \<open>contracts/prism-airdrop-registry\<close>.
  \<^item> \<open>Solvency\<close>, \<open>Exchange\<close>, \<open>Farming\<close> and this theory: contracts together, and as clients of the interfaces.

  \<^bold>\<open>How the code is read\<close>

  The state of a contract is a record with one field per storage item, under the item's name in the source. A handler is one
  definition that takes the crates \<open>S\<close>, the chain \<open>D\<close>, the block, the state and the sender, and returns either the new
  state with the messages in the order of the source, or the error of the source, or a panic. Guards and early
  returns are in the order of the source. The body of a loop has its own definition where the source writes it
  inline. \<open>execute\<close>, \<open>query\<close>, \<open>reply\<close> and \<open>instantiate\<close> dispatch like the entry points. JSON decoding of hooks is an argument (\<open>fb\<close>).
  Numbers are naturals; every operation that can overflow is checked against its width through the crates' laws,
  and bytes are 8-bit words. \<open>Decimal\<close> is its number of atomics. Attributes of a response are left out.

  What the crates do is assumed only through \<open>cosmwasm_std\<close>; properties take it as the hypothesis \<open>cosmwasm_std S\<close> and their
  witnesses discharge it with \<open>cosmwasm_0_16\<close>. The answers of the chain are arbitrary unless a property says otherwise.

  \<^bold>\<open>What is shown\<close>

  \<^item> Books: for each contract an invariant that holds in every reachable state, whoever calls what in which order, by rule
    induction over instantiation, calls and replies (\<open>vault_reachable_inv\<close>, \<open>gov_reachable_inv\<close>, \<open>lp_reachable_inv\<close>,
    \<open>yasset_reachable_inv\<close>, \<open>lpool_reachable_inv\<close>, \<open>registry_reachable_inv\<close>, \<open>boost_reachable_typed\<close>).
  \<^item> Custody: no contract pays out what it does not have. Along any sequence of transactions the boost contract, governance
    and the staking of liquidity tokens stay solvent (\<open>Solvency\<close>); the vault's releases never exceed the Luna that
    arrived, as long as the balance did not fall; the messages that reach the three tokens of the vault keep the backing; deposits of
    rewards back what stakers can claim; the collector spends of a caller's conversion only what the caller brought in, for
    the receiver.
  \<^item> Functional behaviour: unbonding and withdrawal in the vault, polls, claims and redemptions in governance, claims and
    schedules of the staking contracts, vesting in the launch pool, distribution and routes of the collector, the
    tokens that are instantiated. Claims are shown to pay what the queries announce.
  \<^item> Polls move along a state machine (\<open>poll_step\<close>) and execute once.
  \<^item> Composition: what farmers bond in the launch pool is staked in full, and their unbonding is paid in one transaction
    (\<open>Farming\<close>); unbonding xPRISM clears the weight in the launch pool in the same transaction, and a locked pool locks the
    boost contract whatever is called on it afterwards (this theory).
  \<^item> Encodings: reply decoding never panics and inverts the encoding; key decoding inverts the encoding; pages by byte bounds refine
    pages by number; reading the registry page by page ends with every entry.

  Where the code does not do what it means to, a lemma or theorem states what it does, among others
  \<open>locked_pool_blocks_boost\<close>, \<open>lpool_ratio_change_freezes\<close>, \<open>lp_weight_change\<close>, \<open>yasset_convert_outcome\<close>, \<open>yasset_claim_matches_query\<close>,
  \<open>lpool_empty_schedule_panics\<close> and \<open>query_withdrawable_differs\<close>.

  \<^bold>\<open>Bounds and fuel\<close>

  The contracts have no unbounded loop: every loop of the model is a recursion over a list, or ends by a measure
  (undelegation, \<open>pick_unbond_loop\<close>). The only fuel is that of \<open>all_pages\<close>, a client that reads the registry page by page; more
  fuel than there are entries is enough, and that is proved. Page limits are those of the source.

  \<^bold>\<open>Not modelled\<close>

  The exchange contracts and the cw20 tokens are not in the repository: their answers are parameters, and messages to them are
  the values that the source builds. \<open>packages/prism_protocol/src/fair_launch.rs\<close> declares messages of a contract that is not in the
  repository. \<open>packages/prism_common\<close> and the modules named \<open>testing\<close> are test support. Migration entry points that do nothing, response
  attributes, contract version records and schema generation are left out.
\<close>


section \<open>Boost contract and launch pool together\<close>

text \<open>
  The messages of a response are executed in the same transaction, and a failure of one of them
  undoes all of it. \<open>boost_answers\<close> is the chain on which the boost contract has a given state;
  \<open>boost_unbond_tx\<close> is the transaction of an unbonding in the boost contract, with the message it sends to the
  launch pool.
\<close>

definition boost_answers :: "cosmwasm \<Rightarrow> Xprism_Boost.boost_state \<Rightarrow> env \<Rightarrow> deps \<Rightarrow> deps" where
  "boost_answers S b env D = D\<lparr>q_boost_amount := (\<lambda>_ user. case Xprism_Boost.query_get_boost S b env user of
       Inr u \<Rightarrow> Inr (Xprism_Boost.total_boost u) | Inl _ \<Rightarrow> Inl (GenericErr ''querier''))\<rparr>"

definition deliver_to_pool ::
  "cosmwasm \<Rightarrow> deps \<Rightarrow> (binary \<Rightarrow> std_error + Launch_Pool.cw20_hook_msg) \<Rightarrow> env \<Rightarrow> addr \<Rightarrow> sub_msg \<Rightarrow> lpool
    \<Rightarrow> (unit, lpool) result" where
  "deliver_to_pool S D fb env pool m l = (case sub_body m of
       WasmExecute to (LaunchPoolPrivilegedRefreshBoost user) \<Rightarrow>
         if to = pool then
           andThen (map_err (\<lambda>_. ()) (Launch_Pool.execute S D fb (env\<lparr>contract_address := pool\<rparr>) l
             \<lparr>sender = contract_address env, funds = []\<rparr> (Launch_Pool.PrivilegedRefreshBoost user))) (\<lambda>(l, _). Ok l)
         else Ok l
     | _ \<Rightarrow> Ok l)"

definition boost_unbond_tx ::
  "cosmwasm \<Rightarrow> deps \<Rightarrow> (binary \<Rightarrow> std_error + Xprism_Boost.cw20_hook_msg) \<Rightarrow> (binary \<Rightarrow> std_error + Launch_Pool.cw20_hook_msg)
    \<Rightarrow> env \<Rightarrow> addr \<Rightarrow> Xprism_Boost.boost_state \<Rightarrow> lpool \<Rightarrow> message_info \<Rightarrow> nat option
    \<Rightarrow> (unit, Xprism_Boost.boost_state \<times> lpool) result" where
  "boost_unbond_tx S D fbb fbp env pool b l info amount =
     andThen (map_err (\<lambda>_. ()) (Xprism_Boost.execute S D fbb b env info (Xprism_Boost.Unbond amount))) (\<lambda>(b, r).
     andThen (foldM (deliver_to_pool S (boost_answers S b env D) fbp env pool) r l) (\<lambda>l. Ok (b, l)))"

lemma boost_unbond_messages:
  assumes "cosmwasm_std S" and "Xprism_Boost.unbond S b env info amount = Inr (b', r)"
    and "launch_pool_contract (Xprism_Boost.CONFIG b) = Some pool"
  shows "\<exists>n. r = add_messages [WasmExecute (Xprism_Boost.xprism_token (Xprism_Boost.CONFIG b)) (Cw20Transfer (sender info) n),
    WasmExecute pool (LaunchPoolPrivilegedRefreshBoost (sender info))]"
  by (rule cosmwasm_std.unbond_OkE [OF assms(1,2)]) (use assms(3) in auto)

text \<open>The two deliveries of such a response: the token transfer does not reach the pool, the refresh does.\<close>

lemma boost_unbond_deliver:
  "foldM (deliver_to_pool S D fb env pool) (add_messages [WasmExecute t (Cw20Transfer u n),
      WasmExecute pool (LaunchPoolPrivilegedRefreshBoost user)]) l
    = andThen (map_err (\<lambda>_. ()) (Launch_Pool.execute S D fb (env\<lparr>contract_address := pool\<rparr>) l
        \<lparr>sender = contract_address env, funds = []\<rparr> (Launch_Pool.PrivilegedRefreshBoost user))) (\<lambda>(l, _). Ok l)"
proof -
  have nil: "andThen m (foldM f []) = m" for m :: "(unit, lpool) result" and f :: "sub_msg \<Rightarrow> lpool \<Rightarrow> (unit, lpool) result"
    by (cases m) simp_all
  show ?thesis by (simp add: deliver_to_pool_def add_messages_def new_sub_msg_def nil)
qed

text \<open>
  C20: unbonding xPRISM ends the boost in the launch pool in the same transaction. When the boost contract knows the
  pool, a transaction that unbonds any amount leaves the user without boost in the boost contract and with boost
  weight zero in the pool; the weight of the boost pool is again the sum of the accounts' weights, and
  no bond of yLUNA changes.
\<close>

theorem boost_unbond_clears_pool:
  assumes std: "cosmwasm_std S" and inv: "boost_inv b" "lpool_inv l"
    and wired: "launch_pool_contract (Xprism_Boost.CONFIG b) = Some pool"
      "addr_validate D (sender info) = (Ok (sender info) :: (std_error, addr) result)"
    and run: "boost_unbond_tx S D fbb fbp env pool b l info amount = Ok (b', l')"
  shows "weight_of l' (sender info) = 0
    \<and> total_weight (BOOST_DISTRIBUTION_STATUS l') = weight_total l' \<and> Launch_Pool.BOND_AMOUNTS l' = Launch_Pool.BOND_AMOUNTS l
    \<and> boost_inv b' \<and> (\<exists>u. Xprism_Boost.query_get_boost S b' env (sender info) = Ok u \<and> Xprism_Boost.total_boost u = 0)"
proof -
  let ?D = "\<lambda>b. boost_answers S b env D" and ?e = "env\<lparr>contract_address := pool\<rparr>"
  from run obtain r where unb: "Xprism_Boost.unbond S b env info amount = Inr (b', r)"
    and del: "foldM (deliver_to_pool S (?D b') fbp env pool) r l = Inr l'"
    by (auto simp: boost_unbond_tx_def map_err_Ok_iff elim!: andThen_OkE)
  have wf: "wf_store (USER_INFO b)" using inv(1) by (simp add: boost_inv_def)
  obtain u where u: "Xprism_Boost.query_get_boost S b' env (sender info) = Inr u" "Xprism_Boost.total_boost u = 0"
    using cosmwasm_std.unbond_query_zero [OF std unb wf] by blast
  obtain n where "r = add_messages [WasmExecute (Xprism_Boost.xprism_token (Xprism_Boost.CONFIG b)) (Cw20Transfer (sender info) n),
    WasmExecute pool (LaunchPoolPrivilegedRefreshBoost (sender info))]"
    using boost_unbond_messages [OF std unb wired(1)] by blast
  moreover have "addr_validate (?D b') (sender info) = (Inr (sender info) :: (std_error, addr) result)"
    using wired(2) by (simp add: boost_answers_def addr_validate_def)
  ultimately obtain c n where ref: "refresh_boost S (?D b') ?e l (sender info) = Inr (l', c, n)"
    using del unfolding boost_unbond_deliver [of S "?D b'" fbp env pool]
    by (auto simp: boost_unbond_deliver privileged_refresh_boost_def map_err_Ok_iff elim!: andThen_OkE split: if_splits)
  note p = cosmwasm_std.refresh_boost_Ok [OF std ref inv(2)]
  have "n = 0" using p u by (simp add: query_boost_amount_def boost_answers_def)
  then have "weight_of l' (sender info) = 0" using p cosmwasm_std.integer_sqrt_0 [OF std] by simp
  then show ?thesis
    using p u cosmwasm_std.unbond_inv [OF std unb inv(1)] by (auto simp: lpool_inv_def)
qed

text \<open>The boost contract's environment: the chain at a time, the contract at its own address.\<close>

abbreviation boost_env :: "nat \<Rightarrow> env" where
  "boost_env t \<equiv> (env_at t)\<lparr>contract_address := ''boost''\<rparr>"

theorem boost_unbond_clears_pool_witness:
  "\<exists>b' l'. boost_unbond_tx cosmwasm_0_16 empty_deps (\<lambda>_. Inr (Xprism_Boost.Bond None)) (\<lambda>_. Inr Launch_Pool.Bond) (boost_env 7300)
      ''pool'' boost_example lpool_example (from_user ''alice'') (Some 400) = Ok (b', l')
    \<and> weight_of lpool_example ''alice'' = 30 \<and> weight_of l' ''alice'' = 0"
proof -
  obtain b' l' where run: "boost_unbond_tx cosmwasm_0_16 empty_deps (\<lambda>_. Inr (Xprism_Boost.Bond None)) (\<lambda>_. Inr Launch_Pool.Bond)
      (boost_env 7300) ''pool'' boost_example lpool_example (from_user ''alice'') (Some 400) = Ok (b', l')"
    by (simp add: boost_unbond_tx_def deliver_to_pool_def boost_answers_def Xprism_Boost.query_get_boost_def
        privileged_refresh_boost_def refresh_boost_def boost_eval lpool_eval)
  have wired: "launch_pool_contract (Xprism_Boost.CONFIG boost_example) = Some ''pool''"
    and a: "addr_validate empty_deps (sender (from_user ''alice'')) = (Ok (sender (from_user ''alice'')) :: (std_error, addr) result)"
    and w: "weight_of lpool_example ''alice'' = 30"
    by (simp_all add: boost_example_def cw_eval weight_of_def lpool_example_def get_def)
  from boost_unbond_clears_pool [OF cosmwasm_0_16 boost_example_inv lpool_example_inv wired a run] run w
  show ?thesis by (auto simp: from_user_def)
qed

text \<open>
  C21: a launch pool that is locked by a change of its ratio also locks the xPRISM in the boost contract, for ever. The change
  comes after the end of the schedule and makes the share of one of the two reward pools smaller. Whatever is
  called on the pool after the change (further changes of its configuration included), as long as the boost contract sends its
  refresh to that pool, no transaction unbonds any xPRISM: where the boost contract itself would grant the unbonding,
  the refresh in the pool panics and takes the transaction down with it. The pool was set up with this boost contract, and the
  api accepts the user's address.
\<close>

theorem locked_pool_blocks_boost:
  assumes std: "cosmwasm_std S" and run: "Launch_Pool.update_config S env l info n (Some ratio) = Ok (l', r)"
    and sched: "Launch_Pool.distribution_schedule (Launch_Pool.CONFIG l) = (start, end_at, amount)" "start < end_at"
      "end_at \<le> now_seconds S env"
    and share: "amount * ratio div DEC_ONE < amount * base_pool_ratio (Launch_Pool.CONFIG l) div DEC_ONE
      \<or> amount * (DEC_ONE - ratio) div DEC_ONE < amount * (DEC_ONE - base_pool_ratio (Launch_Pool.CONFIG l)) div DEC_ONE"
    and calls: "lpool_calls S (now_seconds S env) l' l''"
    and wired: "launch_pool_contract (Xprism_Boost.CONFIG b) = Some pool"
      "boost_contract (Launch_Pool.CONFIG l) = contract_address env'"
      "addr_validate D (sender info') = (Ok (sender info') :: (std_error, addr) result)"
    and later: "now_seconds S env \<le> now_seconds S env'"
  shows "case Xprism_Boost.execute S D fbb b env' info' (Xprism_Boost.Unbond amt) of
      Inr (b', r') \<Rightarrow> boost_unbond_tx S D fbb fbp env' pool b l'' info' amt = Abort
    | Inl e \<Rightarrow> (\<forall>x. boost_unbond_tx S D fbb fbp env' pool b l'' info' amt \<noteq> Ok x)"
proof (cases "Xprism_Boost.unbond S b env' info' amt")
  case (Inl e)
  then show ?thesis by (cases e) (auto simp: boost_unbond_tx_def)
next
  case (Inr br)
  obtain b' r' where br: "br = (b', r')" by (cases br)
  let ?D = "boost_answers S b' env' D" and ?e = "env'\<lparr>contract_address := pool\<rparr>"
  have o: "overdrawn (now_seconds S env) l''" and bc: "boost_contract (Launch_Pool.CONFIG l'') = contract_address env'"
    using lpool_ratio_change_overdraws [OF std run sched share calls] wired(2) by simp_all
  have "now_seconds S ?e = now_seconds S env'" by (simp add: now_seconds_def)
  then have panic: "update_reward_indexes S ?e l'' (Launch_Pool.CONFIG l'') = Inl Panic"
    using cosmwasm_std.overdrawn_panics [OF std o _ refl refl] later by simp
  have valid: "addr_validate ?D (sender info') = (Inr (sender info') :: (std_error, addr) result)"
    using wired(3) by (simp add: boost_answers_def addr_validate_def)
  obtain k where "r' = add_messages [WasmExecute (Xprism_Boost.xprism_token (Xprism_Boost.CONFIG b)) (Cw20Transfer (sender info') k),
      WasmExecute pool (LaunchPoolPrivilegedRefreshBoost (sender info'))]"
    using boost_unbond_messages [OF std Inr [unfolded br] wired(1)] by blast
  then have "foldM (deliver_to_pool S ?D fbp env' pool) r' l'' = Abort"
    by (simp add: boost_unbond_deliver privileged_refresh_boost_def refresh_boost_def Let_def bc panic valid)
  then show ?thesis by (simp add: boost_unbond_tx_def Inr br)
qed

theorem locked_pool_blocks_boost_witness:
  "\<exists>l' r l'' b' r'. Launch_Pool.update_config cosmwasm_0_16 (env_at 200) lpool_example (from_user ''owner'') None (Some (5 * 10 ^ 17)) = Ok (l', r)
    \<and> Launch_Pool.execute cosmwasm_0_16 lpool_chain (\<lambda>_. Inr Launch_Pool.Bond) (env_at 300) l' (from_user ''owner'')
        (Launch_Pool.UpdateConfig (Some 7) None) = Ok (l'', [])
    \<and> Xprism_Boost.unbond cosmwasm_0_16 boost_example (boost_env 7300) (from_user ''alice'') (Some 400) = Ok (b', r')
    \<and> boost_unbond_tx cosmwasm_0_16 empty_deps (\<lambda>_. Inr (Xprism_Boost.Bond None)) (\<lambda>_. Inr Launch_Pool.Bond) (boost_env 7300)
      ''pool'' boost_example l'' (from_user ''alice'') (Some 400) = Abort"
proof -
  obtain l' r where run: "Launch_Pool.update_config cosmwasm_0_16 (env_at 200) lpool_example (from_user ''owner'') None
      (Some (5 * 10 ^ 17)) = Ok (l', r)" and own: "Launch_Pool.owner (Launch_Pool.CONFIG l') = ''owner''"
    by (simp add: Launch_Pool.update_config_def change_ratio_def lpool_eval)
  obtain l'' where next_call: "Launch_Pool.execute cosmwasm_0_16 lpool_chain (\<lambda>_. Inr Launch_Pool.Bond) (env_at 300) l' (from_user ''owner'')
      (Launch_Pool.UpdateConfig (Some 7) None) = Ok (l'', [])"
    using own by (simp add: Launch_Pool.update_config_def from_user_def)
  have sched: "Launch_Pool.distribution_schedule (Launch_Pool.CONFIG lpool_example) = (100, 200, 1000)" "(100::nat) < 200"
      "200 \<le> now_seconds cosmwasm_0_16 (env_at 200)"
    and later: "now_seconds cosmwasm_0_16 (env_at 200) \<le> now_seconds cosmwasm_0_16 (env_at 300)"
      "now_seconds cosmwasm_0_16 (env_at 200) \<le> now_seconds cosmwasm_0_16 (boost_env 7300)"
    by (simp_all add: lpool_example_def cw_eval)
  have share: "1000 * (5 * 10 ^ 17) div DEC_ONE < 1000 * base_pool_ratio (Launch_Pool.CONFIG lpool_example) div DEC_ONE
    \<or> 1000 * (DEC_ONE - 5 * 10 ^ 17) div DEC_ONE < 1000 * (DEC_ONE - base_pool_ratio (Launch_Pool.CONFIG lpool_example)) div DEC_ONE"
    by (simp add: lpool_example_def DEC_ONE_def)
  have wired: "launch_pool_contract (Xprism_Boost.CONFIG boost_example) = Some ''pool''"
    "boost_contract (Launch_Pool.CONFIG lpool_example) = contract_address (boost_env 7300)"
    "addr_validate empty_deps (sender (from_user ''alice'')) = (Ok (sender (from_user ''alice'')) :: (std_error, addr) result)"
    by (simp_all add: boost_example_def lpool_example_def cw_eval)
  obtain b' r' where unb: "Xprism_Boost.unbond cosmwasm_0_16 boost_example (boost_env 7300) (from_user ''alice'') (Some 400) = Ok (b', r')"
    by (simp add: boost_eval)
  from locked_pool_blocks_boost [OF cosmwasm_0_16 run sched share lpool_calls.call [OF lpool_calls.none later(1) next_call] wired later(2),
      where fbb = "\<lambda>_. Inr (Xprism_Boost.Bond None)" and amt = "Some 400" and fbp = "\<lambda>_. Inr Launch_Pool.Bond"]
  show ?thesis using run next_call unb by auto
qed

end
